(* ===== verification/Prelude.thy ===== *)
theory Prelude
  imports Main "HOL-Library.Word" "HOL-Library.List_Lexorder" "HOL-Library.Char_ord"
begin

text \<open>
  What every theory of the development shares: Rust's \<open>Result\<close> as a sum type with
  the \<open>?\<close> operator as a bind, a \<open>for\<close> loop whose body may return early, the
  checked arithmetic of \<open>u64\<close>, and the few string functions of Rust's standard
  library the program uses. Strings are lists of characters of one byte; the
  classifications below are Rust's own on the ASCII range.
\<close>

named_theorems res_simps \<open>computation rules of the result type\<close>
named_theorems u64_simps \<open>checked arithmetic read as natural numbers\<close>

type_synonym u64 = "64 word"
type_synonym u32 = "32 word"
type_synonym u8 = "8 word"

subsection \<open>Results and early returns\<close>

abbreviation Ok :: "'a \<Rightarrow> 'e + 'a" where "Ok \<equiv> Inr"
abbreviation Err :: "'e \<Rightarrow> 'e + 'a" where "Err \<equiv> Inl"

definition tryb :: "'e + 'a \<Rightarrow> ('a \<Rightarrow> 'e + 'b) \<Rightarrow> 'e + 'b" where
  "tryb m f = (case m of Inl e \<Rightarrow> Inl e | Inr x \<Rightarrow> f x)"

lemma tryb_simps [simp, res_simps]:
  "tryb (Inl e) f = Inl e"
  "tryb (Inr x) f = f x"
  by (simp_all add: tryb_def)

lemma tryb_Ok [res_simps]: "tryb m f = Inr y \<longleftrightarrow> (\<exists>x. m = Inr x \<and> f x = Inr y)"
  by (cases m) auto

lemma tryb_Err [res_simps]:
  "tryb m f = Inl e \<longleftrightarrow> m = Inl e \<or> (\<exists>x. m = Inr x \<and> f x = Inl e)"
  by (cases m) auto

lemma tryb_OkE:
  assumes "tryb m f = Inr y"
  obtains x where "m = Inr x" and "f x = Inr y"
  using assms by (auto simp: tryb_Ok)

text \<open>The same as eliminations, for a body read from its first line to its last.\<close>

lemma tryb_pair_OkE:
  assumes "tryb m (\<lambda>(a, b). f a b) = Inr y"
  obtains a b where "m = Inr (a, b)" and "f a b = Inr y"
  using assms by (auto simp: tryb_Ok)

lemma guard_OkE:
  assumes "(if c then Inl e else m) = Inr y"
  obtains "\<not> c" and "m = Inr y"
  using assms by (auto split: if_splits)

lemmas ok_elims = tryb_pair_OkE tryb_OkE guard_OkE

lemma tryb_assoc: "tryb (tryb m f) g = tryb m (\<lambda>x. tryb (f x) g)"
  by (cases m) auto

lemma tryb_cong [fundef_cong]:
  "m = m' \<Longrightarrow> (\<And>x. m' = Inr x \<Longrightarrow> f x = g x) \<Longrightarrow> tryb m f = tryb m' g"
  by (cases m') auto

definition ok_or :: "'e \<Rightarrow> 'a option \<Rightarrow> 'e + 'a" where
  "ok_or e v = (case v of None \<Rightarrow> Inl e | Some x \<Rightarrow> Inr x)"

lemma ok_or_simps [simp]: "ok_or e None = Inl e" "ok_or e (Some x) = Inr x"
  by (simp_all add: ok_or_def)

lemma ok_or_Ok [res_simps]: "ok_or e v = Inr x \<longleftrightarrow> v = Some x"
  by (cases v) auto

lemma ok_or_Err [res_simps]: "ok_or e v = Inl e' \<longleftrightarrow> v = None \<and> e' = e"
  by (cases v) auto

text \<open>A \<open>for\<close> loop over a list whose body may leave the function with an error.\<close>

fun try_fold :: "('a \<Rightarrow> 's \<Rightarrow> 'e + 's) \<Rightarrow> 'a list \<Rightarrow> 's \<Rightarrow> 'e + 's" where
  "try_fold f [] s = Inr s"
| "try_fold f (x # xs) s = tryb (f x s) (try_fold f xs)"

lemma try_fold_append:
  "try_fold f (xs @ ys) s = tryb (try_fold f xs s) (try_fold f ys)"
proof (induction xs arbitrary: s)
  case (Cons x xs)
  then show ?case by (cases "f x s") simp_all
qed simp

text \<open>
  A loop keeps what its body keeps. The locale is the interface between a component
  that supplies one step and the loops that repeat it.
\<close>

locale step_invariant =
  fixes step :: "'a \<Rightarrow> 's \<Rightarrow> 'e + 's"
    and inv :: "'s \<Rightarrow> bool"
  assumes step_keeps: "inv s \<Longrightarrow> step x s = Inr s' \<Longrightarrow> inv s'"
begin

lemma loop_keeps: "inv s \<Longrightarrow> try_fold step xs s = Inr s' \<Longrightarrow> inv s'"
proof (induction xs arbitrary: s)
  case Nil
  then show ?case by simp
next
  case (Cons x xs)
  from Cons.prems(2) obtain s1 where "step x s = Inr s1" and "try_fold step xs s1 = Inr s'"
    by (auto simp: tryb_Ok)
  with Cons show ?case using step_keeps by blast
qed

end

text \<open>The same for a reflexive and transitive relation between states.\<close>

locale step_monotone =
  fixes step :: "'a \<Rightarrow> 's \<Rightarrow> 'e + 's"
    and rel :: "'s \<Rightarrow> 's \<Rightarrow> bool"
  assumes rel_refl: "rel s s"
    and rel_trans: "rel s t \<Longrightarrow> rel t u \<Longrightarrow> rel s u"
    and step_rel: "step x s = Inr s' \<Longrightarrow> rel s s'"
begin

lemma loop_rel: "try_fold step xs s = Inr s' \<Longrightarrow> rel s s'"
proof (induction xs arbitrary: s)
  case Nil
  then show ?case using rel_refl by simp
next
  case (Cons x xs)
  from Cons.prems obtain s1 where "step x s = Inr s1" and "try_fold step xs s1 = Inr s'"
    by (auto simp: tryb_Ok)
  with Cons.IH show ?case using step_rel rel_trans by blast
qed

end

text \<open>
  A loop that adds: every round moves a natural number read off the state by the weight of
  its element. Where a round is known to succeed below a bound, so is the loop.
\<close>

locale tally_loop = step_invariant step inv
  for step :: "'a \<Rightarrow> 's \<Rightarrow> 'e + 's" and inv +
  fixes level :: "'s \<Rightarrow> nat"
    and weight :: "'a \<Rightarrow> nat"
  assumes step_adds: "inv s \<Longrightarrow> step x s = Inr s' \<Longrightarrow> level s' = level s + weight x"
begin

lemma loop_adds:
  "inv s \<Longrightarrow> try_fold step xs s = Inr s' \<Longrightarrow> level s' = level s + sum_list (map weight xs)"
proof (induction xs arbitrary: s)
  case (Cons x xs)
  from Cons.prems(2) obtain s1 where s1: "step x s = Inr s1" and "try_fold step xs s1 = Inr s'"
    by (auto simp: tryb_Ok)
  with Cons.IH [of s1] step_keeps [OF Cons.prems(1) s1] step_adds [OF Cons.prems(1) s1]
  show ?case by simp
qed simp

end

locale bounded_loop = tally_loop step inv level weight
  for step :: "'a \<Rightarrow> 's \<Rightarrow> 'e + 's" and inv level weight +
  fixes top :: nat
  assumes step_total: "inv s \<Longrightarrow> level s + weight x < top \<Longrightarrow> \<exists>s'. step x s = Inr s'"
begin

lemma loop_total:
  "inv s \<Longrightarrow> level s + sum_list (map weight xs) < top \<Longrightarrow> \<exists>s'. try_fold step xs s = Inr s'"
proof (induction xs arbitrary: s)
  case (Cons x xs)
  from Cons.prems obtain s1 where s1: "step x s = Inr s1" using step_total [of s x] by auto
  have "level s1 = level s + weight x" by (rule step_adds [OF Cons.prems(1) s1])
  with Cons.prems have "level s1 + sum_list (map weight xs) < top" by simp
  with Cons.IH [of s1] step_keeps [OF Cons.prems(1) s1] s1 show ?case by simp
qed simp

end

lemma find_Some_props: "find p xs = Some x \<Longrightarrow> x \<in> set xs \<and> p x"
  by (metis find_Some_iff nth_mem)

lemma in_map_filter: "u \<in> set (List.map_filter f xs) \<longleftrightarrow> (\<exists>x\<in>set xs. f x = Some u)"
  by (force simp: map_filter_def)

subsection \<open>Checked and saturating arithmetic of \<open>u64\<close>\<close>

definition checked_add :: "u64 \<Rightarrow> u64 \<Rightarrow> u64 option" where
  "checked_add a b = (if unat a + unat b < 2 ^ 64 then Some (a + b) else None)"

definition checked_mul :: "u64 \<Rightarrow> u64 \<Rightarrow> u64 option" where
  "checked_mul a b = (if unat a * unat b < 2 ^ 64 then Some (a * b) else None)"

definition saturating_sub :: "u64 \<Rightarrow> u64 \<Rightarrow> u64" where
  "saturating_sub a b = (if b \<le> a then a - b else 0)"

definition saturating_add :: "u64 \<Rightarrow> u64 \<Rightarrow> u64" where
  "saturating_add a b = (if unat a + unat b < 2 ^ 64 then a + b else 18446744073709551615)"

lemma unat_of_nat_u64: "n < 2 ^ 64 \<Longrightarrow> unat (of_nat n :: u64) = n"
  by (simp add: unat_of_nat take_bit_nat_eq_self)

lemma unat_u64_lt [simp]: "unat (a :: u64) < 18446744073709551616"
  using unsigned_less [of a] by simp

lemma saturating_add_code [code]:
  "saturating_add a b = (if a + b < a then 18446744073709551615 else a + b)"
proof -
  have "unat (a + b) = (if unat a + unat b < 2 ^ 64 then unat a + unat b else unat a + unat b - 2 ^ 64)"
    using unat_plus_if' [of a b] by simp
  moreover have "unat b < 2 ^ 64" by simp
  ultimately have "a + b < a \<longleftrightarrow> \<not> unat a + unat b < 2 ^ 64"
    unfolding word_less_nat_alt by presburger
  then show ?thesis by (simp add: saturating_add_def)
qed

lemma checked_add_Some [u64_simps]:
  "checked_add a b = Some c \<longleftrightarrow> unat c = unat a + unat b"
proof
  assume "checked_add a b = Some c"
  then have lt: "unat a + unat b < 2 ^ 64" and c: "c = a + b"
    by (auto simp: checked_add_def split: if_splits)
  from lt have "unat (a + b) = unat a + unat b"
    by (simp add: unat_word_ariths)
  with c show "unat c = unat a + unat b" by simp
next
  assume c: "unat c = unat a + unat b"
  then have lt: "unat a + unat b < 2 ^ 64" using unat_u64_lt [of c] by simp
  then have "unat (a + b) = unat c" using c by (simp add: unat_word_ariths)
  then have "c = a + b" by (simp add: word_unat_eq_iff)
  with lt show "checked_add a b = Some c" by (simp add: checked_add_def)
qed

lemma checked_add_None [u64_simps]:
  "checked_add a b = None \<longleftrightarrow> 2 ^ 64 \<le> unat a + unat b"
  by (auto simp: checked_add_def)

lemma checked_mul_Some [u64_simps]:
  "checked_mul a b = Some c \<longleftrightarrow> unat c = unat a * unat b"
proof
  assume "checked_mul a b = Some c"
  then have lt: "unat a * unat b < 2 ^ 64" and c: "c = a * b"
    by (auto simp: checked_mul_def split: if_splits)
  from lt have "unat (a * b) = unat a * unat b"
    by (simp add: unat_word_ariths)
  with c show "unat c = unat a * unat b" by simp
next
  assume c: "unat c = unat a * unat b"
  then have lt: "unat a * unat b < 2 ^ 64" using unat_u64_lt [of c] by simp
  then have "unat (a * b) = unat c" using c by (simp add: unat_word_ariths)
  then have "c = a * b" by (simp add: word_unat_eq_iff)
  with lt show "checked_mul a b = Some c" by (simp add: checked_mul_def)
qed

lemma unat_saturating_sub [u64_simps]: "unat (saturating_sub a b) = unat a - unat b"
  by (simp add: saturating_sub_def unat_sub word_le_nat_alt)

lemma unat_saturating_add [u64_simps]:
  "unat (saturating_add a b) = min (unat a + unat b) (2 ^ 64 - 1)"
  by (auto simp: saturating_add_def unat_word_ariths min_def)

lemmas word_to_nat = word_le_nat_alt word_less_nat_alt

subsection \<open>Strings of the standard library\<close>

definition starts_with :: "'a list \<Rightarrow> 'a list \<Rightarrow> bool" where
  "starts_with s p = (take (length p) s = p)"

definition strip_prefix :: "'a list \<Rightarrow> 'a list \<Rightarrow> 'a list option" where
  "strip_prefix p s = (if starts_with s p then Some (drop (length p) s) else None)"

lemma starts_with_iff: "starts_with s p \<longleftrightarrow> (\<exists>t. s = p @ t)"
  by (metis append_eq_conv_conj append_take_drop_id starts_with_def)

lemma starts_with_append [simp]: "starts_with (p @ t) p"
  by (auto simp: starts_with_iff)

lemma starts_with_refl [simp]: "starts_with s s"
  by (simp add: starts_with_def)

lemma starts_with_Nil [simp]: "starts_with s []"
  by (simp add: starts_with_def)

lemma starts_with_trans: "starts_with a b \<Longrightarrow> starts_with b c \<Longrightarrow> starts_with a c"
  by (auto simp: starts_with_iff)

lemma starts_with_length: "starts_with s p \<Longrightarrow> length p \<le> length s"
  by (auto simp: starts_with_iff)

lemma starts_with_antisym: "starts_with a b \<Longrightarrow> starts_with b a \<Longrightarrow> a = b"
  by (auto simp: starts_with_iff)

lemma strip_prefix_append [simp]: "strip_prefix p (p @ t) = Some t"
  by (simp add: strip_prefix_def)

lemma strip_prefix_Some: "strip_prefix p s = Some t \<longleftrightarrow> s = p @ t"
  by (auto simp: strip_prefix_def starts_with_iff)

text \<open>\<open>str::trim_start_matches\<close>: every leading copy of the pattern goes.\<close>

function trim_start_matches :: "string \<Rightarrow> string \<Rightarrow> string" where
  "trim_start_matches p s =
     (if p \<noteq> [] \<and> starts_with s p then trim_start_matches p (drop (length p) s) else s)"
  by pat_completeness auto
termination
  by (relation "measure (\<lambda>(p, s). length s)")
    (auto, metis diff_less length_greater_0_conv less_le_trans starts_with_length)

declare trim_start_matches.simps [simp del]

lemma trim_start_matches_no: "\<not> starts_with s p \<Longrightarrow> trim_start_matches p s = s"
  by (subst trim_start_matches.simps) simp

lemma trim_start_matches_append:
  "p \<noteq> [] \<Longrightarrow> trim_start_matches p (p @ s) = trim_start_matches p s"
  by (subst trim_start_matches.simps) simp

definition quoted :: "string \<Rightarrow> string" where
  "quoted s = CHR 0x27 # s @ [CHR 0x27]"

text \<open>\<open>char::is_whitespace\<close> on the ASCII range, and \<open>str::trim\<close>.\<close>

definition is_whitespace :: "char \<Rightarrow> bool" where
  "is_whitespace c \<longleftrightarrow> (of_char c :: nat) \<in> {9, 10, 11, 12, 13, 32}"

definition trim_start :: "string \<Rightarrow> string" where
  "trim_start s = dropWhile is_whitespace s"

definition trim_end :: "string \<Rightarrow> string" where
  "trim_end s = rev (dropWhile is_whitespace (rev s))"

definition trim :: "string \<Rightarrow> string" where
  "trim s = trim_end (trim_start s)"

definition is_ascii_digit :: "char \<Rightarrow> bool" where
  "is_ascii_digit c \<longleftrightarrow> 48 \<le> (of_char c :: nat) \<and> (of_char c :: nat) \<le> 57"

definition is_ascii_alphabetic :: "char \<Rightarrow> bool" where
  "is_ascii_alphabetic c \<longleftrightarrow>
     65 \<le> (of_char c :: nat) \<and> (of_char c :: nat) \<le> 90 \<or>
     97 \<le> (of_char c :: nat) \<and> (of_char c :: nat) \<le> 122"

definition is_ascii_alphanumeric :: "char \<Rightarrow> bool" where
  "is_ascii_alphanumeric c \<longleftrightarrow> is_ascii_digit c \<or> is_ascii_alphabetic c"

definition to_ascii_lowercase :: "char \<Rightarrow> char" where
  "to_ascii_lowercase c =
     (if 65 \<le> (of_char c :: nat) \<and> (of_char c :: nat) \<le> 90
      then char_of ((of_char c :: nat) + 32) else c)"

definition to_ascii_uppercase :: "char \<Rightarrow> char" where
  "to_ascii_uppercase c =
     (if 97 \<le> (of_char c :: nat) \<and> (of_char c :: nat) \<le> 122
      then char_of ((of_char c :: nat) - 32) else c)"

definition eq_ignore_ascii_case :: "string \<Rightarrow> string \<Rightarrow> bool" where
  "eq_ignore_ascii_case a b = (map to_ascii_lowercase a = map to_ascii_lowercase b)"

text \<open>\<open>str::split\<close> on one character: always at least one part.\<close>

fun split_on :: "'a \<Rightarrow> 'a list \<Rightarrow> 'a list list" where
  "split_on c [] = [[]]"
| "split_on c (x # xs) =
     (if x = c then [] # split_on c xs
      else (case split_on c xs of [] \<Rightarrow> [[x]] | p # ps \<Rightarrow> (x # p) # ps))"

fun join :: "'a list \<Rightarrow> 'a list list \<Rightarrow> 'a list" where
  "join sep [] = []"
| "join sep [p] = p"
| "join sep (p # q # ps) = p @ sep @ join sep (q # ps)"

lemma split_on_nonempty [simp]: "split_on c xs \<noteq> []"
  by (induction xs) (auto split: list.splits)

lemma split_on_no_sep: "c \<notin> set p \<Longrightarrow> split_on c p = [p]"
  by (induction p) auto

lemma split_on_parts: "p \<in> set (split_on c s) \<Longrightarrow> c \<notin> set p"
  by (induction s arbitrary: p) (auto split: if_splits list.splits)

lemma split_on_append:
  "c \<notin> set p \<Longrightarrow> split_on c (p @ c # s) = p # split_on c s"
  by (induction p) auto

lemma join_split_on: "join [c] (split_on c s) = s"
proof (induction s)
  case Nil
  then show ?case by simp
next
  case (Cons x xs)
  then show ?case
    by (cases "split_on c xs") (auto, (metis join.simps(2,3) list.exhaust append_Cons)+)
qed

lemma split_on_join:
  "ps \<noteq> [] \<Longrightarrow> \<forall>p\<in>set ps. c \<notin> set p \<Longrightarrow> split_on c (join [c] ps) = ps"
proof (induction ps rule: induct_list012)
  case (2 p)
  then show ?case by (simp add: split_on_no_sep)
next
  case (3 p q ps)
  then show ?case by (simp add: split_on_append)
qed simp

text \<open>\<open>Display\<close> of an unsigned integer, and \<open>str::parse\<close> into one.\<close>

definition digit_char :: "nat \<Rightarrow> char" where
  "digit_char d = char_of (48 + d)"

fun show_nat :: "nat \<Rightarrow> string" where
  "show_nat n = (if n < 10 then [digit_char n] else show_nat (n div 10) @ [digit_char (n mod 10)])"

declare show_nat.simps [simp del]

definition show_u64 :: "u64 \<Rightarrow> string" where
  "show_u64 n = show_nat (unat n)"

definition digit_val :: "char \<Rightarrow> nat" where
  "digit_val c = of_char c - 48"

definition read_nat :: "string \<Rightarrow> nat" where
  "read_nat s = foldl (\<lambda>n c. 10 * n + digit_val c) 0 s"

lemma digit_char_props:
  assumes "d < 10"
  shows "is_ascii_digit (digit_char d)" and "digit_val (digit_char d) = d"
proof -
  have "(of_char (char_of (48 + d) :: char) :: nat) = 48 + d"
    using assms by (simp add: of_char_of)
  then show "is_ascii_digit (digit_char d)" and "digit_val (digit_char d) = d"
    using assms by (simp_all add: is_ascii_digit_def digit_char_def digit_val_def)
qed

lemma show_nat_digits: "c \<in> set (show_nat n) \<Longrightarrow> is_ascii_digit c"
proof (induction n rule: show_nat.induct)
  case (1 n)
  then show ?case
    by (subst (asm) (2) show_nat.simps) (auto simp: digit_char_props split: if_splits)
qed

lemma show_nat_nonempty [simp]: "show_nat n \<noteq> []"
  by (subst show_nat.simps) simp

lemma read_nat_snoc: "read_nat (s @ [c]) = 10 * read_nat s + digit_val c"
  by (simp add: read_nat_def)

lemma read_show_nat [simp]: "read_nat (show_nat n) = n"
proof (induction n rule: show_nat.induct)
  case (1 n)
  show ?case
  proof (cases "n < 10")
    case True
    then show ?thesis
      by (subst show_nat.simps) (simp add: read_nat_def digit_char_props)
  next
    case False
    with 1 show ?thesis
      by (subst show_nat.simps) (simp add: read_nat_snoc digit_char_props)
  qed
qed

lemma show_nat_inj: "show_nat m = show_nat n \<longleftrightarrow> m = n"
  by (metis read_show_nat)

end
