(* ===== verification/Money.thy ===== *)
theory Money
  imports Prelude
begin

text \<open>
  \<open>crates/rhei-core/src/money.rs\<close>: amounts are integers of micro-units; the two
  renderings of one. \<open>parse_settings_amount\<close> works on floating-point numbers and is
  not modelled.
\<close>

definition MICRO :: u64 where
  "MICRO = 1000000"

text \<open>The format specification \<open>{:0w}\<close>: pad with zeros on the left to width \<open>w\<close>.\<close>

definition pad_zero :: "nat \<Rightarrow> string \<Rightarrow> string" where
  "pad_zero w s = replicate (w - length s) (CHR ''0'') @ s"

definition trim_end_zeros :: "string \<Rightarrow> string" where
  "trim_end_zeros s = rev (dropWhile (\<lambda>c. c = CHR ''0'') (rev s))"

definition format_micro :: "u64 \<Rightarrow> string option \<Rightarrow> string" where
  "format_micro value currency =
     (let units = value div MICRO;
          cents = (value mod MICRO) div 10000;
          amount = show_u64 units @ ''.'' @ pad_zero 2 (show_u64 cents)
      in case currency of
           None \<Rightarrow> ''$'' @ amount
         | Some c \<Rightarrow> if c = ''USD'' then ''$'' @ amount else amount @ '' '' @ c)"

definition format_bare :: "u64 \<Rightarrow> string" where
  "format_bare value =
     (let units = value div MICRO;
          fraction = value mod MICRO
      in if fraction mod 10000 = 0
         then show_u64 units @ ''.'' @ pad_zero 2 (show_u64 (fraction div 10000))
         else trim_end_zeros (show_u64 units @ ''.'' @ pad_zero 6 (show_u64 fraction)))"

text \<open>
  What a written amount means: the digits before the point are units, those after it the
  fraction, read to six decimal places.
\<close>

definition read_decimals :: "nat \<Rightarrow> string \<Rightarrow> nat" where
  "read_decimals w s = read_nat (s @ replicate (w - length s) (CHR ''0''))"

definition read_amount :: "string \<Rightarrow> nat" where
  "read_amount s =
     (case split_on (CHR ''.'') s of
        [u, f] \<Rightarrow> read_nat u * 1000000 + read_decimals 6 f
      | _ \<Rightarrow> 0)"

lemma digit_val_zero: "digit_val (CHR ''0'') = 0"
  by (simp add: digit_val_def)

lemma read_nat_zeros: "read_nat (replicate n (CHR ''0'') @ s) = read_nat s"
proof -
  have "foldl (\<lambda>n c. 10 * n + digit_val c) 0 (replicate n (CHR ''0'')) = 0"
    by (induction n) (simp_all add: digit_val_zero)
  then show ?thesis by (simp add: read_nat_def)
qed

lemma read_nat_trailing: "read_nat (s @ replicate n (CHR ''0'')) = read_nat s * 10 ^ n"
proof (induction n)
  case (Suc n)
  have "s @ replicate (Suc n) (CHR ''0'') = (s @ replicate n (CHR ''0'')) @ [CHR ''0'']"
    by (simp add: replicate_append_same)
  then show ?case using Suc by (simp only: read_nat_snoc digit_val_zero) simp
qed (simp add: read_nat_def)

lemma pad_zero_read [simp]: "read_nat (pad_zero w s) = read_nat s"
  by (simp add: pad_zero_def read_nat_zeros)

lemma length_show_nat: "n < 10 ^ w \<Longrightarrow> 0 < w \<Longrightarrow> length (show_nat n) \<le> w"
proof (induction w arbitrary: n)
  case (Suc w)
  show ?case
  proof (cases "n < 10")
    case True
    then show ?thesis by (subst show_nat.simps) simp
  next
    case False
    with Suc.prems have "n div 10 < 10 ^ w" and "0 < w" by (cases w; auto)+
    with Suc.IH have "length (show_nat (n div 10)) \<le> w" by blast
    with False show ?thesis by (subst show_nat.simps) simp
  qed
qed simp

lemma length_pad_zero: "length s \<le> w \<Longrightarrow> length (pad_zero w s) = w"
  by (simp add: pad_zero_def)

lemma trim_end_zeros_split: "\<exists>n. s = trim_end_zeros s @ replicate n (CHR ''0'')"
proof -
  have "rev s = takeWhile (\<lambda>c. c = CHR ''0'') (rev s) @ dropWhile (\<lambda>c. c = CHR ''0'') (rev s)"
    by simp
  moreover have "takeWhile (\<lambda>c. c = CHR ''0'') (rev s) =
      replicate (length (takeWhile (\<lambda>c. c = CHR ''0'') (rev s))) (CHR ''0'')"
    by (rule replicate_eqI [symmetric, THEN sym]) (auto dest: set_takeWhileD)
  ultimately have "s = trim_end_zeros s @
      replicate (length (takeWhile (\<lambda>c. c = CHR ''0'') (rev s))) (CHR ''0'')"
    unfolding trim_end_zeros_def
    by (metis rev_append rev_replicate rev_rev_ident)
  then show ?thesis by blast
qed

lemma trim_end_zeros_stop:
  assumes "c \<noteq> CHR ''0''"
  shows "trim_end_zeros (s @ c # t) = s @ c # trim_end_zeros t"
proof -
  have "dropWhile (\<lambda>c. c = CHR ''0'') (rev t @ c # rev s) =
      dropWhile (\<lambda>c. c = CHR ''0'') (rev t) @ c # rev s"
    using assms by (induction "rev t" arbitrary: t) (auto simp: dropWhile_append)
  then show ?thesis by (simp add: trim_end_zeros_def)
qed

lemma show_nat_no_point: "CHR ''.'' \<notin> set (show_nat n)"
  using show_nat_digits [of "CHR ''.''" n] by (auto simp: is_ascii_digit_def)

lemma pad_zero_no_point: "CHR ''.'' \<notin> set (pad_zero w (show_nat n))"
  by (auto simp: pad_zero_def show_nat_no_point)

lemma read_decimals_trim:
  assumes "length s = w"
  shows "read_decimals w (trim_end_zeros s) = read_nat s"
proof -
  obtain n where n: "s = trim_end_zeros s @ replicate n (CHR ''0'')"
    using trim_end_zeros_split by blast
  then have "length s = length (trim_end_zeros s) + n"
    by (metis length_append length_replicate)
  with assms have "w - length (trim_end_zeros s) = n" by simp
  with n show ?thesis by (metis read_decimals_def)
qed

lemma trim_subset: "set (trim_end_zeros s) \<subseteq> set s"
  by (auto simp: trim_end_zeros_def dest: set_dropWhileD)

lemma unat_micro: "unat MICRO = 1000000"
  by (simp add: MICRO_def)

lemma unat_units: "unat (v div MICRO) = unat v div 1000000"
  by (simp add: unat_div unat_micro)

lemma unat_fraction: "unat (v mod MICRO) = unat v mod 1000000"
  by (simp add: unat_mod unat_micro)

lemma read_amount_parts:
  "CHR ''.'' \<notin> set u \<Longrightarrow> CHR ''.'' \<notin> set f \<Longrightarrow>
   read_amount (u @ CHR ''.'' # f) = read_nat u * 1000000 + read_decimals 6 f"
  by (simp add: read_amount_def split_on_append split_on_no_sep)

lemma read_cents:
  assumes "c < 100"
  shows "read_decimals 6 (pad_zero 2 (show_nat c)) = c * 10000"
proof -
  have "length (show_nat c) \<le> 2" using length_show_nat [of c 2] assms by simp
  then have "6 - length (pad_zero 2 (show_nat c)) = 4"
    by (simp add: length_pad_zero)
  then show ?thesis by (simp add: read_decimals_def read_nat_trailing)
qed

lemma read_micros:
  assumes "f < 1000000"
  shows "read_decimals 6 (trim_end_zeros (pad_zero 6 (show_nat f))) = f"
proof -
  have "length (show_nat f) \<le> 6" using length_show_nat [of f 6] assms by simp
  then have "length (pad_zero 6 (show_nat f)) = 6" by (simp add: length_pad_zero)
  then show ?thesis by (simp add: read_decimals_trim)
qed

lemma format_bare_cents:
  assumes "(unat v mod 1000000) mod 10000 = 0"
  shows "format_bare v =
    show_nat (unat v div 1000000) @ ''.'' @ pad_zero 2 (show_nat (unat v mod 1000000 div 10000))"
proof -
  have "(v mod MICRO) mod 10000 = 0"
    using assms by (simp add: word_unat_eq_iff unat_mod unat_micro)
  then show ?thesis
    by (simp add: format_bare_def Let_def show_u64_def unat_fraction unat_div unat_micro)
qed

lemma format_bare_micros:
  assumes "(unat v mod 1000000) mod 10000 \<noteq> 0"
  shows "format_bare v =
    show_nat (unat v div 1000000) @ ''.'' @
    trim_end_zeros (pad_zero 6 (show_nat (unat v mod 1000000)))"
proof -
  have "(v mod MICRO) mod 10000 \<noteq> 0"
    using assms by (simp add: word_unat_eq_iff unat_mod unat_micro)
  then have "format_bare v =
      trim_end_zeros (show_nat (unat v div 1000000) @
        CHR ''.'' # pad_zero 6 (show_nat (unat v mod 1000000)))"
    by (simp add: format_bare_def Let_def show_u64_def unat_units unat_fraction)
  then show ?thesis by (simp add: trim_end_zeros_stop)
qed

text \<open>
  The bare number a settings key takes loses nothing: read back as units and a
  fraction of six places it is the amount that was written.
\<close>

theorem format_bare_roundtrip: "read_amount (format_bare v) = unat v"
proof (cases "(unat v mod 1000000) mod 10000 = 0")
  case True
  let ?c = "unat v mod 1000000 div 10000"
  have "?c < 100" by (simp add: less_mult_imp_div_less)
  have "read_amount (format_bare v) = unat v div 1000000 * 1000000 + ?c * 10000"
    by (simp add: format_bare_cents [OF True] read_amount_parts show_nat_no_point
        pad_zero_no_point read_cents [OF \<open>?c < 100\<close>])
  moreover have "?c * 10000 = unat v mod 1000000" using True by auto
  ultimately show ?thesis by simp
next
  case False
  have "CHR ''.'' \<notin> set (trim_end_zeros (pad_zero 6 (show_nat (unat v mod 1000000))))"
    using trim_subset pad_zero_no_point by blast
  then have "read_amount (format_bare v) = unat v div 1000000 * 1000000 + unat v mod 1000000"
    by (simp add: format_bare_micros [OF False] read_amount_parts show_nat_no_point read_micros)
  then show ?thesis by simp
qed

end
