(* ===== verification/Btree.thy ===== *)
theory Btree
  imports Prelude
begin

text \<open>
  \<open>BTreeMap\<close> and \<open>BTreeSet\<close> of Rust's standard library as association lists in
  ascending key order, which is the order the program iterates them in. A lookup is
  \<open>map_of\<close>. The locale states what the components rely on: what a lookup returns
  after an insert or a removal, that both keep the order, and how a sum over the
  values moves when one entry is written.
\<close>

type_synonym ('k, 'v) bmap = "('k \<times> 'v) list"
type_synonym 'k bset = "('k, unit) bmap"

abbreviation bm_get :: "('k, 'v) bmap \<Rightarrow> 'k \<Rightarrow> 'v option" where
  "bm_get \<equiv> map_of"

fun bm_insert :: "'k :: linorder \<Rightarrow> 'v \<Rightarrow> ('k, 'v) bmap \<Rightarrow> ('k, 'v) bmap" where
  "bm_insert k v [] = [(k, v)]"
| "bm_insert k v ((l, w) # m) =
     (if k < l then (k, v) # (l, w) # m
      else if k = l then (k, v) # m
      else (l, w) # bm_insert k v m)"

fun bm_remove :: "'k :: linorder \<Rightarrow> ('k, 'v) bmap \<Rightarrow> ('k, 'v) bmap" where
  "bm_remove k [] = []"
| "bm_remove k ((l, w) # m) = (if k = l then m else (l, w) # bm_remove k m)"

definition bm_contains :: "('k, 'v) bmap \<Rightarrow> 'k \<Rightarrow> bool" where
  "bm_contains m k = (bm_get m k \<noteq> None)"

definition bm_values :: "('k, 'v) bmap \<Rightarrow> 'v list" where
  "bm_values m = map snd m"

definition bm_keys :: "('k, 'v) bmap \<Rightarrow> 'k list" where
  "bm_keys m = map fst m"

text \<open>\<open>BTreeSet::insert\<close> answers whether the element is new.\<close>

definition bs_insert :: "'k :: linorder \<Rightarrow> 'k bset \<Rightarrow> 'k bset" where
  "bs_insert k s = bm_insert k () s"

definition bm_ok :: "('k :: linorder, 'v) bmap \<Rightarrow> bool" where
  "bm_ok m = sorted_wrt (<) (map fst m)"

definition bm_sum :: "('v \<Rightarrow> nat) \<Rightarrow> ('k, 'v) bmap \<Rightarrow> nat" where
  "bm_sum f m = sum_list (map f (bm_values m))"

lemma bm_ok_Nil [simp]: "bm_ok []"
  by (simp add: bm_ok_def)

lemma bm_ok_Cons: "bm_ok ((k, v) # m) \<longleftrightarrow> (\<forall>l \<in> fst ` set m. k < l) \<and> bm_ok m"
  by (auto simp: bm_ok_def)

lemma bm_ok_above: "bm_ok ((k, v) # m) \<Longrightarrow> l \<le> k \<Longrightarrow> bm_get m l = None"
  by (force simp: bm_ok_Cons map_of_eq_None_iff)

lemma bm_insert_keys: "fst ` set (bm_insert k v m) = insert k (fst ` set m)"
  by (induction k v m rule: bm_insert.induct) auto

lemma bm_ok_insert: "bm_ok m \<Longrightarrow> bm_ok (bm_insert k v m)"
proof (induction k v m rule: bm_insert.induct)
  case (1 k v)
  then show ?case by (simp add: bm_ok_def)
next
  case (2 k v l w m)
  then show ?case by (auto simp: bm_ok_Cons bm_insert_keys)
qed

lemma bm_remove_subset: "fst ` set (bm_remove k m) \<subseteq> fst ` set m"
  by (induction k m rule: bm_remove.induct) auto

lemma bm_ok_remove: "bm_ok m \<Longrightarrow> bm_ok (bm_remove k m)"
proof (induction k m rule: bm_remove.induct)
  case (2 k l w m)
  then show ?case using bm_remove_subset [of k m] by (fastforce simp: bm_ok_Cons)
qed simp

lemma bm_get_insert [simp]: "bm_get (bm_insert k v m) = (bm_get m)(k \<mapsto> v)"
  by (induction k v m rule: bm_insert.induct) (auto simp: fun_eq_iff)

lemma bm_get_remove: "bm_ok m \<Longrightarrow> bm_get (bm_remove k m) = (bm_get m)(k := None)"
proof (induction k m rule: bm_remove.induct)
  case (2 k l w m)
  show ?case
  proof (cases "k = l")
    case True
    with 2(2) have "bm_get m k = None" using bm_ok_above [of l w m k] by simp
    with True show ?thesis by (auto simp: fun_eq_iff)
  next
    case False
    with 2 show ?thesis by (auto simp: fun_eq_iff bm_ok_Cons)
  qed
qed simp

lemma bm_contains_insert [simp]: "bm_contains (bm_insert k v m) l \<longleftrightarrow> l = k \<or> bm_contains m l"
  by (simp add: bm_contains_def)

lemma bm_contains_bs_insert [simp]: "bm_contains (bs_insert k s) l \<longleftrightarrow> l = k \<or> bm_contains s l"
  by (simp add: bs_insert_def)

lemma bm_contains_Nil [simp]: "\<not> bm_contains [] k"
  by (simp add: bm_contains_def)

lemma bm_sum_Nil [simp]: "bm_sum f [] = 0"
  by (simp add: bm_sum_def bm_values_def)

lemma bm_sum_Cons [simp]: "bm_sum f ((k, v) # m) = f v + bm_sum f m"
  by (simp add: bm_sum_def bm_values_def)

lemma bm_sum_insert:
  "bm_ok m \<Longrightarrow>
   bm_sum f (bm_insert k v m) + (case bm_get m k of None \<Rightarrow> 0 | Some w \<Rightarrow> f w) = bm_sum f m + f v"
proof (induction k v m rule: bm_insert.induct)
  case (2 k v l w m)
  show ?case
  proof (cases "k < l")
    case True
    with 2(2) have "bm_get m k = None" using bm_ok_above by fastforce
    with True show ?thesis by auto
  next
    case False
    with 2 show ?thesis by (auto simp: bm_ok_Cons)
  qed
qed simp

lemma bm_sum_insert_new:
  "bm_ok m \<Longrightarrow> bm_get m k = None \<Longrightarrow> bm_sum f (bm_insert k v m) = bm_sum f m + f v"
  using bm_sum_insert [of m f k v] by simp

lemma bm_sum_insert_same:
  "bm_ok m \<Longrightarrow> bm_get m k = Some w \<Longrightarrow> f v = f w \<Longrightarrow> bm_sum f (bm_insert k v m) = bm_sum f m"
  using bm_sum_insert [of m f k v] by simp

lemma bm_sum_insert_mono:
  "bm_ok m \<Longrightarrow> bm_get m k = Some w \<Longrightarrow> f w \<le> f v \<Longrightarrow> bm_sum f m \<le> bm_sum f (bm_insert k v m)"
  using bm_sum_insert [of m f k v] by simp

lemma bm_sum_ge: "bm_get m k = Some v \<Longrightarrow> f v \<le> bm_sum f m"
  by (induction m) (auto split: if_splits)

lemma bm_sum_le: "(\<And>v. v \<in> snd ` set m \<Longrightarrow> f v \<le> g v) \<Longrightarrow> bm_sum f m \<le> bm_sum g m"
  by (induction m) (auto intro!: add_mono)

lemma bm_get_in_values: "bm_get m k = Some v \<Longrightarrow> v \<in> set (bm_values m)"
  by (force simp: bm_values_def dest: map_of_SomeD)

lemma bm_get_iff: "bm_ok m \<Longrightarrow> (k, v) \<in> set m \<longleftrightarrow> bm_get m k = Some v"
proof (induction m)
  case (Cons p m)
  then show ?case by (cases p) (force simp: bm_ok_Cons)
qed simp

lemma bm_values_get: "bm_ok m \<Longrightarrow> v \<in> set (bm_values m) \<longleftrightarrow> (\<exists>k. bm_get m k = Some v)"
  by (force simp: bm_values_def bm_get_iff [symmetric])

lemma bm_sum_set: "bm_ok m \<Longrightarrow> bm_sum f m = sum (\<lambda>k. f (the (bm_get m k))) (fst ` set m)"
proof (induction m)
  case (Cons p m)
  obtain k v where p: "p = (k, v)" by (cases p)
  with Cons.prems have "k \<notin> fst ` set m" and "bm_ok m" by (auto simp: bm_ok_Cons)
  moreover from this have "sum (\<lambda>l. f (the (bm_get ((k, v) # m) l))) (fst ` set m) =
      sum (\<lambda>l. f (the (bm_get m l))) (fst ` set m)"
    by (intro sum.cong) auto
  ultimately show ?case using Cons.IH by (simp add: p)
qed simp

lemma bm_keys_get: "k \<in> fst ` set m \<longleftrightarrow> (\<exists>v. bm_get m k = Some v)"
  using map_of_eq_None_iff [of m k] by auto

lemma bm_sum_mono_map:
  assumes "bm_ok m" and "bm_ok m'"
    and le: "\<And>k v. bm_get m k = Some v \<Longrightarrow> \<exists>w. bm_get m' k = Some w \<and> f v \<le> g w"
  shows "bm_sum f m \<le> bm_sum g m'"
proof -
  have "sum (\<lambda>k. f (the (bm_get m k))) (fst ` set m) \<le> sum (\<lambda>k. g (the (bm_get m' k))) (fst ` set m)"
  proof (rule sum_mono)
    fix k assume "k \<in> fst ` set m"
    then obtain v where "bm_get m k = Some v" by (auto simp: bm_keys_get simp del: split_paired_All)
    with le [OF this] show "f (the (bm_get m k)) \<le> g (the (bm_get m' k))" by auto
  qed
  also have "\<dots> \<le> sum (\<lambda>k. g (the (bm_get m' k))) (fst ` set m')"
  proof (rule sum_mono2)
    show "fst ` set m \<subseteq> fst ` set m'" unfolding subset_eq Ball_def bm_keys_get using le by blast
  qed auto
  finally show ?thesis using assms(1,2) by (simp add: bm_sum_set)
qed

text \<open>The interface the ledger, its indexes and its reports use.\<close>

locale ordered_map =
  fixes get :: "'m \<Rightarrow> 'k :: linorder \<Rightarrow> 'v option"
    and put :: "'k \<Rightarrow> 'v \<Rightarrow> 'm \<Rightarrow> 'm"
    and total :: "('v \<Rightarrow> nat) \<Rightarrow> 'm \<Rightarrow> nat"
    and ok :: "'m \<Rightarrow> bool"
  assumes get_put: "get (put k v m) l = (if l = k then Some v else get m l)"
    and ok_put: "ok m \<Longrightarrow> ok (put k v m)"
    and total_put: "ok m \<Longrightarrow>
      total f (put k v m) + (case get m k of None \<Rightarrow> 0 | Some w \<Rightarrow> f w) = total f m + f v"
begin

lemma total_update:
  assumes "ok m" and "get m k = Some w"
  shows "total f (put k v m) + f w = total f m + f v"
  using total_put [OF assms(1), of f k v] assms(2) by simp

lemma total_fresh:
  assumes "ok m" and "get m k = None"
  shows "total f (put k v m) = total f m + f v"
  using total_put [OF assms(1), of f k v] assms(2) by simp

lemma total_move:
  assumes "ok m" and "get m k = Some w"
    and "f v + g v = f w + g w"
  shows "total f (put k v m) + total g (put k v m) = total f m + total g m"
  using total_update [OF assms(1,2), of f v] total_update [OF assms(1,2), of g v] assms(3)
  by linarith

lemma total_drop:
  assumes "ok m" and "get m k = Some w" and "f v \<le> f w"
  shows "total f (put k v m) \<le> total f m"
  using total_update [OF assms(1,2), of f v] assms(3) by linarith

lemma get_put_other: "l \<noteq> k \<Longrightarrow> get (put k v m) l = get m l"
  by (simp add: get_put)

end

interpretation bm: ordered_map bm_get bm_insert bm_sum bm_ok
  by unfold_locales (auto simp: bm_ok_insert bm_sum_insert)

end
