(* ===== verification/Libs.thy ===== *)
theory Libs
  imports Btree
begin

text \<open>
  The third-party code the ledger calls, as parameters of the model. \<open>serde_json\<close>'s
  \<open>Value\<close> is a type variable \<open>'v\<close>; the record holds its accessors and the
  constructors the \<open>json!\<close> macro expands to, reading and writing a set of paths, and \<open>Uuid::parse_str\<close> of the
  \<open>uuid\<close> crate (the canonical spelling of what was parsed, and whether its variant is
  the one of RFC 4122). The locale states what the documentation of \<open>serde_json\<close>
  says of them and nothing of the ledger; no law is stated of \<open>parse_uuid\<close>.
\<close>

record 'v lib =
  vget :: "'v \<Rightarrow> string \<Rightarrow> 'v option"
  vas_str :: "'v \<Rightarrow> string option"
  vas_u64 :: "'v \<Rightarrow> u64 option"
  vas_bool :: "'v \<Rightarrow> bool option"
  vas_array :: "'v \<Rightarrow> 'v list option"
  vis_null :: "'v \<Rightarrow> bool"
  vis_object :: "'v \<Rightarrow> bool"
  vas_paths :: "'v \<Rightarrow> string set option"
  vset :: "'v \<Rightarrow> string \<Rightarrow> 'v \<Rightarrow> 'v"
  mk_obj :: "(string \<times> 'v) list \<Rightarrow> 'v"
  mk_arr :: "'v list \<Rightarrow> 'v"
  mk_str :: "string \<Rightarrow> 'v"
  mk_u64 :: "u64 \<Rightarrow> 'v"
  mk_bool :: "bool \<Rightarrow> 'v"
  mk_null :: "'v"
  mk_paths :: "string set \<Rightarrow> 'v"
  parse_uuid :: "string \<Rightarrow> (string \<times> bool) option"

text \<open>
  \<open>value["key"]\<close> reads \<open>null\<close> where there is no such key; comparing the result with
  a string or a boolean, or asking it for one, is then asking the member if there is one.
\<close>

definition vindex :: "'v lib \<Rightarrow> 'v \<Rightarrow> string \<Rightarrow> 'v" where
  "vindex L v k = (case vget L v k of None \<Rightarrow> mk_null L | Some w \<Rightarrow> w)"

definition vstr_at :: "'v lib \<Rightarrow> 'v \<Rightarrow> string \<Rightarrow> string option" where
  "vstr_at L v k = Option.bind (vget L v k) (vas_str L)"

definition vu64_at :: "'v lib \<Rightarrow> 'v \<Rightarrow> string \<Rightarrow> u64 option" where
  "vu64_at L v k = Option.bind (vget L v k) (vas_u64 L)"

definition vbool_at :: "'v lib \<Rightarrow> 'v \<Rightarrow> string \<Rightarrow> bool option" where
  "vbool_at L v k = Option.bind (vget L v k) (vas_bool L)"

definition opt_str :: "'v lib \<Rightarrow> string option \<Rightarrow> 'v" where
  "opt_str L s = (case s of None \<Rightarrow> mk_null L | Some t \<Rightarrow> mk_str L t)"

definition opt_bool :: "'v lib \<Rightarrow> bool option \<Rightarrow> 'v" where
  "opt_bool L b = (case b of None \<Rightarrow> mk_null L | Some c \<Rightarrow> mk_bool L c)"

locale json_laws =
  fixes L :: "'v lib"
  assumes get_obj: "distinct (map fst kvs) \<Longrightarrow> vget L (mk_obj L kvs) k = map_of kvs k"
    and str_str [simp]: "vas_str L (mk_str L s) = Some s"
    and u64_u64 [simp]: "vas_u64 L (mk_u64 L n) = Some n"
    and bool_bool [simp]: "vas_bool L (mk_bool L b) = Some b"
    and array_arr [simp]: "vas_array L (mk_arr L vs) = Some vs"
    and null_null [simp]: "vis_null L (mk_null L)"
    and str_null [simp]: "vas_str L (mk_null L) = None"
    and u64_null [simp]: "vas_u64 L (mk_null L) = None"
    and bool_null [simp]: "vas_bool L (mk_null L) = None"
    and paths_paths: "finite ps \<Longrightarrow> vas_paths L (mk_paths L ps) = Some ps"
    and obj_obj [simp]: "vis_object L (mk_obj L kvs)"
    and obj_set [simp]: "vis_object L v \<Longrightarrow> vis_object L (vset L v k x)"
    and get_set: "vis_object L v \<Longrightarrow> vget L (vset L v k x) l = (if l = k then Some x else vget L v l)"
begin

lemma str_at_set:
  "vis_object L v \<Longrightarrow> vstr_at L (vset L v k x) l = (if l = k then vas_str L x else vstr_at L v l)"
  by (simp add: vstr_at_def get_set)

lemma u64_at_set:
  "vis_object L v \<Longrightarrow> vu64_at L (vset L v k x) l = (if l = k then vas_u64 L x else vu64_at L v l)"
  by (simp add: vu64_at_def get_set)

lemma bool_at_set:
  "vis_object L v \<Longrightarrow> vbool_at L (vset L v k x) l = (if l = k then vas_bool L x else vbool_at L v l)"
  by (simp add: vbool_at_def get_set)

lemma str_at_obj:
  "distinct (map fst kvs) \<Longrightarrow> vstr_at L (mk_obj L kvs) k = Option.bind (map_of kvs k) (vas_str L)"
  by (simp add: vstr_at_def get_obj)

lemma u64_at_obj:
  "distinct (map fst kvs) \<Longrightarrow> vu64_at L (mk_obj L kvs) k = Option.bind (map_of kvs k) (vas_u64 L)"
  by (simp add: vu64_at_def get_obj)

lemma bool_at_obj:
  "distinct (map fst kvs) \<Longrightarrow> vbool_at L (mk_obj L kvs) k = Option.bind (map_of kvs k) (vas_bool L)"
  by (simp add: vbool_at_def get_obj)

lemma index_obj:
  "distinct (map fst kvs) \<Longrightarrow>
   vindex L (mk_obj L kvs) k = (case map_of kvs k of None \<Rightarrow> mk_null L | Some w \<Rightarrow> w)"
  by (simp add: vindex_def get_obj)

lemma as_str_opt_str [simp]: "vas_str L (opt_str L s) = s"
  by (simp add: opt_str_def split: option.splits)

lemma as_bool_opt_bool [simp]: "vas_bool L (opt_bool L b) = b"
  by (simp add: opt_bool_def split: option.splits)

lemmas obj_reads = str_at_obj u64_at_obj bool_at_obj index_obj get_obj
  str_at_set u64_at_set bool_at_set get_set

end

text \<open>
  The JSON data model, an instance of the parameter: closed examples evaluate over it.
  Numbers are those of \<open>u64\<close>, the only ones the ledger writes.
\<close>

datatype json =
    Null
  | Boolean bool
  | Number u64
  | Str string
  | Arr "json list"
  | Obj "(string \<times> json) list"

primrec json_get :: "json \<Rightarrow> string \<Rightarrow> json option" where
  "json_get Null k = None"
| "json_get (Boolean b) k = None"
| "json_get (Number n) k = None"
| "json_get (Str s) k = None"
| "json_get (Arr vs) k = None"
| "json_get (Obj kvs) k = map_of kvs k"

primrec json_str :: "json \<Rightarrow> string option" where
  "json_str Null = None"
| "json_str (Boolean b) = None"
| "json_str (Number n) = None"
| "json_str (Str s) = Some s"
| "json_str (Arr vs) = None"
| "json_str (Obj kvs) = None"

primrec json_u64 :: "json \<Rightarrow> u64 option" where
  "json_u64 Null = None"
| "json_u64 (Boolean b) = None"
| "json_u64 (Number n) = Some n"
| "json_u64 (Str s) = None"
| "json_u64 (Arr vs) = None"
| "json_u64 (Obj kvs) = None"

primrec json_bool :: "json \<Rightarrow> bool option" where
  "json_bool Null = None"
| "json_bool (Boolean b) = Some b"
| "json_bool (Number n) = None"
| "json_bool (Str s) = None"
| "json_bool (Arr vs) = None"
| "json_bool (Obj kvs) = None"

primrec json_array :: "json \<Rightarrow> json list option" where
  "json_array Null = None"
| "json_array (Boolean b) = None"
| "json_array (Number n) = None"
| "json_array (Str s) = None"
| "json_array (Arr vs) = Some vs"
| "json_array (Obj kvs) = None"

primrec json_is_object :: "json \<Rightarrow> bool" where
  "json_is_object Null = False"
| "json_is_object (Boolean b) = False"
| "json_is_object (Number n) = False"
| "json_is_object (Str s) = False"
| "json_is_object (Arr vs) = False"
| "json_is_object (Obj kvs) = True"

fun assoc_put :: "'k \<Rightarrow> 'v \<Rightarrow> ('k \<times> 'v) list \<Rightarrow> ('k \<times> 'v) list" where
  "assoc_put k v [] = [(k, v)]"
| "assoc_put k v ((l, w) # m) = (if k = l then (k, v) # m else (l, w) # assoc_put k v m)"

lemma assoc_put_get: "map_of (assoc_put k v m) = (map_of m)(k \<mapsto> v)"
  by (induction k v m rule: assoc_put.induct) (auto simp: fun_eq_iff)

primrec json_set :: "json \<Rightarrow> string \<Rightarrow> json \<Rightarrow> json" where
  "json_set Null k x = Obj [(k, x)]"
| "json_set (Boolean b) k x = Boolean b"
| "json_set (Number n) k x = Number n"
| "json_set (Str s) k x = Str s"
| "json_set (Arr vs) k x = Arr vs"
| "json_set (Obj kvs) k x = Obj (assoc_put k x kvs)"

lemma json_set_laws:
  "json_is_object v \<Longrightarrow> json_is_object (json_set v k x)"
  "json_is_object v \<Longrightarrow> json_get (json_set v k x) l = (if l = k then Some x else json_get v l)"
  by (cases v; simp add: assoc_put_get)+

text \<open>\<open>BTreeSet<PathBuf>\<close> travels as an array of strings.\<close>

fun json_strs :: "json list \<Rightarrow> string list option" where
  "json_strs [] = Some []"
| "json_strs (v # vs) =
     (case (json_str v, json_strs vs) of
        (Some s, Some ss) \<Rightarrow> Some (s # ss)
      | _ \<Rightarrow> None)"

primrec json_paths :: "json \<Rightarrow> string set option" where
  "json_paths Null = None"
| "json_paths (Boolean b) = None"
| "json_paths (Number n) = None"
| "json_paths (Str s) = None"
| "json_paths (Arr vs) = map_option set (json_strs vs)"
| "json_paths (Obj kvs) = None"

definition json_of_paths :: "string set \<Rightarrow> json" where
  "json_of_paths ps = Arr (map Str (sorted_list_of_set ps))"

lemma json_strs_map [simp]: "json_strs (map Str ss) = Some ss"
  by (induction ss) auto

lemma json_paths_of: "finite ps \<Longrightarrow> json_paths (json_of_paths ps) = Some ps"
  by (simp add: json_of_paths_def)

text \<open>
  A parser of identities for the examples: it takes a nonempty string of lowercase
  hexadecimal digits and dashes as its own canonical spelling.
\<close>

definition hex_uuid :: "string \<Rightarrow> (string \<times> bool) option" where
  "hex_uuid s =
     (if s \<noteq> [] \<and> list_all (\<lambda>c. c \<in> set ''0123456789abcdef-'') s then Some (s, True) else None)"

definition json_lib :: "json lib" where
  "json_lib =
     \<lparr>vget = json_get, vas_str = json_str, vas_u64 = json_u64, vas_bool = json_bool,
      vas_array = json_array, vis_null = (\<lambda>v. v = Null), vis_object = json_is_object,
      vas_paths = json_paths, vset = json_set, mk_obj = Obj, mk_arr = Arr, mk_str = Str, mk_u64 = Number, mk_bool = Boolean,
      mk_null = Null, mk_paths = json_of_paths, parse_uuid = hex_uuid\<rparr>"

lemma json_lib_simps [simp]:
  "vget json_lib = json_get" "vas_str json_lib = json_str" "vas_u64 json_lib = json_u64"
  "vas_bool json_lib = json_bool" "vas_array json_lib = json_array"
  "vis_null json_lib = (\<lambda>v. v = Null)" "vis_object json_lib = json_is_object"
  "vset json_lib = json_set" "vas_paths json_lib = json_paths" "mk_paths json_lib = json_of_paths"
  "mk_obj json_lib = Obj" "mk_arr json_lib = Arr" "mk_str json_lib = Str"
  "mk_u64 json_lib = Number" "mk_bool json_lib = Boolean" "mk_null json_lib = Null"
  "parse_uuid json_lib = hex_uuid"
  by (simp_all add: json_lib_def)

interpretation js: json_laws json_lib
  by unfold_locales (simp_all add: json_set_laws json_paths_of)

end
