(* ===== verification/Budget_Types.thy ===== *)
theory Budget_Types
  imports Money Libs "HOL-Library.Option_ord" "HOL-Library.Product_Lexorder"
begin

text \<open>
  \<open>crates/rhei-core/src/budget/types.rs\<close> and the data of \<open>budget/unpriced.rs\<close>: the
  counters a replay derives, the contract an account holds, the marks on a day's spend,
  the refusals, and the pricing context an unpriced settle carries.
\<close>

subsection \<open>Counters\<close>

record counter =
  consumed :: u64
  reserved :: u64

definition counter_default :: counter where
  "counter_default = \<lparr>consumed = 0, reserved = 0\<rparr>"

datatype dimension = Travel | Invocations | Spend

fun dimension_label :: "dimension \<Rightarrow> string" where
  "dimension_label Travel = ''ticket travel''"
| "dimension_label Invocations = ''project invocations''"
| "dimension_label Spend = ''project spend''"

fun settings_key :: "dimension \<Rightarrow> string" where
  "settings_key Travel = ''transition_limit''"
| "settings_key Invocations = ''invocations_per_day''"
| "settings_key Spend = ''spend_per_day''"

fun dimension_is_money :: "dimension \<Rightarrow> bool" where
  "dimension_is_money Spend = True"
| "dimension_is_money _ = False"

subsection \<open>The contract\<close>

datatype contract = Window | Lifetime (allowance: u64)

fun is_lifetime :: "contract \<Rightarrow> bool" where
  "is_lifetime Window = False"
| "is_lifetime (Lifetime a) = True"

fun contract_name :: "contract \<Rightarrow> string" where
  "contract_name Window = ''window''"
| "contract_name (Lifetime a) = ''lifetime''"

subsection \<open>Refusals\<close>

record exhaustion =
  spent_dimension :: dimension
  spent_subject :: string
  spent_counter :: counter
  spent_bound :: u64
  spent_contract :: contract
  spent_day :: string
  spent_currency :: "string option"

record forget_offer =
  offer_before :: string
  offer_after :: "string option"

record budget_error =
  reason_code :: string
  message :: string
  exhausted_by :: "exhaustion option"
  forget_offer :: "forget_offer option"

type_synonym 'a res = "budget_error + 'a"

definition error_new :: "string \<Rightarrow> string \<Rightarrow> budget_error" where
  "error_new code msg =
     \<lparr>reason_code = code, message = msg, exhausted_by = None, forget_offer = None\<rparr>"

definition error_exhausted :: "string \<Rightarrow> string \<Rightarrow> exhaustion \<Rightarrow> budget_error" where
  "error_exhausted code msg spent =
     \<lparr>reason_code = code, message = msg, exhausted_by = Some spent, forget_offer = None\<rparr>"

definition offering_forget :: "budget_error \<Rightarrow> string \<Rightarrow> string option \<Rightarrow> budget_error" where
  "offering_forget e before after =
     e\<lparr>forget_offer := Some \<lparr>offer_before = before, offer_after = after\<rparr>\<rparr>"

definition told_with_forget :: "budget_error \<Rightarrow> string \<Rightarrow> string" where
  "told_with_forget e forget_line =
     (case forget_offer e of
        None \<Rightarrow> message e
      | Some offer \<Rightarrow>
          (let after = (case offer_after offer of None \<Rightarrow> '''' | Some a \<Rightarrow> ''; '' @ a)
           in message e @ ''; '' @ offer_before offer @ '': '' @ forget_line @ after))"

definition error_bounds :: "string \<Rightarrow> budget_error" where
  "error_bounds msg = error_new ''missing_bound'' msg"

definition corrupt :: "string \<Rightarrow> budget_error" where
  "corrupt msg = error_new ''untrustworthy_ledger'' (''budget journal is untrustworthy: '' @ msg)"

definition unreachable :: "string \<Rightarrow> string \<Rightarrow> budget_error" where
  "unreachable path error =
     error_new ''unreachable_budget_path'' (''cannot reach the budget path '' @ path @ '': '' @ error)"

definition is_exhaustion :: "budget_error \<Rightarrow> bool" where
  "is_exhaustion e = (exhausted_by e \<noteq> None)"

definition add :: "u64 \<Rightarrow> u64 \<Rightarrow> u64 res" where
  "add a b = ok_or (corrupt ''budget arithmetic overflow'') (checked_add a b)"

definition check_uuid :: "'v lib \<Rightarrow> string \<Rightarrow> unit res" where
  "check_uuid L value =
     tryb (ok_or (corrupt ''invalid uuid'') (parse_uuid L value)) (\<lambda>(canonical, rfc4122).
       if canonical \<noteq> value \<or> \<not> rfc4122
       then Err (corrupt ''identity must be a lowercase RFC 4122 UUID'')
       else Ok ())"

definition exposure :: "counter \<Rightarrow> u64 res" where
  "exposure c = add (consumed c) (reserved c)"

definition remaining :: "counter \<Rightarrow> u64 \<Rightarrow> u64 res" where
  "remaining c bound = tryb (exposure c) (\<lambda>e. Ok (saturating_sub bound e))"

lemma add_Ok [u64_simps]: "add a b = Inr c \<longleftrightarrow> unat c = unat a + unat b"
  by (simp add: add_def ok_or_Ok checked_add_Some)

lemma add_Err [u64_simps]:
  "add a b = Inl e \<longleftrightarrow> 2 ^ 64 \<le> unat a + unat b \<and> e = corrupt ''budget arithmetic overflow''"
  by (auto simp: add_def ok_or_Err checked_add_None)

lemma add_total: "unat a + unat b < 2 ^ 64 \<Longrightarrow> \<exists>c. add a b = Inr c \<and> unat c = unat a + unat b"
  by (auto simp: add_def checked_add_def unat_word_ariths)

lemma add_overflow: "2 ^ 64 \<le> unat a + unat b \<Longrightarrow> \<exists>e. add a b = Inl e"
  by (auto simp: add_Err)

definition to_json :: "'v lib \<Rightarrow> contract \<Rightarrow> 'v" where
  "to_json L c =
     (case c of
        Window \<Rightarrow> mk_obj L [(''mode'', mk_str L ''window'')]
      | Lifetime a \<Rightarrow>
          mk_obj L [(''mode'', mk_str L ''lifetime''), (''invocations'', mk_u64 L a)])"

definition from_json :: "'v lib \<Rightarrow> 'v \<Rightarrow> contract res" where
  "from_json L value =
     (case vstr_at L value ''mode'' of
        None \<Rightarrow> Err (corrupt ''unknown accounting contract'')
      | Some mode \<Rightarrow>
          if mode = ''window'' then Ok Window
          else if mode = ''lifetime'' then
            tryb (ok_or (corrupt ''lifetime contract without an allowance'')
                   (vu64_at L value ''invocations'')) (\<lambda>a.
              if a = 0 then Err (corrupt ''a lifetime allowance must be positive'')
              else Ok (Lifetime a))
          else Err (corrupt ''unknown accounting contract''))"

subsection \<open>The basis of a settle\<close>

datatype spend_basis = Measured | Unpriced | Unmeasurable

fun basis_as_str :: "spend_basis \<Rightarrow> string" where
  "basis_as_str Measured = ''measured''"
| "basis_as_str Unpriced = ''unpriced''"
| "basis_as_str Unmeasurable = ''unmeasurable''"

definition basis_parse :: "string \<Rightarrow> spend_basis option" where
  "basis_parse value =
     (if value = ''measured'' then Some Measured
      else if value = ''unpriced'' then Some Unpriced
      else if value = ''unmeasurable'' then Some Unmeasurable
      else None)"

lemma basis_roundtrip [simp]: "basis_parse (basis_as_str b) = Some b"
  by (cases b) (simp_all add: basis_parse_def)

lemma basis_parse_Some: "basis_parse s = Some b \<longleftrightarrow> s = basis_as_str b"
  by (cases b) (auto simp: basis_parse_def)

context json_laws
begin

lemma from_to_json:
  "from_json L (to_json L c) =
   (if c = Lifetime 0 then Inl (corrupt ''a lifetime allowance must be positive'') else Inr c)"
  by (cases c) (simp_all add: from_json_def to_json_def obj_reads)

end

lemma from_json_positive: "from_json L v = Inr (Lifetime a) \<Longrightarrow> a \<noteq> 0"
  by (auto simp: from_json_def res_simps split: option.splits if_splits)

end
