(* ===== verification/Files.thy ===== *)
theory Files
  imports Budget_Types "HOL-Library.Sublist"
begin

text \<open>
  How one receipt line reaches the two files of an account: \<open>budget/append.rs\<close>, the
  witness side of \<open>budget/authority.rs\<close> and \<open>Journal::write_receipt\<close> of
  \<open>budget/journal.rs\<close>. A file is absent or holds bytes. What the operating system does
  with each call is an argument, the record \<open>faults\<close>: an append may fail to open, or stop
  after any number of bytes with an error (a failed sync is one after all of them), and a cut
  may work, fail, or take effect and report an error.
\<close>

type_synonym bytes = "u8 list"
type_synonym disk_file = "bytes option"

datatype cut_result = Cut_done | Cut_failed | Cut_unsynced

record faults =
  w_open :: bool
  w_stop :: "nat option"
  w_cut :: cut_result
  j_open :: bool
  j_meta :: bool
  j_stop :: "nat option"
  j_after :: bool
  j_cut :: cut_result
  w_back :: cut_result
  os_error :: budget_error

definition no_faults :: faults where
  "no_faults =
     \<lparr>w_open = True, w_stop = None, w_cut = Cut_done, j_open = True, j_meta = True,
      j_stop = None, j_after = True, j_cut = Cut_done, w_back = Cut_done,
      os_error = corrupt ''''\<rparr>"

subsection \<open>Cutting a file\<close>

definition resize :: "nat \<Rightarrow> bytes \<Rightarrow> bytes" where
  "resize n bs = take n bs @ replicate (n - length bs) 0"

text \<open>The answer of a cut or a write, and the file it leaves.\<close>

definition cut_outcome :: "cut_result \<Rightarrow> budget_error \<Rightarrow> disk_file \<Rightarrow> disk_file \<Rightarrow> unit res \<times> disk_file" where
  "cut_outcome c e before after =
     (case c of
        Cut_done \<Rightarrow> (Ok (), after)
      | Cut_failed \<Rightarrow> (Err e, before)
      | Cut_unsynced \<Rightarrow> (Err e, after))"

definition shorten :: "cut_result \<Rightarrow> budget_error \<Rightarrow> nat \<Rightarrow> disk_file \<Rightarrow> unit res \<times> disk_file" where
  "shorten c e n f =
     (case f of
        None \<Rightarrow> (Err e, None)
      | Some bs \<Rightarrow> cut_outcome c e f (Some (resize n bs)))"

definition cut :: "cut_result \<Rightarrow> budget_error \<Rightarrow> nat \<Rightarrow> disk_file \<Rightarrow> unit res \<times> disk_file" where
  "cut c e n f = (if n = 0 then cut_outcome c e f None else shorten c e n f)"

subsection \<open>The witness\<close>

record authority =
  held_bytes :: bytes
  witness_file :: disk_file
  adopted :: bool

text \<open>
  \<open>write_durable\<close> writes beside the file and renames: where it stops before the rename the
  file is as it was, where only the directory's sync fails the file is written.
\<close>

definition write_durable :: "nat option \<Rightarrow> budget_error \<Rightarrow> bytes \<Rightarrow> disk_file \<Rightarrow> unit res \<times> disk_file" where
  "write_durable stop e bs f =
     (case stop of
        None \<Rightarrow> (Ok (), Some bs)
      | Some n \<Rightarrow> if n < length bs then (Err e, f) else (Err e, Some bs))"

definition write_initial :: "faults \<Rightarrow> bytes \<Rightarrow> authority \<Rightarrow> unit res \<times> authority" where
  "write_initial fl bs a =
     (case write_durable (w_stop fl) (os_error fl) bs (witness_file a) of
        (Err e, f) \<Rightarrow> (Err e, a\<lparr>witness_file := f\<rparr>)
      | (Ok _, f) \<Rightarrow> (Ok (), a\<lparr>witness_file := f, held_bytes := held_bytes a @ bs\<rparr>))"

definition adopt :: "faults \<Rightarrow> bytes \<Rightarrow> authority \<Rightarrow> unit res \<times> authority" where
  "adopt fl bs a =
     (if held_bytes a \<noteq> [] then (Err (corrupt ''cannot adopt over an existing witness''), a)
      else case write_initial fl bs a of
        (Err e, a') \<Rightarrow> (Err e, a')
      | (Ok _, a') \<Rightarrow> (Ok (), a'\<lparr>adopted := True\<rparr>))"

definition append_bytes :: "nat option \<Rightarrow> bytes \<Rightarrow> bytes \<Rightarrow> bytes" where
  "append_bytes stop line bs = (case stop of None \<Rightarrow> bs @ line | Some n \<Rightarrow> bs @ take n line)"

definition append_through :: "faults \<Rightarrow> bytes \<Rightarrow> authority \<Rightarrow> unit res \<times> authority" where
  "append_through fl line a =
     (if held_bytes a = [] then
        (case write_initial fl line a of
           (Err e, a') \<Rightarrow>
             (Err e, a'\<lparr>witness_file := snd (cut (w_cut fl) (os_error fl) 0 (witness_file a'))\<rparr>)
         | (Ok _, a') \<Rightarrow> (Ok (), a'))
      else if \<not> w_open fl then (Err (os_error fl), a)
      else case witness_file a of
        None \<Rightarrow> (Err (os_error fl), a)
      | Some bs \<Rightarrow>
          (let f = Some (append_bytes (w_stop fl) line bs)
           in if w_stop fl \<noteq> None
              then (Err (os_error fl),
                    a\<lparr>witness_file :=
                        snd (cut (w_cut fl) (os_error fl) (length (held_bytes a)) f)\<rparr>)
              else (Ok (), a\<lparr>witness_file := f, held_bytes := held_bytes a @ line\<rparr>)))"

definition cut_back :: "faults \<Rightarrow> nat \<Rightarrow> authority \<Rightarrow> unit res \<times> authority" where
  "cut_back fl n a =
     (case cut (w_back fl) (os_error fl) n (witness_file a) of
        (Err e, f) \<Rightarrow> (Err e, a\<lparr>witness_file := f\<rparr>)
      | (Ok _, f) \<Rightarrow> (Ok (), a\<lparr>witness_file := f, held_bytes := take n (held_bytes a)\<rparr>))"

subsection \<open>The journal\<close>

datatype undo = Remove | Shorten nat

definition undo_apply :: "faults \<Rightarrow> undo \<Rightarrow> disk_file \<Rightarrow> unit res \<times> disk_file" where
  "undo_apply fl u f =
     (case u of
        Remove \<Rightarrow> cut (j_cut fl) (os_error fl) 0 f
      | Shorten n \<Rightarrow> shorten (j_cut fl) (os_error fl) n f)"

text \<open>The opened file and whether this open created it.\<close>

definition open_journal :: "faults \<Rightarrow> bool \<Rightarrow> disk_file \<Rightarrow> (bytes \<times> bool) res" where
  "open_journal fl first f =
     (if \<not> j_open fl then Err (os_error fl)
      else case f of
        None \<Rightarrow> if first then Ok ([], True) else Err (os_error fl)
      | Some bs \<Rightarrow> Ok (bs, False))"

definition unreplayed :: "string \<Rightarrow> nat \<Rightarrow> budget_error" where
  "unreplayed path before =
     corrupt (''the journal at '' @ path @ '' holds '' @ show_nat before @
       '' bytes the account's open did not replay; its first receipt is not written behind them'')"

definition append_line ::
  "string \<Rightarrow> faults \<Rightarrow> bool \<Rightarrow> bytes \<Rightarrow> disk_file \<Rightarrow> (budget_error \<times> undo option) option \<times> disk_file" where
  "append_line path fl first line f =
     (case open_journal fl first f of
        Err e \<Rightarrow> (Some (e, None), f)
      | Ok (bs, created) \<Rightarrow>
          if \<not> created \<and> \<not> j_meta fl then (Some (os_error fl, None), Some bs)
          else
            (let before = length bs
             in if first \<and> before \<noteq> 0
                then (Some (unreplayed path before, None), Some bs)
                else
                  (let written = append_bytes (j_stop fl) line bs
                   in if j_stop fl = None then (None, Some written)
                      else (Some (os_error fl,
                                  if created then Some Remove
                                  else if j_after fl \<and> length written = before then None
                                  else Some (Shorten before)),
                            Some written))))"

subsection \<open>Both\<close>

record files =
  authority_of :: authority
  journal_path :: string
  journal_file :: disk_file

definition write_receipt :: "faults \<Rightarrow> bool \<Rightarrow> bytes \<Rightarrow> files \<Rightarrow> unit res \<times> files" where
  "write_receipt fl first line d =
     (let witnessed = length (held_bytes (authority_of d))
      in case append_through fl line (authority_of d) of
        (Err e, a) \<Rightarrow> (Err e, d\<lparr>authority_of := a\<rparr>)
      | (Ok _, a) \<Rightarrow>
          (case append_line (journal_path d) fl first line (journal_file d) of
             (None, f) \<Rightarrow> (Ok (), d\<lparr>authority_of := a, journal_file := f\<rparr>)
           | (Some (error, undo), f) \<Rightarrow>
               (case (case undo of None \<Rightarrow> (Ok (), f) | Some u \<Rightarrow> undo_apply fl u f) of
                  (Ok _, f') \<Rightarrow>
                    (Err error, d\<lparr>authority_of := snd (cut_back fl witnessed a), journal_file := f'\<rparr>)
                | (Err _, f') \<Rightarrow> (Err error, d\<lparr>authority_of := a, journal_file := f'\<rparr>))))"

subsection \<open>What an append leaves\<close>

text \<open>
  The two files before an append, as an open leaves them: the witness holds the bytes in
  memory, and the journal the same bytes, absent or empty where there are none.
\<close>

definition bytes_in :: "disk_file \<Rightarrow> bytes" where
  "bytes_in f = (case f of None \<Rightarrow> [] | Some bs \<Rightarrow> bs)"

definition files_agree :: "bytes \<Rightarrow> files \<Rightarrow> bool" where
  "files_agree bs d \<longleftrightarrow>
     held_bytes (authority_of d) = bs \<and> bytes_in (witness_file (authority_of d)) = bs \<and>
     bytes_in (journal_file d) = bs"

definition cuts_work :: "faults \<Rightarrow> bool" where
  "cuts_work fl \<longleftrightarrow> w_cut fl = Cut_done \<and> j_cut fl = Cut_done \<and> w_back fl = Cut_done"

lemma resize_prefix [simp]: "resize (length bs) (bs @ cs) = bs"
  by (simp add: resize_def)

lemma resize_same [simp]: "resize (length bs) bs = bs"
  by (simp add: resize_def)

lemma append_bytes_None [simp]: "append_bytes None line bs = bs @ line"
  by (simp add: append_bytes_def)

lemma append_bytes_Some [simp]: "append_bytes (Some n) line bs = bs @ take n line"
  by (simp add: append_bytes_def)

lemmas cut_defs = cut_def shorten_def cut_outcome_def

text \<open>The witness after its append, whatever failed.\<close>

lemma append_through_cases:
  assumes "bytes_in (witness_file a) = held_bytes a"
  shows "(\<exists>e. fst (append_through fl line a) = Err e \<and>
           held_bytes (snd (append_through fl line a)) = held_bytes a \<and>
           (\<exists>n. bytes_in (witness_file (snd (append_through fl line a))) =
              held_bytes a @ take n line)) \<or>
         (fst (append_through fl line a) = Ok () \<and>
           held_bytes (snd (append_through fl line a)) = held_bytes a @ line \<and>
           witness_file (snd (append_through fl line a)) = Some (held_bytes a @ line))"
  (is "?failed \<or> ?done")
proof (cases "held_bytes a = []")
  case True
  show ?thesis
  proof (cases "w_stop fl")
    case None
    with True show ?thesis
      by (simp add: append_through_def write_initial_def write_durable_def)
  next
    case (Some n)
    have "\<exists>m. bytes_in (snd (cut (w_cut fl) (os_error fl) 0 (if n < length line then witness_file a
        else Some line))) = take m line"
      using assms True
      by (auto simp: cut_defs bytes_in_def split: cut_result.splits option.splits
          intro: exI [of _ 0] exI [of _ "length line"])
    with True Some show ?thesis
      by (auto simp: append_through_def write_initial_def write_durable_def split: if_splits)
  qed
next
  case False
  with assms obtain bs where wf: "witness_file a = Some bs" and bs: "bs = held_bytes a"
    by (cases "witness_file a") (auto simp: bytes_in_def)
  show ?thesis
  proof (cases "w_open fl \<and> w_stop fl \<noteq> None")
    case True
    then obtain n where n: "w_stop fl = Some n" by auto
    have "\<exists>m. bytes_in (snd (cut (w_cut fl) (os_error fl) (length bs) (Some (bs @ take n line)))) =
        bs @ take m line"
      using False bs
      by (auto simp: cut_defs bytes_in_def split: cut_result.splits
          intro: exI [of _ 0] exI [of _ n])
    with True False wf n bs show ?thesis by (auto simp: append_through_def)
  next
    case no_stop: False
    with False wf bs show ?thesis
      by (auto simp: append_through_def bytes_in_def intro: exI [of _ 0])
  qed
qed

text \<open>The journal after its append and, where that failed, its undo.\<close>

definition undone :: "faults \<Rightarrow> undo option \<Rightarrow> disk_file \<Rightarrow> unit res \<times> disk_file" where
  "undone fl u f = (case u of None \<Rightarrow> (Ok (), f) | Some v \<Rightarrow> undo_apply fl v f)"

lemma append_line_Ok:
  "append_line path fl first line f = (None, f') \<Longrightarrow> f' = Some (bytes_in f @ line)"
  by (auto simp: append_line_def open_journal_def bytes_in_def Let_def
      split: sum.splits option.splits if_splits)

lemma taken: "min (length xs) n = 0 \<longleftrightarrow> take n xs = []"
  by (auto simp: min_def)

lemma append_line_undone:
  assumes "append_line path fl first line f = (Some (e, u), f')"
  shows "\<exists>n. bytes_in (snd (undone fl u f')) = bytes_in f @ take n line"
    and "fst (undone fl u f') = Ok () \<Longrightarrow> snd (undone fl u f') = f"
proof -
  consider (kept) "u = None" "f' = f"
    | (unwritten) bs n where "f = Some bs" "u = None" "f' = Some bs"
    | (created) n where "f = None" "u = Some Remove" "f' = Some (take n line)"
    | (longer) bs n where "f = Some bs" "u = Some (Shorten (length bs))" "f' = Some (bs @ take n line)"
    using assms
    by (auto simp: append_line_def open_journal_def Let_def append_bytes_def taken simp del: take_eq_Nil
        split: sum.splits option.splits if_splits)
  note cases = this
  show "\<exists>n. bytes_in (snd (undone fl u f')) = bytes_in f @ take n line"
    by (cases rule: cases)
      (auto simp: undone_def undo_apply_def cut_defs bytes_in_def split: cut_result.splits
        intro: exI [of _ 0])
  show "fst (undone fl u f') = Ok () \<Longrightarrow> snd (undone fl u f') = f"
    by (cases rule: cases)
      (auto simp: undone_def undo_apply_def cut_defs bytes_in_def split: cut_result.splits)
qed

lemma write_receipt_step:
  "write_receipt fl first line d =
   (case append_through fl line (authority_of d) of
      (Err e, a) \<Rightarrow> (Err e, d\<lparr>authority_of := a\<rparr>)
    | (Ok _, a) \<Rightarrow>
        (case append_line (journal_path d) fl first line (journal_file d) of
           (None, f) \<Rightarrow> (Ok (), d\<lparr>authority_of := a, journal_file := f\<rparr>)
         | (Some (error, u), f) \<Rightarrow>
             (Err error,
              d\<lparr>authority_of :=
                  (if fst (undone fl u f) = Ok ()
                   then snd (cut_back fl (length (held_bytes (authority_of d))) a) else a),
                journal_file := snd (undone fl u f)\<rparr>)))"
  by (auto simp: write_receipt_def undone_def Let_def split: sum.splits option.splits prod.splits)

lemma cut_back_prefix:
  assumes "witness_file a = Some (bs @ line)" and "held_bytes a = bs @ line"
  shows "\<exists>n. bytes_in (witness_file (snd (cut_back fl (length bs) a))) = bs @ take n line"
    and "w_back fl = Cut_done \<Longrightarrow>
      bytes_in (witness_file (snd (cut_back fl (length bs) a))) = bs \<and>
      held_bytes (snd (cut_back fl (length bs) a)) = bs"
  using assms
  by (auto simp: cut_back_def cut_defs bytes_in_def split: cut_result.splits
      intro: exI [of _ 0] exI [of _ "length line"])

text \<open>The three outcomes of writing one receipt.\<close>

lemma write_receipt_outcomes:
  assumes agree: "files_agree bs d"
  obtains (written) d' where "write_receipt fl first line d = (Ok (), d')"
      "files_agree (bs @ line) d'" "journal_file d' = Some (bs @ line)"
      "journal_path d' = journal_path d"
  | (refused) e d' n where "write_receipt fl first line d = (Err e, d')"
      "journal_file d' = journal_file d"
      "bytes_in (witness_file (authority_of d')) = bs @ take n line"
      "cuts_work fl \<Longrightarrow> files_agree bs d'"
  | (ahead) e d' n where "write_receipt fl first line d = (Err e, d')"
      "bytes_in (journal_file d') = bs @ take n line"
      "bytes_in (witness_file (authority_of d')) = bs @ line" "\<not> cuts_work fl"
proof -
  let ?a = "authority_of d"
  from agree have wb: "bytes_in (witness_file ?a) = held_bytes ?a" and held: "held_bytes ?a = bs"
    and jb: "bytes_in (journal_file d) = bs"
    by (simp_all add: files_agree_def)
  obtain r a where at: "append_through fl line ?a = (r, a)" by (cases "append_through fl line ?a")
  show thesis
  proof (cases r)
    case (Inl e)
    from append_through_cases [OF wb, of fl line] at Inl held obtain n where
      held': "held_bytes a = bs" and n: "bytes_in (witness_file a) = bs @ take n line"
      by auto
    have "files_agree bs (d\<lparr>authority_of := a\<rparr>)" if cw: "cuts_work fl"
    proof -
      have "bytes_in (witness_file a) = bs"
        using at Inl cw held wb
        by (auto simp: append_through_def write_initial_def write_durable_def cuts_work_def
            cut_defs bytes_in_def Let_def split: if_splits option.splits)
      with held' jb show ?thesis by (simp add: files_agree_def)
    qed
    with at Inl n show thesis
      by (intro refused [of e "d\<lparr>authority_of := a\<rparr>" n]) (simp_all add: write_receipt_step)
  next
    case (Inr x)
    from append_through_cases [OF wb, of fl line] at Inr held have
      a: "held_bytes a = bs @ line" "witness_file a = Some (bs @ line)"
      by auto
    obtain q f where al: "append_line (journal_path d) fl first line (journal_file d) = (q, f)"
      by (cases "append_line (journal_path d) fl first line (journal_file d)")
    show thesis
    proof (cases q)
      case None
      with al append_line_Ok jb have "f = Some (bs @ line)" by blast
      with al at Inr None a show thesis
        by (intro written [of "d\<lparr>authority_of := a, journal_file := f\<rparr>"])
          (simp_all add: write_receipt_step files_agree_def bytes_in_def)
    next
      case (Some eu)
      then obtain e u where eu: "q = Some (e, u)" by (cases eu) auto
      note un = append_line_undone [OF al [unfolded eu]]
      show thesis
      proof (cases "fst (undone fl u f) = Ok ()")
        case True
        let ?d = "d\<lparr>authority_of := snd (cut_back fl (length bs) a), journal_file := journal_file d\<rparr>"
        from cut_back_prefix(1) [OF a(2,1)] obtain n where
          "bytes_in (witness_file (snd (cut_back fl (length bs) a))) = bs @ take n line" by blast
        with True at Inr al eu held un(2) jb cut_back_prefix(2) [OF a(2,1)] show thesis
          by (intro refused [of e ?d n])
            (simp_all add: write_receipt_step files_agree_def cuts_work_def)
      next
        case False
        let ?d = "d\<lparr>authority_of := a, journal_file := snd (undone fl u f)\<rparr>"
        from un(1) jb obtain n where n: "bytes_in (snd (undone fl u f)) = bs @ take n line" by auto
        have "\<not> cuts_work fl"
          using False al eu
          by (auto simp: undone_def undo_apply_def cut_defs cuts_work_def append_line_def
              open_journal_def Let_def split: option.splits sum.splits if_splits undo.splits)
        with False at Inr al eu a n show thesis
          by (intro ahead [of e ?d n]) (simp_all add: write_receipt_step bytes_in_def)
      qed
    qed
  qed
qed

lemma write_receipt_no_faults:
  assumes "files_agree bs d" and "first \<longleftrightarrow> bs = []"
  shows "\<exists>d'. write_receipt no_faults first line d = (Ok (), d')"
proof (cases "bs = []")
  case True
  with assms show ?thesis
    by (auto simp: write_receipt_step append_through_def write_initial_def write_durable_def
        append_line_def open_journal_def no_faults_def files_agree_def bytes_in_def Let_def
        split: option.splits)
next
  case False
  with assms obtain "witness_file (authority_of d) = Some bs" and "journal_file d = Some bs"
    by (cases "witness_file (authority_of d)"; cases "journal_file d")
      (auto simp: files_agree_def bytes_in_def)
  with assms False show ?thesis
    by (auto simp: write_receipt_step append_through_def append_line_def open_journal_def
        no_faults_def files_agree_def Let_def)
qed

end
