(* ===== verification/Unpriced.thy ===== *)
theory Unpriced
  imports Budget_Types
begin

text \<open>
  \<open>crates/rhei-core/src/budget/unpriced.rs\<close>, with the marks of \<open>types.rs\<close> that are
  printed from it: the pricing context of an unpriced settle, ordered as its fields are
  declared, the tally of a day's contexts, and the lines that name them.
\<close>

datatype pricing_context =
  PricingContext
    (price_book_source: "string option")
    (price_book_id: "string option")
    (price_book_path: "string option")
    (provider: "string option")
    (model: "string option")
    (missing_entry: "bool option")

definition context_key ::
  "pricing_context \<Rightarrow> string option \<times> string option \<times> string option \<times> string option \<times>
     string option \<times> bool option" where
  "context_key c =
     (price_book_source c, price_book_id c, price_book_path c, provider c, model c,
      missing_entry c)"

lemma context_key_inj: "context_key a = context_key b \<longleftrightarrow> a = b"
  by (cases a; cases b) (simp add: context_key_def)

text \<open>The derived order: field by field, \<open>None\<close> first.\<close>

instantiation pricing_context :: linorder
begin

definition less_eq_pricing_context :: "pricing_context \<Rightarrow> pricing_context \<Rightarrow> bool" where
  "less_eq_pricing_context a b = (context_key a \<le> context_key b)"

definition less_pricing_context :: "pricing_context \<Rightarrow> pricing_context \<Rightarrow> bool" where
  "less_pricing_context a b = (context_key a < context_key b)"

instance
  by standard
    (auto simp: less_eq_pricing_context_def less_pricing_context_def context_key_inj [symmetric])

end

definition context_default :: pricing_context where
  "context_default = PricingContext None None None None None None"

definition context_to_json :: "'v lib \<Rightarrow> pricing_context \<Rightarrow> 'v" where
  "context_to_json L c =
     mk_obj L
       [(''provider'', opt_str L (provider c)),
        (''model'', opt_str L (model c)),
        (''price_book_id'', opt_str L (price_book_id c)),
        (''price_book_path'', opt_str L (price_book_path c)),
        (''price_book_source'', opt_str L (price_book_source c)),
        (''missing_entry'', opt_bool L (missing_entry c))]"

definition context_from_json :: "'v lib \<Rightarrow> 'v option \<Rightarrow> pricing_context" where
  "context_from_json L value =
     (case value of
        None \<Rightarrow> context_default
      | Some v \<Rightarrow>
          if vis_object L v
          then PricingContext (vstr_at L v ''price_book_source'') (vstr_at L v ''price_book_id'')
                 (vstr_at L v ''price_book_path'') (vstr_at L v ''provider'')
                 (vstr_at L v ''model'') (vbool_at L v ''missing_entry'')
          else context_default)"

context json_laws
begin

lemma context_json: "context_from_json L (Some (context_to_json L c)) = c"
  by (cases c) (simp add: context_from_json_def context_to_json_def obj_reads)

end

record unpriced_detail =
  detail_context :: pricing_context
  detail_count :: u64

definition detail_to_json :: "'v lib \<Rightarrow> unpriced_detail \<Rightarrow> 'v" where
  "detail_to_json L d = vset L (context_to_json L (detail_context d)) ''count'' (mk_u64 L (detail_count d))"

definition detail_from_json :: "'v lib \<Rightarrow> 'v \<Rightarrow> unpriced_detail option" where
  "detail_from_json L v =
     (case vu64_at L v ''count'' of
        None \<Rightarrow> None
      | Some n \<Rightarrow> Some \<lparr>detail_context = context_from_json L (Some v), detail_count = n\<rparr>)"

definition details_json :: "'v lib \<Rightarrow> unpriced_detail list \<Rightarrow> 'v" where
  "details_json L ds = mk_arr L (map (detail_to_json L) ds)"

context json_laws
begin

lemma detail_json: "detail_from_json L (detail_to_json L d) = Some d"
  by (cases d, cases "detail_context d")
    (simp add: detail_from_json_def detail_to_json_def context_from_json_def
      context_to_json_def obj_reads)

end

definition tally :: "(pricing_context, u64) bmap \<Rightarrow> unpriced_detail list" where
  "tally contexts = map (\<lambda>(c, n). \<lparr>detail_context = c, detail_count = n\<rparr>) contexts"

type_synonym group_key =
  "string option \<times> string option \<times> string option \<times> bool option"
type_synonym pair_counts = "((string \<times> string) option, u64) bmap"

definition group_key :: "pricing_context \<Rightarrow> group_key" where
  "group_key c =
     (if price_book_source c = None then (None, None, None, None)
      else (price_book_source c, price_book_id c, price_book_path c, missing_entry c))"

definition book_phrase :: "string \<Rightarrow> string option \<Rightarrow> string option \<Rightarrow> string option" where
  "book_phrase source ident path =
     (let phrase = (\<lambda>place.
        Some (''price book '' @ (case ident of None \<Rightarrow> ''with no id'' | Some i \<Rightarrow> i) @
              '' ('' @ place @ '')''))
      in if source = ''file'' then
           phrase (case path of None \<Rightarrow> ''an unknown path'' | Some p \<Rightarrow> p)
         else if source = ''builtin'' then phrase ''built-in''
         else if source = ''profiles'' then phrase ''composed from profile prices''
         else None)"

definition detail_pair :: "pricing_context \<Rightarrow> (string \<times> string) option" where
  "detail_pair c =
     (case (provider c, model c) of
        (Some p, Some m) \<Rightarrow> Some (p, m)
      | _ \<Rightarrow> None)"

definition group_add ::
  "unpriced_detail \<Rightarrow> (group_key, pair_counts) bmap \<Rightarrow> (group_key, pair_counts) bmap" where
  "group_add d groups =
     (let key = group_key (detail_context d);
          pairs = (case bm_get groups key of None \<Rightarrow> [] | Some ps \<Rightarrow> ps);
          pair = detail_pair (detail_context d);
          n = (case bm_get pairs pair of None \<Rightarrow> 0 | Some n \<Rightarrow> n)
      in bm_insert key (bm_insert pair (saturating_add n (detail_count d)) pairs) groups)"

definition group_line :: "group_key \<Rightarrow> pair_counts \<Rightarrow> string" where
  "group_line key pairs =
     (case key of (source, ident, path, missing) \<Rightarrow>
       (case source of
          None \<Rightarrow>
            show_u64 (fold (\<lambda>c s. saturating_add s c) (bm_values pairs) 0) @
            '' with no pricing context (settled before rhei recorded one)''
        | Some src \<Rightarrow>
            (let written = map (\<lambda>(pair, n). case pair of
                   Some (p, m) \<Rightarrow> p @ ''/'' @ m @ '' ('' @ show_u64 n @ '')''
                 | None \<Rightarrow> ''an unknown model ('' @ show_u64 n @ '')'') pairs;
                 listed = join '', '' written
             in case book_phrase src ident path of
                  None \<Rightarrow> listed @ '': no price book was selected''
                | Some book \<Rightarrow>
                    (case missing of
                       Some True \<Rightarrow>
                         (let verb = (if length pairs = 1 then ''has'' else ''have'')
                          in listed @ '' '' @ verb @ '' no entry in '' @ book)
                     | Some False \<Rightarrow>
                         listed @ '': '' @ book @
                         '' has an entry, but no measured usage could be priced''
                     | None \<Rightarrow> listed @ '': could not be checked against '' @ book))))"

definition group_lines :: "unpriced_detail list \<Rightarrow> string list" where
  "group_lines details = map (\<lambda>(key, pairs). group_line key pairs) (fold group_add details [])"

subsection \<open>The marks on a day's spend\<close>

record spend_marks =
  unpriced :: u64
  unmeasurable :: u64
  unsettled :: u64
  unpriced_details :: "unpriced_detail list"

definition marks_default :: spend_marks where
  "marks_default =
     \<lparr>unpriced = 0, unmeasurable = 0, unsettled = 0, unpriced_details = []\<rparr>"

definition marks_any :: "spend_marks \<Rightarrow> bool" where
  "marks_any m \<longleftrightarrow> unpriced m > 0 \<or> unmeasurable m > 0 \<or> unsettled m > 0"

definition marks_phrase :: "spend_marks \<Rightarrow> string option" where
  "marks_phrase m =
     (let members =
        [(unpriced m, ''unpriced''), (unmeasurable m, ''unmeasurable''), (unsettled m, ''unsettled'')];
          written = map (\<lambda>(n, name). show_u64 n @ '' '' @ name) (filter (\<lambda>(n, _). n > 0) members)
      in if written \<noteq> [] then Some (join '', '' written) else None)"

definition marks_row :: "spend_marks \<Rightarrow> u64 \<Rightarrow> string option \<Rightarrow> string option" where
  "marks_row m reserve currency =
     (case marks_phrase m of
        None \<Rightarrow> None
      | Some written \<Rightarrow>
          Some (written @ '' (charged at '' @ format_micro reserve currency @ '' each)''))"

definition continuations :: "spend_marks \<Rightarrow> string list" where
  "continuations m = (if unpriced m = 0 then [] else group_lines (unpriced_details m))"

definition one_line :: "spend_marks \<Rightarrow> u64 \<Rightarrow> string option \<Rightarrow> string option" where
  "one_line m reserve currency =
     (case marks_row m reserve currency of
        None \<Rightarrow> None
      | Some row \<Rightarrow>
          (let groups = continuations m
           in if groups = [] then Some row else Some (row @ '': '' @ join ''; '' groups)))"

lemma marks_phrase_None: "marks_phrase m = None \<longleftrightarrow> \<not> marks_any m"
  by (simp add: marks_phrase_def marks_any_def Let_def)

lemma marks_row_None: "marks_row m r c = None \<longleftrightarrow> \<not> marks_any m"
  by (simp add: marks_row_def marks_phrase_None [symmetric] split: option.splits)

text \<open>
  What the group lines count is what the details count: the sum over every pair of every
  group, as long as no pair's count reaches the width of \<open>u64\<close>.
\<close>

definition groups_total :: "(group_key, pair_counts) bmap \<Rightarrow> nat" where
  "groups_total groups = bm_sum (bm_sum unat) groups"

definition groups_ok :: "(group_key, pair_counts) bmap \<Rightarrow> bool" where
  "groups_ok groups \<longleftrightarrow> bm_ok groups \<and> (\<forall>k ps. bm_get groups k = Some ps \<longrightarrow> bm_ok ps)"

lemma group_add_total:
  assumes ok: "groups_ok groups" and bound: "groups_total groups + unat (detail_count d) < 2 ^ 64"
  shows "groups_ok (group_add d groups) \<and>
    groups_total (group_add d groups) = groups_total groups + unat (detail_count d)"
proof -
  define key where "key = group_key (detail_context d)"
  define pairs where "pairs = (case bm_get groups key of None \<Rightarrow> [] | Some ps \<Rightarrow> ps)"
  define pair where "pair = detail_pair (detail_context d)"
  define n where "n = (case bm_get pairs pair of None \<Rightarrow> 0 | Some n \<Rightarrow> n)"
  have pairs_ok: "bm_ok pairs"
    using ok by (auto simp: pairs_def groups_ok_def split: option.splits simp del: split_paired_All)
  have pairs_le: "bm_sum unat pairs \<le> groups_total groups"
    using bm_sum_ge [of groups key _ "bm_sum unat"]
    by (auto simp: pairs_def groups_total_def split: option.splits)
  have n_le: "unat n \<le> bm_sum unat pairs"
    using bm_sum_ge [of pairs pair _ unat] by (auto simp: n_def split: option.splits)
  have sat: "unat (saturating_add n (detail_count d)) = unat n + unat (detail_count d)"
    using n_le pairs_le bound by (simp add: unat_saturating_add)
  have pair_sum: "bm_sum unat (bm_insert pair (saturating_add n (detail_count d)) pairs) =
      bm_sum unat pairs + unat (detail_count d)"
    using bm_sum_insert [OF pairs_ok, of unat pair "saturating_add n (detail_count d)"] sat n_le
    by (auto simp: n_def split: option.splits)
  have step: "group_add d groups =
      bm_insert key (bm_insert pair (saturating_add n (detail_count d)) pairs) groups"
    by (simp add: group_add_def key_def pairs_def pair_def n_def Let_def)
  have "groups_ok (group_add d groups)"
    using ok pairs_ok by (auto simp: step groups_ok_def bm_ok_insert simp del: split_paired_All)
  moreover have "groups_total (group_add d groups) = groups_total groups + unat (detail_count d)"
  proof (cases "bm_get groups key")
    case None
    then show ?thesis
      using ok pair_sum by (simp add: step groups_total_def groups_ok_def bm.total_fresh pairs_def)
  next
    case (Some ps)
    then have "pairs = ps" by (simp add: pairs_def)
    with Some show ?thesis
      using ok pair_sum bm.total_update [of groups key ps "bm_sum unat"
          "bm_insert pair (saturating_add n (detail_count d)) pairs"]
      by (simp add: step groups_total_def groups_ok_def)
  qed
  ultimately show ?thesis by simp
qed

lemma fold_group_add_total:
  "groups_ok groups \<Longrightarrow>
   groups_total groups + sum_list (map (unat \<circ> detail_count) ds) < 2 ^ 64 \<Longrightarrow>
   groups_total (fold group_add ds groups) = groups_total groups + sum_list (map (unat \<circ> detail_count) ds)"
proof (induction ds arbitrary: groups)
  case (Cons d ds)
  then have "groups_ok (group_add d groups) \<and>
      groups_total (group_add d groups) = groups_total groups + unat (detail_count d)"
    by (intro group_add_total) auto
  with Cons show ?case by simp
qed simp

end
