(* ===== verification/Replay.thy ===== *)
theory Replay
  imports Unpriced
begin

text \<open>
  \<open>crates/rhei-core/src/budget/replay.rs\<close>: no balance is stored, every number is
  derived by replaying the receipts of the chain. The state a replay builds, the effect of
  each receipt kind on it with every refusal, and the numbers read off it. The binding of
  an identity receipt is \<open>replay_binding\<close> of \<open>budget/identity.rs\<close>, the receipt
  itself is the envelope of \<open>budget/journal.rs\<close>.

  A receipt is applied to a copy of the state and the copy is dropped when it is refused,
  so a refusal here carries no state.
\<close>

record receipt_envelope =
  schema :: string
  project_id :: string
  sequence :: u64
  receipt_id :: string
  previous_hash :: "string option"
  written_at :: string
  actor :: string
  kind :: string
  receipt_window :: "string option"

record 'v receipt = receipt_envelope +
  receipt_payload :: 'v

record 'v reservation =
  payload :: 'v
  ticket :: string
  window :: string
  started :: bool
  released :: bool
  travel_held :: bool
  transition :: "string option"
  spend_reserve :: u64
  settled :: "(u64 \<times> spend_basis \<times> 'v) option"

record 'v state =
  contract_of :: "contract option"
  reservations :: "(string, 'v reservation) bmap"
  travel :: "(string, u64) bmap"
  identities :: "(string, 'v) bmap"
  attempts :: "string bset"
  transitions :: "(string, 'v) bmap"
  highest_day :: "string option"
  currency :: "string option"
  unknown_kinds :: "string bset"
  audit_log :: "'v list"

definition state_default :: "'v state" where
  "state_default =
     \<lparr>contract_of = None, reservations = [], travel = [], identities = [], attempts = [],
      transitions = [], highest_day = None, currency = None, unknown_kinds = [], audit_log = []\<rparr>"

subsection \<open>Reading a payload\<close>

definition req_string :: "'v lib \<Rightarrow> 'v \<Rightarrow> string \<Rightarrow> string res" where
  "req_string L value key =
     (case vstr_at L value key of
        Some s \<Rightarrow> if s \<noteq> [] then Ok s else Err (corrupt (''missing string '' @ quoted key))
      | None \<Rightarrow> Err (corrupt (''missing string '' @ quoted key)))"

definition req_number :: "'v lib \<Rightarrow> 'v \<Rightarrow> string \<Rightarrow> u64 res" where
  "req_number L value key =
     ok_or (corrupt (''missing integer '' @ quoted key)) (vu64_at L value key)"

lemma req_string_Ok: "req_string L v k = Inr s \<longleftrightarrow> vstr_at L v k = Some s \<and> s \<noteq> []"
  by (auto simp: req_string_def split: option.splits)

lemma req_number_Ok: "req_number L v k = Inr n \<longleftrightarrow> vu64_at L v k = Some n"
  by (auto simp: req_number_def ok_or_Ok)

subsection \<open>Identity bindings\<close>

definition is_absolute :: "string \<Rightarrow> bool" where
  "is_absolute path = starts_with path ''/''"

definition sources :: "'v lib \<Rightarrow> 'v \<Rightarrow> string set res" where
  "sources L binding =
     tryb (req_string L binding ''source_path'') (\<lambda>current.
     tryb (case vget L binding ''source_paths'' of
             Some value \<Rightarrow> ok_or (corrupt ''invalid source paths'') (vas_paths L value)
           | None \<Rightarrow> Ok {}) (\<lambda>paths.
       let paths = insert current paths
       in if \<exists>path \<in> paths. \<not> is_absolute path
          then Err (corrupt ''identity source path must be absolute'')
          else Ok paths))"

definition replay_binding :: "'v lib \<Rightarrow> 'v option \<Rightarrow> 'v \<Rightarrow> 'v res" where
  "replay_binding L previous p =
     tryb (sources L p) (\<lambda>paths.
     tryb (if vget L p ''source_paths'' = None
           then (case previous of
                   Some prev \<Rightarrow> tryb (sources L prev) (\<lambda>old. Ok (paths \<union> old))
                 | None \<Rightarrow> Ok paths)
           else Ok paths) (\<lambda>paths.
       Ok (vset L p ''source_paths'' (mk_paths L paths))))"

subsection \<open>Descendants, currency and travel\<close>

definition drawn_step ::
  "'v lib \<Rightarrow> string \<Rightarrow> 'v reservation \<Rightarrow> u64 \<Rightarrow> u64 res" where
  "drawn_step L parent r drawn =
     (if vstr_at L (payload r) ''parent_reservation'' \<noteq> Some parent \<or> released r
      then Ok drawn
      else add drawn 1)"

definition descendants_drawn :: "'v lib \<Rightarrow> 'v state \<Rightarrow> string \<Rightarrow> u64 res" where
  "descendants_drawn L s parent =
     try_fold (drawn_step L parent) (bm_values (reservations s)) 0"

definition authenticate_replayed_ancestor :: "'v lib \<Rightarrow> 'v state \<Rightarrow> 'v \<Rightarrow> unit res" where
  "authenticate_replayed_ancestor L s p =
     (case vstr_at L p ''parent_reservation'' of
        None \<Rightarrow>
          (case vget L p ''parent_reservation'' of
             Some v \<Rightarrow>
               if \<not> vis_null L v
               then Err (corrupt ''ancestry must be a reservation id or null'')
               else Ok ()
           | None \<Rightarrow> Ok ())
      | Some parent \<Rightarrow>
          tryb (ok_or (corrupt ''nested reservation names an unknown ancestor'')
                 (bm_get (reservations s) parent)) (\<lambda>ancestor.
          if \<not> started ancestor \<or> released ancestor
          then Err (corrupt ''nested reservation names an ancestor that was not outstanding'')
          else
            (let envelope =
               (case vu64_at L (payload ancestor) ''descendant_envelope'' of
                  Some n \<Rightarrow> n | None \<Rightarrow> 0)
             in tryb (descendants_drawn L s parent) (\<lambda>drawn.
                tryb (if envelope = 0 then Ok True else tryb (add drawn 1) (\<lambda>n. Ok (n > envelope)))
                  (\<lambda>over.
                if over
                then Err (corrupt ''nested reservation exceeds its ancestor's descendant envelope'')
                else Ok ())))))"

definition fix_currency :: "string \<Rightarrow> 'v state \<Rightarrow> 'v state res" where
  "fix_currency c s =
     (case currency s of
        Some held \<Rightarrow>
          if held \<noteq> c
          then Err (corrupt (''the account is denominated in '' @ held @
                             '' and a receipt carries '' @ c))
          else Ok s
      | None \<Rightarrow> Ok (s\<lparr>currency := Some c\<rparr>))"

definition find_reservation :: "'v lib \<Rightarrow> 'v state \<Rightarrow> 'v \<Rightarrow> (string \<times> 'v reservation) res" where
  "find_reservation L s p =
     tryb (req_string L p ''reservation_id'') (\<lambda>rid.
     tryb (ok_or (corrupt ''receipt refers to an absent reservation'')
            (bm_get (reservations s) rid)) (\<lambda>r. Ok (rid, r)))"

definition put_reservation :: "string \<Rightarrow> 'v reservation \<Rightarrow> 'v state \<Rightarrow> 'v state" where
  "put_reservation rid r s = s\<lparr>reservations := bm_insert rid r (reservations s)\<rparr>"

subsection \<open>The receipt kinds\<close>

definition reserve_amount :: "'v lib \<Rightarrow> 'v \<Rightarrow> u64" where
  "reserve_amount L p = (case vu64_at L p ''spend_reserve_micro'' of Some n \<Rightarrow> n | None \<Rightarrow> 0)"

definition reserve_currency :: "'v lib \<Rightarrow> 'v \<Rightarrow> 'v state \<Rightarrow> 'v state res" where
  "reserve_currency L p s =
     (if reserve_amount L p > 0
      then tryb (req_string L p ''spend_currency'') (\<lambda>c. fix_currency c s)
      else Ok s)"

definition reserve_arm :: "'v lib \<Rightarrow> string \<Rightarrow> 'v \<Rightarrow> 'v state \<Rightarrow> 'v state res" where
  "reserve_arm L project p s =
     tryb (req_string L p ''reservation_id'') (\<lambda>rid.
     tryb (req_string L p ''ticket_identity'') (\<lambda>tkt.
     let expected = ''ticket:'' @ trim_start_matches ''panta:'' project @ '':''
     in if \<not> starts_with tkt expected
        then Err (corrupt ''reservation belongs to another project'')
        else
     tryb (check_uuid L (drop (length expected) tkt)) (\<lambda>_.
     tryb (authenticate_replayed_ancestor L s p) (\<lambda>_.
     tryb (req_number L p ''invocation_units'') (\<lambda>invocation_units.
     if invocation_units \<noteq> 1 then Err (corrupt ''invalid or duplicate reservation'') else
     tryb (req_number L p ''travel_units'') (\<lambda>travel_units.
     if travel_units > 1 then Err (corrupt ''invalid or duplicate reservation'') else
     if bm_contains (reservations s) rid
     then Err (corrupt ''invalid or duplicate reservation'') else
     tryb (req_string L p ''attempt_identity'') (\<lambda>attempt.
     if bm_contains (attempts s) attempt
     then Err (corrupt ''invalid or duplicate reservation'') else
     tryb (req_string L p ''window'') (\<lambda>day.
     tryb (reserve_currency L p (s\<lparr>attempts := bs_insert attempt (attempts s)\<rparr>)) (\<lambda>s2.
     Ok (put_reservation rid
           \<lparr>payload = p, ticket = tkt, window = day, started = False, released = False,
            travel_held = (travel_units = 1), transition = None,
            spend_reserve = reserve_amount L p, settled = None\<rparr> s2))))))))))"

definition apply_initialize :: "'v lib \<Rightarrow> 'v \<Rightarrow> 'v state \<Rightarrow> 'v state res" where
  "apply_initialize L p s =
     (if contract_of s \<noteq> None then Err (corrupt ''duplicate initialization'')
      else tryb (from_json L (vindex L p ''contract'')) (\<lambda>c.
           Ok (s\<lparr>contract_of := Some c, audit_log := audit_log s @ [p]\<rparr>)))"

definition apply_identity :: "'v lib \<Rightarrow> 'v \<Rightarrow> 'v state \<Rightarrow> 'v state res" where
  "apply_identity L p s =
     tryb (req_string L p ''ticket_identity'') (\<lambda>tkt.
     tryb (req_string L p ''display_id'') (\<lambda>_.
     tryb (replay_binding L (bm_get (identities s) tkt) p) (\<lambda>binding.
     Ok (s\<lparr>identities := bm_insert tkt binding (identities s)\<rparr>))))"

definition apply_reserve :: "'v lib \<Rightarrow> string \<Rightarrow> 'v \<Rightarrow> 'v state \<Rightarrow> 'v state res" where
  "apply_reserve L project p s =
     tryb (ok_or (corrupt ''reservation receipt has no arms'')
            (Option.bind (vget L p ''reservations'') (vas_array L))) (\<lambda>arms.
     if arms = [] then Err (corrupt ''empty fanout reservation'')
     else try_fold (reserve_arm L project) arms s)"

definition apply_start :: "'v lib \<Rightarrow> 'v \<Rightarrow> 'v state \<Rightarrow> 'v state res" where
  "apply_start L p s =
     tryb (find_reservation L s p) (\<lambda>(rid, r).
     if released r then Err (corrupt ''invalid start receipt'') else
     tryb (req_string L p ''status'') (\<lambda>status.
     if status \<noteq> ''confirmed'' \<and> status \<noteq> ''ambiguous''
     then Err (corrupt ''invalid start receipt'')
     else Ok (put_reservation rid (r\<lparr>started := True\<rparr>) s)))"

definition apply_release :: "'v lib \<Rightarrow> 'v \<Rightarrow> 'v state \<Rightarrow> 'v state res" where
  "apply_release L p s =
     tryb (find_reservation L s p) (\<lambda>(rid, r).
     if vbool_at L p ''travel_only'' = Some True then
       (if transition r \<noteq> None then Err (corrupt ''applied travel cannot be released'')
        else Ok (put_reservation rid (r\<lparr>travel_held := False\<rparr>) s))
     else
       (if started r \<or> vstr_at L p ''proof'' \<noteq> Some ''no_start_record''
        then Err (corrupt ''a possible start cannot refund an invocation'')
        else Ok (put_reservation rid (r\<lparr>released := True, travel_held := False\<rparr>) s)))"

definition convert_travel :: "'v lib \<Rightarrow> 'v \<Rightarrow> string \<Rightarrow> string \<Rightarrow> 'v state \<Rightarrow> 'v state res" where
  "convert_travel L p rid tkt s =
     (case vstr_at L p ''reservation_id'' of
        None \<Rightarrow> Ok s
      | Some reservation_id \<Rightarrow>
          tryb (ok_or (corrupt ''transition names an absent reservation'')
                 (bm_get (reservations s) reservation_id)) (\<lambda>r.
          if \<not> travel_held r \<or> released r \<or> transition r \<noteq> None \<or> ticket r \<noteq> tkt
          then Err (corrupt ''transition has no matching reserved travel'')
          else Ok (put_reservation reservation_id
                     (r\<lparr>travel_held := False, transition := Some rid\<rparr>) s)))"

definition record_transition :: "'v lib \<Rightarrow> 'v \<Rightarrow> string \<Rightarrow> 'v state \<Rightarrow> 'v state res" where
  "record_transition L p rid s =
     tryb (req_string L p ''ticket_identity'') (\<lambda>tkt.
     tryb (req_string L p ''from'') (\<lambda>_.
     tryb (req_string L p ''to'') (\<lambda>_.
     tryb (convert_travel L p rid tkt s) (\<lambda>s1.
     tryb (add (case bm_get (travel s1) tkt of Some n \<Rightarrow> n | None \<Rightarrow> 0) 1) (\<lambda>n.
     Ok (s1\<lparr>travel := bm_insert tkt n (travel s1),
            transitions := bm_insert rid p (transitions s1)\<rparr>))))))"

definition apply_transition :: "'v lib \<Rightarrow> 'v \<Rightarrow> 'v state \<Rightarrow> 'v state res" where
  "apply_transition L p s =
     tryb (req_string L p ''transition_receipt_id'') (\<lambda>rid.
     if \<not> starts_with rid ''transition:'' then Err (corrupt ''malformed transition receipt id'')
     else case bm_get (transitions s) rid of
       Some previous \<Rightarrow>
         if previous = p then Ok s else Err (corrupt ''conflicting transition replay'')
     | None \<Rightarrow> record_transition L p rid s)"

definition apply_spend :: "'v lib \<Rightarrow> 'v \<Rightarrow> 'v state \<Rightarrow> 'v state res" where
  "apply_spend L p s =
     tryb (req_string L p ''currency'') (\<lambda>c.
     tryb (req_string L p ''basis'') (\<lambda>written.
     tryb (ok_or (corrupt ''spend receipt names an unknown basis'') (basis_parse written)) (\<lambda>basis.
     tryb (req_number L p ''amount_micro'') (\<lambda>amount.
     tryb (fix_currency c s) (\<lambda>s1.
     tryb (find_reservation L s1 p) (\<lambda>(rid, r).
     case settled r of
       Some (_, _, previous) \<Rightarrow>
         if previous = p then Ok s1
         else Err (corrupt ''conflicting spend settle for one reservation'')
     | None \<Rightarrow>
         if released r then Err (corrupt ''a released reservation spent nothing'')
         else Ok (put_reservation rid (r\<lparr>settled := Some (amount, basis, p)\<rparr>) s1)))))))"

subsection \<open>The numbers\<close>

definition counter_step ::
  "string option \<Rightarrow> 'v reservation \<Rightarrow> counter \<Rightarrow> counter res" where
  "counter_step day r c =
     (if released r \<or> (case day of Some d \<Rightarrow> window r \<noteq> d | None \<Rightarrow> False) then Ok c
      else if started r
           then tryb (add (consumed c) 1) (\<lambda>n. Ok (c\<lparr>consumed := n\<rparr>))
           else tryb (add (reserved c) 1) (\<lambda>n. Ok (c\<lparr>reserved := n\<rparr>)))"

definition state_counter :: "'v state \<Rightarrow> string option \<Rightarrow> counter res" where
  "state_counter s day = try_fold (counter_step day) (bm_values (reservations s)) counter_default"

definition lifetime_counter :: "'v state \<Rightarrow> counter res" where
  "lifetime_counter s = state_counter s None"

definition apply_adjust :: "'v lib \<Rightarrow> 'v \<Rightarrow> 'v state \<Rightarrow> 'v state res" where
  "apply_adjust L p s =
     tryb (from_json L (vindex L p ''new'')) (\<lambda>next.
     tryb (ok_or (corrupt ''adjustment before initialization'') (contract_of s)) (\<lambda>current.
     if vindex L p ''old'' \<noteq> to_json L current
     then Err (corrupt ''adjustment names the wrong prior contract'')
     else
     tryb (case next of
             Lifetime a \<Rightarrow>
               tryb (lifetime_counter s) (\<lambda>c.
               tryb (exposure c) (\<lambda>spent.
               if a < spent
               then Err (corrupt ''adjustment is below settled plus outstanding exposure'')
               else Ok ()))
           | Window \<Rightarrow> Ok ()) (\<lambda>_.
     Ok (s\<lparr>contract_of := Some next, audit_log := audit_log s @ [p]\<rparr>))))"

definition note_window :: "string option \<Rightarrow> 'v state \<Rightarrow> 'v state" where
  "note_window w s =
     (case w of
        None \<Rightarrow> s
      | Some day \<Rightarrow>
          (case highest_day s of
             None \<Rightarrow> s\<lparr>highest_day := Some day\<rparr>
           | Some highest \<Rightarrow> if day > highest then s\<lparr>highest_day := Some day\<rparr> else s))"

definition apply_receipt :: "'v lib \<Rightarrow> 'v receipt \<Rightarrow> 'v state \<Rightarrow> 'v state res" where
  "apply_receipt L rc s =
     (let p = receipt_payload rc
      in if contract_of s = None \<and> kind rc \<noteq> ''initialize''
         then Err (corrupt ''first receipt must establish the account'')
         else
      let s1 = note_window (receipt_window rc) s
      in if kind rc = ''initialize'' then apply_initialize L p s1
         else if kind rc = ''identity'' then apply_identity L p s1
         else if kind rc = ''reserve'' then apply_reserve L (project_id rc) p s1
         else if kind rc = ''start'' then apply_start L p s1
         else if kind rc = ''release'' then apply_release L p s1
         else if kind rc = ''transition'' then apply_transition L p s1
         else if kind rc = ''adjust'' then apply_adjust L p s1
         else if kind rc = ''spend'' then apply_spend L p s1
         else Ok (s1\<lparr>unknown_kinds := bs_insert (kind rc) (unknown_kinds s1)\<rparr>))"

subsection \<open>The day's spend and the snapshot\<close>

record spend_acc =
  acc_counter :: counter
  acc_marks :: spend_marks
  acc_unsettled :: "string list"
  acc_unpriced :: "(pricing_context, u64) bmap"

definition spend_acc_default :: spend_acc where
  "spend_acc_default =
     \<lparr>acc_counter = counter_default, acc_marks = marks_default, acc_unsettled = [],
      acc_unpriced = []\<rparr>"

definition count_basis :: "'v lib \<Rightarrow> spend_basis \<Rightarrow> 'v \<Rightarrow> spend_acc \<Rightarrow> spend_acc res" where
  "count_basis L basis rc a =
     (let marks = acc_marks a in
      case basis of
        Measured \<Rightarrow> Ok a
      | Unpriced \<Rightarrow>
          tryb (add (unpriced marks) 1) (\<lambda>n.
          let ctx = context_from_json L (vget L rc ''pricing_context'')
          in tryb (add (case bm_get (acc_unpriced a) ctx of Some k \<Rightarrow> k | None \<Rightarrow> 0) 1) (\<lambda>k.
             Ok (a\<lparr>acc_marks := marks\<lparr>unpriced := n\<rparr>,
                   acc_unpriced := bm_insert ctx k (acc_unpriced a)\<rparr>)))
      | Unmeasurable \<Rightarrow>
          tryb (add (unmeasurable marks) 1) (\<lambda>n.
          Ok (a\<lparr>acc_marks := marks\<lparr>unmeasurable := n\<rparr>\<rparr>)))"

definition spend_step :: "'v lib \<Rightarrow> string \<Rightarrow> 'v reservation \<Rightarrow> spend_acc \<Rightarrow> spend_acc res" where
  "spend_step L day r a =
     (if released r \<or> spend_reserve r = 0 \<or> window r \<noteq> day then Ok a
      else case settled r of
        Some (amount, basis, rc) \<Rightarrow>
          tryb (add (consumed (acc_counter a)) amount) (\<lambda>n.
          count_basis L basis rc (a\<lparr>acc_counter := (acc_counter a)\<lparr>consumed := n\<rparr>\<rparr>))
      | None \<Rightarrow>
          tryb (add (reserved (acc_counter a)) (spend_reserve r)) (\<lambda>n.
          let a1 = a\<lparr>acc_counter := (acc_counter a)\<lparr>reserved := n\<rparr>\<rparr>
          in Ok (if started r
                 then (case vstr_at L (payload r) ''execution_root'' of
                         Some root \<Rightarrow> a1\<lparr>acc_unsettled := acc_unsettled a1 @ [root]\<rparr>
                       | None \<Rightarrow> a1)
                 else a1)))"

type_synonym day_spend = "counter \<times> spend_marks \<times> string list \<times> unpriced_detail list"

definition state_spend :: "'v lib \<Rightarrow> 'v state \<Rightarrow> string \<Rightarrow> day_spend res" where
  "state_spend L s day =
     tryb (try_fold (spend_step L day) (bm_values (reservations s)) spend_acc_default) (\<lambda>a.
     Ok (acc_counter a, acc_marks a, acc_unsettled a, tally (acc_unpriced a)))"

record 'v snapshot =
  snap_project_id :: string
  snap_contract :: contract
  snap_day :: string
  invocations :: counter
  lifetime_invocations :: counter
  snap_travel :: "(string, counter) bmap"
  snap_spend :: counter
  snap_currency :: "string option"
  spend_marks :: spend_marks
  spend_unpriced :: "unpriced_detail list"
  spend_unsettled_roots :: "string list"
  snap_reservations :: "(string, 'v) bmap"
  health :: string

definition counter_or_default :: "counter option \<Rightarrow> counter" where
  "counter_or_default c = (case c of Some k \<Rightarrow> k | None \<Rightarrow> counter_default)"

definition applied_travel :: "(string, u64) bmap \<Rightarrow> (string, counter) bmap" where
  "applied_travel m =
     fold (\<lambda>(tkt, applied) t.
             bm_insert tkt ((counter_or_default (bm_get t tkt))\<lparr>consumed := applied\<rparr>) t) m []"

definition held_step ::
  "'v reservation \<Rightarrow> (string, counter) bmap \<Rightarrow> (string, counter) bmap res" where
  "held_step r t =
     (if released r \<or> \<not> travel_held r then Ok t
      else let held = counter_or_default (bm_get t (ticket r))
           in tryb (add (reserved held) 1) (\<lambda>n.
              Ok (bm_insert (ticket r) (held\<lparr>reserved := n\<rparr>) t)))"

definition reservation_row :: "'v lib \<Rightarrow> 'v reservation \<Rightarrow> 'v" where
  "reservation_row L r =
     vset L (vset L (payload r) ''started'' (mk_bool L (started r)))
       ''released'' (mk_bool L (released r))"

definition state_snapshot :: "'v lib \<Rightarrow> 'v state \<Rightarrow> string \<Rightarrow> string \<Rightarrow> 'v snapshot res" where
  "state_snapshot L s project day =
     tryb (ok_or (corrupt ''missing account initialization'') (contract_of s)) (\<lambda>c.
     tryb (case c of Window \<Rightarrow> state_counter s (Some day) | Lifetime _ \<Rightarrow> lifetime_counter s)
       (\<lambda>inv.
     tryb (state_spend L s day) (\<lambda>(spend, marks, unsettled_roots, unpriced_list).
     tryb (try_fold held_step (bm_values (reservations s)) (applied_travel (travel s))) (\<lambda>t.
     tryb (lifetime_counter s) (\<lambda>lifetime.
     Ok \<lparr>snap_project_id = project, snap_contract = c, snap_day = day, invocations = inv,
         lifetime_invocations = lifetime, snap_travel = t, snap_spend = spend,
         snap_currency = currency s, spend_marks = marks, spend_unpriced = unpriced_list,
         spend_unsettled_roots = unsettled_roots,
         snap_reservations = map (\<lambda>(rid, r). (rid, reservation_row L r)) (reservations s),
         health = ''verified''\<rparr>)))))"

definition travel_for :: "'v snapshot \<Rightarrow> string \<Rightarrow> counter" where
  "travel_for snap tkt = counter_or_default (bm_get (snap_travel snap) tkt)"

definition invocation_bound :: "'v snapshot \<Rightarrow> u64 \<Rightarrow> u64" where
  "invocation_bound snap per_day =
     (case snap_contract snap of Window \<Rightarrow> per_day | Lifetime a \<Rightarrow> a)"

definition snapshot_marks :: "'v snapshot \<Rightarrow> (string \<Rightarrow> bool) \<Rightarrow> spend_marks" where
  "snapshot_marks snap is_run_gone =
     (spend_marks snap)
       \<lparr>unsettled := of_nat (length (filter is_run_gone (spend_unsettled_roots snap))),
        unpriced_details := spend_unpriced snap\<rparr>"

end
