(* ===== verification/Replay_Laws.thy ===== *)
theory Replay_Laws
  imports Replay
begin

text \<open>
  What replay keeps. A reservation only ever evolves: its payload, ticket, day and reserve
  stay, a start, a release, an applied edge and a settle are never undone. The state
  invariant says how the receipts the account holds agree with each other, and the bound a
  parent sets on what its descendants draw. Both are proved for one receipt of each kind
  and carried to a whole chain by the loop interfaces of the prelude.
\<close>

named_theorems kind_cases \<open>what a receipt that was taken did to the state\<close>

subsection \<open>Evolution of one reservation\<close>

definition evolves :: "'v reservation \<Rightarrow> 'v reservation \<Rightarrow> bool" where
  "evolves r r' \<longleftrightarrow>
     payload r' = payload r \<and> ticket r' = ticket r \<and> window r' = window r \<and>
     spend_reserve r' = spend_reserve r \<and>
     (started r \<longrightarrow> started r') \<and> (released r \<longrightarrow> released r') \<and>
     (travel_held r' \<longrightarrow> travel_held r) \<and>
     (\<forall>t. transition r = Some t \<longrightarrow> transition r' = Some t) \<and>
     (\<forall>x. settled r = Some x \<longrightarrow> settled r' = Some x)"

lemma evolves_refl [simp]: "evolves r r"
  by (simp add: evolves_def)

lemma evolves_trans: "evolves a b \<Longrightarrow> evolves b c \<Longrightarrow> evolves a c"
  by (auto simp: evolves_def)

definition reservation_ok :: "'v reservation \<Rightarrow> bool" where
  "reservation_ok r \<longleftrightarrow>
     \<not> (started r \<and> released r) \<and>
     (released r \<longrightarrow> \<not> travel_held r) \<and>
     (transition r \<noteq> None \<longrightarrow> \<not> travel_held r \<and> \<not> (released r \<and> started r))"

subsection \<open>What each kind does\<close>

lemma find_reservation_Ok:
  "find_reservation L s p = Inr (rid, r) \<longleftrightarrow>
   vstr_at L p ''reservation_id'' = Some rid \<and> rid \<noteq> [] \<and> bm_get (reservations s) rid = Some r"
  by (auto simp: find_reservation_def res_simps req_string_Ok)

lemma fix_currency_Ok:
  "fix_currency c s = Inr s' \<longleftrightarrow>
   (currency s = Some c \<and> s' = s) \<or> (currency s = None \<and> s' = s\<lparr>currency := Some c\<rparr>)"
  by (auto simp: fix_currency_def split: option.splits)

lemma apply_start_Ok [kind_cases]:
  "apply_start L p s = Inr s' \<Longrightarrow>
   \<exists>rid r. bm_get (reservations s) rid = Some r \<and> \<not> released r \<and>
     s' = put_reservation rid (r\<lparr>started := True\<rparr>) s"
  by (auto simp: apply_start_def res_simps find_reservation_Ok req_string_Ok split: if_splits)

lemma apply_release_Ok [kind_cases]:
  "apply_release L p s = Inr s' \<Longrightarrow>
   \<exists>rid r. bm_get (reservations s) rid = Some r \<and>
     (transition r = None \<and> s' = put_reservation rid (r\<lparr>travel_held := False\<rparr>) s \<or>
      \<not> started r \<and> s' = put_reservation rid (r\<lparr>released := True, travel_held := False\<rparr>) s)"
  by (auto simp: apply_release_def res_simps find_reservation_Ok split: if_splits)

lemma convert_travel_Ok:
  "convert_travel L p x tkt s = Inr s' \<Longrightarrow>
   (vstr_at L p ''reservation_id'' = None \<and> s' = s) \<or>
   (\<exists>rid r. vstr_at L p ''reservation_id'' = Some rid \<and> bm_get (reservations s) rid = Some r \<and>
      travel_held r \<and> \<not> released r \<and> transition r = None \<and> ticket r = tkt \<and>
      s' = put_reservation rid (r\<lparr>travel_held := False, transition := Some x\<rparr>) s)"
  by (auto simp: convert_travel_def res_simps split: option.splits if_splits)

lemma apply_transition_Ok [kind_cases]:
  "apply_transition L p s = Inr s' \<Longrightarrow>
   \<exists>x. vstr_at L p ''transition_receipt_id'' = Some x \<and>
     (bm_get (transitions s) x = Some p \<and> s' = s \<or>
      bm_get (transitions s) x = None \<and>
      (\<exists>tkt s1 n. vstr_at L p ''ticket_identity'' = Some tkt \<and> tkt \<noteq> [] \<and>
         convert_travel L p x tkt s = Inr s1 \<and>
         unat n = (case bm_get (travel s) tkt of Some k \<Rightarrow> unat k | None \<Rightarrow> 0) + 1 \<and>
         s' = s1\<lparr>travel := bm_insert tkt n (travel s),
                 transitions := bm_insert x p (transitions s)\<rparr>))"
proof -
  assume "apply_transition L p s = Inr s'"
  then obtain x where x: "req_string L p ''transition_receipt_id'' = Inr x"
    and rest: "(case bm_get (transitions s) x of
       Some previous \<Rightarrow>
         if previous = p then Ok s else Err (corrupt ''conflicting transition replay'')
     | None \<Rightarrow> record_transition L p x s) = Inr s'"
    unfolding apply_transition_def by (elim ok_elims) (rule that)
  show ?thesis
  proof (cases "bm_get (transitions s) x")
    case (Some previous)
    with rest x show ?thesis by (auto simp: req_string_Ok split: if_splits)
  next
    case None
    with rest have "record_transition L p x s = Inr s'" by simp
    then obtain tkt s1 n where
      tkt: "req_string L p ''ticket_identity'' = Inr tkt"
      and s1: "convert_travel L p x tkt s = Inr s1"
      and n: "add (case bm_get (travel s1) tkt of Some n \<Rightarrow> n | None \<Rightarrow> 0) 1 = Inr n"
      and s': "Inr (s1\<lparr>travel := bm_insert tkt n (travel s1),
                transitions := bm_insert x p (transitions s1)\<rparr>) = (Inr s' :: 'a state res)"
      unfolding record_transition_def by (elim ok_elims) (rule that)
    have keep: "travel s1 = travel s" "transitions s1 = transitions s"
      using convert_travel_Ok [OF s1] by (auto simp: put_reservation_def)
    have "unat n = (case bm_get (travel s) tkt of Some k \<Rightarrow> unat k | None \<Rightarrow> 0) + 1"
      using n keep by (auto simp: add_Ok split: option.splits)
    with None x tkt s1 s' keep show ?thesis by (auto simp: req_string_Ok)
  qed
qed

lemma apply_spend_Ok [kind_cases]:
  "apply_spend L p s = Inr s' \<Longrightarrow>
   \<exists>c s1 rid r. vstr_at L p ''currency'' = Some c \<and> fix_currency c s = Inr s1 \<and>
     bm_get (reservations s) rid = Some r \<and>
     ((\<exists>a b. settled r = Some (a, b, p)) \<and> s' = s1 \<or>
      settled r = None \<and> \<not> released r \<and>
      (\<exists>amount basis. s' = put_reservation rid (r\<lparr>settled := Some (amount, basis, p)\<rparr>) s1))"
proof -
  assume "apply_spend L p s = Inr s'"
  then obtain c basis amount s1 rid r where
    c: "req_string L p ''currency'' = Inr c" and s1: "fix_currency c s = Inr s1"
    and r: "find_reservation L s1 p = Inr (rid, r)"
    and rest: "(case settled r of
       Some (_, _, previous) \<Rightarrow>
         if previous = p then Ok s1
         else Err (corrupt ''conflicting spend settle for one reservation'')
     | None \<Rightarrow>
         if released r then Err (corrupt ''a released reservation spent nothing'')
         else Ok (put_reservation rid (r\<lparr>settled := Some (amount, basis, p)\<rparr>) s1)) = Inr s'"
    unfolding apply_spend_def
    by (elim ok_elims) (rule that)
  have keep: "reservations s1 = reservations s" using s1 by (auto simp: fix_currency_Ok)
  with c r have c: "vstr_at L p ''currency'' = Some c"
    and r: "bm_get (reservations s) rid = Some r"
    by (simp_all add: req_string_Ok find_reservation_Ok)
  show ?thesis
  proof (cases "settled r")
    case None
    with rest have "\<not> released r" and "s' = put_reservation rid (r\<lparr>settled := Some (amount, basis, p)\<rparr>) s1"
      by (auto split: if_splits)
    with c s1 r None show ?thesis by metis
  next
    case (Some x)
    with rest have "s' = s1" and "\<exists>a b. settled r = Some (a, b, p)"
      by (cases x, auto split: if_splits)+
    with c s1 r show ?thesis by metis
  qed
qed

lemma apply_initialize_Ok [kind_cases]:
  "apply_initialize L p s = Inr s' \<Longrightarrow>
   contract_of s = None \<and>
   (\<exists>c. s' = s\<lparr>contract_of := Some c, audit_log := audit_log s @ [p]\<rparr>)"
  by (auto simp: apply_initialize_def res_simps split: if_splits)

lemma apply_identity_Ok [kind_cases]:
  "apply_identity L p s = Inr s' \<Longrightarrow>
   \<exists>tkt b. replay_binding L (bm_get (identities s) tkt) p = Inr b \<and>
     s' = s\<lparr>identities := bm_insert tkt b (identities s)\<rparr>"
  by (auto simp: apply_identity_def res_simps)

lemma apply_adjust_Ok [kind_cases]:
  "apply_adjust L p s = Inr s' \<Longrightarrow>
   \<exists>old c. contract_of s = Some old \<and> from_json L (vindex L p ''new'') = Inr c \<and>
     (\<forall>a. c = Lifetime a \<longrightarrow>
        (\<exists>k spent. lifetime_counter s = Inr k \<and> exposure k = Inr spent \<and> \<not> a < spent)) \<and>
     s' = s\<lparr>contract_of := Some c, audit_log := audit_log s @ [p]\<rparr>"
  by (auto simp: apply_adjust_def res_simps split: if_splits contract.splits)

definition parent_of :: "'v lib \<Rightarrow> 'v reservation \<Rightarrow> string option" where
  "parent_of L r = vstr_at L (payload r) ''parent_reservation''"

definition envelope_of :: "'v lib \<Rightarrow> 'v reservation \<Rightarrow> nat" where
  "envelope_of L r =
     (case vu64_at L (payload r) ''descendant_envelope'' of Some n \<Rightarrow> unat n | None \<Rightarrow> 0)"

definition draws :: "'v lib \<Rightarrow> string \<Rightarrow> 'v reservation \<Rightarrow> nat" where
  "draws L parent r = of_bool (parent_of L r = Some parent \<and> \<not> released r)"

definition drawn_count :: "'v lib \<Rightarrow> 'v state \<Rightarrow> string \<Rightarrow> nat" where
  "drawn_count L s parent = bm_sum (draws L parent) (reservations s)"

interpretation drawn: bounded_loop "drawn_step L parent" "\<lambda>_. True" unat "draws L parent" "2 ^ 64"
proof unfold_locales
  fix r and n m :: u64
  show "drawn_step L parent r n = Inr m \<Longrightarrow> unat m = unat n + draws L parent r"
    by (auto simp: drawn_step_def draws_def parent_of_def add_Ok split: if_splits)
  show "unat n + draws L parent r < 2 ^ 64 \<Longrightarrow> \<exists>m. drawn_step L parent r n = Inr m"
    using add_total [of n 1] by (auto simp: drawn_step_def draws_def parent_of_def)
qed

lemma descendants_drawn_Ok:
  "descendants_drawn L s parent = Inr m \<Longrightarrow> unat m = drawn_count L s parent"
  by (auto simp: descendants_drawn_def drawn_count_def bm_sum_def dest: drawn.loop_adds [OF TrueI])

lemma authenticate_Ok:
  "authenticate_replayed_ancestor L s p = Inr () \<Longrightarrow>
   vstr_at L p ''parent_reservation'' = Some parent \<Longrightarrow>
   \<exists>a. bm_get (reservations s) parent = Some a \<and> started a \<and> \<not> released a \<and>
     drawn_count L s parent + 1 \<le> envelope_of L a"
  by (auto simp: authenticate_replayed_ancestor_def res_simps Let_def envelope_of_def add_Ok
      word_to_nat not_less dest!: descendants_drawn_Ok split: option.splits if_splits)

definition fresh_reservation ::
  "'v lib \<Rightarrow> 'v state \<Rightarrow> 'v \<Rightarrow> string \<Rightarrow> 'v reservation \<Rightarrow> bool" where
  "fresh_reservation L s p rid r \<longleftrightarrow>
     bm_get (reservations s) rid = None \<and> payload r = p \<and>
     vstr_at L p ''reservation_id'' = Some rid \<and>
     \<not> started r \<and> \<not> released r \<and> transition r = None \<and> settled r = None \<and>
     (\<forall>parent. parent_of L r = Some parent \<longrightarrow>
        (\<exists>a. bm_get (reservations s) parent = Some a \<and> started a \<and> \<not> released a \<and>
           drawn_count L s parent + 1 \<le> envelope_of L a))"

lemma reserve_arm_Ok:
  "reserve_arm L project p s = Inr s' \<Longrightarrow>
   \<exists>rid r attempt s2. fresh_reservation L s p rid r \<and>
     vstr_at L p ''attempt_identity'' = Some attempt \<and> \<not> bm_contains (attempts s) attempt \<and>
     vstr_at L p ''window'' = Some (window r) \<and>
     vstr_at L p ''ticket_identity'' = Some (ticket r) \<and>
     vu64_at L p ''travel_units'' = Some (if travel_held r then 1 else 0) \<and>
     spend_reserve r = reserve_amount L p \<and>
     (s2 = s\<lparr>attempts := bs_insert attempt (attempts s)\<rparr> \<or>
      (\<exists>c. fix_currency c (s\<lparr>attempts := bs_insert attempt (attempts s)\<rparr>) = Inr s2)) \<and>
     s' = put_reservation rid r s2"
proof -
  let ?s1 = "\<lambda>attempt. s\<lparr>attempts := bs_insert attempt (attempts s)\<rparr>"
  assume "reserve_arm L project p s = Inr s'"
  then obtain rid tkt u units attempt day s2 where
    rid: "req_string L p ''reservation_id'' = Inr rid"
    and tkt: "req_string L p ''ticket_identity'' = Inr tkt"
    and auth: "authenticate_replayed_ancestor L s p = Inr u"
    and units: "req_number L p ''travel_units'' = Inr units" "\<not> units > 1"
    and new: "\<not> bm_contains (reservations s) rid"
    and attempt: "req_string L p ''attempt_identity'' = Inr attempt"
      "\<not> bm_contains (attempts s) attempt"
    and day: "req_string L p ''window'' = Inr day"
    and s2: "reserve_currency L p (?s1 attempt) = Inr s2"
    and s': "Inr (put_reservation rid
              \<lparr>payload = p, ticket = tkt, window = day, started = False, released = False,
               travel_held = (units = 1), transition = None,
               spend_reserve = reserve_amount L p, settled = None\<rparr> s2) = (Inr s' :: 'a state res)"
    unfolding reserve_arm_def Let_def by (elim ok_elims) (rule that)
  let ?r = "\<lparr>payload = p, ticket = tkt, window = day, started = False, released = False,
    travel_held = (units = 1), transition = None,
    spend_reserve = reserve_amount L p, settled = None\<rparr>"
  have "fresh_reservation L s p rid ?r"
    using rid new authenticate_Ok [of L s p] auth
    by (auto simp: fresh_reservation_def parent_of_def bm_contains_def req_string_Ok)
  moreover have "units = 0 \<or> units = 1"
    using units(2) by (simp add: word_to_nat word_unat_eq_iff) linarith
  moreover have "s2 = ?s1 attempt \<or> (\<exists>c. fix_currency c (?s1 attempt) = Inr s2)"
    using s2 by (auto simp: reserve_currency_def res_simps split: if_splits)
  ultimately show ?thesis
    using tkt units(1) attempt day s'
    by (intro exI [of _ rid] exI [of _ ?r] exI [of _ attempt] exI [of _ s2])
      (auto simp: req_string_Ok req_number_Ok)
qed

end
