(* ===== verification/Replay_Inv.thy ===== *)
theory Replay_Inv
  imports Replay_Laws
begin

text \<open>
  What a whole replay keeps. \<open>state_le\<close> says that a later state holds everything an
  earlier one did, with every reservation evolved; \<open>state_ok\<close> is the invariant of the
  derived state. Each is shown for one receipt of each kind, discharges the law of one of
  the loop interfaces of the prelude, and comes back as a fact about every chain.
\<close>

subsection \<open>Growth\<close>

definition travel_of :: "'v state \<Rightarrow> string \<Rightarrow> nat" where
  "travel_of s tkt = (case bm_get (travel s) tkt of Some n \<Rightarrow> unat n | None \<Rightarrow> 0)"

fun day_le :: "string option \<Rightarrow> string option \<Rightarrow> bool" where
  "day_le None d = True"
| "day_le (Some d) None = False"
| "day_le (Some d) (Some e) = (d \<le> e)"

lemma day_le_refl [simp]: "day_le d d"
  by (cases d) auto

lemma day_le_trans: "day_le a b \<Longrightarrow> day_le b c \<Longrightarrow> day_le a c"
  by (cases a; cases b; cases c) auto

definition reservations_le ::
  "(string, 'v reservation) bmap \<Rightarrow> (string, 'v reservation) bmap \<Rightarrow> bool" where
  "reservations_le m m' \<longleftrightarrow>
     (\<forall>rid r. bm_get m rid = Some r \<longrightarrow> (\<exists>r'. bm_get m' rid = Some r' \<and> evolves r r'))"

definition state_le :: "'v state \<Rightarrow> 'v state \<Rightarrow> bool" where
  "state_le s s' \<longleftrightarrow>
     reservations_le (reservations s) (reservations s') \<and>
     (\<forall>x. bm_contains (attempts s) x \<longrightarrow> bm_contains (attempts s') x) \<and>
     bm_get (transitions s) \<subseteq>\<^sub>m bm_get (transitions s') \<and>
     (\<forall>c. currency s = Some c \<longrightarrow> currency s' = Some c) \<and>
     (contract_of s \<noteq> None \<longrightarrow> contract_of s' \<noteq> None) \<and>
     day_le (highest_day s) (highest_day s') \<and>
     (\<forall>tkt. travel_of s tkt \<le> travel_of s' tkt) \<and>
     (\<exists>later. audit_log s' = audit_log s @ later)"

lemma reservations_le_refl [simp]: "reservations_le m m"
  by (auto simp: reservations_le_def)

lemma reservations_le_trans:
  "reservations_le a b \<Longrightarrow> reservations_le b c \<Longrightarrow> reservations_le a c"
  unfolding reservations_le_def by (meson evolves_trans)

lemma reservations_le_update:
  "bm_get m rid = Some r \<Longrightarrow> evolves r r' \<Longrightarrow> reservations_le m (bm_insert rid r' m)"
  by (auto simp: reservations_le_def)

lemma reservations_le_new:
  "bm_get m rid = None \<Longrightarrow> reservations_le m (bm_insert rid r' m)"
  by (auto simp: reservations_le_def)

lemma state_le_refl [simp]: "state_le s s"
  by (simp add: state_le_def)

lemma state_le_trans: "state_le s t \<Longrightarrow> state_le t u \<Longrightarrow> state_le s u"
  unfolding state_le_def
  by (auto intro: reservations_le_trans map_le_trans day_le_trans order_trans)

lemma state_le_put:
  "bm_get (reservations s) rid = Some r \<Longrightarrow> evolves r r' \<Longrightarrow>
   state_le s (put_reservation rid r' s)"
  by (simp add: state_le_def put_reservation_def travel_of_def reservations_le_update)

lemma state_le_put_new:
  "bm_get (reservations s) rid = None \<Longrightarrow> state_le s (put_reservation rid r s)"
  by (simp add: state_le_def put_reservation_def travel_of_def reservations_le_new)

lemma state_le_currency: "fix_currency c s = Inr s' \<Longrightarrow> state_le s s'"
  by (auto simp: fix_currency_Ok state_le_def travel_of_def)

lemma state_le_window: "state_le s (note_window w s)"
  by (auto simp: note_window_def state_le_def travel_of_def split: option.splits)

lemma convert_travel_le: "convert_travel L p x tkt s = Inr s' \<Longrightarrow> state_le s s'"
  by (drule convert_travel_Ok)
    (auto intro!: state_le_put simp: evolves_def simp del: split_paired_All)

lemma convert_travel_keeps:
  assumes "convert_travel L p x tkt s = Inr s'"
  shows "travel s' = travel s" and "transitions s' = transitions s"
  using convert_travel_Ok [OF assms] by (auto simp: put_reservation_def)

lemma reserve_arm_le: "reserve_arm L project p s = Inr s' \<Longrightarrow> state_le s s'"
proof -
  assume a: "reserve_arm L project p s = Inr s'"
  obtain rid r attempt s2 where fresh: "fresh_reservation L s p rid r"
    and s2: "s2 = s\<lparr>attempts := bs_insert attempt (attempts s)\<rparr> \<or>
      (\<exists>c. fix_currency c (s\<lparr>attempts := bs_insert attempt (attempts s)\<rparr>) = Inr s2)"
    and s': "s' = put_reservation rid r s2"
    using reserve_arm_Ok [OF a] by (elim exE conjE) (rule that)
  let ?s1 = "s\<lparr>attempts := bs_insert attempt (attempts s)\<rparr>"
  have "state_le s ?s1" by (simp add: state_le_def travel_of_def)
  moreover have "state_le ?s1 s2" using s2 state_le_currency by fastforce
  moreover have "bm_get (reservations s2) rid = None"
    using s2 fresh by (auto simp: fresh_reservation_def fix_currency_Ok)
  ultimately show ?thesis using s' by (metis state_le_put_new state_le_trans)
qed

interpretation arms_le: step_monotone "reserve_arm L project" state_le
  by unfold_locales (auto intro: state_le_trans reserve_arm_le)

lemma apply_reserve_le: "apply_reserve L project p s = Inr s' \<Longrightarrow> state_le s s'"
  by (auto simp: apply_reserve_def res_simps dest: arms_le.loop_rel split: if_splits)

lemma apply_transition_le: "apply_transition L p s = Inr s' \<Longrightarrow> state_le s s'"
proof -
  assume a: "apply_transition L p s = Inr s'"
  show ?thesis
  proof (cases "s' = s")
    case False
    with apply_transition_Ok [OF a] obtain x tkt s1 n where
      x: "bm_get (transitions s) x = None" and s1: "convert_travel L p x tkt s = Inr s1"
      and n: "unat n = travel_of s tkt + 1"
      and s': "s' = s1\<lparr>travel := bm_insert tkt n (travel s),
                       transitions := bm_insert x p (transitions s)\<rparr>"
      unfolding travel_of_def by blast
    have "state_le s1 s'"
      using x n s' convert_travel_keeps [OF s1]
      by (auto simp: state_le_def travel_of_def map_le_def dom_def)
    with convert_travel_le [OF s1] show ?thesis by (rule state_le_trans)
  qed simp
qed

lemma apply_spend_le: "apply_spend L p s = Inr s' \<Longrightarrow> state_le s s'"
proof -
  assume a: "apply_spend L p s = Inr s'"
  obtain c s1 rid r where s1: "fix_currency c s = Inr s1"
    and r: "bm_get (reservations s) rid = Some r"
    and s': "s' = s1 \<or> settled r = None \<and>
      (\<exists>amount basis. s' = put_reservation rid (r\<lparr>settled := Some (amount, basis, p)\<rparr>) s1)"
    using apply_spend_Ok [OF a] by (elim exE conjE) (rule that, assumption+, auto)
  have "bm_get (reservations s1) rid = Some r" using s1 r by (auto simp: fix_currency_Ok)
  then have "state_le s1 s'" using s' by (auto intro!: state_le_put simp: evolves_def)
  with state_le_currency [OF s1] show ?thesis by (rule state_le_trans)
qed

lemma apply_plain_le:
  "apply_start L p s = Inr s' \<Longrightarrow> state_le s s'"
  "apply_release L p s = Inr s' \<Longrightarrow> state_le s s'"
  "apply_initialize L p s = Inr s' \<Longrightarrow> state_le s s'"
  "apply_identity L p s = Inr s' \<Longrightarrow> state_le s s'"
  "apply_adjust L p s = Inr s' \<Longrightarrow> state_le s s'"
proof -
  show "apply_start L p s = Inr s' \<Longrightarrow> state_le s s'"
    by (drule apply_start_Ok) (auto intro!: state_le_put simp: evolves_def)
  show "apply_release L p s = Inr s' \<Longrightarrow> state_le s s'"
    by (drule apply_release_Ok) (auto intro!: state_le_put simp: evolves_def)
  show "apply_initialize L p s = Inr s' \<Longrightarrow> state_le s s'"
    by (drule apply_initialize_Ok) (auto simp: state_le_def travel_of_def)
  show "apply_identity L p s = Inr s' \<Longrightarrow> state_le s s'"
    by (drule apply_identity_Ok) (auto simp: state_le_def travel_of_def)
  show "apply_adjust L p s = Inr s' \<Longrightarrow> state_le s s'"
    by (drule apply_adjust_Ok) (auto simp: state_le_def travel_of_def)
qed

lemmas apply_kind_le = apply_plain_le apply_reserve_le apply_transition_le apply_spend_le

lemma apply_receipt_le: "apply_receipt L rc s = Inr s' \<Longrightarrow> state_le s s'"
proof -
  assume "apply_receipt L rc s = Inr s'"
  then have "state_le (note_window (receipt_window rc) s) s'"
    by (auto simp: apply_receipt_def Let_def split: if_splits dest: apply_kind_le)
      (simp add: state_le_def travel_of_def)
  with state_le_window show ?thesis by (rule state_le_trans)
qed

interpretation chain_le: step_monotone "apply_receipt L" state_le
  by unfold_locales (auto intro: state_le_trans apply_receipt_le)

subsection \<open>The invariant\<close>

definition attempt_of :: "'v lib \<Rightarrow> 'v reservation \<Rightarrow> string option" where
  "attempt_of L r = vstr_at L (payload r) ''attempt_identity''"

definition outstanding_at :: "(string, 'v reservation) bmap \<Rightarrow> string \<Rightarrow> bool" where
  "outstanding_at m rid \<longleftrightarrow> (\<exists>q. bm_get m rid = Some q \<and> started q \<and> \<not> released q)"

definition each_ok :: "'v lib \<Rightarrow> (string, 'v reservation) bmap \<Rightarrow> string bset \<Rightarrow> bool" where
  "each_ok L m taken \<longleftrightarrow>
     (\<forall>rid r. bm_get m rid = Some r \<longrightarrow>
        reservation_ok r \<and>
        (\<exists>a. attempt_of L r = Some a \<and> bm_contains taken a) \<and>
        (\<forall>parent. parent_of L r = Some parent \<longrightarrow>
           outstanding_at m parent))"

definition attempts_apart :: "'v lib \<Rightarrow> (string, 'v reservation) bmap \<Rightarrow> bool" where
  "attempts_apart L m \<longleftrightarrow>
     (\<forall>i j r q. bm_get m i = Some r \<longrightarrow> bm_get m j = Some q \<longrightarrow>
        attempt_of L r = attempt_of L q \<longrightarrow> i = j)"

definition envelope_bound :: "'v lib \<Rightarrow> (string, 'v reservation) bmap \<Rightarrow> string \<Rightarrow> nat" where
  "envelope_bound L m parent =
     (case bm_get m parent of Some a \<Rightarrow> envelope_of L a | None \<Rightarrow> 0)"

definition envelopes_ok :: "'v lib \<Rightarrow> (string, 'v reservation) bmap \<Rightarrow> bool" where
  "envelopes_ok L m \<longleftrightarrow> (\<forall>parent. bm_sum (draws L parent) m \<le> envelope_bound L m parent)"

definition edges :: "'v lib \<Rightarrow> (string, 'v) bmap \<Rightarrow> string \<Rightarrow> nat" where
  "edges L m tkt = bm_sum (\<lambda>p. of_bool (vstr_at L p ''ticket_identity'' = Some tkt)) m"

definition links_ok :: "'v lib \<Rightarrow> (string, 'v reservation) bmap \<Rightarrow> (string, 'v) bmap \<Rightarrow> bool" where
  "links_ok L m edge \<longleftrightarrow>
     (\<forall>rid r x. bm_get m rid = Some r \<longrightarrow> transition r = Some x \<longrightarrow>
        (\<exists>p. bm_get edge x = Some p \<and> vstr_at L p ''reservation_id'' = Some rid \<and>
             vstr_at L p ''ticket_identity'' = Some (ticket r)))"

definition books_ok :: "'v lib \<Rightarrow> (string, 'v reservation) bmap \<Rightarrow> string bset \<Rightarrow> bool" where
  "books_ok L m taken \<longleftrightarrow>
     bm_ok m \<and> each_ok L m taken \<and> attempts_apart L m \<and> envelopes_ok L m"

definition state_ok :: "'v lib \<Rightarrow> 'v state \<Rightarrow> bool" where
  "state_ok L s \<longleftrightarrow>
     books_ok L (reservations s) (attempts s) \<and> bm_ok (transitions s) \<and> bm_ok (travel s) \<and>
     (\<forall>tkt. travel_of s tkt = edges L (transitions s) tkt) \<and>
     links_ok L (reservations s) (transitions s)"

lemma state_ok_default [simp]: "state_ok L state_default"
  by (simp add: state_ok_def state_default_def books_ok_def each_ok_def attempts_apart_def
      envelopes_ok_def travel_of_def edges_def links_ok_def)

lemma draws_evolves: "evolves r r' \<Longrightarrow> draws L parent r' \<le> draws L parent r"
  by (auto simp: draws_def parent_of_def evolves_def)

lemma evolves_fields:
  assumes "evolves r r'"
  shows "attempt_of L r' = attempt_of L r" and "parent_of L r' = parent_of L r"
    and "envelope_of L r' = envelope_of L r" and "ticket r' = ticket r"
  using assms by (simp_all add: attempt_of_def parent_of_def envelope_of_def evolves_def)

lemma envelopes_ok_update:
  assumes "bm_ok m" and "bm_get m rid = Some r" and "evolves r r'" and "envelopes_ok L m"
  shows "envelopes_ok L (bm_insert rid r' m)"
proof -
  have "bm_sum (draws L parent) (bm_insert rid r' m) \<le> bm_sum (draws L parent) m" for parent
    using bm.total_drop [OF assms(1,2)] draws_evolves [OF assms(3)] by blast
  moreover have "envelope_bound L (bm_insert rid r' m) parent = envelope_bound L m parent" for parent
    using assms(2) evolves_fields(3) [OF assms(3), of L] by (simp add: envelope_bound_def)
  ultimately show ?thesis
    using assms(4) by (simp add: envelopes_ok_def) (meson order_trans)
qed

lemma outstanding_at_update:
  assumes "bm_get m rid = Some r" and "evolves r r'" and "reservation_ok r'"
    and "outstanding_at m parent"
  shows "outstanding_at (bm_insert rid r' m) parent"
  using assms by (auto simp: outstanding_at_def evolves_def reservation_ok_def)

lemma each_ok_update:
  assumes "bm_get m rid = Some r" and "evolves r r'" and "reservation_ok r'" and "each_ok L m taken"
  shows "each_ok L (bm_insert rid r' m) taken"
  unfolding each_ok_def
proof (intro allI impI)
  fix i q assume "bm_get (bm_insert rid r' m) i = Some q"
  then obtain q0 where q0: "bm_get m i = Some q0"
    and same: "attempt_of L q = attempt_of L q0" "parent_of L q = parent_of L q0"
    and ok: "reservation_ok q0 \<Longrightarrow> reservation_ok q"
    using assms(1,3) evolves_fields(1,2) [OF assms(2), of L] by (cases "i = rid") auto
  show "reservation_ok q \<and> (\<exists>a. attempt_of L q = Some a \<and> bm_contains taken a) \<and>
    (\<forall>parent. parent_of L q = Some parent \<longrightarrow> outstanding_at (bm_insert rid r' m) parent)"
    using assms(4) q0 ok outstanding_at_update [OF assms(1-3)]
    unfolding each_ok_def same by blast
qed

lemma books_ok_update:
  assumes "bm_get m rid = Some r" and "evolves r r'" and "reservation_ok r'" and "books_ok L m taken"
  shows "books_ok L (bm_insert rid r' m) taken"
proof -
  have "attempts_apart L (bm_insert rid r' m)"
    using assms evolves_fields(1) [OF assms(2), of L]
    by (auto simp: books_ok_def attempts_apart_def)
  with assms show ?thesis
    by (simp add: books_ok_def bm_ok_insert each_ok_update envelopes_ok_update)
qed

subsection \<open>A new reservation\<close>

lemma envelopes_ok_new:
  assumes "bm_ok m" and "bm_get m rid = None" and "envelopes_ok L m"
    and room: "\<And>parent. parent_of L r = Some parent \<Longrightarrow>
      \<exists>a. bm_get m parent = Some a \<and> bm_sum (draws L parent) m + 1 \<le> envelope_of L a"
  shows "envelopes_ok L (bm_insert rid r m)"
  unfolding envelopes_ok_def
proof
  fix parent
  have total: "bm_sum (draws L parent) (bm_insert rid r m) =
      bm_sum (draws L parent) m + draws L parent r"
    by (rule bm.total_fresh [OF assms(1,2)])
  have old: "bm_sum (draws L parent) m \<le> envelope_bound L m parent"
    using assms(3) by (simp add: envelopes_ok_def)
  show "bm_sum (draws L parent) (bm_insert rid r m) \<le> envelope_bound L (bm_insert rid r m) parent"
  proof (cases "parent_of L r = Some parent")
    case True
    then obtain a where a: "bm_get m parent = Some a"
      "bm_sum (draws L parent) m + 1 \<le> envelope_of L a" using room by blast
    with assms(2) have "parent \<noteq> rid" by auto
    with a total show ?thesis by (simp add: envelope_bound_def draws_def)
  next
    case False
    with total old assms(2) show ?thesis by (auto simp: envelope_bound_def draws_def)
  qed
qed

lemma each_ok_new:
  assumes "bm_get m rid = None" and "each_ok L m taken" and "reservation_ok r"
    and "attempt_of L r = Some a"
    and "\<And>parent. parent_of L r = Some parent \<Longrightarrow> outstanding_at m parent"
  shows "each_ok L (bm_insert rid r m) (bs_insert a taken)"
proof -
  have up: "outstanding_at m parent \<Longrightarrow> outstanding_at (bm_insert rid r m) parent" for parent
    using assms(1) by (auto simp: outstanding_at_def)
  show ?thesis
    unfolding each_ok_def
  proof (intro allI impI)
    fix i q assume q: "bm_get (bm_insert rid r m) i = Some q"
    show "reservation_ok q \<and>
      (\<exists>b. attempt_of L q = Some b \<and> bm_contains (bs_insert a taken) b) \<and>
      (\<forall>parent. parent_of L q = Some parent \<longrightarrow> outstanding_at (bm_insert rid r m) parent)"
    proof (cases "i = rid")
      case True
      with q have "q = r" by simp
      with assms(3-5) up show ?thesis by simp
    next
      case False
      with q have "bm_get m i = Some q" by simp
      with assms(2) up show ?thesis unfolding each_ok_def by (meson bm_contains_bs_insert)
    qed
  qed
qed

lemma attempts_apart_new:
  assumes "attempts_apart L m" and "each_ok L m taken"
    and "attempt_of L r = Some a" and "\<not> bm_contains taken a"
  shows "attempts_apart L (bm_insert rid r m)"
proof -
  have "attempt_of L q \<noteq> attempt_of L r" if "bm_get m j = Some q" for j q
    using that assms(2-4) unfolding each_ok_def by fastforce
  with assms(1) show ?thesis
    unfolding attempts_apart_def
    by (intro allI impI) (simp split: if_splits, metis+)
qed

lemma books_ok_new:
  assumes "bm_get m rid = None" and "books_ok L m taken" and "reservation_ok r"
    and "attempt_of L r = Some a" and "\<not> bm_contains taken a"
    and room: "\<And>parent. parent_of L r = Some parent \<Longrightarrow>
      \<exists>q. bm_get m parent = Some q \<and> started q \<and> \<not> released q \<and>
        bm_sum (draws L parent) m + 1 \<le> envelope_of L q"
  shows "books_ok L (bm_insert rid r m) (bs_insert a taken)"
proof -
  have "outstanding_at m parent" if "parent_of L r = Some parent" for parent
    using room [OF that] by (auto simp: outstanding_at_def)
  moreover have "envelopes_ok L (bm_insert rid r m)"
    using assms(1,2) room by (intro envelopes_ok_new) (auto simp: books_ok_def)
  ultimately show ?thesis
    using assms attempts_apart_new [of L m taken r a rid] each_ok_new [of m rid L taken r a]
    by (simp add: books_ok_def bm_ok_insert)
qed

subsection \<open>The invariant of every chain\<close>

lemma state_ok_put:
  assumes "state_ok L s" and "bm_get (reservations s) rid = Some r" and "evolves r r'"
    and "reservation_ok r'" and "transition r' = transition r"
  shows "state_ok L (put_reservation rid r' s)"
  using assms books_ok_update [OF assms(2-4)] evolves_fields(4) [OF assms(3)]
  by (auto simp: state_ok_def put_reservation_def travel_of_def links_ok_def)

lemma state_ok_reservation:
  "state_ok L s \<Longrightarrow> bm_get (reservations s) rid = Some r \<Longrightarrow> reservation_ok r"
  by (simp add: state_ok_def books_ok_def each_ok_def)

lemma state_ok_fix_currency: "fix_currency c s = Inr s' \<Longrightarrow> state_ok L s' \<longleftrightarrow> state_ok L s"
  by (auto simp: fix_currency_Ok state_ok_def travel_of_def)

lemma state_ok_irrelevant [simp]:
  "state_ok L (s\<lparr>contract_of := c\<rparr>) = state_ok L s"
  "state_ok L (s\<lparr>audit_log := a\<rparr>) = state_ok L s"
  "state_ok L (s\<lparr>identities := i\<rparr>) = state_ok L s"
  "state_ok L (s\<lparr>unknown_kinds := u\<rparr>) = state_ok L s"
  "state_ok L (s\<lparr>highest_day := d\<rparr>) = state_ok L s"
  by (simp_all add: state_ok_def travel_of_def)

lemma state_ok_note [simp]: "state_ok L (note_window w s) = state_ok L s"
  by (simp add: note_window_def split: option.splits)

lemma state_ok_attempts:
  "state_ok L s \<Longrightarrow> books_ok L (reservations s) (attempts s)"
  by (simp add: state_ok_def)

lemma reserve_arm_keeps: "state_ok L s \<Longrightarrow> reserve_arm L project p s = Inr s' \<Longrightarrow> state_ok L s'"
proof -
  assume ok: "state_ok L s" and a: "reserve_arm L project p s = Inr s'"
  obtain rid r attempt s2 where fresh: "fresh_reservation L s p rid r"
    and attempt: "vstr_at L p ''attempt_identity'' = Some attempt" "\<not> bm_contains (attempts s) attempt"
    and tu: "vu64_at L p ''travel_units'' = Some (if travel_held r then 1 else 0)"
    and s2: "s2 = s\<lparr>attempts := bs_insert attempt (attempts s)\<rparr> \<or>
      (\<exists>c. fix_currency c (s\<lparr>attempts := bs_insert attempt (attempts s)\<rparr>) = Inr s2)"
    and s': "s' = put_reservation rid r s2"
    using reserve_arm_Ok [OF a] by (elim exE conjE) (rule that)
  have s2: "reservations s2 = reservations s" "attempts s2 = bs_insert attempt (attempts s)"
    "transitions s2 = transitions s" "travel s2 = travel s"
    using s2 by (auto simp: fix_currency_Ok)
  have "books_ok L (bm_insert rid r (reservations s)) (bs_insert attempt (attempts s))"
    using fresh ok attempt
    by (intro books_ok_new)
      (auto simp: fresh_reservation_def state_ok_def reservation_ok_def attempt_of_def
        drawn_count_def)
  moreover have "links_ok L (bm_insert rid r (reservations s)) (transitions s)"
    using ok fresh by (auto simp: links_ok_def state_ok_def fresh_reservation_def)
  ultimately show ?thesis
    using ok s2 s' by (simp add: state_ok_def put_reservation_def travel_of_def)
qed

interpretation arms_inv: step_invariant "reserve_arm L project" "state_ok L"
  by unfold_locales (rule reserve_arm_keeps)

lemma apply_transition_keeps:
  assumes ok: "state_ok L s" and a: "apply_transition L p s = Inr s'"
  shows "state_ok L s'"
proof (cases "s' = s")
  case False
  with apply_transition_Ok [OF a] obtain x tkt s1 n where
    x: "bm_get (transitions s) x = None" and tkt: "vstr_at L p ''ticket_identity'' = Some tkt"
    and s1: "convert_travel L p x tkt s = Inr s1"
    and n: "unat n = travel_of s tkt + 1"
    and s': "s' = s1\<lparr>travel := bm_insert tkt n (travel s),
                     transitions := bm_insert x p (transitions s)\<rparr>"
    unfolding travel_of_def by blast
  have edges: "edges L (bm_insert x p (transitions s)) t =
      edges L (transitions s) t + of_bool (t = tkt)" for t
    using bm.total_fresh [OF _ x] ok tkt by (auto simp: edges_def state_ok_def)
  have travel: "travel_of s' t = edges L (transitions s') t" for t
    using ok n by (auto simp: s' edges travel_of_def state_ok_def)
  have books: "books_ok L (reservations s1) (attempts s1) \<and>
    links_ok L (reservations s1) (bm_insert x p (transitions s))"
    using convert_travel_Ok [OF s1]
  proof (elim disjE exE conjE)
    assume "s1 = s"
    with ok x show ?thesis by (fastforce simp: state_ok_def links_ok_def)
  next
    fix rid and r :: "'a reservation"
    let ?r = "r\<lparr>travel_held := False, transition := Some x\<rparr>"
    assume rid: "vstr_at L p ''reservation_id'' = Some rid"
      and r: "bm_get (reservations s) rid = Some r" "travel_held r" "\<not> released r"
        "transition r = None" "ticket r = tkt"
      and upd: "s1 = put_reservation rid ?r s"
    have "books_ok L (bm_insert rid ?r (reservations s)) (attempts s)"
      using ok r by (intro books_ok_update) (auto simp: evolves_def reservation_ok_def state_ok_def)
    moreover have "links_ok L (bm_insert rid ?r (reservations s)) (bm_insert x p (transitions s))"
      using ok r rid tkt x by (fastforce simp: state_ok_def links_ok_def)
    ultimately show ?thesis by (simp add: upd put_reservation_def)
  qed
  with ok travel show ?thesis by (simp add: s' state_ok_def bm_ok_insert)
qed (use ok in simp)

lemma apply_spend_keeps:
  assumes ok: "state_ok L s" and a: "apply_spend L p s = Inr s'"
  shows "state_ok L s'"
proof -
  obtain c s1 rid r where s1: "fix_currency c s = Inr s1"
    and r: "bm_get (reservations s) rid = Some r"
    and s': "s' = s1 \<or> settled r = None \<and>
      (\<exists>amount basis. s' = put_reservation rid (r\<lparr>settled := Some (amount, basis, p)\<rparr>) s1)"
    using apply_spend_Ok [OF a] by (elim exE conjE) (rule that, assumption+, auto)
  have r: "bm_get (reservations s1) rid = Some r" using s1 r by (auto simp: fix_currency_Ok)
  have ok1: "state_ok L s1" using ok s1 by (simp add: state_ok_fix_currency)
  have "reservation_ok r" by (rule state_ok_reservation [OF ok1 r])
  with s' ok1 r show ?thesis
    by (auto intro!: state_ok_put simp: evolves_def reservation_ok_def)
qed

lemma apply_plain_keeps:
  assumes "state_ok L s"
  shows "apply_start L p s = Inr s' \<Longrightarrow> state_ok L s'"
    and "apply_release L p s = Inr s' \<Longrightarrow> state_ok L s'"
    and "apply_initialize L p s = Inr s' \<Longrightarrow> state_ok L s'"
    and "apply_identity L p s = Inr s' \<Longrightarrow> state_ok L s'"
    and "apply_adjust L p s = Inr s' \<Longrightarrow> state_ok L s'"
proof -
  show "apply_start L p s = Inr s' \<Longrightarrow> state_ok L s'"
    using assms by (auto intro!: state_ok_put simp: evolves_def reservation_ok_def
        dest!: apply_start_Ok dest: state_ok_reservation)
  show "apply_release L p s = Inr s' \<Longrightarrow> state_ok L s'"
    using assms by (auto intro!: state_ok_put simp: evolves_def reservation_ok_def
        dest!: apply_release_Ok dest: state_ok_reservation)
qed (use assms in \<open>auto dest!: apply_initialize_Ok apply_identity_Ok apply_adjust_Ok\<close>)

lemma apply_reserve_keeps:
  "state_ok L s \<Longrightarrow> apply_reserve L project p s = Inr s' \<Longrightarrow> state_ok L s'"
  by (auto simp: apply_reserve_def res_simps dest: arms_inv.loop_keeps split: if_splits)

lemmas apply_kind_keeps =
  apply_plain_keeps apply_reserve_keeps apply_transition_keeps apply_spend_keeps

lemma apply_receipt_keeps:
  assumes "state_ok L s" and "apply_receipt L rc s = Inr s'"
  shows "state_ok L s'"
proof -
  have "state_ok L (note_window (receipt_window rc) s)" using assms(1) by simp
  from apply_kind_keeps [OF this] assms(2) this show ?thesis
    by (auto simp: apply_receipt_def Let_def split: if_splits)
qed

interpretation chain_inv: step_invariant "apply_receipt L" "state_ok L"
  by unfold_locales (rule apply_receipt_keeps)

end
