(* ===== verification/Counts.thy ===== *)
theory Counts
  imports Replay_Inv
begin

text \<open>
  The numbers read off the derived state are counts: \<open>Counter\<close> of \<open>budget/types.rs\<close> as
  \<open>State::counter\<close> and \<open>State::spend\<close> of \<open>budget/replay.rs\<close> fill it. Each loop is an
  instance of the adding loop of the prelude, so its result is a sum over the reservations
  and it succeeds whenever that sum fits in 64 bits.
\<close>

subsection \<open>Invocations\<close>

definition in_day :: "string option \<Rightarrow> 'v reservation \<Rightarrow> bool" where
  "in_day day r \<longleftrightarrow> (case day of Some d \<Rightarrow> window r = d | None \<Rightarrow> True)"

lemma in_day_update [simp]:
  "in_day d (r\<lparr>started := b\<rparr>) = in_day d r" "in_day d (r\<lparr>released := b\<rparr>) = in_day d r"
  "in_day d (r\<lparr>travel_held := b\<rparr>) = in_day d r" "in_day d (r\<lparr>transition := x\<rparr>) = in_day d r"
  "in_day d (r\<lparr>settled := y\<rparr>) = in_day d r"
  by (simp_all add: in_day_def split: option.splits)

definition consumes :: "string option \<Rightarrow> 'v reservation \<Rightarrow> nat" where
  "consumes day r = of_bool (\<not> released r \<and> in_day day r \<and> started r)"

definition holds :: "string option \<Rightarrow> 'v reservation \<Rightarrow> nat" where
  "holds day r = of_bool (\<not> released r \<and> in_day day r \<and> \<not> started r)"

lemma counter_step_split:
  "counter_step day r c =
   (if \<not> in_day day r \<or> released r then Ok c
    else if started r then tryb (add (consumed c) 1) (\<lambda>n. Ok (c\<lparr>consumed := n\<rparr>))
    else tryb (add (reserved c) 1) (\<lambda>n. Ok (c\<lparr>reserved := n\<rparr>)))"
  by (auto simp: counter_step_def in_day_def split: option.splits)

interpretation consumed_loop:
  tally_loop "counter_step day" "\<lambda>_. True" "\<lambda>c. unat (consumed c)" "consumes day"
  by unfold_locales
    (auto simp: counter_step_split consumes_def res_simps add_Ok split: if_splits)

interpretation reserved_loop:
  tally_loop "counter_step day" "\<lambda>_. True" "\<lambda>c. unat (reserved c)" "holds day"
  by unfold_locales
    (auto simp: counter_step_split holds_def res_simps add_Ok split: if_splits)

interpretation counter_loop:
  bounded_loop "counter_step day" "\<lambda>_. True"
    "\<lambda>c. unat (consumed c) + unat (reserved c)" "\<lambda>r. consumes day r + holds day r" "2 ^ 64"
proof unfold_locales
  fix r :: "'v reservation" and c c' :: counter
  show "counter_step day r c = Inr c' \<Longrightarrow>
    unat (consumed c') + unat (reserved c') =
    unat (consumed c) + unat (reserved c) + (consumes day r + holds day r)"
    using consumed_loop.step_adds [of day r c c'] reserved_loop.step_adds [of day r c c'] by simp
  show "unat (consumed c) + unat (reserved c) + (consumes day r + holds day r) < 2 ^ 64 \<Longrightarrow>
    \<exists>c'. counter_step day r c = Inr c'"
    using add_total [of "consumed c" 1] add_total [of "reserved c" 1]
    by (auto simp: counter_step_split consumes_def holds_def)
qed

definition consumed_count :: "'v state \<Rightarrow> string option \<Rightarrow> nat" where
  "consumed_count s day = bm_sum (consumes day) (reservations s)"

definition outstanding_count :: "'v state \<Rightarrow> string option \<Rightarrow> nat" where
  "outstanding_count s day = bm_sum (holds day) (reservations s)"

lemma state_counter_Ok:
  assumes "state_counter s day = Inr c"
  shows "unat (consumed c) = consumed_count s day" and "unat (reserved c) = outstanding_count s day"
  using consumed_loop.loop_adds [of day "bm_values (reservations s)" counter_default c]
    reserved_loop.loop_adds [of day "bm_values (reservations s)" counter_default c] assms
  by (simp_all add: state_counter_def consumed_count_def outstanding_count_def bm_sum_def
      counter_default_def)

lemma bm_sum_add: "bm_sum (\<lambda>x. f x + g x) m = bm_sum f m + bm_sum g m"
  by (simp add: bm_sum_def sum_list_addf)

lemma state_counter_total:
  assumes "consumed_count s day + outstanding_count s day < 2 ^ 64"
  shows "\<exists>c. state_counter s day = Inr c"
  using counter_loop.loop_total [of counter_default day "bm_values (reservations s)"] assms
  by (simp add: state_counter_def consumed_count_def outstanding_count_def counter_default_def
      bm_sum_def sum_list_addf)

lemma exposure_Ok: "exposure c = Inr n \<longleftrightarrow> unat n = unat (consumed c) + unat (reserved c)"
  by (simp add: exposure_def add_Ok)

lemma consumed_count_mono:
  assumes "state_le s s'" and "state_ok L s" and "state_ok L s'"
  shows "consumed_count s day \<le> consumed_count s' day"
  unfolding consumed_count_def
proof (rule bm_sum_mono_map)
  fix rid r assume r: "bm_get (reservations s) rid = Some r"
  with assms(1) obtain r' where r': "bm_get (reservations s') rid = Some r'" "evolves r r'"
    unfolding state_le_def reservations_le_def by blast
  moreover have "reservation_ok r'" using state_ok_reservation [OF assms(3) r'(1)] .
  ultimately show "\<exists>q. bm_get (reservations s') rid = Some q \<and> consumes day r \<le> consumes day q"
    by (auto simp: consumes_def in_day_def evolves_def reservation_ok_def split: option.splits)
qed (use assms in \<open>auto simp: state_ok_def books_ok_def\<close>)

subsection \<open>Spend\<close>

definition spend_counts :: "string \<Rightarrow> 'v reservation \<Rightarrow> bool" where
  "spend_counts day r \<longleftrightarrow> \<not> released r \<and> spend_reserve r \<noteq> 0 \<and> window r = day"

definition spend_settled :: "string \<Rightarrow> 'v reservation \<Rightarrow> nat" where
  "spend_settled day r =
     (if spend_counts day r
      then (case settled r of Some (amount, _, _) \<Rightarrow> unat amount | None \<Rightarrow> 0) else 0)"

definition spend_held :: "string \<Rightarrow> 'v reservation \<Rightarrow> nat" where
  "spend_held day r =
     (if spend_counts day r \<and> settled r = None then unat (spend_reserve r) else 0)"

definition settled_with :: "spend_basis \<Rightarrow> string \<Rightarrow> 'v reservation \<Rightarrow> nat" where
  "settled_with b day r =
     of_bool (spend_counts day r \<and> (\<exists>amount rc. settled r = Some (amount, b, rc)))"

lemma count_basis_Ok:
  assumes "count_basis L b rc a = Inr a'"
  shows "acc_counter a' = acc_counter a"
    and "unat (unpriced (acc_marks a')) = unat (unpriced (acc_marks a)) + of_bool (b = Unpriced)"
    and "unat (unmeasurable (acc_marks a')) =
      unat (unmeasurable (acc_marks a)) + of_bool (b = Unmeasurable)"
  using assms by (auto simp: count_basis_def Let_def res_simps add_Ok split: spend_basis.splits)

lemma count_basis_tally:
  assumes "count_basis L b rc a = Inr a'" and "bm_ok (acc_unpriced a)"
    and "bm_sum unat (acc_unpriced a) = unat (unpriced (acc_marks a))"
  shows "bm_ok (acc_unpriced a') \<and> bm_sum unat (acc_unpriced a') = unat (unpriced (acc_marks a'))"
proof (cases b)
  case Unpriced
  let ?c = "context_from_json L (vget L rc ''pricing_context'')"
  from assms(1) Unpriced obtain n k where
    "unat n = unat (unpriced (acc_marks a)) + 1"
    and k: "unat k = (case bm_get (acc_unpriced a) ?c of Some k \<Rightarrow> unat k | None \<Rightarrow> 0) + 1"
    and "a' = a\<lparr>acc_marks := (acc_marks a)\<lparr>unpriced := n\<rparr>,
                acc_unpriced := bm_insert ?c k (acc_unpriced a)\<rparr>"
    by (auto simp: count_basis_def Let_def res_simps add_Ok split: option.splits)
  then show ?thesis
    using assms(2,3) bm_sum_insert [OF assms(2), of unat ?c k]
    by (auto simp: bm_ok_insert split: option.splits)
qed (use assms in \<open>auto simp: count_basis_def Let_def res_simps add_Ok\<close>)

lemma spend_step_Ok:
  assumes "spend_step L day r a = Inr a'"
  shows "unat (consumed (acc_counter a')) = unat (consumed (acc_counter a)) + spend_settled day r"
    and "unat (reserved (acc_counter a')) = unat (reserved (acc_counter a)) + spend_held day r"
    and "unat (unpriced (acc_marks a')) =
      unat (unpriced (acc_marks a)) + settled_with Unpriced day r"
    and "unat (unmeasurable (acc_marks a')) =
      unat (unmeasurable (acc_marks a)) + settled_with Unmeasurable day r"
  using assms
  by (auto simp: spend_step_def spend_settled_def spend_held_def settled_with_def spend_counts_def
      res_simps add_Ok count_basis_Ok Let_def split: if_splits option.splits)

interpretation spend_settled_loop:
  tally_loop "spend_step L day" "\<lambda>_. True" "\<lambda>a. unat (consumed (acc_counter a))" "spend_settled day"
  by unfold_locales (simp_all add: spend_step_Ok)

interpretation spend_held_loop:
  tally_loop "spend_step L day" "\<lambda>_. True" "\<lambda>a. unat (reserved (acc_counter a))" "spend_held day"
  by unfold_locales (simp_all add: spend_step_Ok)

interpretation spend_unpriced_loop:
  tally_loop "spend_step L day" "\<lambda>_. True" "\<lambda>a. unat (unpriced (acc_marks a))" "settled_with Unpriced day"
  by unfold_locales (simp_all add: spend_step_Ok)

interpretation spend_unmeasurable_loop:
  tally_loop "spend_step L day" "\<lambda>_. True" "\<lambda>a. unat (unmeasurable (acc_marks a))"
    "settled_with Unmeasurable day"
  by unfold_locales (simp_all add: spend_step_Ok)

interpretation spend_tally_loop:
  step_invariant "spend_step L day"
    "\<lambda>a. bm_ok (acc_unpriced a) \<and> bm_sum unat (acc_unpriced a) = unat (unpriced (acc_marks a))"
proof unfold_locales
  fix r and a a' :: spend_acc
  assume inv: "bm_ok (acc_unpriced a) \<and> bm_sum unat (acc_unpriced a) = unat (unpriced (acc_marks a))"
    and step: "spend_step L day r a = Inr a'"
  show "bm_ok (acc_unpriced a') \<and> bm_sum unat (acc_unpriced a') = unat (unpriced (acc_marks a'))"
  proof (cases "spend_counts day r \<and> settled r \<noteq> None")
    case True
    then obtain amount b rc where "settled r = Some (amount, b, rc)" by auto
    with step True obtain n where
      "count_basis L b rc (a\<lparr>acc_counter := (acc_counter a)\<lparr>consumed := n\<rparr>\<rparr>) = Inr a'"
      by (auto simp: spend_step_def spend_counts_def res_simps)
    from count_basis_tally [OF this] inv show ?thesis by simp
  next
    case False
    with step inv show ?thesis
      by (auto simp: spend_step_def spend_counts_def res_simps Let_def
          split: if_splits option.splits)
  qed
qed

lemma state_spend_Ok:
  assumes "state_spend L s day = Inr (c, marks, roots, details)"
  shows "unat (consumed c) = bm_sum (spend_settled day) (reservations s)"
    and "unat (reserved c) = bm_sum (spend_held day) (reservations s)"
    and "unat (unpriced marks) = bm_sum (settled_with Unpriced day) (reservations s)"
    and "unat (unmeasurable marks) = bm_sum (settled_with Unmeasurable day) (reservations s)"
    and "sum_list (map (unat \<circ> detail_count) details) = unat (unpriced marks)"
proof -
  let ?rs = "bm_values (reservations s)"
  from assms obtain a where a: "try_fold (spend_step L day) ?rs spend_acc_default = Inr a"
    and eqs: "c = acc_counter a" "marks = acc_marks a" "details = tally (acc_unpriced a)"
    by (auto simp: state_spend_def res_simps)
  note sums = eqs bm_sum_def spend_acc_default_def counter_default_def marks_default_def
  show "unat (consumed c) = bm_sum (spend_settled day) (reservations s)"
    using spend_settled_loop.loop_adds [OF TrueI a] by (simp add: sums)
  show "unat (reserved c) = bm_sum (spend_held day) (reservations s)"
    using spend_held_loop.loop_adds [OF TrueI a] by (simp add: sums)
  show "unat (unpriced marks) = bm_sum (settled_with Unpriced day) (reservations s)"
    using spend_unpriced_loop.loop_adds [OF TrueI a] by (simp add: sums)
  show "unat (unmeasurable marks) = bm_sum (settled_with Unmeasurable day) (reservations s)"
    using spend_unmeasurable_loop.loop_adds [OF TrueI a] by (simp add: sums)
  have "bm_sum unat (acc_unpriced a) = unat (unpriced marks)"
    using spend_tally_loop.loop_keeps [OF _ a]
    by (simp add: eqs spend_acc_default_def marks_default_def)
  then show "sum_list (map (unat \<circ> detail_count) details) = unat (unpriced marks)"
    by (simp add: eqs tally_def bm_sum_def bm_values_def comp_def case_prod_beta)
qed

subsection \<open>Totality of the day's spend\<close>

definition spend_load :: "string \<Rightarrow> 'v reservation \<Rightarrow> nat" where
  "spend_load day r =
     spend_settled day r + spend_held day r + settled_with Unpriced day r +
     settled_with Unmeasurable day r"

definition acc_load :: "spend_acc \<Rightarrow> nat" where
  "acc_load a =
     unat (consumed (acc_counter a)) + unat (reserved (acc_counter a)) +
     unat (unpriced (acc_marks a)) + unat (unmeasurable (acc_marks a))"

lemma count_basis_total:
  assumes inv: "bm_ok (acc_unpriced a) \<and> bm_sum unat (acc_unpriced a) = unat (unpriced (acc_marks a))"
    and "unat (unpriced (acc_marks a)) + of_bool (b = Unpriced) < 2 ^ 64"
    and "unat (unmeasurable (acc_marks a)) + of_bool (b = Unmeasurable) < 2 ^ 64"
  shows "\<exists>a'. count_basis L b rc a = Inr a'"
proof (cases b)
  case Measured
  then show ?thesis by (simp add: count_basis_def)
next
  case Unpriced
  let ?c = "context_from_json L (vget L rc ''pricing_context'')"
  let ?k = "case bm_get (acc_unpriced a) ?c of Some k \<Rightarrow> k | None \<Rightarrow> 0"
  have "unat ?k \<le> unat (unpriced (acc_marks a))"
    using inv bm_sum_ge [of "acc_unpriced a" ?c _ unat] by (auto split: option.splits)
  with assms(2) Unpriced show ?thesis
    using add_total [of "unpriced (acc_marks a)" 1] add_total [of ?k 1]
    by (auto simp: count_basis_def)
next
  case Unmeasurable
  with assms(3) show ?thesis
    using add_total [of "unmeasurable (acc_marks a)" 1] by (auto simp: count_basis_def)
qed

lemma spend_step_total:
  assumes inv: "bm_ok (acc_unpriced a) \<and> bm_sum unat (acc_unpriced a) = unat (unpriced (acc_marks a))"
    and load: "acc_load a + spend_load day r < 2 ^ 64"
  shows "\<exists>a'. spend_step L day r a = Inr a'"
proof (cases "spend_counts day r")
  case False
  then show ?thesis by (auto simp: spend_step_def spend_counts_def)
next
  case True
  show ?thesis
  proof (cases "settled r")
    case None
    have "unat (reserved (acc_counter a)) + unat (spend_reserve r) < 2 ^ 64"
      using load True None by (simp add: acc_load_def spend_load_def spend_held_def)
    with True None show ?thesis
      using add_total [of "reserved (acc_counter a)" "spend_reserve r"]
      by (auto simp: spend_step_def spend_counts_def Let_def)
  next
    case (Some x)
    then obtain amount b rc where x: "settled r = Some (amount, b, rc)" by (cases x) auto
    have bounds: "unat (consumed (acc_counter a)) + unat amount < 2 ^ 64"
      "unat (unpriced (acc_marks a)) + of_bool (b = Unpriced) < 2 ^ 64"
      "unat (unmeasurable (acc_marks a)) + of_bool (b = Unmeasurable) < 2 ^ 64"
      using load True x
      by (auto simp: acc_load_def spend_load_def spend_settled_def settled_with_def)
    from bounds(1) obtain n where n: "add (consumed (acc_counter a)) amount = Inr n"
      using add_total by blast
    from count_basis_total [of "a\<lparr>acc_counter := (acc_counter a)\<lparr>consumed := n\<rparr>\<rparr>" b L rc]
      inv bounds(2,3) n True x
    show ?thesis by (simp add: spend_step_def spend_counts_def)
  qed
qed

interpretation spend_loop:
  bounded_loop "spend_step L day"
    "\<lambda>a. bm_ok (acc_unpriced a) \<and> bm_sum unat (acc_unpriced a) = unat (unpriced (acc_marks a))"
    acc_load "spend_load day" "2 ^ 64"
  by unfold_locales
    (auto simp: acc_load_def spend_load_def spend_step_Ok spend_step_total
      intro: spend_step_total)

lemma state_spend_total:
  "bm_sum (spend_load day) (reservations s) < 2 ^ 64 \<Longrightarrow> \<exists>d. state_spend L s day = Inr d"
  using spend_loop.loop_total [of spend_acc_default day "bm_values (reservations s)" L]
  by (auto simp: state_spend_def bm_sum_def acc_load_def spend_acc_default_def counter_default_def
      marks_default_def bm_values_def)

subsection \<open>Travel\<close>

lemma applied_travel_fold:
  "bm_ok m \<Longrightarrow>
   counter_or_default (bm_get (fold (\<lambda>(t, n) acc.
      bm_insert t ((counter_or_default (bm_get acc t))\<lparr>consumed := n\<rparr>) acc) m acc) tkt) =
   (case bm_get m tkt of
      Some n \<Rightarrow> (counter_or_default (bm_get acc tkt))\<lparr>consumed := n\<rparr>
    | None \<Rightarrow> counter_or_default (bm_get acc tkt))"
proof (induction m arbitrary: acc)
  case (Cons p m)
  obtain k n where p: "p = (k, n)" by (cases p)
  with Cons.prems have "bm_get m k = None" and "bm_ok m"
    using bm_ok_above [of k n m k] by (auto simp: bm_ok_Cons)
  with p Cons.IH show ?case by (simp add: counter_or_default_def split: option.splits)
qed simp

lemma applied_travel_get:
  "bm_ok m \<Longrightarrow>
   counter_or_default (bm_get (applied_travel m) tkt) =
   \<lparr>consumed = (case bm_get m tkt of Some n \<Rightarrow> n | None \<Rightarrow> 0), reserved = 0\<rparr>"
  using applied_travel_fold [of m "[]" tkt]
  by (simp add: applied_travel_def counter_or_default_def counter_default_def split: option.splits)

definition travel_holds :: "string \<Rightarrow> 'v reservation \<Rightarrow> nat" where
  "travel_holds tkt r = of_bool (\<not> released r \<and> travel_held r \<and> ticket r = tkt)"

definition held_count :: "'v state \<Rightarrow> string \<Rightarrow> nat" where
  "held_count s tkt = bm_sum (travel_holds tkt) (reservations s)"

interpretation held_loop:
  tally_loop held_step "\<lambda>_. True" "\<lambda>t. unat (reserved (counter_or_default (bm_get t tkt)))" "travel_holds tkt"
  by unfold_locales
    (auto simp: held_step_def travel_holds_def res_simps Let_def counter_or_default_def add_Ok
      split: if_splits)

interpretation applied_loop:
  tally_loop held_step "\<lambda>_. True" "\<lambda>t. unat (consumed (counter_or_default (bm_get t tkt)))" "\<lambda>_. 0"
  by unfold_locales
    (auto simp: held_step_def res_simps Let_def counter_or_default_def split: if_splits)

subsection \<open>The snapshot\<close>

lemma state_snapshot_Ok:
  assumes "state_snapshot L s project day = Inr snap"
  shows "contract_of s = Some (snap_contract snap)"
    and "state_counter s (case snap_contract snap of Window \<Rightarrow> Some day | Lifetime _ \<Rightarrow> None) =
      Inr (invocations snap)"
    and "lifetime_counter s = Inr (lifetime_invocations snap)"
    and "\<exists>marks roots details. state_spend L s day = Inr (snap_spend snap, marks, roots, details)"
    and "try_fold held_step (bm_values (reservations s)) (applied_travel (travel s)) =
      Inr (snap_travel snap)"
    and "snap_currency snap = currency s" and "snap_day snap = day" and "snap_project_id snap = project"
proof -
  from assms obtain k where k: "contract_of s = Some k"
    by (auto simp: state_snapshot_def res_simps)
  show "contract_of s = Some (snap_contract snap)"
    and "state_counter s (case snap_contract snap of Window \<Rightarrow> Some day | Lifetime _ \<Rightarrow> None) =
      Inr (invocations snap)"
    and "lifetime_counter s = Inr (lifetime_invocations snap)"
    and "\<exists>marks roots details. state_spend L s day = Inr (snap_spend snap, marks, roots, details)"
    and "try_fold held_step (bm_values (reservations s)) (applied_travel (travel s)) =
      Inr (snap_travel snap)"
    and "snap_currency snap = currency s" and "snap_day snap = day" and "snap_project_id snap = project"
    using assms k by (cases k; auto simp: state_snapshot_def res_simps lifetime_counter_def)+
qed

lemma travel_for_Ok:
  assumes "state_snapshot L s project day = Inr snap" and "bm_ok (travel s)"
  shows "unat (consumed (travel_for snap tkt)) = travel_of s tkt"
    and "unat (reserved (travel_for snap tkt)) = held_count s tkt"
  using applied_loop.loop_adds [OF TrueI state_snapshot_Ok(5) [OF assms(1)], of tkt]
    held_loop.loop_adds [OF TrueI state_snapshot_Ok(5) [OF assms(1)], of tkt]
    applied_travel_get [OF assms(2), of tkt]
  by (simp_all add: travel_for_def travel_of_def held_count_def bm_sum_def split: option.splits)

end
