(* ===== verification/Journal.thy ===== *)
theory Journal
  imports Files Counts
begin

text \<open>
  \<open>budget/journal.rs\<close>: the verified ledger in memory with the two files it was read from,
  appending a receipt, the chain verifier, the floor under an adjustment, and from
  \<open>budget/window.rs\<close> the day capacity is drawn against. The record \<open>codec\<close> holds what is not
  in the repository: \<open>serde_json\<close>'s \<open>to_vec\<close> and \<open>from_slice\<close> at the type of a receipt, and
  the hexadecimal SHA-256. A fresh \<open>Uuid::new_v4\<close> is an argument.
\<close>

record 'v codec =
  to_vec :: "'v receipt \<Rightarrow> bytes res"
  from_slice :: "bytes \<Rightarrow> 'v receipt res"
  sha256_hex :: "bytes \<Rightarrow> string"

abbreviation newline :: u8 where "newline \<equiv> 10"

definition digest :: "'v codec \<Rightarrow> bytes \<Rightarrow> string" where
  "digest C bs = ''sha256:'' @ sha256_hex C bs"

record audit =
  audit_actor :: string
  audit_written_at :: string
  audit_reason :: string
  audit_argv :: "string list"

definition audit_validate :: "audit \<Rightarrow> unit res" where
  "audit_validate a =
     (if trim (audit_actor a) = [] \<or> audit_written_at a = [] \<or> trim (audit_reason a) = []
      then Err (error_bounds ''actor, UTC time, and a nonempty reason are required'')
      else Ok ())"

definition audit_json :: "'v lib \<Rightarrow> audit \<Rightarrow> 'v" where
  "audit_json L a =
     mk_obj L [(''actor'', mk_str L (audit_actor a)), (''written_at'', mk_str L (audit_written_at a)),
               (''reason'', mk_str L (audit_reason a)),
               (''argv'', mk_arr L (map (mk_str L) (audit_argv a)))]"

record 'v journal =
  j_files :: files
  j_project :: string
  j_root :: string
  j_state :: "'v state"
  j_receipts :: "'v receipt list"
  j_last_hash :: "string option"
  j_writable :: bool
  j_day :: string

definition account_uuid :: "'v journal \<Rightarrow> string" where
  "account_uuid j =
     (case strip_prefix ''panta:'' (j_project j) of Some u \<Rightarrow> u | None \<Rightarrow> j_project j)"

definition effective_day :: "string \<Rightarrow> string option \<Rightarrow> string" where
  "effective_day clock_day highest =
     (case highest of
        Some recorded \<Rightarrow> if recorded > clock_day then recorded else clock_day
      | None \<Rightarrow> clock_day)"

definition journal_snapshot :: "'v lib \<Rightarrow> 'v journal \<Rightarrow> 'v snapshot res" where
  "journal_snapshot L j = state_snapshot L (j_state j) (j_project j) (j_day j)"

definition journal_contract :: "'v journal \<Rightarrow> contract res" where
  "journal_contract j = ok_or (corrupt ''missing account initialization'') (contract_of (j_state j))"

subsection \<open>Appending\<close>

definition not_writable :: "'v state \<Rightarrow> budget_error" where
  "not_writable s =
     (case bm_keys (unknown_kinds s) of
        unknown # _ \<Rightarrow>
          corrupt (''this account holds a '' @ quoted unknown @
            '' receipt this build does not understand; it can be read but not appended to until the build is upgraded'')
      | [] \<Rightarrow> corrupt ''read-only budget transaction cannot append'')"

definition new_receipt ::
  "string \<Rightarrow> u64 \<Rightarrow> string \<Rightarrow> 'v \<Rightarrow> audit \<Rightarrow> string option \<Rightarrow> 'v journal \<Rightarrow> 'v receipt" where
  "new_receipt fresh seq k p a w j =
     \<lparr>schema = ''rhei.budget.receipt.v1'', project_id = j_project j, sequence = seq,
      receipt_id = ''receipt:'' @ fresh, previous_hash = j_last_hash j,
      written_at = audit_written_at a, actor = audit_actor a, kind = k, receipt_window = w,
      receipt_payload = p\<rparr>"

text \<open>Everything before the first byte is written, then the write and what follows it.\<close>

definition prepare ::
  "'v lib \<Rightarrow> 'v codec \<Rightarrow> string \<Rightarrow> string \<Rightarrow> 'v \<Rightarrow> audit \<Rightarrow> string option \<Rightarrow> 'v journal \<Rightarrow>
   ('v receipt \<times> 'v state \<times> bytes) res" where
  "prepare L C fresh k p a w j =
     (if \<not> j_writable j then Err (not_writable (j_state j)) else
      tryb (audit_validate a) (\<lambda>_.
      tryb (add (of_nat (length (j_receipts j))) 1) (\<lambda>seq.
      let rc = new_receipt fresh seq k p a w j
      in tryb (apply_receipt L rc (j_state j)) (\<lambda>next.
         tryb (to_vec C rc) (\<lambda>line. Ok (rc, next, line))))))"

definition append_in_window ::
  "'v lib \<Rightarrow> 'v codec \<Rightarrow> faults \<Rightarrow> string \<Rightarrow> string \<Rightarrow> 'v \<Rightarrow> audit \<Rightarrow> string option \<Rightarrow>
   'v journal \<Rightarrow> unit res \<times> 'v journal" where
  "append_in_window L C fl fresh k p a w j =
     (case prepare L C fresh k p a w j of
        Err e \<Rightarrow> (Err e, j)
      | Ok (rc, next, line) \<Rightarrow>
          (case write_receipt fl (j_receipts j = []) (line @ [newline]) (j_files j) of
             (Err e, d) \<Rightarrow> (Err e, j\<lparr>j_files := d, j_writable := False\<rparr>)
           | (Ok _, d) \<Rightarrow>
               (Ok (), j\<lparr>j_files := d, j_state := next, j_receipts := j_receipts j @ [rc],
                        j_last_hash := Some (digest C line), j_writable := True,
                        j_day := effective_day (j_day j) (highest_day next)\<rparr>)))"

definition journal_append ::
  "'v lib \<Rightarrow> 'v codec \<Rightarrow> faults \<Rightarrow> string \<Rightarrow> string \<Rightarrow> 'v \<Rightarrow> audit \<Rightarrow> 'v journal \<Rightarrow>
   unit res \<times> 'v journal" where
  "journal_append L C fl fresh k p a j = append_in_window L C fl fresh k p a None j"

definition adjust_payload :: "'v lib \<Rightarrow> contract \<Rightarrow> contract \<Rightarrow> audit \<Rightarrow> 'v" where
  "adjust_payload L before after a =
     mk_obj L [(''old'', to_json L before), (''new'', to_json L after), (''audit'', audit_json L a)]"

definition adjust_check :: "'v lib \<Rightarrow> u64 \<Rightarrow> 'v journal \<Rightarrow> contract res" where
  "adjust_check L allowed j =
     (if allowed = 0 then Err (error_bounds ''an invocation allowance must be positive'') else
      tryb (journal_contract j) (\<lambda>before.
      tryb (journal_snapshot L j) (\<lambda>snap.
      tryb (exposure (lifetime_invocations snap)) (\<lambda>spent.
      if allowed < spent
      then Err (error_bounds (''cannot set an allowance of '' @ show_u64 allowed @ '' below the '' @
             show_u64 spent @ '' invocations already consumed or outstanding''))
      else Ok before))))"

definition journal_adjust ::
  "'v lib \<Rightarrow> 'v codec \<Rightarrow> faults \<Rightarrow> string \<Rightarrow> u64 \<Rightarrow> audit \<Rightarrow> 'v journal \<Rightarrow>
   unit res \<times> 'v journal" where
  "journal_adjust L C fl fresh allowed a j =
     (case adjust_check L allowed j of
        Err e \<Rightarrow> (Err e, j)
      | Ok before \<Rightarrow>
          journal_append L C fl fresh ''adjust'' (adjust_payload L before (Lifetime allowed) a) a j)"

subsection \<open>The chain verifier\<close>

record 'v replayed =
  r_state :: "'v state"
  r_receipts :: "'v receipt list"
  r_last_hash :: "string option"
  r_ids :: "string bset"

definition replayed_default :: "'v replayed" where
  "replayed_default =
     \<lparr>r_state = state_default, r_receipts = [], r_last_hash = None, r_ids = []\<rparr>"

definition replay_line ::
  "'v lib \<Rightarrow> 'v codec \<Rightarrow> string \<Rightarrow> bytes \<Rightarrow> 'v replayed \<Rightarrow> 'v replayed res" where
  "replay_line L C project line r =
     tryb (from_slice C line) (\<lambda>rc.
     tryb (if schema rc \<noteq> ''rhei.budget.receipt.v1'' \<or> project_id rc \<noteq> project then Ok True
           else tryb (add (of_nat (length (r_receipts r))) 1) (\<lambda>seq.
             Ok (sequence rc \<noteq> seq \<or> previous_hash rc \<noteq> r_last_hash r \<or>
                 bm_contains (r_ids r) (receipt_id rc) \<or> actor rc = [] \<or> written_at rc = [] \<or>
                 \<not> starts_with (receipt_id rc) ''receipt:''))) (\<lambda>bad.
     if bad then Err (corrupt ''invalid identity, sequence, or hash chain'')
     else tryb (apply_receipt L rc (r_state r)) (\<lambda>s.
       Ok \<lparr>r_state = s, r_receipts = r_receipts r @ [rc], r_last_hash = Some (digest C line),
           r_ids = bs_insert (receipt_id rc) (r_ids r)\<rparr>)))"

definition replay_chain ::
  "'v lib \<Rightarrow> 'v codec \<Rightarrow> string \<Rightarrow> bytes \<Rightarrow> 'v replayed res" where
  "replay_chain L C project bs =
     (if bs = [] \<or> last bs \<noteq> newline
      then Err (corrupt ''missing or truncated receipt'')
      else try_fold (replay_line L C project) (split_on newline (butlast bs)) replayed_default)"

end
