(* ===== verification/Journal_Laws.thy ===== *)
theory Journal_Laws
  imports Journal
begin

text \<open>
  What the chain verifier guarantees of a journal it took, and that appending keeps it: the
  bytes on disk always replay to the state in memory. The interface \<open>codec_laws\<close> is what the
  ledger relies on from \<open>serde_json\<close>: a written receipt is one line, and reads back.
\<close>

subsection \<open>Lines\<close>

lemma split_on_sep: "split_on c (xs @ c # ys) = split_on c xs @ split_on c ys"
proof (induction xs)
  case (Cons x xs)
  then show ?case
    by (cases "split_on c xs") (auto split: list.splits)
qed simp

definition chain_fold ::
  "'v lib \<Rightarrow> 'v codec \<Rightarrow> string \<Rightarrow> bytes list \<Rightarrow> 'v replayed res" where
  "chain_fold L C project ls = try_fold (replay_line L C project) ls replayed_default"

definition unlines :: "bytes list \<Rightarrow> bytes" where
  "unlines ls = concat (map (\<lambda>l. l @ [newline]) ls)"

lemma unlines_simps [simp]:
  "unlines [] = []" "unlines (l # ls) = l @ newline # unlines ls"
  "unlines (ls @ ks) = unlines ls @ unlines ks"
  by (simp_all add: unlines_def)

lemma split_unlines:
  "\<forall>l \<in> set ls. newline \<notin> set l \<Longrightarrow> split_on newline (unlines ls) = ls @ [[]]"
  by (induction ls) (simp_all add: split_on_append)

lemma unlines_snoc: "ls \<noteq> [] \<Longrightarrow> \<exists>bs. unlines ls = bs @ [newline]"
  by (cases ls rule: rev_cases) (auto simp: unlines_def)

lemma split_butlast_unlines:
  assumes "\<forall>l \<in> set ls. newline \<notin> set l" and "ls \<noteq> []"
  shows "split_on newline (butlast (unlines ls)) = ls"
proof -
  from unlines_snoc [OF assms(2)] obtain bs where bs: "unlines ls = bs @ [newline]" by blast
  with split_unlines [OF assms(1)] have "split_on newline bs @ [[]] = ls @ [[]]"
    by (simp add: split_on_sep)
  with bs show ?thesis by simp
qed

lemma replay_chain_unlines:
  assumes "\<forall>l \<in> set ls. newline \<notin> set l" and "ls \<noteq> []"
  shows "replay_chain L C project (unlines ls) = chain_fold L C project ls"
proof -
  have "unlines ls \<noteq> [] \<and> last (unlines ls) = newline"
    using unlines_snoc [OF assms(2)] by auto
  with split_butlast_unlines [OF assms] show ?thesis
    by (simp add: replay_chain_def chain_fold_def)
qed

lemma unlines_split: "unlines (split_on newline bs) = bs @ [newline]"
proof (induction bs)
  case (Cons b bs)
  then show ?case by (cases "split_on newline bs") auto
qed (simp add: unlines_def)

lemma replay_chain_lines:
  assumes "replay_chain L C project bs = Inr r"
  obtains ls where "bs = unlines ls" "ls \<noteq> []" "\<forall>l \<in> set ls. newline \<notin> set l"
    "chain_fold L C project ls = Inr r"
proof -
  from assms have ends: "bs \<noteq> []" "last bs = newline"
    and fold: "chain_fold L C project (split_on newline (butlast bs)) = Inr r"
    by (auto simp: replay_chain_def chain_fold_def split: if_splits)
  have "bs = unlines (split_on newline (butlast bs))"
    using append_butlast_last_id [OF ends(1)] ends(2) by (simp add: unlines_split)
  with fold show thesis by (intro that) (auto dest: split_on_parts)
qed

subsection \<open>What a verified chain is\<close>

lemma replay_line_Ok:
  "replay_line L C project line r = Inr r' \<longleftrightarrow>
   (\<exists>rc s. from_slice C line = Inr rc \<and> schema rc = ''rhei.budget.receipt.v1'' \<and>
      project_id rc = project \<and>
      unat (sequence rc) = unat (of_nat (length (r_receipts r)) :: u64) + 1 \<and>
      previous_hash rc = r_last_hash r \<and> \<not> bm_contains (r_ids r) (receipt_id rc) \<and>
      actor rc \<noteq> [] \<and> written_at rc \<noteq> [] \<and> starts_with (receipt_id rc) ''receipt:'' \<and>
      apply_receipt L rc (r_state r) = Inr s \<and>
      r' = \<lparr>r_state = s, r_receipts = r_receipts r @ [rc], r_last_hash = Some (digest C line),
            r_ids = bs_insert (receipt_id rc) (r_ids r)\<rparr>)"
  by (auto simp: replay_line_def res_simps add_Ok split: if_splits)

definition linked :: "'v codec \<Rightarrow> string \<Rightarrow> bytes list \<Rightarrow> 'v receipt list \<Rightarrow> bool" where
  "linked C project ls rcs \<longleftrightarrow>
     length ls = length rcs \<and> length rcs < 2 ^ 64 \<and> distinct (map receipt_id rcs) \<and>
     (\<forall>i < length rcs.
        from_slice C (ls ! i) = Inr (rcs ! i) \<and> project_id (rcs ! i) = project \<and>
        unat (sequence (rcs ! i)) = i + 1 \<and>
        previous_hash (rcs ! i) = (if i = 0 then None else Some (digest C (ls ! (i - 1)))))"

definition chain_inv ::
  "'v lib \<Rightarrow> 'v codec \<Rightarrow> string \<Rightarrow> bytes list \<Rightarrow> 'v replayed \<Rightarrow> bool" where
  "chain_inv L C project ls r \<longleftrightarrow>
     linked C project ls (r_receipts r) \<and>
     try_fold (apply_receipt L) (r_receipts r) state_default = Inr (r_state r) \<and>
     r_last_hash r = (if ls = [] then None else Some (digest C (last ls))) \<and>
     (\<forall>x. bm_contains (r_ids r) x \<longleftrightarrow> x \<in> receipt_id ` set (r_receipts r))"

lemma chain_inv_default: "chain_inv L C project [] replayed_default"
  by (simp add: chain_inv_def linked_def replayed_default_def)

lemma linked_snoc:
  assumes "linked C project ls rcs" and "from_slice C line = Inr rc" and "project_id rc = project"
    and "unat (sequence rc) = length rcs + 1"
    and "previous_hash rc = (if ls = [] then None else Some (digest C (last ls)))"
    and "receipt_id rc \<notin> receipt_id ` set rcs"
  shows "linked C project (ls @ [line]) (rcs @ [rc])"
proof -
  have "length rcs + 1 < 2 ^ 64" using assms(4) unat_u64_lt [of "sequence rc"] by simp
  moreover have "previous_hash rc =
      (if length rcs = 0 then None else Some (digest C ((ls @ [line]) ! (length rcs - 1))))"
    using assms(1,5) by (cases ls rule: rev_cases) (auto simp: linked_def nth_append)
  ultimately show ?thesis
    using assms by (auto simp: linked_def nth_append less_Suc_eq)
qed

lemma chain_inv_snoc:
  assumes inv: "chain_inv L C project ls r" and step: "replay_line L C project line r = Inr r'"
  shows "chain_inv L C project (ls @ [line]) r'"
proof -
  from inv have len: "unat (of_nat (length (r_receipts r)) :: u64) = length (r_receipts r)"
    by (simp add: chain_inv_def linked_def unat_of_nat_u64)
  from step inv len show ?thesis
    by (auto simp: replay_line_Ok chain_inv_def try_fold_append intro!: linked_snoc)
qed

lemma chain_fold_inv: "chain_fold L C project ls = Inr r \<Longrightarrow> chain_inv L C project ls r"
proof (induction ls arbitrary: r rule: rev_induct)
  case Nil
  then show ?case by (simp add: chain_fold_def chain_inv_default)
next
  case (snoc line ls)
  then obtain r0 where "chain_fold L C project ls = Inr r0" "replay_line L C project line r0 = Inr r"
    by (auto simp: chain_fold_def try_fold_append res_simps)
  with snoc.IH chain_inv_snoc show ?case by blast
qed

subsection \<open>Appending keeps the chain\<close>

locale codec_laws =
  fixes C :: "'v codec"
  assumes read_back: "to_vec C rc = Inr line \<Longrightarrow> from_slice C line = Inr rc"
    and one_line: "to_vec C rc = Inr line \<Longrightarrow> newline \<notin> set line"

text \<open>The bytes of the files are those of the lines the state in memory was replayed from.\<close>

definition journal_ok :: "'v lib \<Rightarrow> 'v codec \<Rightarrow> bytes list \<Rightarrow> 'v journal \<Rightarrow> bool" where
  "journal_ok L C ls j \<longleftrightarrow>
     files_agree (unlines ls) (j_files j) \<and> (\<forall>l \<in> set ls. newline \<notin> set l) \<and>
     (\<exists>r. chain_fold L C (j_project j) ls = Inr r \<and> r_state r = j_state j \<and>
          r_receipts r = j_receipts j \<and> r_last_hash r = j_last_hash j)"

lemma journal_okD:
  assumes "journal_ok L C ls j"
  shows "files_agree (unlines ls) (j_files j)"
    and "linked C (j_project j) ls (j_receipts j)"
    and "try_fold (apply_receipt L) (j_receipts j) state_default = Inr (j_state j)"
    and "j_last_hash j = (if ls = [] then None else Some (digest C (last ls)))"
    and "state_ok L (j_state j)"
proof -
  from assms obtain r where "files_agree (unlines ls) (j_files j)"
    and r: "chain_fold L C (j_project j) ls = Inr r" "r_state r = j_state j"
      "r_receipts r = j_receipts j" "r_last_hash r = j_last_hash j"
    unfolding journal_ok_def by blast
  then show "files_agree (unlines ls) (j_files j)"
    and "linked C (j_project j) ls (j_receipts j)"
    and fold: "try_fold (apply_receipt L) (j_receipts j) state_default = Inr (j_state j)"
    and "j_last_hash j = (if ls = [] then None else Some (digest C (last ls)))"
    using chain_fold_inv [OF r(1)] by (simp_all add: chain_inv_def)
  show "state_ok L (j_state j)"
    using chain_inv.loop_keeps [OF state_ok_default fold] .
qed

lemma prepare_Ok:
  "prepare L C fresh k p a w j = Inr (rc, nxt, line) \<Longrightarrow>
   j_writable j \<and> audit_validate a = Inr () \<and>
   (\<exists>seq. unat seq = unat (of_nat (length (j_receipts j)) :: u64) + 1 \<and>
      rc = new_receipt fresh seq k p a w j) \<and>
   apply_receipt L rc (j_state j) = Inr nxt \<and> to_vec C rc = Inr line"
  by (auto simp: prepare_def res_simps Let_def add_Ok split: if_splits)

lemma audit_validate_Ok:
  "audit_validate a = Inr () \<Longrightarrow> audit_actor a \<noteq> [] \<and> audit_written_at a \<noteq> []"
  by (auto simp: audit_validate_def trim_def trim_start_def trim_end_def split: if_splits)

lemma new_receipt_fields [simp]:
  "schema (new_receipt f s k p a w j) = ''rhei.budget.receipt.v1''"
  "project_id (new_receipt f s k p a w j) = j_project j"
  "sequence (new_receipt f s k p a w j) = s"
  "receipt_id (new_receipt f s k p a w j) = ''receipt:'' @ f"
  "previous_hash (new_receipt f s k p a w j) = j_last_hash j"
  "written_at (new_receipt f s k p a w j) = audit_written_at a"
  "actor (new_receipt f s k p a w j) = audit_actor a"
  "kind (new_receipt f s k p a w j) = k"
  "receipt_window (new_receipt f s k p a w j) = w"
  "receipt_payload (new_receipt f s k p a w j) = p"
  by (simp_all add: new_receipt_def)

context codec_laws
begin

lemma prepared_line_replays:
  assumes ok: "journal_ok L C ls j"
    and fresh: "''receipt:'' @ fresh \<notin> receipt_id ` set (j_receipts j)"
    and prep: "prepare L C fresh k p a w j = Inr (rc, nxt, line)"
    and r: "chain_fold L C (j_project j) ls = Inr r" "r_state r = j_state j"
      "r_receipts r = j_receipts j" "r_last_hash r = j_last_hash j"
  shows "replay_line L C (j_project j) line r =
    Inr \<lparr>r_state = nxt, r_receipts = j_receipts j @ [rc], r_last_hash = Some (digest C line),
         r_ids = bs_insert (receipt_id rc) (r_ids r)\<rparr>"
proof -
  note p = prepare_Ok [OF prep]
  with fresh r chain_fold_inv [OF r(1)] have "\<not> bm_contains (r_ids r) (receipt_id rc)"
    by (auto simp: chain_inv_def)
  moreover have "from_slice C line = Inr rc" using p read_back by blast
  ultimately show ?thesis
    using p r audit_validate_Ok by (auto simp: replay_line_Ok starts_with_def)
qed

lemma append_keeps:
  assumes ok: "journal_ok L C ls j"
    and fresh: "''receipt:'' @ fresh \<notin> receipt_id ` set (j_receipts j)"
    and app: "append_in_window L C fl fresh k p a w j = (Ok (), j')"
  shows "\<exists>rc line. prepare L C fresh k p a w j = Inr (rc, j_state j', line) \<and>
    journal_ok L C (ls @ [line]) j' \<and> j_receipts j' = j_receipts j @ [rc] \<and>
    journal_file (j_files j') = Some (unlines (ls @ [line])) \<and>
    j_project j' = j_project j \<and> j_writable j' \<and>
    j_day j' = effective_day (j_day j) (highest_day (j_state j'))"
proof -
  from app obtain rc nxt line where prep: "prepare L C fresh k p a w j = Inr (rc, nxt, line)"
    by (auto simp: append_in_window_def split: sum.splits)
  let ?first = "j_receipts j = []"
  let ?w = "write_receipt fl ?first (line @ [newline]) (j_files j)"
  note agree = journal_okD(1) [OF ok]
  from write_receipt_outcomes [OF agree, of fl ?first "line @ [newline]"] app prep
  obtain d' where d': "?w = (Ok (), d')" "files_agree (unlines ls @ line @ [newline]) d'"
    "journal_file d' = Some (unlines ls @ line @ [newline])"
    by (cases rule: write_receipt_outcomes [OF agree, of fl ?first "line @ [newline]"])
      (auto simp: append_in_window_def)
  with app prep have j': "j' = j\<lparr>j_files := d', j_state := nxt, j_receipts := j_receipts j @ [rc],
      j_last_hash := Some (digest C line), j_writable := True,
      j_day := effective_day (j_day j) (highest_day nxt)\<rparr>"
    by (simp add: append_in_window_def)
  from ok obtain r where r: "chain_fold L C (j_project j) ls = Inr r" "r_state r = j_state j"
    "r_receipts r = j_receipts j" "r_last_hash r = j_last_hash j"
    and lines: "\<forall>l \<in> set ls. newline \<notin> set l"
    unfolding journal_ok_def by blast
  have "newline \<notin> set line" using prepare_Ok [OF prep] one_line by blast
  moreover have "chain_fold L C (j_project j) (ls @ [line]) =
    Inr \<lparr>r_state = nxt, r_receipts = j_receipts j @ [rc], r_last_hash = Some (digest C line),
         r_ids = bs_insert (receipt_id rc) (r_ids r)\<rparr>"
    using r(1) prepared_line_replays [OF ok fresh prep r]
    by (simp add: chain_fold_def try_fold_append)
  ultimately have "journal_ok L C (ls @ [line]) j'"
    using d' lines by (simp add: j' journal_ok_def)
  with prep d' show ?thesis by (auto simp: j')
qed

end

lemma append_refused:
  assumes ok: "journal_ok L C ls j"
    and app: "append_in_window L C fl fresh k p a w j = (Err e, j')" and cuts: "cuts_work fl"
  shows "journal_ok L C ls j' \<and> j_state j' = j_state j \<and> j_receipts j' = j_receipts j \<and>
    journal_file (j_files j') = journal_file (j_files j)"
proof (cases "prepare L C fresh k p a w j")
  case (Inl e0)
  with ok app show ?thesis by (simp add: append_in_window_def)
next
  case (Inr x)
  then obtain rc nxt line where prep: "prepare L C fresh k p a w j = Inr (rc, nxt, line)"
    by (cases x) auto
  let ?first = "j_receipts j = []"
  note agree = journal_okD(1) [OF ok]
  from app prep cuts obtain d' where
    "files_agree (unlines ls) d'" "journal_file d' = journal_file (j_files j)"
    and j': "j' = j\<lparr>j_files := d', j_writable := False\<rparr>"
    by (cases rule: write_receipt_outcomes [OF agree, of fl ?first "line @ [newline]"])
      (auto simp: append_in_window_def)
  with ok show ?thesis by (auto simp: journal_ok_def)
qed

lemma journal_ok_first:
  "journal_ok L C ls j \<Longrightarrow> j_receipts j = [] \<longleftrightarrow> unlines ls = []"
  using journal_okD(2) [of L C ls j] by (cases ls) (auto simp: linked_def)

lemma append_no_faults:
  assumes "journal_ok L C ls j" and "prepare L C fresh k p a w j = Inr x"
  shows "fst (append_in_window L C no_faults fresh k p a w j) = Ok ()"
proof -
  obtain rc nxt line where x: "x = (rc, nxt, line)" by (cases x)
  from write_receipt_no_faults [OF journal_okD(1) [OF assms(1)] journal_ok_first [OF assms(1)]]
  obtain d where "write_receipt no_faults (j_receipts j = []) (line @ [newline]) (j_files j) = (Ok (), d)"
    by blast
  with assms(2) x show ?thesis by (simp add: append_in_window_def)
qed

lemma append_Ok:
  assumes "append_in_window L C fl fresh k p a w j = (Ok (), j')"
  obtains rc line where "prepare L C fresh k p a w j = Inr (rc, j_state j', line)"
    and "kind rc = k" and "receipt_payload rc = p" and "receipt_window rc = w"
    and "project_id rc = j_project j" and "apply_receipt L rc (j_state j) = Inr (j_state j')"
    and "j_project j' = j_project j" and "j_receipts j' = j_receipts j @ [rc]"
proof -
  from assms obtain rc nxt line where prep: "prepare L C fresh k p a w j = Inr (rc, nxt, line)"
    by (auto simp: append_in_window_def split: sum.splits)
  with assms have "j_state j' = nxt" "j_project j' = j_project j" "j_receipts j' = j_receipts j @ [rc]"
    by (auto simp: append_in_window_def split: sum.splits prod.splits)
  with prep prepare_Ok [OF prep] show thesis by (intro that) auto
qed

lemma append_Err:
  assumes "append_in_window L C fl fresh k p a w j = (Err e, j')"
  shows "j_state j' = j_state j" and "j_receipts j' = j_receipts j" and "j_project j' = j_project j"
    and "j_day j' = j_day j"
  using assms by (auto simp: append_in_window_def split: sum.splits prod.splits)

text \<open>The two files after a failed append, whatever the faults were.\<close>

lemma append_prefixes:
  assumes ok: "journal_ok L C ls j"
    and app: "append_in_window L C fl fresh k p a w j = (Err e, j')"
  shows "prefix (unlines ls) (bytes_in (journal_file (j_files j'))) \<and>
    prefix (bytes_in (journal_file (j_files j'))) (bytes_in (witness_file (authority_of (j_files j'))))"
proof (cases "prepare L C fresh k p a w j")
  case (Inl e0)
  with ok app show ?thesis
    by (auto simp: append_in_window_def journal_ok_def files_agree_def)
next
  case (Inr x)
  then obtain rc nxt line where prep: "prepare L C fresh k p a w j = Inr (rc, nxt, line)"
    by (cases x) auto
  note agree = journal_okD(1) [OF ok]
  show ?thesis
  proof (cases rule: write_receipt_outcomes [OF agree, of fl "j_receipts j = []" "line @ [newline]"])
    case (1 d')
    with app prep show ?thesis by (simp add: append_in_window_def)
  next
    case (2 e' d' n)
    with app prep agree show ?thesis by (auto simp: append_in_window_def files_agree_def)
  next
    case (3 e' d' n)
    have "prefix (take n (line @ [newline])) (line @ [newline])" by (rule take_is_prefix)
    with 3 app prep show ?thesis by (auto simp: append_in_window_def)
  qed
qed

lemma replay_chain_ok:
  assumes "replay_chain L C project bs = Inr r"
  shows "state_ok L (r_state r)"
    and "try_fold (apply_receipt L) (r_receipts r) state_default = Inr (r_state r)"
proof -
  from replay_chain_lines [OF assms] obtain ls where "chain_fold L C project ls = Inr r" by blast
  from chain_fold_inv [OF this]
  show fold: "try_fold (apply_receipt L) (r_receipts r) state_default = Inr (r_state r)"
    by (simp add: chain_inv_def)
  show "state_ok L (r_state r)" by (rule chain_inv.loop_keeps [OF state_ok_default fold])
qed

end
