(* ===== verification/Line_Codec.thy ===== *)
theory Line_Codec
  imports Journal_Laws
begin

text \<open>
  A concrete instance of the codec parameter, so that closed examples evaluate and the
  laws asked of \<open>serde_json\<close> are known to be satisfiable: a prefix code of receipts over the
  JSON data model whose bytes never hold a newline, and its reader.
\<close>

subsection \<open>Strings\<close>

definition nibble :: "nat \<Rightarrow> u8" where
  "nibble n = of_nat (32 + n)"

definition put_char :: "char \<Rightarrow> bytes" where
  "put_char c = [nibble (of_char c div 16), nibble (of_char c mod 16)]"

definition put_string :: "string \<Rightarrow> bytes" where
  "put_string s = concat (map put_char s) @ [1]"

fun take_string :: "bytes \<Rightarrow> (string \<times> bytes) option" where
  "take_string [] = None"
| "take_string [a] = (if a = 1 then Some ([], []) else None)"
| "take_string (a # b # r) =
     (if a = 1 then Some ([], b # r)
      else map_option (\<lambda>(s, rest). (char_of (16 * (unat a - 32) + (unat b - 32)) # s, rest))
             (take_string r))"

lemma unat_nibble: "n < 16 \<Longrightarrow> unat (nibble n) = 32 + n"
  by (simp add: nibble_def unat_of_nat take_bit_nat_eq_self del: of_nat_add)

lemma nibble_neq:
  assumes "n < 16"
  shows "nibble n \<noteq> 1" and "nibble n \<noteq> 10" and "nibble n \<noteq> 11"
proof -
  have "unat (nibble n) \<noteq> unat (1 :: u8)" "unat (nibble n) \<noteq> unat (10 :: u8)"
    "unat (nibble n) \<noteq> unat (11 :: u8)"
    using assms by (simp_all add: unat_nibble)
  then show "nibble n \<noteq> 1" and "nibble n \<noteq> 10" and "nibble n \<noteq> 11" by metis+
qed

lemma of_char_less: "(of_char c :: nat) < 256"
  by simp

lemma of_char_nibbles: "(of_char c :: nat) div 16 < 16" "(of_char c :: nat) mod 16 < 16"
  using of_char_less [of c] by (simp_all add: less_mult_imp_div_less)

lemma char_nibbles: "char_of (16 * ((of_char c :: nat) div 16) + of_char c mod 16) = (c :: char)"
  by (simp add: mult_div_mod_eq)

lemma take_put_string [simp]: "take_string (put_string s @ r) = Some (s, r)"
proof (induction s)
  case Nil
  then show ?case by (cases r) (simp_all add: put_string_def)
next
  case (Cons c s)
  have "take_string (put_char c @ put_string s @ r) = Some (c # s, r)"
    using Cons by (simp add: put_char_def unat_nibble of_char_nibbles nibble_neq char_nibbles)
  then show ?case by (simp add: put_string_def)
qed

lemma put_string_newline [simp]: "newline \<notin> set (put_string s)"
  using nibble_neq of_char_nibbles by (fastforce simp: put_string_def put_char_def)

subsection \<open>Values\<close>

fun put_json :: "json \<Rightarrow> bytes" where
  "put_json Null = [2]"
| "put_json (Boolean b) = [if b then 3 else 4]"
| "put_json (Number n) = 5 # put_string (show_u64 n)"
| "put_json (Str s) = 6 # put_string s"
| "put_json (Arr vs) = 7 # concat (map put_json vs) @ [8]"
| "put_json (Obj kvs) = 9 # concat (map (\<lambda>(k, v). put_string k @ put_json v) kvs) @ [11]"

fun take_json :: "nat \<Rightarrow> bytes \<Rightarrow> (json \<times> bytes) option"
  and take_items :: "nat \<Rightarrow> bytes \<Rightarrow> (json list \<times> bytes) option"
  and take_members :: "nat \<Rightarrow> bytes \<Rightarrow> ((string \<times> json) list \<times> bytes) option" where
  "take_json 0 bs = None"
| "take_json (Suc n) [] = None"
| "take_json (Suc n) (t # r) =
     (if t = 2 then Some (Null, r)
      else if t = 3 then Some (Boolean True, r)
      else if t = 4 then Some (Boolean False, r)
      else if t = 5 then map_option (\<lambda>(s, q). (Number (of_nat (read_nat s)), q)) (take_string r)
      else if t = 6 then map_option (\<lambda>(s, q). (Str s, q)) (take_string r)
      else if t = 7 then map_option (\<lambda>(vs, q). (Arr vs, q)) (take_items n r)
      else if t = 9 then map_option (\<lambda>(kvs, q). (Obj kvs, q)) (take_members n r)
      else None)"
| "take_items 0 bs = None"
| "take_items (Suc n) bs =
     (if bs \<noteq> [] \<and> hd bs = 8 then Some ([], tl bs)
      else Option.bind (take_json n bs) (\<lambda>(v, r).
        map_option (\<lambda>(vs, q). (v # vs, q)) (take_items n r)))"
| "take_members 0 bs = None"
| "take_members (Suc n) bs =
     (if bs \<noteq> [] \<and> hd bs = 11 then Some ([], tl bs)
      else Option.bind (take_string bs) (\<lambda>(k, r).
        Option.bind (take_json n r) (\<lambda>(v, q).
          map_option (\<lambda>(kvs, z). ((k, v) # kvs, z)) (take_members n q))))"

lemma put_json_head: "\<exists>t r. put_json v = t # r \<and> t \<noteq> 8"
  by (cases v) auto

lemma put_string_head: "\<exists>t r. put_string k = t # r \<and> t \<noteq> 11"
proof (cases k)
  case (Cons c s)
  have "nibble ((of_char c :: nat) div 16) \<noteq> 11"
    by (rule nibble_neq) (rule of_char_nibbles)
  with Cons show ?thesis by (auto simp: put_string_def put_char_def)
qed (simp add: put_string_def)

lemma take_items_put:
  assumes "\<And>v n r. v \<in> set vs \<Longrightarrow> length (put_json v) \<le> n \<Longrightarrow> take_json n (put_json v @ r) = Some (v, r)"
    and "length (concat (map put_json vs)) < n"
  shows "take_items n (concat (map put_json vs) @ 8 # r) = Some (vs, r)"
  using assms
proof (induction vs arbitrary: n)
  case Nil
  then show ?case by (cases n) auto
next
  case (Cons v vs)
  obtain m where n: "n = Suc m" using Cons.prems(2) by (cases n) auto
  obtain t q where head: "put_json v = t # q" "t \<noteq> 8" using put_json_head by blast
  have "take_json m (put_json v @ concat (map put_json vs) @ 8 # r) =
      Some (v, concat (map put_json vs) @ 8 # r)"
    using Cons.prems(2) n by (intro Cons.prems(1)) auto
  moreover have "take_items m (concat (map put_json vs) @ 8 # r) = Some (vs, r)"
    using Cons.prems n head by (intro Cons.IH) auto
  ultimately show ?case using n head by simp
qed

lemma take_members_put:
  assumes "\<And>k v n r. (k, v) \<in> set kvs \<Longrightarrow> length (put_json v) \<le> n \<Longrightarrow>
      take_json n (put_json v @ r) = Some (v, r)"
    and "length (concat (map (\<lambda>(k, v). put_string k @ put_json v) kvs)) < n"
  shows "take_members n (concat (map (\<lambda>(k, v). put_string k @ put_json v) kvs) @ 11 # r) =
    Some (kvs, r)"
  using assms
proof (induction kvs arbitrary: n)
  case Nil
  then show ?case by (cases n) auto
next
  case (Cons kv kvs)
  let ?rest = "concat (map (\<lambda>(k, v). put_string k @ put_json v) kvs) @ 11 # r"
  obtain k v where kv: "kv = (k, v)" by (cases kv)
  obtain m where n: "n = Suc m" using Cons.prems(2) by (cases n) auto
  obtain t q where head: "put_string k = t # q" "t \<noteq> 11" using put_string_head by blast
  have "take_json m (put_json v @ ?rest) = Some (v, ?rest)"
    using Cons.prems(2) n kv by (intro Cons.prems(1)) auto
  moreover have "take_members m ?rest = Some (kvs, r)"
    using Cons.prems n head kv by (intro Cons.IH) auto
  moreover have "take_string (t # q @ put_json v @ ?rest) = Some (k, put_json v @ ?rest)"
    using take_put_string [of k "put_json v @ ?rest"] head by simp
  ultimately show ?case using n head kv by simp
qed

lemma take_put_json: "length (put_json v) \<le> n \<Longrightarrow> take_json n (put_json v @ r) = Some (v, r)"
proof (induction v arbitrary: n r)
  case (Arr vs)
  then obtain m where "n = Suc m" by (cases n) auto
  with Arr take_items_put [of vs m r] show ?case by simp
next
  case (Obj kvs)
  then obtain m where "n = Suc m" by (cases n) auto
  with Obj take_members_put [of kvs m r] show ?case by fastforce
next
  case (Number k)
  then obtain m where "n = Suc m" by (cases n) auto
  then show ?case by (simp add: show_u64_def)
qed (auto simp: Suc_le_eq gr0_conv_Suc Suc_le_length_iff split: if_splits; (case_tac n; auto))+

lemma put_json_newline [simp]: "newline \<notin> set (put_json v)"
  by (induction v) auto

subsection \<open>Receipts\<close>

definition put_option :: "string option \<Rightarrow> bytes" where
  "put_option s = (case s of None \<Rightarrow> [12] | Some t \<Rightarrow> 13 # put_string t)"

definition take_option :: "bytes \<Rightarrow> (string option \<times> bytes) option" where
  "take_option bs =
     (case bs of
        [] \<Rightarrow> None
      | t # r \<Rightarrow> if t = 12 then Some (None, r)
                else map_option (\<lambda>(s, q). (Some s, q)) (take_string r))"

lemma take_put_option [simp]: "take_option (put_option s @ r) = Some (s, r)"
  by (cases s) (simp_all add: put_option_def take_option_def)

lemma put_option_newline [simp]: "newline \<notin> set (put_option s)"
  by (cases s) (simp_all add: put_option_def)

definition put_receipt :: "json receipt \<Rightarrow> bytes" where
  "put_receipt rc =
     put_string (schema rc) @ put_string (project_id rc) @ put_string (show_u64 (sequence rc)) @
     put_string (receipt_id rc) @ put_option (previous_hash rc) @ put_string (written_at rc) @
     put_string (actor rc) @ put_string (kind rc) @ put_option (receipt_window rc) @
     put_json (receipt_payload rc)"

definition take_receipt :: "bytes \<Rightarrow> json receipt option" where
  "take_receipt b0 =
     Option.bind (take_string b0) (\<lambda>(sch, b1).
     Option.bind (take_string b1) (\<lambda>(project, b2).
     Option.bind (take_string b2) (\<lambda>(seq, b3).
     Option.bind (take_string b3) (\<lambda>(rid, b4).
     Option.bind (take_option b4) (\<lambda>(previous, b5).
     Option.bind (take_string b5) (\<lambda>(written, b6).
     Option.bind (take_string b6) (\<lambda>(who, b7).
     Option.bind (take_string b7) (\<lambda>(k, b8).
     Option.bind (take_option b8) (\<lambda>(day, b9).
     Option.bind (take_json (length b9) b9) (\<lambda>(p, b10).
       if b10 = []
       then Some \<lparr>schema = sch, project_id = project, sequence = of_nat (read_nat seq),
                  receipt_id = rid, previous_hash = previous, written_at = written, actor = who,
                  kind = k, receipt_window = day, receipt_payload = p\<rparr>
       else None))))))))))"

lemma take_put_receipt: "take_receipt (put_receipt rc) = Some rc"
  using take_put_json [of "receipt_payload rc" _ "[]"]
  by (simp add: take_receipt_def put_receipt_def show_u64_def)

definition sample_hash :: "bytes \<Rightarrow> string" where
  "sample_hash bs = show_nat (foldl (\<lambda>h b. (h * 31 + unat b) mod 65521) 7 bs)"

definition line_codec :: "json codec" where
  "line_codec =
     \<lparr>to_vec = (\<lambda>rc. Ok (put_receipt rc)),
      from_slice = (\<lambda>bs. ok_or (corrupt ''not a receipt'') (take_receipt bs)),
      sha256_hex = sample_hash\<rparr>"

lemma line_codec_simps [simp]:
  "to_vec line_codec rc = Inr (put_receipt rc)"
  "from_slice line_codec bs = ok_or (corrupt ''not a receipt'') (take_receipt bs)"
  "sha256_hex line_codec = sample_hash"
  by (simp_all add: line_codec_def)

interpretation lc: codec_laws line_codec
  by unfold_locales (auto simp: take_put_receipt, auto simp: put_receipt_def)

end
