(* ===== verification/Identity.thy ===== *)
theory Identity
  imports Journal
begin

text \<open>
  \<open>budget/identity.rs\<close>: a ticket's identity is bound to the paths it lives at and to its
  content. What the ledger reads from outside is the record \<open>world\<close>: \<open>fs::canonicalize\<close>
  (absent is \<open>None\<close>), the content of a live source (absent is \<open>None\<close>), and the budget
  identities the tickets of one document claim, which \<open>parse_metadata_file\<close> reads from its
  YAML (\<open>None\<close> where it does not parse), with the system's words for an absent file. \<open>row\<close> is of \<open>budget/bounds.rs\<close>.
\<close>

record world =
  canonicalize :: "string \<Rightarrow> string option res"
  live_source :: "string \<Rightarrow> string option res"
  ticket_claims :: "string \<Rightarrow> string \<Rightarrow> string list option"
  not_found :: string

definition io_error :: "string \<Rightarrow> budget_error" where
  "io_error msg =
     error_new ''unreachable_budget_path''
       (''the project's budget account could not be read or written: '' @ msg)"

definition as_bytes :: "string \<Rightarrow> bytes" where
  "as_bytes s = map of_char s"

text \<open>A set of paths in the order of \<open>BTreeSet<PathBuf>\<close>: component by component.\<close>

definition path_list :: "string set \<Rightarrow> string list" where
  "path_list ps = map (join ''/'') (sorted_list_of_set (split_on CHR ''/'' ` ps))"

definition row :: "string \<Rightarrow> string \<Rightarrow> string" where
  "row label value = ''       '' @ label @ replicate (13 - length label) CHR '' '' @ value"

subsection \<open>Reading the bindings\<close>

definition identity_installed :: "'v lib \<Rightarrow> 'v journal \<Rightarrow> string \<Rightarrow> bool" where
  "identity_installed L j tkt =
     (case bm_get (identities (j_state j)) tkt of
        Some binding \<Rightarrow> vstr_at L binding ''status'' = Some ''installed''
      | None \<Rightarrow> False)"

definition identity_sources :: "'v lib \<Rightarrow> 'v journal \<Rightarrow> string set res" where
  "identity_sources L j =
     try_fold (\<lambda>binding paths. tryb (sources L binding) (\<lambda>more. Ok (paths \<union> more)))
       (bm_values (identities (j_state j))) {}"

definition identity_conflict :: budget_error where
  "identity_conflict = error_new ''identity_conflict'' ''ticket identity has conflicting live content''"

definition agree_step :: "world \<Rightarrow> string \<Rightarrow> string option \<Rightarrow> string option res" where
  "agree_step W source content =
     tryb (live_source W source) (\<lambda>read.
     case read of
       None \<Rightarrow> Ok content
     | Some bytes \<Rightarrow>
         if content \<noteq> None \<and> content \<noteq> Some bytes then Err identity_conflict
         else Ok (Some bytes))"

definition validate_binding :: "'v lib \<Rightarrow> world \<Rightarrow> 'v \<Rightarrow> unit \<Rightarrow> unit res" where
  "validate_binding L W binding u =
     tryb (sources L binding) (\<lambda>paths.
     tryb (try_fold (agree_step W) (path_list paths) None) (\<lambda>_. Ok ()))"

definition validate_identity_sources :: "'v lib \<Rightarrow> world \<Rightarrow> 'v journal \<Rightarrow> unit res" where
  "validate_identity_sources L W j =
     try_fold (validate_binding L W) (bm_values (identities (j_state j))) ()"

definition ticket_prefix :: "'v journal \<Rightarrow> string" where
  "ticket_prefix j = ''ticket:'' @ trim_start_matches ''panta:'' (j_project j) @ '':''"

fun bound_among ::
  "'v lib \<Rightarrow> string \<Rightarrow> string \<Rightarrow> string \<Rightarrow> (string \<times> 'v) list \<Rightarrow> string option res" where
  "bound_among L lead display source [] = Ok None"
| "bound_among L lead display source ((tkt, binding) # rest) =
     (if vstr_at L binding ''display_id'' \<noteq> Some display
      then bound_among L lead display source rest
      else tryb (sources L binding) (\<lambda>paths.
        if source \<notin> paths then bound_among L lead display source rest
        else case strip_prefix lead tkt of
          Some rid \<Rightarrow> Ok (Some rid)
        | None \<Rightarrow> bound_among L lead display source rest))"

definition bound_ticket ::
  "'v lib \<Rightarrow> world \<Rightarrow> 'v journal \<Rightarrow> string \<Rightarrow> string \<Rightarrow> string option res" where
  "bound_ticket L W j display source =
     tryb (canonicalize W source) (\<lambda>found.
     case found of
       None \<Rightarrow> Ok None
     | Some path \<Rightarrow> bound_among L (ticket_prefix j) display path (identities (j_state j)))"

subsection \<open>Binding\<close>

record identity_move =
  moved_identity :: string
  moved_from :: string
  moved_to :: string

definition newline_char :: string where
  "newline_char = [CHR 0x0A]"

definition move_warning :: "identity_move \<Rightarrow> string" where
  "move_warning m =
     ''warning: travel for '' @ moved_identity m @ '' now counts against '' @
     quoted (moved_to m) @ ''; it was'' @ newline_char @ replicate 9 CHR '' '' @
     ''counted against '' @ quoted (moved_from m) @ '', which this plan no longer has''"

definition claimants :: "world \<Rightarrow> string \<Rightarrow> string \<Rightarrow> string \<Rightarrow> nat" where
  "claimants W path content rid =
     (case ticket_claims W path content of
        Some claims \<Rightarrow> length (filter (\<lambda>c. c = rid) claims)
      | None \<Rightarrow> 0)"

definition file_name :: "string \<Rightarrow> string" where
  "file_name path = last (split_on CHR ''/'' path)"

definition live_in :: "string list \<Rightarrow> string" where
  "live_in claiming =
     (case claiming of
        [one] \<Rightarrow> ''both live in '' @ file_name one
      | several \<Rightarrow> ''live in '' @ join '' and '' several)"

definition claimed_by_two :: "string \<Rightarrow> string \<Rightarrow> string \<Rightarrow> string list \<Rightarrow> budget_error" where
  "claimed_by_two rid held display claiming =
     error_new ''identity_claimed''
       (join newline_char
          [''ticket '' @ quoted display @ '' claims a budget identity the account holds for '' @ quoted held,
           row ''identity:'' rid,
           row ''claimed by:'' (held @ '' and '' @ display @ '', '' @ live_in claiming),
           row ''why:'' ''one travel bound covers one ticket, and these two would'',
           row '''' ''draw on one'',
           row ''to fix it:'' ''give whichever of these did not earn this history a fresh'',
           row '''' ''`budgetTicketId` in its file; the account counts it'',
           row '''' (''against '' @ quoted held)])"

definition claim_moving ::
  "world \<Rightarrow> string \<Rightarrow> string \<Rightarrow> string \<Rightarrow> string set \<Rightarrow> string \<Rightarrow> identity_move res" where
  "claim_moving W rid held display live content =
     (let counts = map (\<lambda>path. (path, claimants W path content rid)) (path_list live);
          claiming = map fst (filter (\<lambda>(path, n). n > 0) counts)
      in if sum_list (map snd counts) > 1
         then Err (claimed_by_two rid held display claiming)
         else Ok \<lparr>moved_identity = rid, moved_from = held, moved_to = display\<rparr>)"

definition live_step :: "world \<Rightarrow> string \<Rightarrow> string \<Rightarrow> string set \<Rightarrow> string set res" where
  "live_step W content old live =
     tryb (live_source W old) (\<lambda>read.
     case read of
       None \<Rightarrow> Ok live
     | Some existing \<Rightarrow>
         if existing \<noteq> content then Err identity_conflict else Ok (insert old live))"

text \<open>
  The previous binding decides: nothing to write, or the live paths and the display id the
  account held where that is what moves.
\<close>

definition previous_binding ::
  "'v lib \<Rightarrow> world \<Rightarrow> 'v journal \<Rightarrow> string \<Rightarrow> string \<Rightarrow> string \<Rightarrow> string \<Rightarrow>
   (string set \<times> string option) option res" where
  "previous_binding L W j tkt display source content =
     (case bm_get (identities (j_state j)) tkt of
        None \<Rightarrow> Ok (Some ({source}, None))
      | Some previous \<Rightarrow>
          tryb (sources L previous) (\<lambda>olds.
          tryb (try_fold (live_step W content) (path_list olds) {source}) (\<lambda>live.
          if olds = live \<and> vstr_at L previous ''display_id'' = Some display then Ok None
          else if vstr_at L previous ''display_id'' \<noteq> Some display
          then tryb (req_string L previous ''display_id'') (\<lambda>held. Ok (Some (live, Some held)))
          else Ok (Some (live, None)))))"

definition identity_payload ::
  "'v lib \<Rightarrow> 'v codec \<Rightarrow> string \<Rightarrow> string \<Rightarrow> string \<Rightarrow> string set \<Rightarrow> string \<Rightarrow> 'v" where
  "identity_payload L C tkt display source live content =
     mk_obj L [(''ticket_identity'', mk_str L tkt), (''display_id'', mk_str L display),
               (''source_path'', mk_str L source), (''source_paths'', mk_paths L live),
               (''source_hash'', mk_str L (digest C (as_bytes content))),
               (''status'', mk_str L ''installed'')]"

text \<open>What a binding decides before it appends: nothing, or the move and the payload.\<close>

definition bind_plan ::
  "'v lib \<Rightarrow> 'v codec \<Rightarrow> world \<Rightarrow> 'v journal \<Rightarrow> string \<Rightarrow> string \<Rightarrow> string \<Rightarrow>
   (identity_move option \<times> 'v) option res" where
  "bind_plan L C W j tkt display given =
     tryb (ok_or (corrupt ''ticket belongs to another account'')
            (strip_prefix (ticket_prefix j) tkt)) (\<lambda>rid.
     tryb (check_uuid L rid) (\<lambda>_.
     tryb (canonicalize W given) (\<lambda>found.
     tryb (ok_or (io_error (not_found W)) found) (\<lambda>source.
     tryb (live_source W source) (\<lambda>read.
     tryb (ok_or (io_error (not_found W)) read) (\<lambda>content.
     tryb (previous_binding L W j tkt display source content) (\<lambda>decided.
     case decided of
       None \<Rightarrow> Ok None
     | Some (live, held) \<Rightarrow>
         tryb (case held of
                 Some h \<Rightarrow> tryb (claim_moving W rid h display live content) (\<lambda>m. Ok (Some m))
               | None \<Rightarrow> Ok None) (\<lambda>moved.
           Ok (Some (moved, identity_payload L C tkt display source live content))))))))))"

definition bind_ticket ::
  "'v lib \<Rightarrow> 'v codec \<Rightarrow> faults \<Rightarrow> string \<Rightarrow> world \<Rightarrow> string \<Rightarrow> string \<Rightarrow> string \<Rightarrow> audit \<Rightarrow>
   'v journal \<Rightarrow> identity_move option res \<times> 'v journal" where
  "bind_ticket L C fl fresh W tkt display given a j =
     (case bind_plan L C W j tkt display given of
        Err e \<Rightarrow> (Err e, j)
      | Ok None \<Rightarrow> (Ok None, j)
      | Ok (Some (moved, p)) \<Rightarrow>
          (case journal_append L C fl fresh ''identity'' p a j of
             (Err e, j') \<Rightarrow> (Err e, j')
           | (Ok _, j') \<Rightarrow> (Ok moved, j')))"

end
