(* ===== verification/Admission.thy ===== *)
theory Admission
  imports Identity
begin

text \<open>
  \<open>budget/admission.rs\<close> and \<open>budget/ancestry.rs\<close>: whether a spawn is admitted, the receipt
  that reserves it, the starts, releases and settles that follow, and the charge of an applied
  edge. Inspection (\<open>preview\<close>) and mutation (\<open>reserve\<close>) share every check.
\<close>

record arm =
  attempt_identity :: string
  descendant_envelope :: u64

record effective_bounds =
  transition_limit :: u64
  invocations_per_day :: u64
  spend_per_day :: u64

record ancestry_descriptor =
  anc_reservation :: string
  anc_account :: "string option"
  anc_origin :: "string option"

datatype ancestry =
    Unclaimed
  | Placed string u64
  | Elsewhere string string

fun ancestry_parent :: "ancestry \<Rightarrow> string option" where
  "ancestry_parent (Placed r e) = Some r"
| "ancestry_parent Unclaimed = None"
| "ancestry_parent (Elsewhere r a) = None"

fun minted_elsewhere :: "ancestry \<Rightarrow> (string \<times> string) option" where
  "minted_elsewhere (Elsewhere r a) = Some (r, a)"
| "minted_elsewhere Unclaimed = None"
| "minted_elsewhere (Placed r e) = None"

record admission_request =
  req_ticket :: string
  req_display :: string
  req_project_label :: string
  req_execution_root :: string
  req_arms :: "arm list"
  req_parent :: "ancestry_descriptor option"
  req_travel :: bool
  req_reserve_micro :: u64
  req_currency :: string

record applied_edge =
  edge_ticket :: string
  edge_display :: string
  edge_from :: string
  edge_to :: string
  edge_reservation :: "string option"
  edge_limit :: u64

record reservation_group =
  reservation_ids :: "string list"
  travel_reservation_id :: "string option"
  group_ancestry :: ancestry

subsection \<open>Ancestry\<close>

definition unavailable :: "ancestry_descriptor \<Rightarrow> string \<Rightarrow> budget_error" where
  "unavailable d why =
     error_new ''ancestor_unavailable''
       (''nested admission cannot use ancestor '' @ anc_reservation d @
        (case anc_origin d of Some origin \<Rightarrow> '' '' @ origin | None \<Rightarrow> '''') @ '': '' @ why)"

definition place_under :: "'v lib \<Rightarrow> 'v journal \<Rightarrow> ancestry_descriptor \<Rightarrow> ancestry res" where
  "place_under L j d =
     tryb (ok_or (unavailable d ''no such reservation'')
            (bm_get (reservations (j_state j)) (anc_reservation d))) (\<lambda>r.
     if released r then Err (unavailable d ''the ancestor invocation has already been released'')
     else if \<not> started r then Err (unavailable d ''the ancestor invocation has not started'')
     else tryb (ok_or (unavailable d ''it was admitted without a descendant envelope'')
                 (vu64_at L (payload r) ''descendant_envelope'')) (\<lambda>envelope.
       if envelope = 0 then Err (unavailable d ''it permits no nested neural work'')
       else Ok (Placed (anc_reservation d) envelope)))"

definition authenticate_ancestor ::
  "'v lib \<Rightarrow> 'v journal \<Rightarrow> admission_request \<Rightarrow> ancestry res" where
  "authenticate_ancestor L j req =
     (case req_parent req of
        None \<Rightarrow> Ok Unclaimed
      | Some d \<Rightarrow>
          (case anc_account d of
             Some account \<Rightarrow>
               if account \<noteq> account_uuid j then Ok (Elsewhere (anc_reservation d) account)
               else place_under L j d
           | None \<Rightarrow> place_under L j d))"

subsection \<open>The checks, in the order they refuse\<close>

definition travel_exhausted :: "string \<Rightarrow> counter \<Rightarrow> u64 \<Rightarrow> contract \<Rightarrow> string \<Rightarrow> budget_error" where
  "travel_exhausted display c limit k day =
     error_exhausted ''travel_exhausted''
       (''ticket '' @ quoted display @ '' has spent its travel bound ('' @ show_u64 (consumed c) @
        '' applied + '' @ show_u64 (reserved c) @ '' held / '' @ show_u64 limit @ '')'')
       \<lparr>spent_dimension = Travel, spent_subject = display, spent_counter = c, spent_bound = limit,
        spent_contract = k, spent_day = day, spent_currency = None\<rparr>"

definition check_travel ::
  "'v snapshot \<Rightarrow> string \<Rightarrow> string \<Rightarrow> u64 \<Rightarrow> unit res" where
  "check_travel snap tkt display limit =
     (let c = travel_for snap tkt
      in tryb (exposure c) (\<lambda>e. tryb (add e 1) (\<lambda>n.
         if n > limit
         then Err (travel_exhausted display c limit (snap_contract snap) (snap_day snap))
         else Ok ())))"

definition currency_conflict :: "string \<Rightarrow> string \<Rightarrow> string \<Rightarrow> budget_error" where
  "currency_conflict label held wanted =
     error_new ''currency_conflict''
       (''project '' @ quoted label @ '' keeps its account in '' @ held @
        '' and this run prices in '' @ wanted @
        ''; nothing here converts one to the other, so the run is refused before any agent starts'')"

definition check_currency :: "'v snapshot \<Rightarrow> admission_request \<Rightarrow> unit res" where
  "check_currency snap req =
     (if req_reserve_micro req > 0
      then (case snap_currency snap of
              Some held \<Rightarrow>
                if held \<noteq> req_currency req
                then Err (currency_conflict (req_project_label req) held (req_currency req))
                else Ok ()
            | None \<Rightarrow> Ok ())
      else Ok ())"

definition check_invocations ::
  "'v snapshot \<Rightarrow> admission_request \<Rightarrow> u64 \<Rightarrow> u64 \<Rightarrow> unit res" where
  "check_invocations snap req units bound_now =
     (let c = invocations snap
      in tryb (exposure c) (\<lambda>e. tryb (add e units) (\<lambda>n.
         if n > bound_now
         then Err (error_exhausted ''invocation_exhausted''
                (''project '' @ quoted (req_project_label req) @ '' has no invocation capacity left ('' @
                 show_u64 (consumed c) @ '' consumed + '' @ show_u64 (reserved c) @
                 '' outstanding / '' @ show_u64 bound_now @ '')'')
                \<lparr>spent_dimension = Invocations, spent_subject = req_project_label req,
                 spent_counter = c, spent_bound = bound_now, spent_contract = snap_contract snap,
                 spent_day = snap_day snap, spent_currency = None\<rparr>)
         else Ok ())))"

definition spend_exhausted ::
  "'v snapshot \<Rightarrow> admission_request \<Rightarrow> counter \<Rightarrow> u64 \<Rightarrow> budget_error" where
  "spend_exhausted snap req c limit =
     error_exhausted ''spend_exhausted''
       (''project '' @ quoted (req_project_label req) @ '' has spent today's measured budget ('' @
        format_micro (consumed c) (snap_currency snap) @ '' consumed + '' @
        format_micro (reserved c) (snap_currency snap) @ '' outstanding / '' @
        format_micro limit (snap_currency snap) @ '')'')
       \<lparr>spent_dimension = Spend, spent_subject = req_project_label req, spent_counter = c,
        spent_bound = limit, spent_contract = snap_contract snap, spent_day = snap_day snap,
        spent_currency = Some (case snap_currency snap of Some c \<Rightarrow> c | None \<Rightarrow> req_currency req)\<rparr>"

definition check_spend ::
  "'v snapshot \<Rightarrow> admission_request \<Rightarrow> u64 \<Rightarrow> u64 \<Rightarrow> unit res" where
  "check_spend snap req units limit =
     tryb (ok_or (corrupt ''the worst case for this fanout overflows the ledger'')
            (checked_mul (req_reserve_micro req) units)) (\<lambda>reserving.
     tryb (exposure (snap_spend snap)) (\<lambda>e.
     tryb (add e reserving) (\<lambda>n.
       if n > limit
       then tryb (add (reserved (snap_spend snap)) reserving) (\<lambda>held.
              Err (spend_exhausted snap req ((snap_spend snap)\<lparr>reserved := held\<rparr>) limit))
       else Ok ())))"

definition attempt_step :: "'v state \<Rightarrow> arm \<Rightarrow> string bset \<Rightarrow> string bset res" where
  "attempt_step s a seen =
     (if attempt_identity a = [] \<or> bm_contains (attempts s) (attempt_identity a) \<or>
         bm_contains seen (attempt_identity a)
      then Err (corrupt ''attempt identity was already reserved'')
      else Ok (bs_insert (attempt_identity a) seen))"

definition check_envelope :: "'v lib \<Rightarrow> 'v state \<Rightarrow> ancestry \<Rightarrow> u64 \<Rightarrow> unit res" where
  "check_envelope L s anc units =
     (case anc of
        Placed parent envelope \<Rightarrow>
          tryb (descendants_drawn L s parent) (\<lambda>d. tryb (add d units) (\<lambda>drawn.
          if drawn > envelope
          then Err (error_new ''ancestor_envelope_exhausted''
                 (''ancestor '' @ parent @ '' permits '' @ show_u64 envelope @
                  '' descendant invocations; '' @ show_u64 drawn @ '' is claimed''))
          else Ok ()))
      | _ \<Rightarrow> Ok ())"

definition preview ::
  "'v lib \<Rightarrow> world \<Rightarrow> 'v journal \<Rightarrow> admission_request \<Rightarrow> effective_bounds \<Rightarrow> ancestry res" where
  "preview L W j req b =
     tryb (validate_identity_sources L W j) (\<lambda>_.
     if \<not> identity_installed L j (req_ticket req)
     then Err (error_new ''identity_conflict''
                ''ticket identity must be durably installed before reservation'')
     else if req_arms req = [] then Err (error_bounds ''admission needs at least one arm'')
     else
     tryb (authenticate_ancestor L j req) (\<lambda>anc.
     tryb (journal_snapshot L j) (\<lambda>snap.
     tryb (check_currency snap req) (\<lambda>_.
     let units = of_nat (length (req_arms req)) in
     tryb (if req_travel req
           then check_travel snap (req_ticket req) (req_display req) (transition_limit b)
           else Ok ()) (\<lambda>_.
     tryb (check_invocations snap req units (invocation_bound snap (invocations_per_day b))) (\<lambda>_.
     tryb (check_spend snap req units (spend_per_day b)) (\<lambda>_.
     tryb (try_fold (attempt_step (j_state j)) (req_arms req) []) (\<lambda>_.
     tryb (check_envelope L (j_state j) anc units) (\<lambda>_. Ok anc)))))))))"

subsection \<open>Reserving\<close>

definition arm_base ::
  "'v lib \<Rightarrow> admission_request \<Rightarrow> ancestry \<Rightarrow> string \<Rightarrow> u64 \<Rightarrow> string \<Rightarrow> arm \<Rightarrow> 'v" where
  "arm_base L req anc day units rid a =
     mk_obj L
       [(''reservation_id'', mk_str L rid),
        (''attempt_identity'', mk_str L (attempt_identity a)),
        (''ticket_identity'', mk_str L (req_ticket req)),
        (''display_id'', mk_str L (req_display req)),
        (''parent_reservation'', opt_str L (ancestry_parent anc)),
        (''descendant_envelope'', mk_u64 L (descendant_envelope a)),
        (''execution_root'', mk_str L (req_execution_root req)),
        (''invocation_units'', mk_u64 L 1),
        (''travel_units'', mk_u64 L units),
        (''window'', mk_str L day)]"

definition arm_payload ::
  "'v lib \<Rightarrow> admission_request \<Rightarrow> ancestry \<Rightarrow> string \<Rightarrow> u64 \<Rightarrow> string \<Rightarrow> arm \<Rightarrow> 'v" where
  "arm_payload L req anc day units rid a =
     (let base = arm_base L req anc day units rid a
      in if req_reserve_micro req > 0
         then vset L (vset L base ''spend_reserve_micro'' (mk_u64 L (req_reserve_micro req)))
                ''spend_currency'' (mk_str L (req_currency req))
         else base)"

text \<open>The first arm carries the ticket's one travel unit; the fresh identities are an argument.\<close>

definition reserve_payloads ::
  "'v lib \<Rightarrow> admission_request \<Rightarrow> ancestry \<Rightarrow> string \<Rightarrow> string list \<Rightarrow> 'v list" where
  "reserve_payloads L req anc day ids =
     map (\<lambda>(index, rid, a).
            arm_payload L req anc day (if req_travel req \<and> index = 0 then 1 else 0) rid a)
       (enumerate 0 (zip ids (req_arms req)))"

definition reservation_names :: "string list \<Rightarrow> string list" where
  "reservation_names uuids = map (\<lambda>u. ''reservation:'' @ u) uuids"

definition reserve_payload ::
  "'v lib \<Rightarrow> admission_request \<Rightarrow> ancestry \<Rightarrow> string \<Rightarrow> string list \<Rightarrow> 'v" where
  "reserve_payload L req anc day uuids =
     mk_obj L [(''reservations'',
                mk_arr L (reserve_payloads L req anc day (reservation_names uuids)))]"

definition reserve ::
  "'v lib \<Rightarrow> 'v codec \<Rightarrow> faults \<Rightarrow> string \<Rightarrow> string list \<Rightarrow> world \<Rightarrow> admission_request \<Rightarrow>
   effective_bounds \<Rightarrow> audit \<Rightarrow> 'v journal \<Rightarrow> reservation_group res \<times> 'v journal" where
  "reserve L C fl fresh uuids W req b a j =
     (case preview L W j req b of
        Err e \<Rightarrow> (Err e, j)
      | Ok anc \<Rightarrow>
          (case append_in_window L C fl fresh ''reserve''
                  (reserve_payload L req anc (j_day j) uuids) a (Some (j_day j)) j of
             (Err e, j') \<Rightarrow> (Err e, j')
           | (Ok _, j') \<Rightarrow>
               (Ok \<lparr>reservation_ids = reservation_names uuids,
                   travel_reservation_id =
                     (if req_travel req then Some (reservation_names uuids ! 0) else None),
                   group_ancestry = anc\<rparr>, j')))"

subsection \<open>After the spawn\<close>

definition spend_payload ::
  "'v lib \<Rightarrow> string \<Rightarrow> u64 \<Rightarrow> string \<Rightarrow> spend_basis \<Rightarrow> pricing_context option \<Rightarrow> 'v" where
  "spend_payload L rid amount c basis ctx =
     (let base = mk_obj L [(''reservation_id'', mk_str L rid), (''amount_micro'', mk_u64 L amount),
                           (''currency'', mk_str L c), (''basis'', mk_str L (basis_as_str basis))]
      in case (basis, ctx) of
           (Unpriced, Some x) \<Rightarrow> vset L base ''pricing_context'' (context_to_json L x)
         | _ \<Rightarrow> base)"

definition settle_spend_in_context ::
  "'v lib \<Rightarrow> 'v codec \<Rightarrow> faults \<Rightarrow> string \<Rightarrow> string \<Rightarrow> u64 \<Rightarrow> string \<Rightarrow> spend_basis \<Rightarrow>
   pricing_context option \<Rightarrow> audit \<Rightarrow> 'v journal \<Rightarrow> unit res \<times> 'v journal" where
  "settle_spend_in_context L C fl fresh rid amount c basis ctx a j =
     journal_append L C fl fresh ''spend'' (spend_payload L rid amount c basis ctx) a j"

definition settle_spend ::
  "'v lib \<Rightarrow> 'v codec \<Rightarrow> faults \<Rightarrow> string \<Rightarrow> string \<Rightarrow> u64 \<Rightarrow> string \<Rightarrow> spend_basis \<Rightarrow>
   audit \<Rightarrow> 'v journal \<Rightarrow> unit res \<times> 'v journal" where
  "settle_spend L C fl fresh rid amount c basis a j =
     settle_spend_in_context L C fl fresh rid amount c basis None a j"

definition start_payload :: "'v lib \<Rightarrow> string \<Rightarrow> bool \<Rightarrow> 'v" where
  "start_payload L rid confirmed =
     mk_obj L [(''reservation_id'', mk_str L rid),
               (''status'', mk_str L (if confirmed then ''confirmed'' else ''ambiguous''))]"

definition record_start ::
  "'v lib \<Rightarrow> 'v codec \<Rightarrow> faults \<Rightarrow> string \<Rightarrow> string \<Rightarrow> bool \<Rightarrow> audit \<Rightarrow> 'v journal \<Rightarrow>
   unit res \<times> 'v journal" where
  "record_start L C fl fresh rid confirmed a j =
     journal_append L C fl fresh ''start'' (start_payload L rid confirmed) a j"

definition unstarted_payload :: "'v lib \<Rightarrow> string \<Rightarrow> 'v" where
  "unstarted_payload L rid =
     mk_obj L [(''reservation_id'', mk_str L rid), (''proof'', mk_str L ''no_start_record'')]"

definition release_unstarted ::
  "'v lib \<Rightarrow> 'v codec \<Rightarrow> faults \<Rightarrow> string \<Rightarrow> string \<Rightarrow> audit \<Rightarrow> 'v journal \<Rightarrow>
   unit res \<times> 'v journal" where
  "release_unstarted L C fl fresh rid a j =
     journal_append L C fl fresh ''release'' (unstarted_payload L rid) a j"

definition travel_only_payload :: "'v lib \<Rightarrow> string \<Rightarrow> 'v" where
  "travel_only_payload L rid =
     mk_obj L [(''reservation_id'', mk_str L rid), (''travel_only'', mk_bool L True)]"

definition release_travel ::
  "'v lib \<Rightarrow> 'v codec \<Rightarrow> faults \<Rightarrow> string \<Rightarrow> string \<Rightarrow> audit \<Rightarrow> 'v journal \<Rightarrow>
   unit res \<times> 'v journal" where
  "release_travel L C fl fresh rid a j =
     journal_append L C fl fresh ''release'' (travel_only_payload L rid) a j"

definition edge_payload :: "'v lib \<Rightarrow> string \<Rightarrow> applied_edge \<Rightarrow> 'v" where
  "edge_payload L u e =
     (let base = mk_obj L [(''transition_receipt_id'', mk_str L (''transition:'' @ u)),
                           (''ticket_identity'', mk_str L (edge_ticket e)),
                           (''display_id'', mk_str L (edge_display e)),
                           (''from'', mk_str L (edge_from e)), (''to'', mk_str L (edge_to e))]
      in case edge_reservation e of
           Some rid \<Rightarrow> vset L base ''reservation_id'' (mk_str L rid)
         | None \<Rightarrow> base)"

definition check_edge :: "'v lib \<Rightarrow> 'v journal \<Rightarrow> applied_edge \<Rightarrow> unit res" where
  "check_edge L j e =
     (if edge_reservation e = None
      then tryb (journal_snapshot L j) (\<lambda>snap.
             check_travel snap (edge_ticket e) (edge_display e) (edge_limit e))
      else Ok ())"

definition charge_travel ::
  "'v lib \<Rightarrow> 'v codec \<Rightarrow> faults \<Rightarrow> string \<Rightarrow> string \<Rightarrow> applied_edge \<Rightarrow> audit \<Rightarrow> 'v journal \<Rightarrow>
   unit res \<times> 'v journal" where
  "charge_travel L C fl fresh u e a j =
     (case check_edge L j e of
        Err err \<Rightarrow> (Err err, j)
      | Ok _ \<Rightarrow> journal_append L C fl fresh ''transition'' (edge_payload L u e) a j)"

definition abandoned :: "'v lib \<Rightarrow> (string \<Rightarrow> bool) \<Rightarrow> 'v journal \<Rightarrow> string list" where
  "abandoned L is_run_gone j =
     map fst (filter (\<lambda>(rid, r). \<not> started r \<and> \<not> released r \<and>
        (case vstr_at L (payload r) ''execution_root'' of
           Some root \<Rightarrow> is_run_gone root | None \<Rightarrow> False)) (reservations (j_state j)))"

fun release_each ::
  "'v lib \<Rightarrow> 'v codec \<Rightarrow> (faults \<times> string) list \<Rightarrow> string list \<Rightarrow> audit \<Rightarrow> 'v journal \<Rightarrow>
   unit res \<times> 'v journal" where
  "release_each L C ((fl, fresh) # calls) (rid # rids) a j =
     (case release_unstarted L C fl fresh rid a j of
        (Err e, j') \<Rightarrow> (Err e, j')
      | (Ok _, j') \<Rightarrow> release_each L C calls rids a j')"
| "release_each L C calls rids a j = (Ok (), j)"

text \<open>One outcome of the file system and one fresh identity for each release.\<close>

definition release_abandoned ::
  "'v lib \<Rightarrow> 'v codec \<Rightarrow> (nat \<Rightarrow> faults \<times> string) \<Rightarrow> (string \<Rightarrow> bool) \<Rightarrow> audit \<Rightarrow>
   'v journal \<Rightarrow> nat res \<times> 'v journal" where
  "release_abandoned L C calls is_run_gone a j =
     (let rids = abandoned L is_run_gone j
      in case release_each L C (map calls [0..<length rids]) rids a j of
           (Err e, j') \<Rightarrow> (Err e, j')
         | (Ok _, j') \<Rightarrow> (Ok (length rids), j'))"

end
