(* ===== verification/Admission_Laws.thy ===== *)
theory Admission_Laws
  imports Admission Journal_Laws
begin

text \<open>
  What admission promises: nothing it takes can put a count above its bound, everything
  \<open>preview\<close> allows is a receipt replay accepts, and the operations after a spawn move
  exactly the numbers they name.
\<close>

subsection \<open>The effect of one arm on any sum over the reservations\<close>

definition string_or_empty :: "string option \<Rightarrow> string" where
  "string_or_empty s = (case s of Some t \<Rightarrow> t | None \<Rightarrow> [])"

definition new_reservation :: "'v lib \<Rightarrow> 'v \<Rightarrow> 'v reservation" where
  "new_reservation L p =
     \<lparr>payload = p, ticket = string_or_empty (vstr_at L p ''ticket_identity''),
      window = string_or_empty (vstr_at L p ''window''), started = False, released = False,
      travel_held = (vu64_at L p ''travel_units'' = Some 1), transition = None,
      spend_reserve = reserve_amount L p, settled = None\<rparr>"

lemma reserve_arm_new:
  assumes a: "reserve_arm L project p s = Inr s'"
  shows "\<exists>rid. vstr_at L p ''reservation_id'' = Some rid \<and> bm_get (reservations s) rid = None \<and>
    reservations s' = bm_insert rid (new_reservation L p) (reservations s) \<and>
    travel s' = travel s \<and> contract_of s' = contract_of s \<and> transitions s' = transitions s"
proof -
  obtain rid and r :: "'a reservation" and attempt s2 where
    fresh: "fresh_reservation L s p rid r"
    and day: "vstr_at L p ''window'' = Some (window r)"
    and tkt: "vstr_at L p ''ticket_identity'' = Some (ticket r)"
    and units: "vu64_at L p ''travel_units'' = Some (if travel_held r then 1 else 0)"
    and amount: "spend_reserve r = reserve_amount L p"
    and s2: "s2 = s\<lparr>attempts := bs_insert attempt (attempts s)\<rparr> \<or>
      (\<exists>c. fix_currency c (s\<lparr>attempts := bs_insert attempt (attempts s)\<rparr>) = Inr s2)"
    and s': "s' = put_reservation rid r s2"
    using reserve_arm_Ok [OF a] by (elim exE conjE) (rule that)
  have "r = new_reservation L p"
    using fresh day tkt units amount
    by (cases r) (auto simp: new_reservation_def fresh_reservation_def string_or_empty_def
        split: if_splits)
  with fresh s' s2 show ?thesis
    by (auto simp: fresh_reservation_def put_reservation_def fix_currency_Ok)
qed

interpretation arms_sum:
  tally_loop "reserve_arm L project" "\<lambda>s. bm_ok (reservations s)"
    "\<lambda>s. bm_sum f (reservations s)" "\<lambda>p. f (new_reservation L p)"
  by unfold_locales (auto dest!: reserve_arm_new simp: bm_ok_insert bm.total_fresh)

definition same_rest :: "'v state \<Rightarrow> 'v state \<Rightarrow> bool" where
  "same_rest s s' \<longleftrightarrow>
     travel s' = travel s \<and> contract_of s' = contract_of s \<and> transitions s' = transitions s"

interpretation arms_rest: step_monotone "reserve_arm L project" same_rest
  by unfold_locales (auto simp: same_rest_def dest!: reserve_arm_new)

lemma apply_reserve_sums:
  assumes a: "apply_reserve L project p s = Inr s'" and ok: "bm_ok (reservations s)"
  shows "\<exists>arms. Option.bind (vget L p ''reservations'') (vas_array L) = Some arms \<and> arms \<noteq> [] \<and>
    (\<forall>f. bm_sum f (reservations s') =
       bm_sum f (reservations s) + sum_list (map (\<lambda>q. f (new_reservation L q)) arms)) \<and>
    same_rest s s'"
proof -
  from a obtain arms where arms: "Option.bind (vget L p ''reservations'') (vas_array L) = Some arms"
    "arms \<noteq> []" and fold: "try_fold (reserve_arm L project) arms s = Inr s'"
    by (auto simp: apply_reserve_def res_simps split: if_splits)
  then show ?thesis
    using arms_sum.loop_adds [OF ok fold] arms_rest.loop_rel [OF fold] by blast
qed

lemma note_window_same [simp]:
  "reservations (note_window w s) = reservations s" "travel (note_window w s) = travel s"
  "contract_of (note_window w s) = contract_of s" "transitions (note_window w s) = transitions s"
  "attempts (note_window w s) = attempts s" "currency (note_window w s) = currency s"
  "identities (note_window w s) = identities s"
  by (simp_all add: note_window_def split: option.splits)

lemma apply_receipt_reserve:
  "kind rc = ''reserve'' \<Longrightarrow> apply_receipt L rc s = Inr s' \<Longrightarrow>
   contract_of s \<noteq> None \<and>
   apply_reserve L (project_id rc) (receipt_payload rc) (note_window (receipt_window rc) s) = Inr s'"
  by (simp add: apply_receipt_def Let_def split: if_splits)

subsection \<open>The payloads admission writes\<close>

context json_laws
begin

lemma arm_base_object [simp]: "vis_object L (arm_base L req anc day units rid a)"
  by (simp add: arm_base_def)

lemma arm_payload_reads:
  assumes p: "p = arm_payload L req anc day units rid a"
  shows "vstr_at L p ''reservation_id'' = Some rid"
    and "vstr_at L p ''attempt_identity'' = Some (attempt_identity a)"
    and "vstr_at L p ''ticket_identity'' = Some (req_ticket req)"
    and "vstr_at L p ''parent_reservation'' = ancestry_parent anc"
    and "vstr_at L p ''execution_root'' = Some (req_execution_root req)"
    and "vstr_at L p ''window'' = Some day"
    and "req_reserve_micro req > 0 \<Longrightarrow> vstr_at L p ''spend_currency'' = Some (req_currency req)"
    and "vget L p ''parent_reservation'' = Some (opt_str L (ancestry_parent anc))"
    and "vu64_at L p ''descendant_envelope'' = Some (descendant_envelope a)"
    and "vu64_at L p ''invocation_units'' = Some 1"
    and "vu64_at L p ''travel_units'' = Some units"
    and "reserve_amount L p = req_reserve_micro req"
  unfolding p
  by (simp_all add: arm_payload_def Let_def str_at_set u64_at_set get_set reserve_amount_def)
    (simp_all add: arm_base_def obj_reads word_gt_0)

lemma new_arm [simp]:
  "new_reservation L (arm_payload L req anc day units rid a) =
     \<lparr>payload = arm_payload L req anc day units rid a, ticket = req_ticket req, window = day,
      started = False, released = False, travel_held = (units = 1), transition = None,
      spend_reserve = req_reserve_micro req, settled = None\<rparr>"
  by (simp add: new_reservation_def arm_payload_reads [OF refl] string_or_empty_def)

lemma reservations_array:
  "Option.bind (vget L (mk_obj L [(''reservations'', mk_arr L vs)]) ''reservations'') (vas_array L) =
   Some vs"
  by (simp add: get_obj)

end

text \<open>Sums over the arms of one request: every arm counts once, only the first holds travel.\<close>

lemma reserve_payloads_Nil: "length ids = length (req_arms req) \<Longrightarrow>
   length (reserve_payloads L req anc day ids) = length (req_arms req)"
  by (simp add: reserve_payloads_def)

lemma sum_list_constant:
  "(\<And>x. x \<in> set xs \<Longrightarrow> f x = (c::nat)) \<Longrightarrow> sum_list (map f xs) = length xs * c"
  by (induction xs) auto

lemma reserve_payloads_sum:
  assumes "\<And>units rid a. f (arm_payload L req anc day units rid a) = (c::nat)"
    and "length ids = length (req_arms req)"
  shows "sum_list (map f (reserve_payloads L req anc day ids)) = length (req_arms req) * c"
proof -
  have "sum_list (map f (reserve_payloads L req anc day ids)) =
      length (reserve_payloads L req anc day ids) * c"
    by (rule sum_list_constant) (auto simp: reserve_payloads_def assms(1))
  with assms(2) show ?thesis by (simp add: reserve_payloads_Nil)
qed

lemma reserve_payloads_travel:
  assumes "\<And>units rid a. f (arm_payload L req anc day units rid a) = (of_bool (units = 1) :: nat)"
    and "length ids = length (req_arms req)" and "req_arms req \<noteq> []"
  shows "sum_list (map f (reserve_payloads L req anc day ids)) = of_bool (req_travel req)"
proof -
  from assms(2,3) obtain z zs where z: "zip ids (req_arms req) = z # zs"
    by (cases "zip ids (req_arms req)") (auto simp: zip_eq_Nil_iff)
  have "sum_list (map f (map (\<lambda>(index, rid, a).
      arm_payload L req anc day (if req_travel req \<and> index = 0 then 1 else 0) rid a)
      (enumerate 1 zs))) = 0"
    by (auto simp: sum_list_eq_0_iff assms(1) in_set_enumerate_eq)
  with z show ?thesis
    by (cases z; cases "req_travel req") (simp_all add: reserve_payloads_def assms(1))
qed

subsection \<open>Within the bounds\<close>

lemma check_travel_Ok:
  "check_travel snap tkt display limit = Inr () \<longleftrightarrow>
   (\<exists>e n. exposure (travel_for snap tkt) = Inr e \<and> add e 1 = Inr n \<and> \<not> n > limit)"
  by (auto simp: check_travel_def Let_def res_simps)

lemma check_invocations_Ok:
  "check_invocations snap req units limit = Inr () \<longleftrightarrow>
   (\<exists>e n. exposure (invocations snap) = Inr e \<and> add e units = Inr n \<and> \<not> n > limit)"
  by (auto simp: check_invocations_def Let_def res_simps)

lemma check_spend_Ok:
  "check_spend snap req units limit = Inr () \<longleftrightarrow>
   (\<exists>m e n. checked_mul (req_reserve_micro req) units = Some m \<and>
      exposure (snap_spend snap) = Inr e \<and> add e m = Inr n \<and> \<not> n > limit)"
  by (simp add: check_spend_def res_simps split: if_splits) (metis tryb_Ok)

lemma preview_Ok:
  assumes "preview L W j req b = Inr anc"
  obtains snap where "journal_snapshot L j = Inr snap"
    and "identity_installed L j (req_ticket req)" and "req_arms req \<noteq> []"
    and "authenticate_ancestor L j req = Inr anc" and "check_currency snap req = Inr ()"
    and "req_travel req \<Longrightarrow>
      check_travel snap (req_ticket req) (req_display req) (transition_limit b) = Inr ()"
    and "check_invocations snap req (of_nat (length (req_arms req)))
      (invocation_bound snap (invocations_per_day b)) = Inr ()"
    and "check_spend snap req (of_nat (length (req_arms req))) (spend_per_day b) = Inr ()"
    and "\<exists>seen. try_fold (attempt_step (j_state j)) (req_arms req) [] = Inr seen"
    and "check_envelope L (j_state j) anc (of_nat (length (req_arms req))) = Inr ()"
  using assms
  by (auto simp: preview_def res_simps Let_def split: if_splits)

text \<open>The two readings of the invocation bound, as numbers of the state.\<close>

definition counting_day :: "contract \<Rightarrow> string \<Rightarrow> string option" where
  "counting_day k day = (case k of Window \<Rightarrow> Some day | Lifetime _ \<Rightarrow> None)"

definition counting_bound :: "contract \<Rightarrow> effective_bounds \<Rightarrow> u64" where
  "counting_bound k b = (case k of Window \<Rightarrow> invocations_per_day b | Lifetime allowed \<Rightarrow> allowed)"

definition within_bounds ::
  "'v state \<Rightarrow> string \<Rightarrow> string option \<Rightarrow> effective_bounds \<Rightarrow> bool" where
  "within_bounds s day tkt b \<longleftrightarrow>
     (\<exists>k. contract_of s = Some k \<and>
        consumed_count s (counting_day k day) + outstanding_count s (counting_day k day) \<le>
          unat (counting_bound k b)) \<and>
     (\<forall>t. tkt = Some t \<longrightarrow> travel_of s t + held_count s t \<le> unat (transition_limit b)) \<and>
     bm_sum (spend_settled day) (reservations s) + bm_sum (spend_held day) (reservations s) \<le>
       unat (spend_per_day b)"

lemma checked_mul_unat: "checked_mul x y = Some m \<Longrightarrow> unat m = unat x * unat y"
  by (simp add: checked_mul_Some)

text \<open>What the checks of \<open>preview\<close> say of the numbers before the receipt.\<close>

lemma preview_room:
  assumes ok: "state_ok L (j_state j)" and pre: "preview L W j req b = Inr anc"
    and small: "length (req_arms req) < 2 ^ 64"
  shows "\<exists>k. contract_of (j_state j) = Some k \<and>
      consumed_count (j_state j) (counting_day k (j_day j)) +
        outstanding_count (j_state j) (counting_day k (j_day j)) + length (req_arms req) \<le>
      unat (counting_bound k b)"
    and "req_travel req \<Longrightarrow> travel_of (j_state j) (req_ticket req) +
      held_count (j_state j) (req_ticket req) + 1 \<le> unat (transition_limit b)"
    and "bm_sum (spend_settled (j_day j)) (reservations (j_state j)) +
      bm_sum (spend_held (j_day j)) (reservations (j_state j)) +
      length (req_arms req) * unat (req_reserve_micro req) \<le> unat (spend_per_day b)"
proof -
  from pre obtain snap where snap: "journal_snapshot L j = Inr snap"
    and travel: "req_travel req \<Longrightarrow>
      check_travel snap (req_ticket req) (req_display req) (transition_limit b) = Inr ()"
    and inv: "check_invocations snap req (of_nat (length (req_arms req)))
      (invocation_bound snap (invocations_per_day b)) = Inr ()"
    and spend: "check_spend snap req (of_nat (length (req_arms req))) (spend_per_day b) = Inr ()"
    by (rule preview_Ok) (rule that)
  note S = state_snapshot_Ok [OF snap [unfolded journal_snapshot_def]]
  have units: "unat (of_nat (length (req_arms req)) :: u64) = length (req_arms req)"
    using small by (rule unat_of_nat_u64)
  let ?k = "snap_contract snap"
  have "state_counter (j_state j) (counting_day ?k (j_day j)) = Inr (invocations snap)"
    using S(2) by (simp add: counting_day_def)
  from state_counter_Ok [OF this] inv units
  show "\<exists>k. contract_of (j_state j) = Some k \<and>
      consumed_count (j_state j) (counting_day k (j_day j)) +
        outstanding_count (j_state j) (counting_day k (j_day j)) + length (req_arms req) \<le>
      unat (counting_bound k b)"
    using S(1)
    by (auto simp: check_invocations_Ok exposure_Ok add_Ok word_to_nat counting_bound_def
        invocation_bound_def not_less)
  have "bm_ok (travel (j_state j))" using ok by (simp add: state_ok_def)
  from travel_for_Ok [OF snap [unfolded journal_snapshot_def] this, of "req_ticket req"] travel
  show "req_travel req \<Longrightarrow> travel_of (j_state j) (req_ticket req) +
      held_count (j_state j) (req_ticket req) + 1 \<le> unat (transition_limit b)"
    by (auto simp: check_travel_Ok exposure_Ok add_Ok word_to_nat not_less)
  from S(4) obtain marks roots details where
    "state_spend L (j_state j) (j_day j) = Inr (snap_spend snap, marks, roots, details)" by blast
  from state_spend_Ok(1,2) [OF this] spend units
  show "bm_sum (spend_settled (j_day j)) (reservations (j_state j)) +
      bm_sum (spend_held (j_day j)) (reservations (j_state j)) +
      length (req_arms req) * unat (req_reserve_micro req) \<le> unat (spend_per_day b)"
    by (auto simp: check_spend_Ok exposure_Ok add_Ok word_to_nat not_less mult.commute
        dest!: checked_mul_unat)
qed

lemma reservation_names_simps [simp]:
  "length (reservation_names uuids) = length uuids"
  "set (reservation_names uuids) = (@) ''reservation:'' ` set uuids"
  by (simp_all add: reservation_names_def)

lemma reserve_Ok:
  assumes "reserve L C fl fresh uuids W req b a j = (Ok g, j')"
  obtains anc rc where "preview L W j req b = Inr anc"
    and "kind rc = ''reserve''" and "project_id rc = j_project j"
    and "receipt_payload rc = reserve_payload L req anc (j_day j) uuids"
    and "apply_receipt L rc (j_state j) = Inr (j_state j')"
    and "reservation_ids g = reservation_names uuids" and "group_ancestry g = anc"
proof -
  from assms obtain anc where pre: "preview L W j req b = Inr anc"
    by (auto simp: reserve_def split: sum.splits)
  with assms have app: "append_in_window L C fl fresh ''reserve''
      (reserve_payload L req anc (j_day j) uuids) a (Some (j_day j)) j = (Ok (), j')"
    and g: "reservation_ids g = reservation_names uuids" "group_ancestry g = anc"
    by (auto simp: reserve_def split: sum.splits prod.splits)
  show thesis
    by (rule append_Ok [OF app], rule that [OF pre]) (simp_all add: g)
qed

context json_laws
begin

lemma reserve_effect:
  assumes ok: "state_ok L (j_state j)"
    and res: "reserve L C fl fresh uuids W req b a j = (Ok g, j')"
    and len: "length uuids = length (req_arms req)"
  shows "contract_of (j_state j') = contract_of (j_state j)"
    and "travel_of (j_state j') t = travel_of (j_state j) t"
    and "consumed_count (j_state j') d = consumed_count (j_state j) d"
    and "outstanding_count (j_state j') d =
      outstanding_count (j_state j) d +
      length (req_arms req) * of_bool (case d of Some x \<Rightarrow> x = j_day j | None \<Rightarrow> True)"
    and "held_count (j_state j') t =
      held_count (j_state j) t + of_bool (req_travel req \<and> t = req_ticket req)"
    and "bm_sum (spend_settled (j_day j)) (reservations (j_state j')) =
      bm_sum (spend_settled (j_day j)) (reservations (j_state j))"
    and "bm_sum (spend_held (j_day j)) (reservations (j_state j')) =
      bm_sum (spend_held (j_day j)) (reservations (j_state j)) +
      length (req_arms req) * unat (req_reserve_micro req)"
proof -
  from res obtain anc rc where pre: "preview L W j req b = Inr anc"
    and rc: "kind rc = ''reserve''" "project_id rc = j_project j"
      "receipt_payload rc = reserve_payload L req anc (j_day j) uuids"
      "apply_receipt L rc (j_state j) = Inr (j_state j')"
    by (rule reserve_Ok) (rule that)
  let ?ps = "reserve_payloads L req anc (j_day j) (reservation_names uuids)"
  let ?s = "note_window (receipt_window rc) (j_state j)"
  have arms: "req_arms req \<noteq> []" using pre by (rule preview_Ok)
  note len = trans [OF reservation_names_simps(1) len]
  have "bm_ok (reservations ?s)" using ok by (simp add: state_ok_def books_ok_def)
  from apply_reserve_sums [OF conjunct2 [OF apply_receipt_reserve [OF rc(1,4)]] this]
  have sums: "\<And>f. bm_sum f (reservations (j_state j')) =
      bm_sum f (reservations (j_state j)) + sum_list (map (\<lambda>q. f (new_reservation L q)) ?ps)"
    and rest: "same_rest ?s (j_state j')"
    by (auto simp: rc(3) reserve_payload_def reservations_array)
  show "contract_of (j_state j') = contract_of (j_state j)"
    and "travel_of (j_state j') t = travel_of (j_state j) t"
    using rest by (simp_all add: same_rest_def travel_of_def)
  show "consumed_count (j_state j') d = consumed_count (j_state j) d"
    using reserve_payloads_sum [OF _ len, of "\<lambda>q. consumes d (new_reservation L q)" L anc "j_day j" 0]
    by (simp add: consumed_count_def sums consumes_def)
  show "outstanding_count (j_state j') d =
      outstanding_count (j_state j) d +
      length (req_arms req) * of_bool (case d of Some x \<Rightarrow> x = j_day j | None \<Rightarrow> True)"
    using reserve_payloads_sum [OF _ len, of "\<lambda>q. holds d (new_reservation L q)" L anc "j_day j"
        "of_bool (case d of Some x \<Rightarrow> x = j_day j | None \<Rightarrow> True)"]
    by (auto simp: outstanding_count_def sums holds_def in_day_def split: option.splits)
  show "held_count (j_state j') t =
      held_count (j_state j) t + of_bool (req_travel req \<and> t = req_ticket req)"
  proof (cases "t = req_ticket req")
    case True
    then show ?thesis
      using reserve_payloads_travel [OF _ len arms,
          of "\<lambda>q. travel_holds t (new_reservation L q)" L anc "j_day j"]
      by (simp add: held_count_def sums travel_holds_def)
  next
    case False
    then show ?thesis
      using reserve_payloads_sum [OF _ len,
          of "\<lambda>q. travel_holds t (new_reservation L q)" L anc "j_day j" 0]
      by (simp add: held_count_def sums travel_holds_def)
  qed
  show "bm_sum (spend_settled (j_day j)) (reservations (j_state j')) =
      bm_sum (spend_settled (j_day j)) (reservations (j_state j))"
    using reserve_payloads_sum [OF _ len,
        of "\<lambda>q. spend_settled (j_day j) (new_reservation L q)" L anc "j_day j" 0]
    by (simp add: sums spend_settled_def del: sum_list_eq_0_iff)
  show "bm_sum (spend_held (j_day j)) (reservations (j_state j')) =
      bm_sum (spend_held (j_day j)) (reservations (j_state j)) +
      length (req_arms req) * unat (req_reserve_micro req)"
  proof -
    have "spend_held (j_day j)
        (new_reservation L (arm_payload L req anc (j_day j) units rid x)) =
      unat (req_reserve_micro req)" for units rid x
      by (simp add: spend_held_def spend_counts_def)
    from reserve_payloads_sum [where f = "\<lambda>q. spend_held (j_day j) (new_reservation L q)", OF this len]
    show ?thesis by (simp only: sums)
  qed
qed

lemma reserve_within:
  assumes ok: "state_ok L (j_state j)" and small: "length (req_arms req) < 2 ^ 64"
    and len: "length uuids = length (req_arms req)"
    and res: "reserve L C fl fresh uuids W req b a j = (Ok g, j')"
  shows "within_bounds (j_state j') (j_day j)
    (if req_travel req then Some (req_ticket req) else None) b"
proof -
  from res obtain anc rc where pre: "preview L W j req b = Inr anc"
    by (rule reserve_Ok)
  note eff = reserve_effect [OF ok res len] and room = preview_room [OF ok pre small]
  from room(1) obtain k where k: "contract_of (j_state j) = Some k"
    "consumed_count (j_state j) (counting_day k (j_day j)) +
        outstanding_count (j_state j) (counting_day k (j_day j)) + length (req_arms req) \<le>
      unat (counting_bound k b)" by blast
  have "consumed_count (j_state j') (counting_day k (j_day j)) +
        outstanding_count (j_state j') (counting_day k (j_day j)) \<le> unat (counting_bound k b)"
    using k(2) by (auto simp: eff counting_day_def split: contract.splits)
  then show ?thesis
    using k(1) room(2,3) by (auto simp: within_bounds_def eff)
qed

end

end
