(* ===== verification/Agreement.thy ===== *)
theory Agreement
  imports Admission_Laws
begin

text \<open>
  Admission and replay agree: a request \<open>preview\<close> allows is written as a receipt that replay
  accepts, arm by arm. The converse direction of the shared judgement of
  \<open>budget/admission.rs\<close>: nothing is allowed that the chain would then refuse.
\<close>

subsection \<open>What the fold of attempt identities checked\<close>

lemma attempt_step_Ok:
  "attempt_step s a seen = Inr out \<longleftrightarrow>
   attempt_identity a \<noteq> [] \<and> \<not> bm_contains (attempts s) (attempt_identity a) \<and>
   \<not> bm_contains seen (attempt_identity a) \<and> out = bs_insert (attempt_identity a) seen"
  by (auto simp: attempt_step_def)

lemma attempts_checked:
  "try_fold (attempt_step s) as seen = Inr out \<Longrightarrow>
   distinct (map attempt_identity as) \<and>
   (\<forall>a \<in> set as. attempt_identity a \<noteq> [] \<and> \<not> bm_contains (attempts s) (attempt_identity a) \<and>
      \<not> bm_contains seen (attempt_identity a))"
proof (induction as arbitrary: seen)
  case (Cons a as)
  from Cons.prems have here: "attempt_identity a \<noteq> []" "\<not> bm_contains (attempts s) (attempt_identity a)"
      "\<not> bm_contains seen (attempt_identity a)"
    and rest: "try_fold (attempt_step s) as (bs_insert (attempt_identity a) seen) = Inr out"
    by (auto simp: res_simps attempt_step_Ok)
  from here Cons.IH [OF rest] show ?case by auto
qed simp

definition ancestor_room :: "'v lib \<Rightarrow> 'v state \<Rightarrow> ancestry \<Rightarrow> nat \<Rightarrow> bool" where
  "ancestor_room L s anc n \<longleftrightarrow>
     (\<forall>parent. ancestry_parent anc = Some parent \<longrightarrow>
        (\<exists>q. bm_get (reservations s) parent = Some q \<and> started q \<and> \<not> released q \<and>
             vu64_at L (payload q) ''descendant_envelope'' \<noteq> None \<and>
             drawn_count L s parent + n \<le> envelope_of L q))"

lemma place_under_Ok:
  assumes "place_under L j d = Inr anc"
  shows "\<exists>q e. anc = Placed (anc_reservation d) e \<and>
    bm_get (reservations (j_state j)) (anc_reservation d) = Some q \<and> started q \<and> \<not> released q \<and>
    vu64_at L (payload q) ''descendant_envelope'' = Some e \<and> e \<noteq> 0"
  using assms by (auto simp: place_under_def res_simps split: if_splits)

lemma preview_ancestor_room:
  assumes "authenticate_ancestor L j req = Inr anc"
    and "check_envelope L (j_state j) anc units = Inr ()"
  shows "ancestor_room L (j_state j) anc (unat units)"
proof (cases anc)
  case (Placed parent e)
  with assms(1) obtain d where "place_under L j d = Inr anc" "anc_reservation d = parent"
    by (auto simp: authenticate_ancestor_def split: option.splits if_splits dest: place_under_Ok)
  with place_under_Ok Placed obtain q where q: "bm_get (reservations (j_state j)) parent = Some q"
    "started q" "\<not> released q" "vu64_at L (payload q) ''descendant_envelope'' = Some e"
    by fastforce
  from assms(2) Placed obtain n m where n: "descendants_drawn L (j_state j) parent = Inr n"
    and "add n units = Inr m" "\<not> m > e"
    by (auto simp: check_envelope_def res_simps split: if_splits)
  then have "drawn_count L (j_state j) parent + unat units \<le> unat e"
    using descendants_drawn_Ok [OF n] by (simp add: add_Ok word_to_nat not_less)
  with q Placed show ?thesis by (simp add: ancestor_room_def envelope_of_def)
qed (simp_all add: ancestor_room_def)

lemma descendants_drawn_total:
  "drawn_count L s parent < 2 ^ 64 \<Longrightarrow>
   \<exists>n. descendants_drawn L s parent = Inr n \<and> unat n = drawn_count L s parent"
  using drawn.loop_total [of 0 L parent "bm_values (reservations s)"] descendants_drawn_Ok
  by (fastforce simp: descendants_drawn_def drawn_count_def bm_sum_def)

lemma envelope_of_less: "envelope_of L q < 2 ^ 64"
  by (auto simp: envelope_of_def unat_u64_lt split: option.splits)

context json_laws
begin

lemma authenticate_placed:
  assumes room: "ancestor_room L s anc (Suc n)"
    and p: "p = arm_payload L req anc day units rid a"
  shows "authenticate_replayed_ancestor L s p = Inr ()"
proof (cases "ancestry_parent anc")
  case None
  then show ?thesis
    by (simp add: authenticate_replayed_ancestor_def arm_payload_reads [OF p] opt_str_def)
next
  case (Some parent)
  with room obtain q e where q: "bm_get (reservations s) parent = Some q" "started q" "\<not> released q"
    "vu64_at L (payload q) ''descendant_envelope'' = Some e"
    and le: "drawn_count L s parent + Suc n \<le> unat e"
    by (auto simp: ancestor_room_def envelope_of_def)
  from le have "drawn_count L s parent < unat e" by simp
  then have "drawn_count L s parent < 2 ^ 64" by (rule less_trans) (simp add: unat_u64_lt)
  then obtain m where m: "descendants_drawn L s parent = Inr m" "unat m = drawn_count L s parent"
    using descendants_drawn_total by blast
  have "unat m + unat (1::u64) \<le> unat e" using le m(2) by simp
  then have "unat m + unat (1::u64) < 2 ^ 64" by (rule le_less_trans) (simp add: unat_u64_lt)
  from add_total [OF this] obtain m1 where m1: "add m 1 = Inr m1" "unat m1 = unat m + 1" by auto
  have "e \<noteq> 0" using le by auto
  moreover have "\<not> m1 > e" using le m m1 by (simp add: word_to_nat)
  ultimately show ?thesis
    using q m m1 Some by (simp add: authenticate_replayed_ancestor_def arm_payload_reads [OF p])
qed

end

definition currency_fits :: "admission_request \<Rightarrow> 'w state \<Rightarrow> bool" where
  "currency_fits req s \<longleftrightarrow>
     (req_reserve_micro req > 0 \<longrightarrow>
        req_currency req \<noteq> [] \<and> (currency s = None \<or> currency s = Some (req_currency req)))"

lemma reserve_currency_fits:
  assumes "currency_fits req s" and "reserve_amount L p = req_reserve_micro req"
    and "req_reserve_micro req > 0 \<Longrightarrow> vstr_at L p ''spend_currency'' = Some (req_currency req)"
  shows "\<exists>c. reserve_currency L p s = Inr (s\<lparr>currency := c\<rparr>) \<and> currency_fits req (s\<lparr>currency := c\<rparr>)"
proof (cases "req_reserve_micro req > 0")
  case True
  with assms show ?thesis
    by (auto simp: currency_fits_def reserve_currency_def req_string_def fix_currency_def
        split: option.splits intro: exI [of _ "Some (req_currency req)"])
next
  case False
  with assms have "reserve_currency L p s = Inr (s\<lparr>currency := currency s\<rparr>)"
    by (simp add: reserve_currency_def)
  with assms(1) show ?thesis by (intro exI [of _ "currency s"]) simp
qed

text \<open>Whether a ticket identity names a ticket of the project, as replay reads it.\<close>

definition ticket_of_project :: "'v lib \<Rightarrow> string \<Rightarrow> string \<Rightarrow> bool" where
  "ticket_of_project L project tkt \<longleftrightarrow>
     (let lead = ''ticket:'' @ trim_start_matches ''panta:'' project @ '':''
      in starts_with tkt lead \<and> check_uuid L (drop (length lead) tkt) = Ok ())"

definition fresh_arms :: "'v state \<Rightarrow> (u64 \<times> string \<times> arm) list \<Rightarrow> bool" where
  "fresh_arms s zs \<longleftrightarrow>
     distinct (map (\<lambda>(u, rid, a). rid) zs) \<and> distinct (map (\<lambda>(u, rid, a). attempt_identity a) zs) \<and>
     (\<forall>(u, rid, a) \<in> set zs. u \<le> 1 \<and> rid \<noteq> [] \<and> bm_get (reservations s) rid = None \<and>
        attempt_identity a \<noteq> [] \<and> \<not> bm_contains (attempts s) (attempt_identity a))"

lemma fresh_arms_step:
  assumes "fresh_arms s ((u, rid, a) # zs)"
    and "reservations s' = bm_insert rid r (reservations s)"
    and "attempts s' = bs_insert (attempt_identity a) (attempts s)"
  shows "fresh_arms s' zs"
proof -
  have "rid' \<noteq> rid \<and> attempt_identity a' \<noteq> attempt_identity a" if "(u', rid', a') \<in> set zs"
    for u' rid' a'
    using that assms(1) by (force simp: fresh_arms_def image_iff)
  with assms show ?thesis by (fastforce simp: fresh_arms_def)
qed

context json_laws
begin

lemma reserve_arm_accepts:
  assumes p: "p = arm_payload L req anc day u rid a" and "day \<noteq> []"
    and tkt: "ticket_of_project L project (req_ticket req)" "req_ticket req \<noteq> []"
    and room: "ancestor_room L s anc (Suc n)" and cur: "currency_fits req s"
    and fresh: "fresh_arms s ((u, rid, a) # zs)"
  shows "\<exists>c. reserve_arm L project p s =
      Inr (put_reservation rid (new_reservation L p)
             (s\<lparr>attempts := bs_insert (attempt_identity a) (attempts s), currency := c\<rparr>)) \<and>
    currency_fits req (s\<lparr>currency := c\<rparr>)"
proof -
  let ?s = "s\<lparr>attempts := bs_insert (attempt_identity a) (attempts s)\<rparr>"
  have "currency_fits req ?s" using cur by (simp add: currency_fits_def)
  from reserve_currency_fits [OF this, of L p] obtain c where
    c: "reserve_currency L p ?s = Inr (?s\<lparr>currency := c\<rparr>)" "currency_fits req (?s\<lparr>currency := c\<rparr>)"
    using arm_payload_reads [OF p] by blast
  have reads: "req_string L p ''reservation_id'' = Inr rid"
    "req_string L p ''ticket_identity'' = Inr (req_ticket req)"
    "req_string L p ''attempt_identity'' = Inr (attempt_identity a)"
    "req_string L p ''window'' = Inr day" "req_number L p ''invocation_units'' = Inr 1"
    "req_number L p ''travel_units'' = Inr u"
    using assms(2) tkt(2) fresh
    by (simp_all add: req_string_Ok req_number_Ok arm_payload_reads [OF p] fresh_arms_def)
  have new: "\<not> bm_contains (reservations s) rid" "\<not> bm_contains (attempts s) (attempt_identity a)"
    "\<not> u > 1" using fresh by (auto simp: fresh_arms_def bm_contains_def)
  have r: "new_reservation L p =
      \<lparr>payload = p, ticket = req_ticket req, window = day, started = False, released = False,
       travel_held = (u = 1), transition = None, spend_reserve = reserve_amount L p,
       settled = None\<rparr>"
    by (simp add: p arm_payload_reads [OF refl])
  have "reserve_arm L project p s =
      Inr (put_reservation rid (new_reservation L p) (?s\<lparr>currency := c\<rparr>))"
    using tkt(1)
    by (simp add: reserve_arm_def Let_def reads new r c(1) ticket_of_project_def
        authenticate_placed [OF room p])
  moreover have "currency_fits req (s\<lparr>currency := c\<rparr>)" using c(2) by (simp add: currency_fits_def)
  ultimately show ?thesis by auto
qed

lemma ancestor_room_step:
  assumes ok: "bm_ok (reservations s)" and new: "bm_get (reservations s) rid = None"
    and room: "ancestor_room L s anc (Suc n)" and p: "p = arm_payload L req anc day u rid a"
  shows "ancestor_room L (put_reservation rid (new_reservation L p) (s\<lparr>attempts := t, currency := c\<rparr>))
    anc n"
  unfolding ancestor_room_def
proof (intro allI impI)
  let ?s = "put_reservation rid (new_reservation L p) (s\<lparr>attempts := t, currency := c\<rparr>)"
  fix parent assume parent: "ancestry_parent anc = Some parent"
  with room obtain q where q: "bm_get (reservations s) parent = Some q" "started q" "\<not> released q"
    "vu64_at L (payload q) ''descendant_envelope'' \<noteq> None"
    "drawn_count L s parent + Suc n \<le> envelope_of L q"
    unfolding ancestor_room_def by blast
  with new have "parent \<noteq> rid" by auto
  moreover have "drawn_count L ?s parent = drawn_count L s parent + draws L parent (new_reservation L p)"
    using bm.total_fresh [OF ok new] by (simp add: drawn_count_def put_reservation_def)
  moreover have "draws L parent (new_reservation L p) \<le> 1" by (simp add: draws_def)
  ultimately show "\<exists>q. bm_get (reservations ?s) parent = Some q \<and> started q \<and> \<not> released q \<and>
      vu64_at L (payload q) ''descendant_envelope'' \<noteq> None \<and>
      drawn_count L ?s parent + n \<le> envelope_of L q"
    using q by (simp add: put_reservation_def)
qed

lemma arms_accepted:
  assumes "day \<noteq> []" and "ticket_of_project L project (req_ticket req)" and "req_ticket req \<noteq> []"
  shows "bm_ok (reservations s) \<Longrightarrow> fresh_arms s zs \<Longrightarrow> ancestor_room L s anc (length zs) \<Longrightarrow>
    currency_fits req s \<Longrightarrow>
    \<exists>s'. try_fold (reserve_arm L project)
      (map (\<lambda>(u, rid, a). arm_payload L req anc day u rid a) zs) s = Inr s'"
proof (induction zs arbitrary: s)
  case (Cons z zs)
  obtain u rid a where z: "z = (u, rid, a)" by (cases z)
  let ?p = "arm_payload L req anc day u rid a"
  have room: "ancestor_room L s anc (Suc (length zs))" using Cons.prems(3) by simp
  from reserve_arm_accepts [OF refl assms room Cons.prems(4) Cons.prems(2) [unfolded z]]
  obtain c where
    step: "reserve_arm L project ?p s = Inr (put_reservation rid (new_reservation L ?p)
        (s\<lparr>attempts := bs_insert (attempt_identity a) (attempts s), currency := c\<rparr>))"
    and fits: "currency_fits req (s\<lparr>currency := c\<rparr>)"
    by blast
  let ?s = "put_reservation rid (new_reservation L ?p)
    (s\<lparr>attempts := bs_insert (attempt_identity a) (attempts s), currency := c\<rparr>)"
  have new: "bm_get (reservations s) rid = None" using Cons.prems(2) z by (simp add: fresh_arms_def)
  have fresh: "fresh_arms ?s zs"
    by (rule fresh_arms_step [OF Cons.prems(2) [unfolded z], where r = "new_reservation L ?p"])
      (simp_all add: put_reservation_def)
  have fit: "currency_fits req ?s"
    using fits by (simp add: currency_fits_def put_reservation_def)
  have ok: "bm_ok (reservations ?s)"
    using Cons.prems(1) by (simp add: put_reservation_def bm_ok_insert)
  from Cons.IH [OF ok fresh ancestor_room_step [OF Cons.prems(1) new room refl] fit]
  obtain s' where "try_fold (reserve_arm L project)
      (map (\<lambda>(u, rid, a). arm_payload L req anc day u rid a) zs) ?s = Inr s'" ..
  with step show ?case by (simp add: z)
qed simp

end

subsection \<open>The receipt \<open>reserve\<close> writes\<close>

lemma reserve_payloads_zip:
  "reserve_payloads L req anc day ids =
   map (\<lambda>(u, rid, a). arm_payload L req anc day u rid a)
     (zip (map (\<lambda>i. if req_travel req \<and> i = 0 then 1 else 0) [0..<length (zip ids (req_arms req))])
        (zip ids (req_arms req)))"
  by (rule nth_equalityI) (auto simp: reserve_payloads_def nth_enumerate_eq)

text \<open>What a caller of \<open>reserve\<close> provides beside a request \<open>preview\<close> allows: a ledger it may write to,
  an audit and fresh identities. \<open>recordable\<close> is what replay asks of the request itself and \<open>preview\<close>
  does not: a ticket of this project, a day, and a currency where money is reserved.\<close>

definition able_to_reserve ::
  "'v lib \<Rightarrow> 'v codec \<Rightarrow> 'v journal \<Rightarrow> admission_request \<Rightarrow> string list \<Rightarrow> audit \<Rightarrow> bool" where
  "able_to_reserve L C j req uuids a \<longleftrightarrow>
     j_writable j \<and> audit_validate a = Ok () \<and> (\<forall>rc. \<exists>line. to_vec C rc = Ok line) \<and>
     length uuids = length (req_arms req) \<and> distinct uuids \<and>
     (\<forall>u \<in> set uuids. bm_get (reservations (j_state j)) (''reservation:'' @ u) = None) \<and>
     length (j_receipts j) + 1 < 2 ^ 64 \<and> length (req_arms req) < 2 ^ 64"

definition recordable :: "'v lib \<Rightarrow> 'v journal \<Rightarrow> admission_request \<Rightarrow> bool" where
  "recordable L j req \<longleftrightarrow>
     ticket_of_project L (j_project j) (req_ticket req) \<and> j_day j \<noteq> [] \<and>
     (req_reserve_micro req > 0 \<longrightarrow> req_currency req \<noteq> [])"

definition ready_to_reserve ::
  "'v lib \<Rightarrow> 'v codec \<Rightarrow> 'v journal \<Rightarrow> admission_request \<Rightarrow> string list \<Rightarrow> audit \<Rightarrow> bool" where
  "ready_to_reserve L C j req uuids a \<longleftrightarrow> able_to_reserve L C j req uuids a \<and> recordable L j req"

lemmas ready_defs = ready_to_reserve_def able_to_reserve_def recordable_def

context json_laws
begin

lemma reserve_payload_accepted:
  assumes ok: "state_ok L (j_state j)" and pre: "preview L W j req b = Inr anc"
    and ready: "ready_to_reserve L C j req uuids a"
  shows "\<exists>s. apply_reserve L (j_project j) (reserve_payload L req anc (j_day j) uuids)
    (note_window w (j_state j)) = Inr s"
proof -
  let ?s = "note_window w (j_state j)"
  let ?ids = "reservation_names uuids"
  let ?us = "map (\<lambda>i. if req_travel req \<and> i = 0 then 1 else 0)
    [0..<length (zip ?ids (req_arms req))] :: u64 list"
  let ?zs = "zip ?us (zip ?ids (req_arms req))"
  from pre obtain snap where arms: "req_arms req \<noteq> []"
    and snap: "journal_snapshot L j = Inr snap" and cur: "check_currency snap req = Inr ()"
    and att: "\<exists>seen. try_fold (attempt_step (j_state j)) (req_arms req) [] = Inr seen"
    and anc: "authenticate_ancestor L j req = Inr anc"
    and env: "check_envelope L (j_state j) anc (of_nat (length (req_arms req))) = Inr ()"
    by (rule preview_Ok) (rule that)
  have len: "length ?ids = length (req_arms req)" "length ?zs = length (req_arms req)"
    and tkt: "ticket_of_project L (j_project j) (req_ticket req)" "j_day j \<noteq> []"
    using ready by (simp_all add: ready_defs)
  have "unat (of_nat (length (req_arms req)) :: u64) = length (req_arms req)"
    using ready by (intro unat_of_nat_u64) (simp add: ready_defs)
  with preview_ancestor_room [OF anc env] len
  have room: "ancestor_room L ?s anc (length ?zs)"
    by (simp add: ancestor_room_def drawn_count_def)
  from att attempts_checked [of "j_state j" "req_arms req" "[]"]
  have att: "distinct (map attempt_identity (req_arms req))"
    "\<forall>a \<in> set (req_arms req). attempt_identity a \<noteq> [] \<and>
       \<not> bm_contains (attempts (j_state j)) (attempt_identity a)" by auto
  have "map (\<lambda>(u, rid, a). rid) ?zs = ?ids" "map (\<lambda>(u, rid, a). attempt_identity a) ?zs =
      map attempt_identity (req_arms req)"
    using len by (auto intro!: nth_equalityI)
  moreover have "distinct ?ids"
    using ready by (auto simp: ready_defs reservation_names_def distinct_map inj_on_def)
  moreover have "u \<le> 1 \<and> rid \<noteq> [] \<and> bm_get (reservations ?s) rid = None \<and>
      attempt_identity x \<noteq> [] \<and> \<not> bm_contains (attempts ?s) (attempt_identity x)"
    if "(u, rid, x) \<in> set ?zs" for u rid x
  proof -
    from that have u: "u \<in> set ?us" and "(rid, x) \<in> set (zip ?ids (req_arms req))"
      by (rule set_zip_leftD, rule set_zip_rightD)
    then have rid: "rid \<in> set ?ids" and x: "x \<in> set (req_arms req)"
      by (auto dest: set_zip_leftD set_zip_rightD)
    from u have "u \<le> 1" by auto
    moreover have "rid \<noteq> []" and "bm_get (reservations ?s) rid = None"
      using rid ready by (auto simp: ready_defs)
    ultimately show ?thesis using x att(2) by simp
  qed
  ultimately have fresh: "fresh_arms ?s ?zs" using att(1) by (auto simp: fresh_arms_def)
  have fits: "currency_fits req ?s"
    using cur state_snapshot_Ok(6) [OF snap [unfolded journal_snapshot_def]] ready
    by (auto simp: currency_fits_def check_currency_def ready_defs
        split: if_splits option.splits)
  have ok: "bm_ok (reservations ?s)" using ok by (simp add: state_ok_def books_ok_def)
  have "req_ticket req \<noteq> []"
    using tkt by (auto simp: ticket_of_project_def starts_with_def Let_def)
  from arms_accepted [OF tkt(2,1) this ok fresh room fits]
  obtain s where s: "try_fold (reserve_arm L (j_project j))
      (reserve_payloads L req anc (j_day j) ?ids) ?s = Inr s"
    by (auto simp: reserve_payloads_zip)
  have "reserve_payloads L req anc (j_day j) ?ids \<noteq> []"
    using len(1) arms reserve_payloads_Nil [of ?ids req L anc "j_day j"] by auto
  with s show ?thesis
    by (simp add: apply_reserve_def reserve_payload_def reservations_array)
qed

lemma reserve_prepared:
  assumes jok: "journal_ok L C ls j" and pre: "preview L W j req b = Inr anc"
    and ready: "ready_to_reserve L C j req uuids a"
  shows "\<exists>x. prepare L C fresh ''reserve'' (reserve_payload L req anc (j_day j) uuids) a
    (Some (j_day j)) j = Inr x"
proof -
  let ?p = "reserve_payload L req anc (j_day j) uuids"
  let ?w = "Some (j_day j)"
  from pre obtain snap where snap: "journal_snapshot L j = Inr snap"
    by (rule preview_Ok) (rule that)
  have contract: "contract_of (j_state j) \<noteq> None"
    using state_snapshot_Ok(1) [OF snap [unfolded journal_snapshot_def]] by simp
  have writable: "j_writable j" "audit_validate a = Inr ()" "length (j_receipts j) + 1 < 2 ^ 64"
    and vec: "\<And>rc. \<exists>line. to_vec C rc = Inr line"
    using ready by (simp_all add: ready_defs)
  from writable(3) have "unat (of_nat (length (j_receipts j)) :: u64) = length (j_receipts j)"
    by (intro unat_of_nat_u64) simp
  with writable(3) obtain seq where seq: "add (of_nat (length (j_receipts j))) 1 = Inr seq"
    using add_total [of "of_nat (length (j_receipts j))" 1] by auto
  from reserve_payload_accepted [OF journal_okD(5) [OF jok] pre ready] obtain s where
    s: "apply_reserve L (j_project j) ?p (note_window ?w (j_state j)) = Inr s" by blast
  let ?rc = "new_receipt fresh seq ''reserve'' ?p a ?w j"
  have "apply_receipt L ?rc (j_state j) = Inr s"
    using s contract by (simp add: apply_receipt_def Let_def)
  moreover obtain line where "to_vec C ?rc = Inr line" using vec by blast
  ultimately show ?thesis by (simp add: prepare_def writable seq)
qed

lemma reserve_accepted:
  assumes jok: "journal_ok L C ls j" and pre: "preview L W j req b = Inr anc"
    and ready: "ready_to_reserve L C j req uuids a"
  shows "\<exists>g j'. reserve L C no_faults fresh uuids W req b a j = (Ok g, j') \<and>
    group_ancestry g = anc \<and> reservation_ids g = reservation_names uuids"
proof -
  from reserve_prepared [OF assms] obtain x where
    "prepare L C fresh ''reserve'' (reserve_payload L req anc (j_day j) uuids) a
      (Some (j_day j)) j = Inr x" by blast
  from append_no_faults [OF jok this] obtain j' where
    "append_in_window L C no_faults fresh ''reserve'' (reserve_payload L req anc (j_day j) uuids) a
      (Some (j_day j)) j = (Ok (), j')" by (metis prod.collapse)
  with pre show ?thesis by (simp add: reserve_def)
qed

lemma arm_accepted_recordable:
  assumes "reserve_arm L project (arm_payload L req anc day u rid a) s = Inr s'"
  shows "ticket_of_project L project (req_ticket req) \<and> day \<noteq> [] \<and>
    (req_reserve_micro req > 0 \<longrightarrow> req_currency req \<noteq> [])"
proof -
  let ?p = "arm_payload L req anc day u rid a"
  obtain tkt d s1 s2 where tkt: "req_string L ?p ''ticket_identity'' = Inr tkt"
    and lead: "\<not> \<not> starts_with tkt (''ticket:'' @ trim_start_matches ''panta:'' project @ '':'')"
    and uuid: "check_uuid L (drop (length (''ticket:'' @ trim_start_matches ''panta:'' project @ '':'')) tkt) = Inr ()"
    and day: "req_string L ?p ''window'' = Inr d" and cur: "reserve_currency L ?p s1 = Inr s2"
    using assms unfolding reserve_arm_def Let_def by (elim ok_elims) (rule that, auto)
  have "req_reserve_micro req > 0 \<longrightarrow> req_currency req \<noteq> []"
    using cur by (auto simp: reserve_currency_def arm_payload_reads [OF refl] req_string_Ok res_simps split: if_splits)
  then show ?thesis
    using tkt lead uuid day by (simp add: req_string_Ok arm_payload_reads [OF refl] ticket_of_project_def Let_def)
qed

lemma reserve_refused:
  assumes pre: "preview L W j req b = Inr anc" and len: "length uuids = length (req_arms req)"
    and bad: "\<not> recordable L j req"
  shows "\<exists>e. reserve L C fl fresh uuids W req b a j = (Err e, j)"
proof (cases "prepare L C fresh ''reserve'' (reserve_payload L req anc (j_day j) uuids) a (Some (j_day j)) j")
  case (Inl e)
  with pre show ?thesis by (simp add: reserve_def append_in_window_def)
next
  case (Inr x)
  then obtain rc nxt line where "prepare L C fresh ''reserve''
      (reserve_payload L req anc (j_day j) uuids) a (Some (j_day j)) j = Inr (rc, nxt, line)" by (cases x) auto
  from prepare_Ok [OF this] have rc: "kind rc = ''reserve''" "project_id rc = j_project j"
      "receipt_payload rc = reserve_payload L req anc (j_day j) uuids" "apply_receipt L rc (j_state j) = Inr nxt"
    by auto
  have "apply_reserve L (j_project j) (reserve_payload L req anc (j_day j) uuids)
      (note_window (receipt_window rc) (j_state j)) = Inr nxt"
    using apply_receipt_reserve [OF rc(1,4)] by (simp add: rc)
  then have fold: "try_fold (reserve_arm L (j_project j)) (reserve_payloads L req anc (j_day j) (reservation_names uuids))
      (note_window (receipt_window rc) (j_state j)) = Inr nxt"
    by (auto simp: apply_reserve_def reserve_payload_def reservations_array split: if_splits)
  have "req_arms req \<noteq> []" using pre by (rule preview_Ok)
  then obtain y ys where "zip (reservation_names uuids) (req_arms req) = y # ys"
    using len by (cases "zip (reservation_names uuids) (req_arms req)")
      (auto simp: zip_eq_Nil_iff reservation_names_def)
  then obtain u rid x ps where "reserve_payloads L req anc (j_day j) (reservation_names uuids) =
      arm_payload L req anc (j_day j) u rid x # ps"
    by (cases y) (auto simp: reserve_payloads_def)
  with fold obtain s1 where "reserve_arm L (j_project j) (arm_payload L req anc (j_day j) u rid x)
      (note_window (receipt_window rc) (j_state j)) = Inr s1" by (auto simp: res_simps)
  from arm_accepted_recordable [OF this] have "recordable L j req" by (simp add: recordable_def)
  with bad show ?thesis by simp
qed

end

end
