(* ===== verification/Effects.thy ===== *)
theory Effects
  imports Agreement
begin

text \<open>
  How the operations after an admission move the numbers: a start turns an outstanding unit
  into a consumed one, a settle touches no count, an applied edge keeps a converted unit's
  exposure and a standalone one is checked against the bound, and a release of proven
  non-start is the one write that gives an invocation back.
\<close>

lemma apply_receipt_kinds:
  assumes "apply_receipt L rc s = Inr s'"
  shows "kind rc = ''start'' \<Longrightarrow>
      apply_start L (receipt_payload rc) (note_window (receipt_window rc) s) = Inr s'"
    and "kind rc = ''release'' \<Longrightarrow>
      apply_release L (receipt_payload rc) (note_window (receipt_window rc) s) = Inr s'"
    and "kind rc = ''transition'' \<Longrightarrow>
      apply_transition L (receipt_payload rc) (note_window (receipt_window rc) s) = Inr s'"
    and "kind rc = ''spend'' \<Longrightarrow>
      apply_spend L (receipt_payload rc) (note_window (receipt_window rc) s) = Inr s'"
    and "kind rc = ''adjust'' \<Longrightarrow>
      apply_adjust L (receipt_payload rc) (note_window (receipt_window rc) s) = Inr s'"
  using assms by (simp_all add: apply_receipt_def Let_def split: if_splits)

lemma journal_append_Ok:
  assumes "journal_append L C fl fresh k p a j = (Ok (), j')"
  obtains rc where "kind rc = k" and "receipt_payload rc = p"
    and "apply_receipt L rc (j_state j) = Inr (j_state j')"
  using assms append_Ok [of L C fl fresh k p a None j j'] unfolding journal_append_def by metis

text \<open>The counts of a state, as one value.\<close>

definition counts_same :: "'v state \<Rightarrow> 'v state \<Rightarrow> bool" where
  "counts_same s s' \<longleftrightarrow>
     (\<forall>d. consumed_count s' d = consumed_count s d \<and> outstanding_count s' d = outstanding_count s d) \<and>
     (\<forall>t. travel_of s' t = travel_of s t \<and> held_count s' t = held_count s t)"

lemma counts_same_note [simp]: "counts_same (note_window w s) s' = counts_same s s'"
  by (simp add: counts_same_def consumed_count_def outstanding_count_def travel_of_def held_count_def)

lemma apply_spend_counts:
  assumes ok: "bm_ok (reservations s)" and a: "apply_spend L p s = Inr s'"
  shows "counts_same s s'"
proof -
  obtain c s1 rid r where s1: "fix_currency c s = Inr s1"
    and r: "bm_get (reservations s) rid = Some r"
    and s': "s' = s1 \<or> settled r = None \<and>
      (\<exists>amount basis. s' = put_reservation rid (r\<lparr>settled := Some (amount, basis, p)\<rparr>) s1)"
    using apply_spend_Ok [OF a] by (elim exE conjE) (rule that, assumption+, auto)
  have "reservations s1 = reservations s" "travel s1 = travel s"
    using s1 by (auto simp: fix_currency_Ok)
  with s' r ok show ?thesis
    by (auto simp: counts_same_def consumed_count_def outstanding_count_def travel_of_def
        held_count_def put_reservation_def consumes_def holds_def travel_holds_def
        bm_sum_insert_same)
qed

lemma apply_start_counts:
  assumes ok: "bm_ok (reservations s)" and a: "apply_start L p s = Inr s'"
  shows "consumed_count s' d + outstanding_count s' d = consumed_count s d + outstanding_count s d"
    and "consumed_count s d \<le> consumed_count s' d"
    and "travel_of s' t = travel_of s t" and "held_count s' t = held_count s t"
proof -
  obtain rid r where r: "bm_get (reservations s) rid = Some r" "\<not> released r"
    and s': "s' = put_reservation rid (r\<lparr>started := True\<rparr>) s"
    using apply_start_Ok [OF a] by blast
  show "consumed_count s' d + outstanding_count s' d = consumed_count s d + outstanding_count s d"
    unfolding consumed_count_def outstanding_count_def s' put_reservation_def
    using bm.total_move [OF ok r(1), of "consumes d" "r\<lparr>started := True\<rparr>" "holds d"] r(2)
    by (simp add: consumes_def holds_def)
  show "consumed_count s d \<le> consumed_count s' d"
    unfolding consumed_count_def s' put_reservation_def
    using bm_sum_insert_mono [OF ok r(1), of "consumes d" "r\<lparr>started := True\<rparr>"] r(2)
    by (simp add: consumes_def)
  show "travel_of s' t = travel_of s t" and "held_count s' t = held_count s t"
    using bm_sum_insert_same [OF ok r(1), of "travel_holds t" "r\<lparr>started := True\<rparr>"]
    by (simp_all add: s' put_reservation_def travel_of_def held_count_def travel_holds_def)
qed

lemma apply_release_counts:
  assumes ok: "bm_ok (reservations s)" and a: "apply_release L p s = Inr s'"
  shows "consumed_count s' d = consumed_count s d"
    and "outstanding_count s' d \<le> outstanding_count s d"
    and "travel_of s' t = travel_of s t" and "held_count s' t \<le> held_count s t"
proof -
  obtain rid r r' where r: "bm_get (reservations s) rid = Some r"
    and s': "s' = put_reservation rid r' s"
    and r': "r' = r\<lparr>travel_held := False\<rparr> \<or>
      \<not> started r \<and> r' = r\<lparr>released := True, travel_held := False\<rparr>"
    using apply_release_Ok [OF a] by blast
  have "consumes d r' = consumes d r" "holds d r' \<le> holds d r" "travel_holds t r' \<le> travel_holds t r"
    using r' by (auto simp: consumes_def holds_def travel_holds_def)
  then show "consumed_count s' d = consumed_count s d"
    and "outstanding_count s' d \<le> outstanding_count s d"
    and "travel_of s' t = travel_of s t" and "held_count s' t \<le> held_count s t"
    using bm_sum_insert_same [OF ok r] bm.total_drop [OF ok r]
    by (auto simp: s' put_reservation_def consumed_count_def outstanding_count_def travel_of_def
        held_count_def)
qed

lemma apply_transition_counts:
  assumes ok: "bm_ok (reservations s)" and a: "apply_transition L p s = Inr s'"
    and fresh: "\<And>x. vstr_at L p ''transition_receipt_id'' = Some x \<Longrightarrow> bm_get (transitions s) x = None"
    and tkt: "vstr_at L p ''ticket_identity'' = Some tkt"
  shows "travel_of s' tkt = travel_of s tkt + 1"
    and "vstr_at L p ''reservation_id'' = None \<Longrightarrow> held_count s' t = held_count s t"
    and "vstr_at L p ''reservation_id'' \<noteq> None \<Longrightarrow> held_count s' tkt + 1 = held_count s tkt"
    and "consumed_count s' d = consumed_count s d" and "outstanding_count s' d = outstanding_count s d"
proof -
  from apply_transition_Ok [OF a] fresh tkt obtain x s1 n where
    s1: "convert_travel L p x tkt s = Inr s1" and n: "unat n = travel_of s tkt + 1"
    and s': "s' = s1\<lparr>travel := bm_insert tkt n (travel s),
                     transitions := bm_insert x p (transitions s)\<rparr>"
    unfolding travel_of_def by (metis option.distinct(1) option.inject)
  show "travel_of s' tkt = travel_of s tkt + 1" using n by (simp add: s' travel_of_def)
  note C = convert_travel_Ok [OF s1]
  then show "vstr_at L p ''reservation_id'' = None \<Longrightarrow> held_count s' t = held_count s t"
    by (auto simp: s' held_count_def)
  show "vstr_at L p ''reservation_id'' \<noteq> None \<Longrightarrow> held_count s' tkt + 1 = held_count s tkt"
    using C bm.total_update [OF ok, of _ _ "travel_holds tkt"]
    by (fastforce simp: s' held_count_def put_reservation_def travel_holds_def)
  show "consumed_count s' d = consumed_count s d" and "outstanding_count s' d = outstanding_count s d"
    using C bm_sum_insert_same [OF ok]
    by (auto simp: s' consumed_count_def outstanding_count_def put_reservation_def consumes_def
        holds_def)
qed

subsection \<open>The operations of the journal\<close>

lemma settle_counts:
  assumes "state_ok L (j_state j)"
    and "settle_spend_in_context L C fl fresh rid amount c basis ctx a j = (Ok (), j')"
  shows "counts_same (j_state j) (j_state j')"
proof -
  from assms(2) obtain rc where "kind rc = ''spend''" and app: "apply_receipt L rc (j_state j) = Inr (j_state j')"
    unfolding settle_spend_in_context_def by (rule journal_append_Ok)
  then have "apply_spend L (receipt_payload rc) (note_window (receipt_window rc) (j_state j)) =
      Inr (j_state j')"
    by (intro apply_receipt_kinds(4) [OF app])
  from apply_spend_counts [OF _ this] assms(1) show ?thesis
    by (simp add: state_ok_def books_ok_def)
qed

lemma start_counts:
  assumes "state_ok L (j_state j)" and "record_start L C fl fresh rid confirmed a j = (Ok (), j')"
  shows "consumed_count (j_state j') d + outstanding_count (j_state j') d =
      consumed_count (j_state j) d + outstanding_count (j_state j) d"
    and "consumed_count (j_state j) d \<le> consumed_count (j_state j') d"
proof -
  from assms(2) obtain rc where "kind rc = ''start''" and app: "apply_receipt L rc (j_state j) = Inr (j_state j')"
    unfolding record_start_def by (rule journal_append_Ok)
  then have "apply_start L (receipt_payload rc) (note_window (receipt_window rc) (j_state j)) =
      Inr (j_state j')"
    by (intro apply_receipt_kinds(1) [OF app])
  from apply_start_counts(1,2) [OF _ this] assms(1)
  show "consumed_count (j_state j') d + outstanding_count (j_state j') d =
      consumed_count (j_state j) d + outstanding_count (j_state j) d"
    and "consumed_count (j_state j) d \<le> consumed_count (j_state j') d"
    by (simp_all add: state_ok_def books_ok_def consumed_count_def outstanding_count_def)
qed

context json_laws
begin

lemma edge_payload_reads:
  "vstr_at L (edge_payload L u e) ''transition_receipt_id'' = Some (''transition:'' @ u)"
  "vstr_at L (edge_payload L u e) ''ticket_identity'' = Some (edge_ticket e)"
  "vstr_at L (edge_payload L u e) ''reservation_id'' = edge_reservation e"
  by (simp_all add: edge_payload_def obj_reads Let_def split: option.splits)

lemma unstarted_payload_reads:
  "vstr_at L (unstarted_payload L rid) ''reservation_id'' = Some rid"
  "vbool_at L (unstarted_payload L rid) ''travel_only'' = None"
  "vstr_at L (unstarted_payload L rid) ''proof'' = Some ''no_start_record''"
  by (simp_all add: unstarted_payload_def obj_reads)

lemma charge_counts:
  assumes ok: "state_ok L (j_state j)"
    and fresh: "bm_get (transitions (j_state j)) (''transition:'' @ u) = None"
    and res: "charge_travel L C fl r u e a j = (Ok (), j')"
  shows "travel_of (j_state j') (edge_ticket e) = travel_of (j_state j) (edge_ticket e) + 1"
    and "edge_reservation e = None \<Longrightarrow>
      travel_of (j_state j') (edge_ticket e) + held_count (j_state j') (edge_ticket e) \<le>
      unat (edge_limit e)"
    and "edge_reservation e \<noteq> None \<Longrightarrow>
      travel_of (j_state j') (edge_ticket e) + held_count (j_state j') (edge_ticket e) =
      travel_of (j_state j) (edge_ticket e) + held_count (j_state j) (edge_ticket e)"
proof -
  let ?p = "edge_payload L u e"
  from res have check: "check_edge L j e = Inr ()"
    and app: "journal_append L C fl r ''transition'' ?p a j = (Ok (), j')"
    by (auto simp: charge_travel_def split: sum.splits)
  from app obtain rc where rc: "kind rc = ''transition''" "receipt_payload rc = ?p"
    and ap: "apply_receipt L rc (j_state j) = Inr (j_state j')"
    by (rule journal_append_Ok)
  let ?s = "note_window (receipt_window rc) (j_state j)"
  have tr: "apply_transition L ?p ?s = Inr (j_state j')"
    using apply_receipt_kinds(3) [OF ap rc(1)] rc(2) by simp
  have "bm_ok (reservations ?s)" using ok by (simp add: state_ok_def books_ok_def)
  note ok_s = this
  have same: "travel_of ?s t = travel_of (j_state j) t" "held_count ?s t = held_count (j_state j) t" for t
    by (simp_all add: travel_of_def held_count_def)
  have new: "vstr_at L ?p ''transition_receipt_id'' = Some x \<Longrightarrow> bm_get (transitions ?s) x = None" for x
    using fresh by (auto simp: edge_payload_reads)
  have C: "travel_of (j_state j') (edge_ticket e) = travel_of (j_state j) (edge_ticket e) + 1"
    "edge_reservation e = None \<Longrightarrow>
       held_count (j_state j') (edge_ticket e) = held_count (j_state j) (edge_ticket e)"
    "edge_reservation e \<noteq> None \<Longrightarrow>
       held_count (j_state j') (edge_ticket e) + 1 = held_count (j_state j) (edge_ticket e)"
    using apply_transition_counts(1-3) [OF ok_s tr new edge_payload_reads(2)]
    by (simp_all add: edge_payload_reads(3) same)
  show one: "travel_of (j_state j') (edge_ticket e) = travel_of (j_state j) (edge_ticket e) + 1"
    by (rule C(1))
  show "edge_reservation e \<noteq> None \<Longrightarrow>
      travel_of (j_state j') (edge_ticket e) + held_count (j_state j') (edge_ticket e) =
      travel_of (j_state j) (edge_ticket e) + held_count (j_state j) (edge_ticket e)"
    using C(3) one by linarith
  assume none: "edge_reservation e = None"
  with check obtain snap where snap: "state_snapshot L (j_state j) (j_project j) (j_day j) = Inr snap"
    and room: "check_travel snap (edge_ticket e) (edge_display e) (edge_limit e) = Inr ()"
    by (auto simp: check_edge_def res_simps journal_snapshot_def)
  have "bm_ok (travel (j_state j))" using ok by (simp add: state_ok_def)
  from travel_for_Ok [OF snap this, of "edge_ticket e"] room
  have "travel_of (j_state j) (edge_ticket e) + held_count (j_state j) (edge_ticket e) + 1 \<le>
      unat (edge_limit e)"
    by (auto simp: check_travel_Ok exposure_Ok add_Ok word_to_nat not_less)
  with one C(2) [OF none] show
    "travel_of (j_state j') (edge_ticket e) + held_count (j_state j') (edge_ticket e) \<le>
      unat (edge_limit e)" by simp
qed

lemma release_unstarted_effect:
  assumes res: "release_unstarted L C fl fresh rid a j = (Ok (), j')"
  shows "\<exists>r. bm_get (reservations (j_state j)) rid = Some r \<and> \<not> started r \<and>
    reservations (j_state j') =
      bm_insert rid (r\<lparr>released := True, travel_held := False\<rparr>) (reservations (j_state j))"
proof -
  from res obtain rc where rc: "kind rc = ''release''" "receipt_payload rc = unstarted_payload L rid"
    and ap: "apply_receipt L rc (j_state j) = Inr (j_state j')"
    unfolding release_unstarted_def by (rule journal_append_Ok)
  have "apply_release L (unstarted_payload L rid) (note_window (receipt_window rc) (j_state j)) =
      Inr (j_state j')"
    using apply_receipt_kinds(2) [OF ap rc(1)] rc(2) by simp
  then obtain r where "bm_get (reservations (j_state j)) rid = Some r" "\<not> started r"
    and "j_state j' = put_reservation rid (r\<lparr>released := True, travel_held := False\<rparr>)
      (note_window (receipt_window rc) (j_state j))"
    by (auto simp: apply_release_def res_simps find_reservation_Ok unstarted_payload_reads
        split: if_splits)
  then show ?thesis by (auto simp: put_reservation_def)
qed

lemma release_each_effect:
  "release_each L C calls rids a j = (Ok (), j') \<Longrightarrow> length calls = length rids \<Longrightarrow>
   bm_ok (reservations (j_state j)) \<Longrightarrow>
   (\<forall>rid \<in> set rids. \<exists>r. bm_get (reservations (j_state j')) rid = Some r \<and> released r \<and> \<not> started r) \<and>
   (\<forall>rid. rid \<notin> set rids \<longrightarrow>
      bm_get (reservations (j_state j')) rid = bm_get (reservations (j_state j)) rid) \<and>
   (\<forall>d. consumed_count (j_state j') d = consumed_count (j_state j) d)"
proof (induction rids arbitrary: calls j)
  case Nil
  then show ?case by simp
next
  case (Cons rid rids)
  then obtain fl fresh rest where calls: "calls = (fl, fresh) # rest"
    by (cases calls) auto
  with Cons.prems(1) obtain j1 where j1: "release_unstarted L C fl fresh rid a j = (Ok (), j1)"
    and later: "release_each L C rest rids a j1 = (Ok (), j')"
    by (auto split: prod.splits sum.splits)
  from release_unstarted_effect [OF j1] obtain r where
    r: "bm_get (reservations (j_state j)) rid = Some r" "\<not> started r"
    and upd: "reservations (j_state j1) =
      bm_insert rid (r\<lparr>released := True, travel_held := False\<rparr>) (reservations (j_state j))" by blast
  have ok1: "bm_ok (reservations (j_state j1))" using Cons.prems(3) by (simp add: upd bm_ok_insert)
  have "consumed_count (j_state j1) d = consumed_count (j_state j) d" for d
    using bm_sum_insert_same [OF Cons.prems(3) r(1), of "consumes d"] r(2)
    by (simp add: consumed_count_def upd consumes_def)
  with Cons.IH [OF later _ ok1] Cons.prems(2) calls r(2) show ?case
    by (auto simp: upd)
qed

lemma release_abandoned_effect:
  assumes ok: "bm_ok (reservations (j_state j))"
    and res: "release_abandoned L C calls gone a j = (Ok n, j')"
  shows "n = length (abandoned L gone j) \<and>
    (\<forall>rid \<in> set (abandoned L gone j).
       (\<exists>r. bm_get (reservations (j_state j)) rid = Some r \<and> \<not> started r \<and> \<not> released r) \<and>
       (\<exists>r. bm_get (reservations (j_state j')) rid = Some r \<and> released r \<and> \<not> started r)) \<and>
    (\<forall>rid. rid \<notin> set (abandoned L gone j) \<longrightarrow>
       bm_get (reservations (j_state j')) rid = bm_get (reservations (j_state j)) rid) \<and>
    (\<forall>d. consumed_count (j_state j') d = consumed_count (j_state j) d)"
proof -
  let ?rids = "abandoned L gone j"
  from res have each: "release_each L C (map calls [0..<length ?rids]) ?rids a j = (Ok (), j')"
    and n: "n = length ?rids"
    by (auto simp: release_abandoned_def Let_def split: prod.splits sum.splits)
  have "\<exists>r. bm_get (reservations (j_state j)) rid = Some r \<and> \<not> started r \<and> \<not> released r"
    if "rid \<in> set ?rids" for rid
    using that bm_get_iff [OF ok] by (auto simp: abandoned_def)
  with release_each_effect [OF each _ ok] n show ?thesis by simp
qed

end

end
