(* ===== verification/Samples.thy ===== *)
theory Samples
  imports Line_Codec Effects
begin

text \<open>
  A small account the examples run on: one project, one ticket bound to one source, one
  request for a spawn, over the concrete JSON model and the concrete codec.
\<close>

definition sample_audit :: audit where
  "sample_audit =
     \<lparr>audit_actor = ''op'', audit_written_at = ''2026-01-02T03:04:05Z'', audit_reason = ''run'',
      audit_argv = []\<rparr>"

definition sample_files :: files where
  "sample_files =
     \<lparr>authority_of = \<lparr>held_bytes = [], witness_file = None, adopted = False\<rparr>,
      journal_path = ''/p/j'', journal_file = None\<rparr>"

definition empty_journal :: "json journal" where
  "empty_journal =
     \<lparr>j_files = sample_files, j_project = ''panta:ab'', j_root = ''/p'', j_state = state_default,
      j_receipts = [], j_last_hash = None, j_writable = True, j_day = ''2026-01-02''\<rparr>"

definition sample_world :: world where
  "sample_world =
     \<lparr>canonicalize = (\<lambda>p. Ok (Some p)), live_source = (\<lambda>p. Ok (Some ''plan'')),
      ticket_claims = (\<lambda>p b. Some []), not_found = ''not found''\<rparr>"

definition sample_initialize :: json where
  "sample_initialize =
     Obj [(''contract'', to_json json_lib Window), (''audit'', audit_json json_lib sample_audit)]"

definition opened_journal :: "json journal" where
  "opened_journal =
     snd (journal_append json_lib line_codec no_faults ''r1'' ''initialize''
       sample_initialize sample_audit empty_journal)"

definition bound_journal :: "json journal" where
  "bound_journal =
     snd (bind_ticket json_lib line_codec no_faults ''r2'' sample_world ''ticket:ab:c0''
       ''plan/1'' ''/p/a.md'' sample_audit opened_journal)"

definition sample_request :: admission_request where
  "sample_request =
     \<lparr>req_ticket = ''ticket:ab:c0'', req_display = ''plan/1'', req_project_label = ''p'',
      req_execution_root = ''/p/run'', req_arms = [\<lparr>attempt_identity = ''a1'', descendant_envelope = 2\<rparr>],
      req_parent = None, req_travel = True, req_reserve_micro = 20, req_currency = ''USD''\<rparr>"

definition sample_bounds :: effective_bounds where
  "sample_bounds = \<lparr>transition_limit = 3, invocations_per_day = 2, spend_per_day = 100\<rparr>"

definition reserved_journal :: "json journal" where
  "reserved_journal =
     snd (reserve json_lib line_codec no_faults ''r3'' [''u1''] sample_world sample_request
       sample_bounds sample_audit bound_journal)"

lemmas run_simps = Let_def vindex_def vstr_at_def vu64_at_def vbool_at_def req_string_def
  req_number_def starts_with_def quoted_def

lemma empty_ok: "journal_ok json_lib line_codec [] empty_journal"
  by (simp add: journal_ok_def empty_journal_def sample_files_def files_agree_def bytes_in_def
      chain_fold_def replayed_default_def)

definition opened_state :: "json state" where
  "opened_state =
     state_default\<lparr>contract_of := Some Window,
       audit_log := [Obj [(''contract'', to_json json_lib Window), (''audit'', audit_json json_lib sample_audit)]]\<rparr>"

lemma sample_audit_ok: "audit_validate sample_audit = Inr ()"
  by (simp add: audit_validate_def sample_audit_def trim_def trim_start_def trim_end_def
      is_whitespace_def)

lemma prepare_opened:
  "\<exists>rc. prepare json_lib line_codec ''r1'' ''initialize''
     sample_initialize sample_audit None empty_journal = Inr (rc, opened_state, put_receipt rc)"
  by (simp add: prepare_def sample_audit_ok empty_journal_def add_def checked_add_def run_simps
      apply_receipt_def note_window_def apply_initialize_def state_default_def from_json_def
      to_json_def opened_state_def sample_initialize_def)

lemma sample_step:
  assumes ok: "journal_ok json_lib line_codec ls j"
    and prep: "prepare json_lib line_codec fresh k p a w j = Inr (rc, s, line)"
    and fresh: "''receipt:'' @ fresh \<notin> receipt_id ` set (j_receipts j)"
    and j': "j' = snd (append_in_window json_lib line_codec no_faults fresh k p a w j)"
  shows "append_in_window json_lib line_codec no_faults fresh k p a w j = (Ok (), j')"
    and "journal_ok json_lib line_codec (ls @ [line]) j'" and "j_state j' = s"
    and "j_receipts j' = j_receipts j @ [rc]" and "j_project j' = j_project j"
    and "j_writable j'" and "j_day j' = effective_day (j_day j) (highest_day s)"
proof -
  show app: "append_in_window json_lib line_codec no_faults fresh k p a w j = (Ok (), j')"
    using append_no_faults [OF ok prep] j' by (simp add: prod_eq_iff)
  from lc.append_keeps [OF ok fresh app] prep
  show "journal_ok json_lib line_codec (ls @ [line]) j'" and "j_state j' = s"
    and "j_receipts j' = j_receipts j @ [rc]" and "j_project j' = j_project j"
    and "j_writable j'" and "j_day j' = effective_day (j_day j) (highest_day s)"
    by auto
qed

lemma fresh_in_empty: "''receipt:'' @ fresh \<notin> receipt_id ` set (j_receipts empty_journal)"
  by (simp add: empty_journal_def)

lemma opened_appended:
  "append_in_window json_lib line_codec no_faults ''r1'' ''initialize'' sample_initialize sample_audit
     None empty_journal = (Ok (), opened_journal)"
proof -
  from prepare_opened obtain rc where "prepare json_lib line_codec ''r1'' ''initialize''
     sample_initialize sample_audit None empty_journal = Inr (rc, opened_state, put_receipt rc)"
    by blast
  from sample_step(1) [OF empty_ok this fresh_in_empty refl]
  show ?thesis by (simp add: opened_journal_def journal_append_def)
qed

lemma sample_torn:
  "\<exists>e j'. append_in_window json_lib line_codec (no_faults\<lparr>j_stop := Some 3, j_cut := Cut_failed\<rparr>) ''r1''
     ''initialize'' sample_initialize sample_audit None empty_journal = (Err e, j')"
proof -
  from prepare_opened obtain rc where "prepare json_lib line_codec ''r1'' ''initialize''
     sample_initialize sample_audit None empty_journal = Inr (rc, opened_state, put_receipt rc)"
    by blast
  then show ?thesis
    by (simp add: append_in_window_def write_receipt_step append_through_def write_initial_def
        write_durable_def append_line_def open_journal_def no_faults_def empty_journal_def
        sample_files_def Let_def)
qed

lemma opened_facts:
  "\<exists>ls. journal_ok json_lib line_codec ls opened_journal"
  "j_state opened_journal = opened_state" "j_project opened_journal = ''panta:ab''"
  "j_writable opened_journal" "j_day opened_journal = ''2026-01-02''"
  "receipt_id ` set (j_receipts opened_journal) = {''receipt:r1''}"
  "length (j_receipts opened_journal) = 1"
proof -
  from prepare_opened obtain rc where prep: "prepare json_lib line_codec ''r1'' ''initialize''
     sample_initialize sample_audit None empty_journal = Inr (rc, opened_state, put_receipt rc)" by blast
  have rid: "receipt_id rc = ''receipt:r1''" using prepare_Ok [OF prep] by auto
  have "''receipt:'' @ ''r1'' \<notin> receipt_id ` set (j_receipts empty_journal)"
    by (simp add: empty_journal_def)
  note step = sample_step [OF empty_ok prep this opened_journal_def [unfolded journal_append_def]]
  show "\<exists>ls. journal_ok json_lib line_codec ls opened_journal" using step(2) by blast
  show "j_state opened_journal = opened_state" "j_project opened_journal = ''panta:ab''"
    "j_writable opened_journal" "j_day opened_journal = ''2026-01-02''"
    "receipt_id ` set (j_receipts opened_journal) = {''receipt:r1''}"
    "length (j_receipts opened_journal) = 1"
    using step(3-7) rid
    by (simp_all add: empty_journal_def opened_state_def state_default_def effective_day_def)
qed

definition sample_binding :: json where
  "sample_binding =
     identity_payload json_lib line_codec ''ticket:ab:c0'' ''plan/1'' ''/p/a.md'' {''/p/a.md''} ''plan''"

definition bound_state :: "json state" where
  "bound_state =
     opened_state\<lparr>identities :=
       [(''ticket:ab:c0'', vset json_lib sample_binding ''source_paths'' (json_of_paths {''/p/a.md''}))]\<rparr>"

lemma sample_sources: "sources json_lib sample_binding = Inr {''/p/a.md''}"
  by (simp add: sources_def sample_binding_def identity_payload_def run_simps json_paths_of
      is_absolute_def json_of_paths_def)

lemma sample_plan:
  "bind_plan json_lib line_codec sample_world opened_journal ''ticket:ab:c0'' ''plan/1'' ''/p/a.md'' =
   Inr (Some (None, sample_binding))"
proof -
  have "trim_start_matches ''panta:'' ''panta:ab'' = ''ab''"
    by (simp add: trim_start_matches.simps starts_with_def)
  then show ?thesis
    by (simp add: bind_plan_def ticket_prefix_def opened_facts strip_prefix_def check_uuid_def
        hex_uuid_def sample_world_def previous_binding_def opened_state_def state_default_def
        starts_with_def sample_binding_def)
qed

lemma prepare_bound:
  "\<exists>rc. prepare json_lib line_codec ''r2'' ''identity'' sample_binding sample_audit None opened_journal =
     Inr (rc, bound_state, put_receipt rc)"
proof -
  have "apply_identity json_lib sample_binding opened_state = Inr bound_state"
    using sample_sources
    by (simp add: apply_identity_def replay_binding_def opened_state_def bound_state_def run_simps
        state_default_def)
      (simp add: sample_binding_def identity_payload_def)
  then show ?thesis
    by (simp add: prepare_def sample_audit_ok opened_facts add_def checked_add_def run_simps
        apply_receipt_def note_window_def) (simp add: opened_state_def)
qed

lemma bound_facts:
  "\<exists>ls. journal_ok json_lib line_codec ls bound_journal"
  "j_state bound_journal = bound_state" "j_project bound_journal = ''panta:ab''"
  "j_writable bound_journal" "j_day bound_journal = ''2026-01-02''"
  "receipt_id ` set (j_receipts bound_journal) = {''receipt:r1'', ''receipt:r2''}"
  "length (j_receipts bound_journal) = 2"
proof -
  from opened_facts(1) obtain ls where ok: "journal_ok json_lib line_codec ls opened_journal"
    by blast
  from prepare_bound obtain rc where prep: "prepare json_lib line_codec ''r2'' ''identity''
     sample_binding sample_audit None opened_journal = Inr (rc, bound_state, put_receipt rc)" by blast
  have rid: "receipt_id rc = ''receipt:r2''" using prepare_Ok [OF prep] by auto
  have fresh: "''receipt:'' @ ''r2'' \<notin> receipt_id ` set (j_receipts opened_journal)"
    using opened_facts(6) by simp
  have j: "bound_journal = snd (append_in_window json_lib line_codec no_faults ''r2'' ''identity''
      sample_binding sample_audit None opened_journal)"
    by (auto simp: bound_journal_def bind_ticket_def sample_plan journal_append_def
        split: prod.splits sum.splits)
  note step = sample_step [OF ok prep fresh j]
  show "\<exists>ls. journal_ok json_lib line_codec ls bound_journal" using step(2) by blast
  have "receipt_id ` set (j_receipts bound_journal) =
      insert (receipt_id rc) (receipt_id ` set (j_receipts opened_journal))"
    using step(4) by simp
  then show "receipt_id ` set (j_receipts bound_journal) = {''receipt:r1'', ''receipt:r2''}"
    using opened_facts(6) rid by auto
  show "j_state bound_journal = bound_state" "j_project bound_journal = ''panta:ab''"
    "j_writable bound_journal" "j_day bound_journal = ''2026-01-02''"
    "length (j_receipts bound_journal) = 2"
    using step(3-7) opened_facts(3-7)
    by (simp_all add: effective_day_def bound_state_def opened_state_def state_default_def)
qed

lemma sample_snapshot:
  "journal_snapshot json_lib bound_journal =
   Inr \<lparr>snap_project_id = ''panta:ab'', snap_contract = Window, snap_day = ''2026-01-02'',
        invocations = counter_default, lifetime_invocations = counter_default, snap_travel = [],
        snap_spend = counter_default, snap_currency = None, spend_marks = marks_default,
        spend_unpriced = [], spend_unsettled_roots = [], snap_reservations = [],
        health = ''verified''\<rparr>"
  by (simp add: journal_snapshot_def state_snapshot_def bound_facts bound_state_def
      opened_state_def state_default_def state_counter_def lifetime_counter_def state_spend_def
      bm_values_def spend_acc_default_def applied_travel_def tally_def)

lemma sample_live: "validate_identity_sources json_lib sample_world bound_journal = Inr ()"
proof -
  have "sources json_lib (json_set sample_binding ''source_paths'' (json_of_paths {''/p/a.md''})) =
      Inr {''/p/a.md''}"
    by (simp add: sources_def sample_binding_def identity_payload_def run_simps json_paths_of
        is_absolute_def json_of_paths_def)
  then show ?thesis
    by (simp add: validate_identity_sources_def validate_binding_def bound_facts bound_state_def
        bm_values_def path_list_def agree_step_def sample_world_def)
qed

lemma sample_preview:
  "preview json_lib sample_world bound_journal sample_request sample_bounds = Inr Unclaimed"
proof -
  have "identity_installed json_lib bound_journal ''ticket:ab:c0''"
    by (simp add: identity_installed_def bound_facts bound_state_def run_simps)
      (simp add: sample_binding_def identity_payload_def)
  then show ?thesis
    by (simp add: preview_def sample_live sample_request_def authenticate_ancestor_def
        sample_snapshot check_currency_def check_travel_def travel_for_def counter_or_default_def
        exposure_def counter_default_def add_def checked_add_def sample_bounds_def Let_def
        check_invocations_def invocation_bound_def check_spend_def checked_mul_def
        attempt_step_def bound_facts bound_state_def opened_state_def state_default_def
        check_envelope_def)
qed

lemma sample_ready:
  "ready_to_reserve json_lib line_codec bound_journal sample_request [''u1''] sample_audit"
proof -
  have "trim_start_matches ''panta:'' ''panta:ab'' = ''ab''"
    by (simp add: trim_start_matches.simps starts_with_def)
  then have "ticket_of_project json_lib ''panta:ab'' ''ticket:ab:c0''"
    by (simp add: ticket_of_project_def starts_with_def check_uuid_def hex_uuid_def)
  then show ?thesis
    by (simp add: ready_defs bound_facts sample_audit_ok sample_request_def
        bound_state_def opened_state_def state_default_def)
qed

lemma sample_reserved:
  "\<exists>g. reserve json_lib line_codec no_faults ''r3'' [''u1''] sample_world sample_request
     sample_bounds sample_audit bound_journal = (Ok g, reserved_journal)"
proof -
  from bound_facts(1) obtain ls where "journal_ok json_lib line_codec ls bound_journal" by blast
  from js.reserve_accepted [OF this sample_preview sample_ready, of "''r3''"]
  show ?thesis unfolding reserved_journal_def by (metis snd_conv)
qed

lemma sample_chain:
  "\<exists>bs r. replay_chain json_lib line_codec ''panta:ab'' bs = Ok r \<and> length (r_receipts r) = 1 \<and>
     r_state r = opened_state"
proof -
  from opened_facts obtain ls where ok: "journal_ok json_lib line_codec ls opened_journal" by blast
  then obtain r where r: "chain_fold json_lib line_codec ''panta:ab'' ls = Inr r"
    "r_receipts r = j_receipts opened_journal" "r_state r = opened_state"
    and lines: "\<forall>l \<in> set ls. newline \<notin> set l"
    by (auto simp: journal_ok_def opened_facts(2,3))
  have "ls \<noteq> []" using journal_ok_first [OF ok] opened_facts(7) by auto
  from replay_chain_unlines [OF lines this, of json_lib line_codec "''panta:ab''"] r(1) have
    "replay_chain json_lib line_codec ''panta:ab'' (unlines ls) = Inr r" by simp
  with r opened_facts(7) show ?thesis by (intro exI [of _ "unlines ls"] exI [of _ r]) simp
qed

subsection \<open>A spawn, its settle and its edge\<close>

definition sample_arm :: json where
  "sample_arm =
     arm_payload json_lib sample_request Unclaimed ''2026-01-02'' 1 ''reservation:u1''
       \<lparr>attempt_identity = ''a1'', descendant_envelope = 2\<rparr>"

definition reserved_state :: "json state" where
  "reserved_state =
     bound_state\<lparr>reservations := [(''reservation:u1'', new_reservation json_lib sample_arm)],
       attempts := [(''a1'', ())], currency := Some ''USD'', highest_day := Some ''2026-01-02''\<rparr>"

lemma sample_payload:
  "reserve_payload json_lib sample_request Unclaimed ''2026-01-02'' [''u1''] =
   Obj [(''reservations'', Arr [sample_arm])]"
  by (simp add: reserve_payload_def reserve_payloads_def reservation_names_def sample_arm_def
      sample_request_def)

lemmas sample_arm_reads = js.arm_payload_reads [OF sample_arm_def, simplified]

lemma sample_arm_new:
  "new_reservation json_lib sample_arm =
     \<lparr>payload = sample_arm, ticket = ''ticket:ab:c0'', window = ''2026-01-02'', started = False,
      released = False, travel_held = True, transition = None, spend_reserve = 20, settled = None\<rparr>"
  by (simp add: sample_arm_def) (simp add: sample_request_def)

lemma sample_arm_applied:
  "reserve_arm json_lib ''panta:ab'' sample_arm (bound_state\<lparr>highest_day := Some ''2026-01-02''\<rparr>) =
   Inr reserved_state"
proof -
  have "trim_start_matches ''panta:'' ''panta:ab'' = ''ab''"
    by (simp add: trim_start_matches.simps starts_with_def)
  then have "ticket_of_project json_lib ''panta:ab'' ''ticket:ab:c0''"
    by (simp add: ticket_of_project_def starts_with_def check_uuid_def hex_uuid_def)
  moreover have "reserve_amount json_lib sample_arm = 20"
    using sample_arm_reads by (simp add: sample_request_def)
  moreover have "authenticate_replayed_ancestor json_lib (bound_state\<lparr>highest_day := Some ''2026-01-02''\<rparr>)
      sample_arm = Inr ()"
    using sample_arm_reads by (simp add: authenticate_replayed_ancestor_def opt_str_def)
  ultimately show ?thesis
    using sample_arm_reads
    by (simp add: reserve_arm_def req_string_def req_number_def sample_request_def
        ticket_of_project_def reserve_currency_def fix_currency_def put_reservation_def
        reserved_state_def sample_arm_new bs_insert_def Let_def)
      (simp add: bound_state_def opened_state_def state_default_def)
qed

definition sample_at :: "json journal \<Rightarrow> json state \<Rightarrow> string set \<Rightarrow> nat \<Rightarrow> bool" where
  "sample_at j s used n \<longleftrightarrow>
     (\<exists>ls. journal_ok json_lib line_codec ls j) \<and> j_state j = s \<and> j_project j = ''panta:ab'' \<and>
     j_writable j \<and> j_day j = ''2026-01-02'' \<and> receipt_id ` set (j_receipts j) = used \<and>
     length (j_receipts j) = n"

lemma bound_at: "sample_at bound_journal bound_state {''receipt:r1'', ''receipt:r2''} 2"
  using bound_facts by (simp add: sample_at_def)

lemma sample_next:
  assumes at: "sample_at j s used n" and n: "n < 100"
    and step: "\<And>seq. apply_receipt json_lib (new_receipt fresh seq k p sample_audit w j) s = Inr s'"
    and fresh: "''receipt:'' @ fresh \<notin> used"
    and day: "highest_day s' = None \<or> highest_day s' = Some ''2026-01-02''"
    and j': "j' = snd (append_in_window json_lib line_codec no_faults fresh k p sample_audit w j)"
  shows "append_in_window json_lib line_codec no_faults fresh k p sample_audit w j = (Ok (), j')"
    and "sample_at j' s' (insert (''receipt:'' @ fresh) used) (Suc n)"
proof -
  from at obtain ls where ok: "journal_ok json_lib line_codec ls j"
    and facts: "j_state j = s" "j_project j = ''panta:ab''" "j_writable j"
      "j_day j = ''2026-01-02''" "receipt_id ` set (j_receipts j) = used"
      "length (j_receipts j) = n"
    unfolding sample_at_def by blast
  have "unat (of_nat n :: u64) + unat (1 :: u64) < 2 ^ 64"
    using n unat_of_nat_u64 [of n] by simp
  then obtain seq where seq: "add (of_nat (length (j_receipts j))) 1 = Inr seq"
    using add_total facts(6) by metis
  let ?rc = "new_receipt fresh seq k p sample_audit w j"
  have prep: "prepare json_lib line_codec fresh k p sample_audit w j = Inr (?rc, s', put_receipt ?rc)"
    using step [of seq] by (simp add: prepare_def facts(1,3) sample_audit_ok seq Let_def)
  have "''receipt:'' @ fresh \<notin> receipt_id ` set (j_receipts j)" using fresh facts(5) by simp
  note next_step = sample_step [OF ok prep this j']
  show "append_in_window json_lib line_codec no_faults fresh k p sample_audit w j = (Ok (), j')"
    by (rule next_step(1))
  show "sample_at j' s' (insert (''receipt:'' @ fresh) used) (Suc n)"
    using next_step(2-7) facts day
    by (auto simp: sample_at_def effective_day_def)
qed

lemma apply_receipt_new:
  "contract_of s \<noteq> None \<Longrightarrow>
   apply_receipt L (new_receipt f q ''reserve'' p a w j) s =
     apply_reserve L (j_project j) p (note_window w s)"
  "contract_of s \<noteq> None \<Longrightarrow>
   apply_receipt L (new_receipt f q ''start'' p a w j) s = apply_start L p (note_window w s)"
  "contract_of s \<noteq> None \<Longrightarrow>
   apply_receipt L (new_receipt f q ''release'' p a w j) s = apply_release L p (note_window w s)"
  "contract_of s \<noteq> None \<Longrightarrow>
   apply_receipt L (new_receipt f q ''transition'' p a w j) s = apply_transition L p (note_window w s)"
  "contract_of s \<noteq> None \<Longrightarrow>
   apply_receipt L (new_receipt f q ''spend'' p a w j) s = apply_spend L p (note_window w s)"
  "contract_of s \<noteq> None \<Longrightarrow>
   apply_receipt L (new_receipt f q ''adjust'' p a w j) s = apply_adjust L p (note_window w s)"
  by (auto simp: apply_receipt_def Let_def)

lemma sample_contract: "contract_of bound_state = Some Window" "contract_of reserved_state = Some Window"
  by (simp_all add: bound_state_def reserved_state_def opened_state_def)

lemma reserved_step:
  "append_in_window json_lib line_codec no_faults ''r3'' ''reserve''
     (reserve_payload json_lib sample_request Unclaimed ''2026-01-02'' [''u1'']) sample_audit
     (Some ''2026-01-02'') bound_journal = (Ok (), reserved_journal)"
  "sample_at reserved_journal reserved_state {''receipt:r3'', ''receipt:r1'', ''receipt:r2''} 3"
proof -
  have day: "j_day bound_journal = ''2026-01-02''" by (rule bound_facts)
  have noted: "note_window (Some ''2026-01-02'') bound_state = bound_state\<lparr>highest_day := Some ''2026-01-02''\<rparr>"
    by (simp add: note_window_def bound_state_def opened_state_def state_default_def)
  have step: "apply_receipt json_lib (new_receipt ''r3'' seq ''reserve''
      (reserve_payload json_lib sample_request Unclaimed ''2026-01-02'' [''u1'']) sample_audit
      (Some ''2026-01-02'') bound_journal) bound_state = Inr reserved_state" for seq
    by (simp add: apply_receipt_new sample_contract bound_facts noted sample_payload
        apply_reserve_def sample_arm_applied)
  let ?j = "snd (append_in_window json_lib line_codec no_faults ''r3'' ''reserve''
      (reserve_payload json_lib sample_request Unclaimed ''2026-01-02'' [''u1'']) sample_audit
      (Some ''2026-01-02'') bound_journal)"
  note next_step = sample_next [OF bound_at _ step _ _ refl]
  have app: "append_in_window json_lib line_codec no_faults ''r3'' ''reserve''
     (reserve_payload json_lib sample_request Unclaimed ''2026-01-02'' [''u1'']) sample_audit
     (Some ''2026-01-02'') bound_journal = (Ok (), ?j)"
    and at: "sample_at ?j reserved_state {''receipt:r3'', ''receipt:r1'', ''receipt:r2''} 3"
    using next_step by (simp_all add: reserved_state_def)
  obtain j1 where j1: "?j = j1" by blast
  with app have "reserved_journal = j1"
    by (simp add: reserved_journal_def reserve_def sample_preview day)
  with j1 have "reserved_journal = ?j" by simp
  with app at show "append_in_window json_lib line_codec no_faults ''r3'' ''reserve''
     (reserve_payload json_lib sample_request Unclaimed ''2026-01-02'' [''u1'']) sample_audit
     (Some ''2026-01-02'') bound_journal = (Ok (), reserved_journal)"
    and "sample_at reserved_journal reserved_state {''receipt:r3'', ''receipt:r1'', ''receipt:r2''} 3"
    by simp_all
qed

definition started_journal :: "json journal" where
  "started_journal =
     snd (record_start json_lib line_codec no_faults ''r4'' ''reservation:u1'' True sample_audit
       reserved_journal)"

definition sample_running :: "json reservation" where
  "sample_running = (new_reservation json_lib sample_arm)\<lparr>started := True\<rparr>"

definition running_state :: "json state" where
  "running_state = reserved_state\<lparr>reservations := [(''reservation:u1'', sample_running)]\<rparr>"

lemma started_step:
  "record_start json_lib line_codec no_faults ''r4'' ''reservation:u1'' True sample_audit
     reserved_journal = (Ok (), started_journal)"
  "sample_at started_journal running_state
     {''receipt:r4'', ''receipt:r3'', ''receipt:r1'', ''receipt:r2''} 4"
proof -
  have "apply_start json_lib (start_payload json_lib ''reservation:u1'' True) reserved_state =
      Inr running_state"
    by (simp add: apply_start_def find_reservation_def start_payload_def run_simps reserved_state_def
        sample_arm_new put_reservation_def running_state_def sample_running_def)
  then have step: "apply_receipt json_lib (new_receipt ''r4'' seq ''start''
      (start_payload json_lib ''reservation:u1'' True) sample_audit None reserved_journal) reserved_state =
    Inr running_state" for seq
    by (simp add: apply_receipt_new sample_contract note_window_def)
  have day: "highest_day running_state = None \<or> highest_day running_state = Some ''2026-01-02''"
    by (simp add: running_state_def reserved_state_def)
  note next_step = sample_next [OF reserved_step(2) _ step _ day refl]
  show "record_start json_lib line_codec no_faults ''r4'' ''reservation:u1'' True sample_audit
     reserved_journal = (Ok (), started_journal)"
    using next_step(1) by (simp add: record_start_def started_journal_def journal_append_def)
  show "sample_at started_journal running_state
     {''receipt:r4'', ''receipt:r3'', ''receipt:r1'', ''receipt:r2''} 4"
    using next_step(2) by (simp add: record_start_def started_journal_def journal_append_def)
qed

definition settled_journal :: "json journal" where
  "settled_journal =
     snd (settle_spend_in_context json_lib line_codec no_faults ''r5'' ''reservation:u1'' 7 ''USD''
       Measured None sample_audit started_journal)"

definition settled_state :: "json state" where
  "settled_state = running_state\<lparr>reservations :=
     [(''reservation:u1'', sample_running\<lparr>settled := Some (7, Measured,
         spend_payload json_lib ''reservation:u1'' 7 ''USD'' Measured None)\<rparr>)]\<rparr>"

lemma settled_step:
  "settle_spend_in_context json_lib line_codec no_faults ''r5'' ''reservation:u1'' 7 ''USD''
     Measured None sample_audit started_journal = (Ok (), settled_journal)"
  "sample_at settled_journal settled_state
     {''receipt:r5'', ''receipt:r4'', ''receipt:r3'', ''receipt:r1'', ''receipt:r2''} 5"
proof -
  let ?p = "spend_payload json_lib ''reservation:u1'' 7 ''USD'' Measured None"
  have "apply_spend json_lib ?p running_state = Inr settled_state"
    by (simp add: apply_spend_def find_reservation_def spend_payload_def run_simps
        running_state_def reserved_state_def basis_parse_def fix_currency_def
        sample_running_def sample_arm_new put_reservation_def settled_state_def)
  then have step: "apply_receipt json_lib (new_receipt ''r5'' seq ''spend'' ?p sample_audit None
      started_journal) running_state = Inr settled_state" for seq
    using sample_contract by (simp add: apply_receipt_new running_state_def note_window_def)
  have day: "highest_day settled_state = None \<or> highest_day settled_state = Some ''2026-01-02''"
    by (simp add: settled_state_def running_state_def reserved_state_def)
  note next_step = sample_next [OF started_step(2) _ step _ day refl]
  show "settle_spend_in_context json_lib line_codec no_faults ''r5'' ''reservation:u1'' 7 ''USD''
     Measured None sample_audit started_journal = (Ok (), settled_journal)"
    using next_step(1)
    by (simp add: settle_spend_in_context_def settled_journal_def journal_append_def)
  show "sample_at settled_journal settled_state
     {''receipt:r5'', ''receipt:r4'', ''receipt:r3'', ''receipt:r1'', ''receipt:r2''} 5"
    using next_step(2)
    by (simp add: settle_spend_in_context_def settled_journal_def journal_append_def)
qed

definition sample_edge :: applied_edge where
  "sample_edge =
     \<lparr>edge_ticket = ''ticket:ab:c0'', edge_display = ''plan/1'', edge_from = ''todo'',
      edge_to = ''done'', edge_reservation = Some ''reservation:u1'', edge_limit = 3\<rparr>"

definition moved_journal :: "json journal" where
  "moved_journal =
     snd (charge_travel json_lib line_codec no_faults ''r6'' ''t1'' sample_edge sample_audit
       started_journal)"

definition moved_state :: "json state" where
  "moved_state = running_state\<lparr>reservations :=
       [(''reservation:u1'', sample_running\<lparr>travel_held := False, transition := Some ''transition:t1''\<rparr>)],
     travel := [(''ticket:ab:c0'', 1)],
     transitions := [(''transition:t1'', edge_payload json_lib ''t1'' sample_edge)]\<rparr>"

lemma moved_applied:
  "apply_transition json_lib (edge_payload json_lib ''t1'' sample_edge) running_state = Inr moved_state"
  by (simp add: apply_transition_def record_transition_def edge_payload_def sample_edge_def run_simps
      running_state_def reserved_state_def bound_state_def opened_state_def state_default_def
      convert_travel_def sample_running_def sample_arm_new put_reservation_def add_def
      checked_add_def moved_state_def)

lemma moved_step:
  "charge_travel json_lib line_codec no_faults ''r6'' ''t1'' sample_edge sample_audit started_journal =
     (Ok (), moved_journal)"
  "sample_at moved_journal moved_state
     {''receipt:r6'', ''receipt:r4'', ''receipt:r3'', ''receipt:r1'', ''receipt:r2''} 5"
proof -
  let ?p = "edge_payload json_lib ''t1'' sample_edge"
  from moved_applied have step: "apply_receipt json_lib (new_receipt ''r6'' seq ''transition'' ?p sample_audit None
      started_journal) running_state = Inr moved_state" for seq
    using sample_contract by (simp add: apply_receipt_new running_state_def note_window_def)
  have day: "highest_day moved_state = None \<or> highest_day moved_state = Some ''2026-01-02''"
    by (simp add: moved_state_def running_state_def reserved_state_def)
  note next_step = sample_next [OF started_step(2) _ step _ day refl]
  have check: "check_edge json_lib started_journal sample_edge = Inr ()"
    by (simp add: check_edge_def sample_edge_def)
  show "charge_travel json_lib line_codec no_faults ''r6'' ''t1'' sample_edge sample_audit
     started_journal = (Ok (), moved_journal)"
    using next_step(1)
    by (simp add: charge_travel_def moved_journal_def journal_append_def check)
  show "sample_at moved_journal moved_state
     {''receipt:r6'', ''receipt:r4'', ''receipt:r3'', ''receipt:r1'', ''receipt:r2''} 5"
    using next_step(2)
    by (simp add: charge_travel_def moved_journal_def journal_append_def check)
qed

definition released_journal :: "json journal" where
  "released_journal =
     snd (release_unstarted json_lib line_codec no_faults ''r4'' ''reservation:u1'' sample_audit
       reserved_journal)"

definition released_state :: "json state" where
  "released_state = reserved_state\<lparr>reservations := [(''reservation:u1'',
     (new_reservation json_lib sample_arm)\<lparr>released := True, travel_held := False\<rparr>)]\<rparr>"

lemma released_step:
  "release_unstarted json_lib line_codec no_faults ''r4'' ''reservation:u1'' sample_audit
     reserved_journal = (Ok (), released_journal)"
  "sample_at released_journal released_state
     {''receipt:r4'', ''receipt:r3'', ''receipt:r1'', ''receipt:r2''} 4"
proof -
  let ?p = "unstarted_payload json_lib ''reservation:u1''"
  have "apply_release json_lib ?p reserved_state = Inr released_state"
    by (simp add: apply_release_def find_reservation_def unstarted_payload_def run_simps
        reserved_state_def sample_arm_new put_reservation_def released_state_def)
  then have step: "apply_receipt json_lib (new_receipt ''r4'' seq ''release'' ?p sample_audit None
      reserved_journal) reserved_state = Inr released_state" for seq
    by (simp add: apply_receipt_new sample_contract note_window_def)
  have day: "highest_day released_state = None \<or> highest_day released_state = Some ''2026-01-02''"
    by (simp add: released_state_def reserved_state_def)
  note next_step = sample_next [OF reserved_step(2) _ step _ day refl]
  show "release_unstarted json_lib line_codec no_faults ''r4'' ''reservation:u1'' sample_audit
     reserved_journal = (Ok (), released_journal)"
    using next_step(1) by (simp add: release_unstarted_def released_journal_def journal_append_def)
  show "sample_at released_journal released_state
     {''receipt:r4'', ''receipt:r3'', ''receipt:r1'', ''receipt:r2''} 4"
    using next_step(2) by (simp add: release_unstarted_def released_journal_def journal_append_def)
qed

definition adjusted_journal :: "json journal" where
  "adjusted_journal =
     snd (journal_adjust json_lib line_codec no_faults ''r5'' 5 sample_audit started_journal)"

lemma adjusted_step:
  "journal_adjust json_lib line_codec no_faults ''r5'' 5 sample_audit started_journal =
     (Ok (), adjusted_journal)"
proof -
  let ?p = "adjust_payload json_lib Window (Lifetime 5) sample_audit"
  let ?s = "running_state\<lparr>contract_of := Some (Lifetime 5), audit_log := audit_log running_state @ [?p]\<rparr>"
  have k: "contract_of running_state = Some Window"
    using sample_contract by (simp add: running_state_def)
  have one: "lifetime_counter running_state = Inr \<lparr>consumed = 1, reserved = 0\<rparr>"
    by (simp add: lifetime_counter_def state_counter_def counter_step_def running_state_def
        sample_running_def sample_arm_new bm_values_def counter_default_def add_def checked_add_def)
  have "apply_adjust json_lib ?p running_state = Inr ?s"
    by (simp add: apply_adjust_def adjust_payload_def run_simps k one exposure_def add_def
        checked_add_def from_json_def to_json_def)
  then have step: "apply_receipt json_lib (new_receipt ''r5'' seq ''adjust'' ?p sample_audit None
      started_journal) running_state = Inr ?s" for seq
    using k by (simp add: apply_receipt_new note_window_def)
  have day: "highest_day ?s = None \<or> highest_day ?s = Some ''2026-01-02''"
    by (simp add: running_state_def reserved_state_def)
  have at: "j_state started_journal = running_state" "j_project started_journal = ''panta:ab''"
    "j_day started_journal = ''2026-01-02''"
    using started_step(2) by (simp_all add: sample_at_def)
  have "\<exists>snap. journal_snapshot json_lib started_journal = Inr snap \<and>
      lifetime_invocations snap = \<lparr>consumed = 1, reserved = 0\<rparr>"
    by (simp add: journal_snapshot_def at state_snapshot_def k one)
      (simp add: state_spend_def state_counter_def counter_step_def running_state_def spend_step_def
        sample_running_def sample_arm_new bm_values_def counter_default_def add_def checked_add_def
        spend_acc_default_def held_step_def reserved_state_def bound_state_def opened_state_def
        state_default_def run_simps applied_travel_def counter_or_default_def)
  then have check: "adjust_check json_lib 5 started_journal = Inr Window"
    by (auto simp: adjust_check_def journal_contract_def at k exposure_def add_def checked_add_def)
  note next_step = sample_next [OF started_step(2) _ step _ day refl]
  show ?thesis
    using next_step(1)
    by (simp add: journal_adjust_def check adjusted_journal_def journal_append_def)
qed

lemma settled_receipt: "\<exists>rc. apply_receipt json_lib rc running_state = Inr settled_state"
proof -
  from settled_step(1) obtain rc where
    "apply_receipt json_lib rc (j_state started_journal) = Inr (j_state settled_journal)"
    unfolding settle_spend_in_context_def by (rule journal_append_Ok)
  then show ?thesis using started_step(2) settled_step(2) by (auto simp: sample_at_def)
qed

lemma sample_replays:
  assumes "sample_at j s used n" and "0 < n"
  shows "\<exists>bs r. replay_chain json_lib line_codec ''panta:ab'' bs = Ok r \<and> r_state r = s"
proof -
  from assms obtain ls where ok: "journal_ok json_lib line_codec ls j"
    and at: "j_state j = s" "j_project j = ''panta:ab''" "j_receipts j \<noteq> []"
    by (auto simp: sample_at_def)
  then obtain r where r: "chain_fold json_lib line_codec ''panta:ab'' ls = Inr r" "r_state r = s"
    and lines: "\<forall>l \<in> set ls. newline \<notin> set l"
    by (auto simp: journal_ok_def)
  have "ls \<noteq> []" using journal_ok_first [OF ok] at(3) by auto
  from replay_chain_unlines [OF lines this, of json_lib line_codec "''panta:ab''"] r(1)
  have "replay_chain json_lib line_codec ''panta:ab'' (unlines ls) = Inr r" by simp
  with r(2) show ?thesis by (intro exI [of _ "unlines ls"] exI [of _ r]) simp
qed

end
