(* ===== verification/Ledger_Claims.thy ===== *)
theory Ledger_Claims
  imports Samples
begin

text \<open>
  The properties of the budget ledger, each with an example at which its hypotheses hold.
  Their proofs are the lemmas of the component theories.
\<close>

subsection \<open>Admission\<close>

text \<open>C1: A spawn that \<open>reserve\<close> admits leaves what it draws on within bounds: the invocations consumed
  and outstanding against the day or the lifetime allowance, the day's settled and reserved spend,
  and, where it takes the ticket's unit of travel, the ticket's applied and held travel. One that
  takes none, a retry, leaves every ticket's travel as it was, and no other ticket's ever changes.\<close>

theorem admission_within_bounds:
  assumes "json_laws L" and "journal_ok L C ls j" and "length (req_arms req) < 2 ^ 64"
    and "length uuids = length (req_arms req)"
    and "reserve L C fl fresh uuids W req b a j = (Ok g, j')"
  shows "within_bounds (j_state j') (j_day j)
      (if req_travel req then Some (req_ticket req) else None) b \<and>
    (\<forall>t. \<not> (req_travel req \<and> t = req_ticket req) \<longrightarrow>
       travel_of (j_state j') t = travel_of (j_state j) t \<and> held_count (j_state j') t = held_count (j_state j) t)"
proof -
  have ok: "state_ok L (j_state j)" by (rule journal_okD(5) [OF assms(2)])
  show ?thesis
    using json_laws.reserve_within [OF assms(1) ok assms(3-5)]
      json_laws.reserve_effect [OF assms(1) ok assms(5,4)] by simp
qed

theorem admission_within_bounds_witness:
  "within_bounds (j_state reserved_journal) (j_day bound_journal) (Some ''ticket:ab:c0'') sample_bounds \<and>
   held_count (j_state reserved_journal) ''ticket:ab:d1'' = held_count (j_state bound_journal) ''ticket:ab:d1''"
proof -
  from bound_facts(1) obtain ls where ok: "journal_ok json_lib line_codec ls bound_journal" by blast
  from sample_reserved obtain g where res: "reserve json_lib line_codec no_faults ''r3'' [''u1'']
      sample_world sample_request sample_bounds sample_audit bound_journal = (Ok g, reserved_journal)"
    by blast
  have "length (req_arms sample_request) < 2 ^ 64" and "length [''u1''] = length (req_arms sample_request)"
    by (simp_all add: sample_request_def)
  from admission_within_bounds [OF js.json_laws_axioms ok this res]
  show ?thesis by (simp add: sample_request_def)
qed

text \<open>C2: Inspection and replay agree but for what replay alone asks of a request: where \<open>preview\<close> allows
  it, and the caller brings fresh identities, a valid audit and working files, \<open>reserve\<close> succeeds,
  recording the ancestry that was decided, exactly when the ticket is one of this project, the day is
  not empty and money is reserved in a named currency; else it is refused and nothing is written.\<close>

theorem preview_admits_reserve:
  assumes "json_laws L" and "journal_ok L C ls j" and "preview L W j req b = Inr anc"
    and "able_to_reserve L C j req uuids a"
  shows "if recordable L j req
    then \<exists>g j'. reserve L C no_faults fresh uuids W req b a j = (Ok g, j') \<and>
      group_ancestry g = anc \<and> reservation_ids g = reservation_names uuids
    else \<exists>e. reserve L C no_faults fresh uuids W req b a j = (Err e, j)"
proof (cases "recordable L j req")
  case True
  then have "ready_to_reserve L C j req uuids a" using assms(4) by (simp add: ready_to_reserve_def)
  from json_laws.reserve_accepted [OF assms(1-3) this] True show ?thesis by simp
next
  case False
  have "length uuids = length (req_arms req)" using assms(4) by (simp add: able_to_reserve_def)
  from json_laws.reserve_refused [OF assms(1,3) this False] False show ?thesis by simp
qed

theorem preview_admits_reserve_witness:
  "\<exists>g j'. reserve json_lib line_codec no_faults ''r3'' [''u1''] sample_world sample_request
     sample_bounds sample_audit bound_journal = (Ok g, j') \<and> group_ancestry g = Unclaimed \<and>
     reservation_ids g = reservation_names [''u1'']"
proof -
  from bound_facts(1) obtain ls where "journal_ok json_lib line_codec ls bound_journal" by blast
  from preview_admits_reserve [OF js.json_laws_axioms this sample_preview, where uuids = "[''u1'']" and a = sample_audit and fresh = "''r3''"]
    sample_ready
  show ?thesis by (simp add: ready_to_reserve_def)
qed

subsection \<open>The journal\<close>

text \<open>C3: A receipt that was appended is durable and verifiable: the journal file is the old
  bytes and one more line, and the chain verifier replays that file to exactly the state,
  the receipts and the last hash the transaction holds in memory.\<close>

theorem append_replays:
  assumes "codec_laws C" and "journal_ok L C ls j"
    and "''receipt:'' @ fresh \<notin> receipt_id ` set (j_receipts j)"
    and "append_in_window L C fl fresh k p a w j = (Ok (), j')"
  shows "\<exists>line r. journal_file (j_files j') = Some (unlines (ls @ [line])) \<and>
    replay_chain L C (j_project j) (unlines (ls @ [line])) = Ok r \<and> r_state r = j_state j' \<and>
    r_receipts r = j_receipts j' \<and> r_last_hash r = j_last_hash j'"
proof -
  from codec_laws.append_keeps [OF assms] obtain line where
    ok: "journal_ok L C (ls @ [line]) j'" and journal: "journal_file (j_files j') = Some (unlines (ls @ [line]))"
    and project: "j_project j' = j_project j" by blast
  from ok project obtain r where "chain_fold L C (j_project j) (ls @ [line]) = Inr r"
    and r: "r_state r = j_state j'" "r_receipts r = j_receipts j'" "r_last_hash r = j_last_hash j'"
    and lines: "\<forall>l \<in> set (ls @ [line]). newline \<notin> set l"
    by (auto simp: journal_ok_def)
  with replay_chain_unlines [OF lines, of L C "j_project j"] have
    "replay_chain L C (j_project j) (unlines (ls @ [line])) = Inr r" by simp
  with journal r show ?thesis by blast
qed

theorem append_replays_witness:
  "\<exists>line r. journal_file (j_files opened_journal) = Some (unlines ([] @ [line])) \<and>
    replay_chain json_lib line_codec (j_project empty_journal) (unlines ([] @ [line])) = Ok r \<and>
    r_state r = j_state opened_journal \<and> r_receipts r = j_receipts opened_journal \<and>
    r_last_hash r = j_last_hash opened_journal"
  by (rule append_replays [OF lc.codec_laws_axioms empty_ok fresh_in_empty opened_appended])

text \<open>C4: Whatever the file system does during an append that fails - an open refused, a write cut
  short at any byte, a failed sync, a cut back that fails or is not synced - the state in memory
  is unchanged, the journal still begins with every receipt it held and is a prefix of the
  witness, so no receipt is lost and none is invented; where the cuts work, both files are as
  they were.\<close>

theorem failed_append_loses_nothing:
  assumes "journal_ok L C ls j"
    and "append_in_window L C fl fresh k p a w j = (Err e, j')"
  shows "j_state j' = j_state j \<and> j_receipts j' = j_receipts j \<and>
    prefix (unlines ls) (bytes_in (journal_file (j_files j'))) \<and>
    prefix (bytes_in (journal_file (j_files j'))) (bytes_in (witness_file (authority_of (j_files j')))) \<and>
    (cuts_work fl \<longrightarrow> journal_ok L C ls j' \<and>
       journal_file (j_files j') = journal_file (j_files j))"
  using append_Err [OF assms(2)] append_prefixes [OF assms] append_refused [OF assms] by blast

theorem failed_append_loses_nothing_witness:
  "\<exists>e j'. append_in_window json_lib line_codec (no_faults\<lparr>j_stop := Some 3, j_cut := Cut_failed\<rparr>) ''r1''
     ''initialize'' sample_initialize sample_audit None empty_journal = (Err e, j') \<and>
   prefix (bytes_in (journal_file (j_files j'))) (bytes_in (witness_file (authority_of (j_files j'))))"
proof -
  from sample_torn obtain e j' where torn: "append_in_window json_lib line_codec
      (no_faults\<lparr>j_stop := Some 3, j_cut := Cut_failed\<rparr>) ''r1'' ''initialize'' sample_initialize
      sample_audit None empty_journal = (Err e, j')" by blast
  from failed_append_loses_nothing [OF empty_ok this] torn show ?thesis by blast
qed

text \<open>C7: A journal the verifier takes is a linked chain under one project: receipt \<open>i\<close> carries
  sequence \<open>i + 1\<close> and the hash of the bytes of the line before it, no identity repeats, and
  the state is the fold of the receipts' effects from the empty state.\<close>

theorem verified_chain_is_linked:
  assumes "replay_chain L C project bs = Ok r"
  shows "\<exists>ls. bs = unlines ls \<and> linked C project ls (r_receipts r) \<and>
    try_fold (apply_receipt L) (r_receipts r) state_default = Ok (r_state r)"
proof -
  from replay_chain_lines [OF assms] obtain ls where
    "bs = unlines ls" "chain_fold L C project ls = Inr r" by blast
  with chain_fold_inv [of L C project ls r] show ?thesis by (auto simp: chain_inv_def)
qed

theorem verified_chain_is_linked_witness:
  "\<exists>ls (r :: json replayed). linked line_codec ''panta:ab'' ls (r_receipts r) \<and> length (r_receipts r) = 1"
proof -
  from sample_chain obtain bs r where r: "replay_chain json_lib line_codec ''panta:ab'' bs = Ok r"
    and len: "length (r_receipts r) = 1" by blast
  from verified_chain_is_linked [OF r] obtain ls where
    "linked line_codec ''panta:ab'' ls (r_receipts r)" by blast
  with len show ?thesis by (intro exI [of _ ls] exI [of _ r]) simp
qed

subsection \<open>Replay\<close>

text \<open>C5: Whatever chain was replayed, a parent's live descendants never outnumber the envelope
  it was admitted with, every reservation that names a parent names one that started and was
  never released, and no reservation is both started and released.\<close>

theorem replay_keeps_envelopes:
  assumes "replay_chain L C project bs = Ok r" and "bm_get (reservations (r_state r)) rid = Some x"
  shows "drawn_count L (r_state r) rid \<le> envelope_of L x \<and> \<not> (started x \<and> released x) \<and>
    (parent_of L x \<noteq> None \<longrightarrow>
      (\<exists>q. bm_get (reservations (r_state r)) (the (parent_of L x)) = Some q \<and> started q \<and>
        \<not> released q))"
proof -
  from replay_chain_ok(1) [OF assms(1)]
  have "books_ok L (reservations (r_state r)) (attempts (r_state r))" by (simp add: state_ok_def)
  then have "bm_sum (draws L rid) (reservations (r_state r)) \<le> envelope_bound L (reservations (r_state r)) rid"
    and "each_ok L (reservations (r_state r)) (attempts (r_state r))"
    by (simp_all add: books_ok_def envelopes_ok_def)
  with assms(2) show ?thesis
    by (auto simp: drawn_count_def envelope_bound_def each_ok_def reservation_ok_def outstanding_at_def)
qed

theorem replay_keeps_envelopes_witness:
  "\<exists>bs r. replay_chain json_lib line_codec ''panta:ab'' bs = Ok r \<and>
     drawn_count json_lib (r_state r) ''reservation:u1'' \<le> envelope_of json_lib sample_running"
proof -
  from sample_replays [OF started_step(2)] obtain bs r where
    r: "replay_chain json_lib line_codec ''panta:ab'' bs = Ok r" "r_state r = running_state" by auto
  then have "bm_get (reservations (r_state r)) ''reservation:u1'' = Some sample_running"
    by (simp add: running_state_def)
  from replay_keeps_envelopes [OF r(1) this] r(1) show ?thesis by blast
qed

text \<open>A ticket's travel is the number of distinct applied edges the chain holds for it, and a
  reservation marked with an edge is the one that edge's receipt names, for the same ticket.\<close>

theorem travel_counts_edges:
  assumes "replay_chain L C project bs = Ok r"
  shows "travel_of (r_state r) tkt = edges L (transitions (r_state r)) tkt \<and>
    links_ok L (reservations (r_state r)) (transitions (r_state r))"
  using replay_chain_ok(1) [OF assms] by (simp add: state_ok_def)

theorem travel_counts_edges_witness:
  "\<exists>r :: json replayed. travel_of (r_state r) ''ticket:ab:c0'' = 1 \<and>
     edges json_lib (transitions (r_state r)) ''ticket:ab:c0'' = 1"
proof -
  from sample_replays [OF moved_step(2)] obtain bs r where
    r: "replay_chain json_lib line_codec ''panta:ab'' bs = Ok r" "r_state r = moved_state" by auto
  have "travel_of (r_state r) ''ticket:ab:c0'' = 1"
    using r(2) by (simp add: moved_state_def travel_of_def)
  with travel_counts_edges [OF r(1), of "''ticket:ab:c0''"] show ?thesis by metis
qed

text \<open>C6: A started invocation is never given back. Whatever receipts follow, its reservation stays
  started and unreleased, every release that claims it never started is refused, and no day's
  consumed count falls.\<close>

theorem started_is_never_refunded:
  assumes "journal_ok L C ls j" and "bm_get (reservations (j_state j)) rid = Some r" and "started r"
    and "try_fold (apply_receipt L) rcs (j_state j) = Ok s"
  shows "(\<exists>r'. bm_get (reservations s) rid = Some r' \<and> started r' \<and> \<not> released r' \<and> evolves r r') \<and>
    (\<forall>p \<in> {p. vstr_at L p ''reservation_id'' = Some rid \<and> vbool_at L p ''travel_only'' \<noteq> Some True}.
       \<exists>e. apply_release L p s = Err e) \<and>
    (\<forall>d. consumed_count (j_state j) d \<le> consumed_count s d)"
proof -
  note ok = journal_okD(5) [OF assms(1)]
  have le: "state_le (j_state j) s" by (rule chain_le.loop_rel [OF assms(4)])
  have ok': "state_ok L s" by (rule chain_inv.loop_keeps [OF ok assms(4)])
  from le assms(2) obtain r' where r': "bm_get (reservations s) rid = Some r'" "evolves r r'"
    unfolding state_le_def reservations_le_def by blast
  have st: "started r'" using r'(2) assms(3) by (simp add: evolves_def)
  moreover have "\<not> released r'"
    using state_ok_reservation [OF ok' r'(1)] st by (simp add: reservation_ok_def)
  moreover have "\<exists>e. apply_release L p s = Err e"
    if "vstr_at L p ''reservation_id'' = Some rid" "vbool_at L p ''travel_only'' \<noteq> Some True" for p
    using that r'(1) st by (simp add: apply_release_def find_reservation_def req_string_def)
  ultimately show ?thesis
    using r' consumed_count_mono [OF le ok ok'] by blast
qed

theorem started_is_never_refunded_witness:
  "consumed_count (j_state started_journal) None \<le> consumed_count settled_state None"
proof -
  from started_step(2) obtain ls where "journal_ok json_lib line_codec ls started_journal"
    and st: "j_state started_journal = running_state" by (auto simp: sample_at_def)
  moreover have "bm_get (reservations (j_state started_journal)) ''reservation:u1'' = Some sample_running"
    by (simp add: st running_state_def)
  moreover have "started sample_running" by (simp add: sample_running_def)
  moreover from settled_receipt obtain rc where
    "try_fold (apply_receipt json_lib) [rc] (j_state started_journal) = Ok settled_state"
    by (auto simp: st res_simps)
  ultimately show ?thesis using started_is_never_refunded by blast
qed

text \<open>C8: The two numbers of an invocation counter are counts of reservations, of the day or of the
  whole life: consumed are the started ones, outstanding those neither started nor released.
  They are computed whenever they fit in 64 bits, and never wrapped.\<close>

theorem counter_is_exact:
  assumes "consumed_count s day + outstanding_count s day < 2 ^ 64"
  shows "\<exists>c. state_counter s day = Ok c \<and> unat (consumed c) = consumed_count s day \<and>
    unat (reserved c) = outstanding_count s day"
  using state_counter_total [OF assms] state_counter_Ok by blast

theorem counter_is_exact_witness:
  "\<exists>c. state_counter running_state None = Ok c \<and> unat (consumed c) = 1 \<and> unat (reserved c) = 0"
proof -
  have "consumed_count running_state None = 1" "outstanding_count running_state None = 0"
    by (simp_all add: consumed_count_def outstanding_count_def running_state_def consumes_def
        holds_def sample_running_def sample_arm_new in_day_def)
  with counter_is_exact [of running_state None] show ?thesis by simp
qed

text \<open>C9: The day's spend is exact: what was settled is the sum of the settles of the day's
  unreleased reservations, what is held is the sum of the reserves not yet settled, the
  unpriced and unmeasurable marks count the settles on those bases, and the details add up to
  the unpriced mark. Only reservations that reserved money count.\<close>

theorem day_spend_is_exact:
  assumes "bm_sum (spend_load day) (reservations s) < 2 ^ 64"
  shows "\<exists>c marks roots details. state_spend L s day = Ok (c, marks, roots, details) \<and>
    unat (consumed c) = bm_sum (spend_settled day) (reservations s) \<and>
    unat (reserved c) = bm_sum (spend_held day) (reservations s) \<and>
    unat (unpriced marks) = bm_sum (settled_with Unpriced day) (reservations s) \<and>
    unat (unmeasurable marks) = bm_sum (settled_with Unmeasurable day) (reservations s) \<and>
    sum_list (map (unat \<circ> detail_count) details) = unat (unpriced marks)"
proof -
  from state_spend_total [OF assms] obtain c marks roots details where
    d: "state_spend L s day = Inr (c, marks, roots, details)" by (metis prod_cases4)
  from state_spend_Ok [OF d] d show ?thesis by blast
qed

theorem day_spend_is_exact_witness:
  "\<exists>c marks roots details.
     state_spend json_lib settled_state ''2026-01-02'' = Ok (c, marks, roots, details) \<and>
     unat (consumed c) = 7 \<and> unat (reserved c) = 0"
proof -
  have settled: "bm_sum (spend_settled ''2026-01-02'') (reservations settled_state) = 7"
    and held: "bm_sum (spend_held ''2026-01-02'') (reservations settled_state) = 0"
    and load: "bm_sum (spend_load ''2026-01-02'') (reservations settled_state) < 2 ^ 64"
    by (simp_all add: settled_state_def spend_settled_def spend_held_def spend_load_def
        spend_counts_def settled_with_def sample_running_def sample_arm_new)
  from day_spend_is_exact [OF load, of json_lib] settled held show ?thesis by auto
qed

end
