(* ===== verification/Ledger_History.thy ===== *)
theory Ledger_History
  imports Samples
begin

text \<open>
  What receipts do to the numbers once a reservation exists: settles, travel charges,
  recovery, adjustments and the repetition of a receipt, with the properties of the ledger's
  history and an example of each.
\<close>

subsection \<open>A receipt taken twice\<close>

lemma bm_insert_again [simp]: "bm_ok m \<Longrightarrow> bm_insert k v (bm_insert k w m) = bm_insert k v m"
proof (induction k w m rule: bm_insert.induct)
  case (2 k w l u m)
  then show ?case by (cases "k < l"; cases "k = l") (auto simp: bm_ok_Cons)
qed simp

lemma put_reservation_again:
  "bm_ok (reservations s) \<Longrightarrow> put_reservation rid r (put_reservation rid r s) = put_reservation rid r s"
  by (simp add: put_reservation_def)

lemma start_again:
  assumes ok: "bm_ok (reservations s)" and a: "apply_start L p s = Inr s'"
  shows "apply_start L p s' = Inr s'"
proof -
  from a obtain rid r status where r: "find_reservation L s p = Inr (rid, r)" "\<not> released r"
    and status: "req_string L p ''status'' = Inr status" "status = ''confirmed'' \<or> status = ''ambiguous''"
    and s': "s' = put_reservation rid (r\<lparr>started := True\<rparr>) s"
    by (auto simp: apply_start_def res_simps split: if_splits)
  have "find_reservation L s' p = Inr (rid, r\<lparr>started := True\<rparr>)"
    using r(1) by (simp add: find_reservation_Ok s' put_reservation_def)
  with r(2) status put_reservation_again [OF ok, of rid "r\<lparr>started := True\<rparr>"]
  show ?thesis by (auto simp: apply_start_def s')
qed

lemma fix_currency_again: "fix_currency c s = Inr s' \<Longrightarrow> fix_currency c s' = Inr s'"
  by (auto simp: fix_currency_def split: option.splits if_splits)

lemma fix_currency_same: "fix_currency c s = Inr s \<longleftrightarrow> currency s = Some c"
  by (cases s) (auto simp: fix_currency_def split: option.splits if_splits)

lemma fix_currency_put [simp]:
  "fix_currency c s = Inr s \<Longrightarrow> fix_currency c (put_reservation rid r s) = Inr (put_reservation rid r s)"
  by (simp only: fix_currency_same) (simp add: put_reservation_def)

lemma spend_again:
  assumes "apply_spend L p s = Inr s'"
  shows "apply_spend L p s' = Inr s'"
proof -
  from assms obtain c written basis amount s1 rid r where
    c: "req_string L p ''currency'' = Inr c" and b: "req_string L p ''basis'' = Inr written"
      "basis_parse written = Some basis" and n: "req_number L p ''amount_micro'' = Inr amount"
    and s1: "fix_currency c s = Inr s1" and r: "find_reservation L s1 p = Inr (rid, r)"
    and s': "(case settled r of
       Some (_, _, previous) \<Rightarrow>
         if previous = p then Ok s1
         else Err (corrupt ''conflicting spend settle for one reservation'')
     | None \<Rightarrow>
         if released r then Err (corrupt ''a released reservation spent nothing'')
         else Ok (put_reservation rid (r\<lparr>settled := Some (amount, basis, p)\<rparr>) s1)) = Inr s'"
    unfolding apply_spend_def by (auto simp: res_simps)
  note fixed = fix_currency_again [OF s1]
  show ?thesis
  proof (cases "settled r")
    case None
    with s' have s': "s' = put_reservation rid (r\<lparr>settled := Some (amount, basis, p)\<rparr>) s1"
      by (auto split: if_splits)
    have "find_reservation L s' p = Inr (rid, r\<lparr>settled := Some (amount, basis, p)\<rparr>)"
      using r by (simp add: find_reservation_Ok s' put_reservation_def)
    with c b n fixed show ?thesis by (simp add: apply_spend_def s')
  next
    case (Some x)
    then obtain a d q where x: "settled r = Some (a, d, q)" by (cases x) auto
    with s' have "q = p" "s' = s1" by (auto split: if_splits)
    with c b n fixed r x show ?thesis by (simp add: apply_spend_def)
  qed
qed

lemma transition_again:
  assumes "apply_transition L p s = Inr s'"
  shows "apply_transition L p s' = Inr s'"
proof -
  from apply_transition_Ok [OF assms] obtain x where
    x: "vstr_at L p ''transition_receipt_id'' = Some x" and "bm_get (transitions s') x = Some p"
    by auto
  moreover have "starts_with x ''transition:''" "req_string L p ''transition_receipt_id'' = Inr x"
    using assms x by (auto simp: apply_transition_def res_simps req_string_Ok split: if_splits)
  ultimately show ?thesis by (simp add: apply_transition_def)
qed

subsection \<open>What a settle changes\<close>

context json_laws
begin

lemma spend_payload_reads:
  "vstr_at L (spend_payload L rid amount c b ctx) ''reservation_id'' = Some rid"
  "vstr_at L (spend_payload L rid amount c b ctx) ''currency'' = Some c"
  "vstr_at L (spend_payload L rid amount c b ctx) ''basis'' = Some (basis_as_str b)"
  "vu64_at L (spend_payload L rid amount c b ctx) ''amount_micro'' = Some amount"
  by (auto simp: spend_payload_def Let_def obj_reads str_at_set u64_at_set split: spend_basis.splits option.splits)

lemma settle_money:
  assumes ok: "state_ok L (j_state j)"
    and res: "settle_spend_in_context L C fl fresh rid amount c b ctx a j = (Ok (), j')"
    and r: "bm_get (reservations (j_state j)) rid = Some r" and new: "settled r = None"
  shows "bm_sum (spend_settled d) (reservations (j_state j')) =
      bm_sum (spend_settled d) (reservations (j_state j)) + (if spend_counts d r then unat amount else 0)"
    and "bm_sum (spend_held d) (reservations (j_state j')) + spend_held d r =
      bm_sum (spend_held d) (reservations (j_state j))"
proof -
  let ?p = "spend_payload L rid amount c b ctx"
  from res obtain rc where rc: "kind rc = ''spend''" "receipt_payload rc = ?p"
    and ap: "apply_receipt L rc (j_state j) = Inr (j_state j')"
    unfolding settle_spend_in_context_def by (rule journal_append_Ok)
  have "apply_spend L ?p (note_window (receipt_window rc) (j_state j)) = Inr (j_state j')"
    using apply_receipt_kinds(4) [OF ap rc(1)] rc(2) by simp
  then obtain s1 where s1: "fix_currency c (note_window (receipt_window rc) (j_state j)) = Inr s1"
    and s': "j_state j' = put_reservation rid (r\<lparr>settled := Some (amount, b, ?p)\<rparr>) s1"
    using r new by (auto simp: apply_spend_def res_simps req_string_Ok req_number_Ok
        find_reservation_Ok fix_currency_Ok spend_payload_reads split: if_splits)
  have keep: "reservations s1 = reservations (j_state j)"
    using s1 by (auto simp: fix_currency_Ok note_window_def split: option.splits)
  have m: "bm_ok (reservations (j_state j))" using ok by (simp add: state_ok_def books_ok_def)
  have day: "spend_counts d (r\<lparr>settled := x\<rparr>) = spend_counts d r" for x
    by (simp add: spend_counts_def)
  show "bm_sum (spend_settled d) (reservations (j_state j')) =
      bm_sum (spend_settled d) (reservations (j_state j)) + (if spend_counts d r then unat amount else 0)"
    using bm.total_update [OF m r, of "spend_settled d" "r\<lparr>settled := Some (amount, b, ?p)\<rparr>"] new
    by (simp add: s' put_reservation_def keep spend_settled_def day split: if_splits)
  show "bm_sum (spend_held d) (reservations (j_state j')) + spend_held d r =
      bm_sum (spend_held d) (reservations (j_state j))"
    using bm.total_update [OF m r, of "spend_held d" "r\<lparr>settled := Some (amount, b, ?p)\<rparr>"]
    by (simp add: s' put_reservation_def keep spend_held_def)
qed

end

subsection \<open>Adjusting the contract\<close>

lemma lifetime_counter_Ok:
  "lifetime_counter s = Inr c \<Longrightarrow>
   unat (consumed c) = consumed_count s None \<and> unat (reserved c) = outstanding_count s None"
  using state_counter_Ok [of s None c] by (simp add: lifetime_counter_def)

lemma adjust_below:
  assumes "unat allowed < consumed_count (j_state j) None + outstanding_count (j_state j) None"
  shows "\<exists>e. journal_adjust L C fl fresh allowed a j = (Err e, j)"
proof (cases "adjust_check L allowed j")
  case (Inl e)
  then show ?thesis by (simp add: journal_adjust_def)
next
  case (Inr before)
  then obtain snap spent where "journal_snapshot L j = Inr snap"
    and "exposure (lifetime_invocations snap) = Inr spent" and "\<not> allowed < spent"
    by (auto simp: adjust_check_def res_simps split: if_splits)
  then have "lifetime_counter (j_state j) = Inr (lifetime_invocations snap)"
    and "unat spent = unat (consumed (lifetime_invocations snap)) + unat (reserved (lifetime_invocations snap))"
    and "unat spent \<le> unat allowed"
    by (simp_all add: journal_snapshot_def state_snapshot_Ok(3) exposure_Ok word_to_nat not_less)
  then show ?thesis using lifetime_counter_Ok assms by fastforce
qed

context json_laws
begin

lemma adjust_effect:
  assumes "journal_adjust L C fl fresh allowed a j = (Ok (), j')"
  shows "contract_of (j_state j') = Some (Lifetime allowed) \<and> counts_same (j_state j) (j_state j') \<and>
    consumed_count (j_state j') None + outstanding_count (j_state j') None \<le> unat allowed"
proof -
  from assms obtain before where check: "adjust_check L allowed j = Inr before"
    and app: "journal_append L C fl fresh ''adjust'' (adjust_payload L before (Lifetime allowed) a) a j =
      (Ok (), j')"
    by (auto simp: journal_adjust_def split: sum.splits)
  let ?p = "adjust_payload L before (Lifetime allowed) a"
  from app obtain rc where rc: "kind rc = ''adjust''" "receipt_payload rc = ?p"
    and ap: "apply_receipt L rc (j_state j) = Inr (j_state j')"
    by (rule journal_append_Ok)
  define s where "s = note_window (receipt_window rc) (j_state j)"
  have "apply_adjust L ?p s = Inr (j_state j')"
    using apply_receipt_kinds(5) [OF ap rc(1)] rc(2) by (simp add: s_def)
  moreover have "allowed \<noteq> 0" using check by (auto simp: adjust_check_def split: if_splits)
  then have "from_json L (vindex L ?p ''new'') = Inr (Lifetime allowed)"
    by (simp add: adjust_payload_def index_obj from_to_json)
  ultimately obtain k spent where "lifetime_counter s = Inr k" "exposure k = Inr spent"
    and "\<not> allowed < spent"
    and s': "j_state j' = s\<lparr>contract_of := Some (Lifetime allowed), audit_log := audit_log s @ [?p]\<rparr>"
    by (auto dest!: apply_adjust_Ok)
  then have "consumed_count s None + outstanding_count s None \<le> unat allowed"
    using lifetime_counter_Ok [of s k] by (simp add: exposure_Ok word_to_nat not_less)
  moreover have counts: "consumed_count (j_state j') None = consumed_count s None"
    "outstanding_count (j_state j') None = outstanding_count s None"
    by (simp_all add: s' consumed_count_def outstanding_count_def)
  moreover have "counts_same s (j_state j')"
    by (simp add: s' counts_same_def consumed_count_def outstanding_count_def travel_of_def held_count_def)
  then have "counts_same (j_state j) (j_state j')" by (simp only: s_def counts_same_note)
  moreover have "contract_of (j_state j') = Some (Lifetime allowed)" by (simp add: s')
  ultimately show ?thesis by simp
qed

end

subsection \<open>The properties\<close>

text \<open>A settle moves money and no count: every invocation count and every travel number is
  what it was; a first settle adds the amount to its day's settled spend and takes the
  reservation's reserve out of the held spend, and touches no other day.\<close>

theorem settle_moves_only_money:
  assumes "json_laws L" and "journal_ok L C ls j"
    and "settle_spend_in_context L C fl fresh rid amount c b ctx a j = (Ok (), j')"
    and "bm_get (reservations (j_state j)) rid = Some r" and "settled r = None"
  shows "counts_same (j_state j) (j_state j') \<and>
    bm_sum (spend_settled d) (reservations (j_state j')) =
      bm_sum (spend_settled d) (reservations (j_state j)) + (if spend_counts d r then unat amount else 0) \<and>
    bm_sum (spend_held d) (reservations (j_state j')) + spend_held d r =
      bm_sum (spend_held d) (reservations (j_state j))"
  using settle_counts [OF journal_okD(5) [OF assms(2)] assms(3)]
    json_laws.settle_money [OF assms(1) journal_okD(5) [OF assms(2)] assms(3-5)] by blast

theorem settle_moves_only_money_witness:
  "bm_sum (spend_settled ''2026-01-02'') (reservations (j_state settled_journal)) = 7"
proof -
  from started_step(2) obtain ls where ok: "journal_ok json_lib line_codec ls started_journal"
    and st: "j_state started_journal = running_state" by (auto simp: sample_at_def)
  have get: "bm_get (reservations (j_state started_journal)) ''reservation:u1'' = Some sample_running"
    by (simp add: st running_state_def)
  have new: "settled sample_running = None" by (simp add: sample_running_def sample_arm_new)
  from settle_moves_only_money [OF js.json_laws_axioms ok settled_step(1) get new, of "''2026-01-02''"]
  show ?thesis
    by (simp add: st running_state_def spend_settled_def spend_counts_def sample_running_def
        sample_arm_new)
qed

text \<open>An applied edge costs its ticket exactly one unit of travel. Converting the unit a
  reservation held leaves applied plus held travel as it was; a standalone charge leaves it
  within the edge's limit, so no ticket moves for free or past its bound.\<close>

theorem charge_travel_within_bound:
  assumes "json_laws L" and "journal_ok L C ls j"
    and "bm_get (transitions (j_state j)) (''transition:'' @ u) = None"
    and "charge_travel L C fl fresh u e a j = (Ok (), j')"
  shows "travel_of (j_state j') (edge_ticket e) = travel_of (j_state j) (edge_ticket e) + 1 \<and>
    (edge_reservation e = None \<longrightarrow>
      travel_of (j_state j') (edge_ticket e) + held_count (j_state j') (edge_ticket e) \<le>
      unat (edge_limit e)) \<and>
    (edge_reservation e \<noteq> None \<longrightarrow>
      travel_of (j_state j') (edge_ticket e) + held_count (j_state j') (edge_ticket e) =
      travel_of (j_state j) (edge_ticket e) + held_count (j_state j) (edge_ticket e))"
  using json_laws.charge_counts [OF assms(1) journal_okD(5) [OF assms(2)] assms(3,4)] by blast

theorem charge_travel_within_bound_witness:
  "travel_of (j_state moved_journal) ''ticket:ab:c0'' = 1"
proof -
  from started_step(2) obtain ls where ok: "journal_ok json_lib line_codec ls started_journal"
    and st: "j_state started_journal = running_state" by (auto simp: sample_at_def)
  have empty: "transitions running_state = []" "travel running_state = []"
    by (simp_all add: running_state_def reserved_state_def bound_state_def opened_state_def
        state_default_def)
  then have "bm_get (transitions (j_state started_journal)) (''transition:'' @ ''t1'') = None"
    by (simp add: st)
  from charge_travel_within_bound [OF js.json_laws_axioms ok this moved_step(1)] show ?thesis
    by (simp add: st empty travel_of_def sample_edge_def)
qed

text \<open>A receipt replayed twice is taken once: repeating a start, a settle or an applied edge
  on the state it produced is accepted and leaves that state as it is.\<close>

theorem replayed_receipts_are_idempotent:
  assumes "state_ok L s"
  shows "(\<forall>s'. apply_start L p s = Ok s' \<longrightarrow> apply_start L p s' = Ok s') \<and>
    (\<forall>s'. apply_spend L p s = Ok s' \<longrightarrow> apply_spend L p s' = Ok s') \<and>
    (\<forall>s'. apply_transition L p s = Ok s' \<longrightarrow> apply_transition L p s' = Ok s')"
  using start_again spend_again transition_again assms
  by (fastforce simp: state_ok_def books_ok_def)

theorem replayed_receipts_are_idempotent_witness:
  "\<exists>p. apply_transition json_lib p moved_state = Ok moved_state"
proof -
  let ?p = "edge_payload json_lib ''t1'' sample_edge"
  from started_step(2) obtain ls where ok: "journal_ok json_lib line_codec ls started_journal"
    and st: "j_state started_journal = running_state" by (auto simp: sample_at_def)
  have "state_ok json_lib running_state" using journal_okD(5) [OF ok] st by simp
  from replayed_receipts_are_idempotent [OF this] moved_applied show ?thesis by blast
qed

text \<open>Recovery gives back exactly what no process could have used: \<open>release_abandoned\<close> releases
  every unstarted reservation of a run that is gone, reports how many they were, leaves every
  other reservation as it is and lowers no consumed count.\<close>

theorem recovery_releases_only_unstarted:
  assumes "json_laws L" and "journal_ok L C ls j"
    and "release_abandoned L C calls gone a j = (Ok n, j')"
  shows "n = length (abandoned L gone j) \<and>
    (\<forall>rid \<in> set (abandoned L gone j).
       (\<exists>r. bm_get (reservations (j_state j)) rid = Some r \<and> \<not> started r \<and> \<not> released r) \<and>
       (\<exists>r. bm_get (reservations (j_state j')) rid = Some r \<and> released r \<and> \<not> started r)) \<and>
    (\<forall>rid. rid \<notin> set (abandoned L gone j) \<longrightarrow>
       bm_get (reservations (j_state j')) rid = bm_get (reservations (j_state j)) rid) \<and>
    (\<forall>d. consumed_count (j_state j') d = consumed_count (j_state j) d)"
proof -
  have "bm_ok (reservations (j_state j))"
    using journal_okD(5) [OF assms(2)] by (simp add: state_ok_def books_ok_def)
  from json_laws.release_abandoned_effect [OF assms(1) this assms(3)] show ?thesis .
qed

theorem recovery_releases_only_unstarted_witness:
  "\<exists>r. bm_get (reservations (j_state released_journal)) ''reservation:u1'' = Some r \<and> released r"
proof -
  from reserved_step(2) obtain ls where ok: "journal_ok json_lib line_codec ls reserved_journal"
    and st: "j_state reserved_journal = reserved_state" by (auto simp: sample_at_def)
  have "vstr_at json_lib sample_arm ''execution_root'' = Some ''/p/run''"
    using sample_arm_reads by (simp add: sample_request_def)
  then have ab: "abandoned json_lib (\<lambda>root. root = ''/p/run'') reserved_journal = [''reservation:u1'']"
    by (simp add: abandoned_def st reserved_state_def sample_arm_new)
  from released_step(1) have "release_abandoned json_lib line_codec (\<lambda>_. (no_faults, ''r4''))
      (\<lambda>root. root = ''/p/run'') sample_audit reserved_journal = (Ok 1, released_journal)"
    by (simp add: release_abandoned_def ab)
  from recovery_releases_only_unstarted [OF js.json_laws_axioms ok this] ab show ?thesis by auto
qed

text \<open>An adjustment that is taken puts the lifetime contract in force, changes no count, and never
  below what was already consumed or is outstanding; a request below that is refused and the
  journal is untouched.\<close>

theorem adjust_keeps_floor:
  assumes "json_laws L" and "journal_ok L C ls j"
  shows "(\<forall>j'. journal_adjust L C fl fresh allowed a j = (Ok (), j') \<longrightarrow>
      contract_of (j_state j') = Some (Lifetime allowed) \<and> counts_same (j_state j) (j_state j') \<and>
      consumed_count (j_state j') None + outstanding_count (j_state j') None \<le> unat allowed) \<and>
    (unat allowed < consumed_count (j_state j) None + outstanding_count (j_state j) None \<longrightarrow>
      (\<exists>e. journal_adjust L C fl fresh allowed a j = (Err e, j)))"
proof -
  note effect = json_laws.adjust_effect [OF assms(1)]
  show ?thesis using effect [of C fl fresh allowed a j] adjust_below [of allowed j L C fl fresh a] by blast
qed

theorem adjust_keeps_floor_witness:
  "contract_of (j_state adjusted_journal) = Some (Lifetime 5)"
proof -
  from started_step(2) obtain ls where ok: "journal_ok json_lib line_codec ls started_journal"
    by (auto simp: sample_at_def)
  from adjust_keeps_floor [OF js.json_laws_axioms ok] adjusted_step show ?thesis by blast
qed

text \<open>C10: Whatever receipts follow, a ledger only moves forward: its day never moves back, its
  currency and its contract never vanish, no applied edge is lost or rewritten, no attempt is
  forgotten, no ticket's travel falls, the audit trail only grows, and every reservation is
  kept, settled at most once and with its payload unchanged.\<close>

theorem ledger_moves_forward:
  assumes "try_fold (apply_receipt L) rcs s = Ok s'"
  shows "day_le (highest_day s) (highest_day s') \<and>
    (\<forall>c. currency s = Some c \<longrightarrow> currency s' = Some c) \<and>
    (contract_of s \<noteq> None \<longrightarrow> contract_of s' \<noteq> None) \<and>
    bm_get (transitions s) \<subseteq>\<^sub>m bm_get (transitions s') \<and>
    (\<forall>x. bm_contains (attempts s) x \<longrightarrow> bm_contains (attempts s') x) \<and>
    (\<forall>tkt. travel_of s tkt \<le> travel_of s' tkt) \<and>
    (\<exists>later. audit_log s' = audit_log s @ later) \<and>
    (\<forall>rid r. bm_get (reservations s) rid = Some r \<longrightarrow>
       (\<exists>r'. bm_get (reservations s') rid = Some r' \<and> payload r' = payload r \<and>
          (settled r \<noteq> None \<longrightarrow> settled r' = settled r)))"
proof -
  from chain_le.loop_rel [OF assms] have le: "state_le s s'" .
  then have "\<forall>rid r. bm_get (reservations s) rid = Some r \<longrightarrow>
       (\<exists>r'. bm_get (reservations s') rid = Some r' \<and> evolves r r')"
    by (simp add: state_le_def reservations_le_def)
  then have "\<forall>rid r. bm_get (reservations s) rid = Some r \<longrightarrow>
       (\<exists>r'. bm_get (reservations s') rid = Some r' \<and> payload r' = payload r \<and>
          (settled r \<noteq> None \<longrightarrow> settled r' = settled r))"
    unfolding evolves_def by fastforce
  with le show ?thesis by (simp add: state_le_def)
qed

theorem ledger_moves_forward_witness:
  "\<exists>r'. bm_get (reservations settled_state) ''reservation:u1'' = Some r' \<and>
     payload r' = payload sample_running"
proof -
  from settled_receipt obtain rc where
    "try_fold (apply_receipt json_lib) [rc] running_state = Ok settled_state"
    by (auto simp: res_simps)
  moreover have "bm_get (reservations running_state) ''reservation:u1'' = Some sample_running"
    by (simp add: running_state_def)
  ultimately show ?thesis using ledger_moves_forward by blast
qed

end
