(* ===== verification/Platform.thy ===== *)
theory Platform
  imports Prelude
begin

text \<open>
  The command lines the program prints for a person to run, from \<open>platform.rs\<close>: quoting for
  a POSIX shell and for \<open>cmd\<close>, and the four remedies spelled in either. The promise is that
  a printed value is one word of the shell it is printed for, so the lemmas state it against
  a reader of shell words written here from the shell's documented quoting rules.
\<close>

subsection \<open>Quoting\<close>

datatype dialect = Posix | Cmd

definition bare_punctuation :: "char set" where
  "bare_punctuation = set ''_-./:@%+=,''"

definition posix_bare :: "char \<Rightarrow> bool" where
  "posix_bare c \<longleftrightarrow> is_ascii_alphanumeric c \<or> c \<in> bare_punctuation"

definition cmd_bare :: "char \<Rightarrow> bool" where
  "cmd_bare c \<longleftrightarrow>
     is_ascii_alphanumeric c \<or> c \<in> (bare_punctuation - {CHR ''%''}) \<union> {CHR 0x5C}"

text \<open>\<open>str::replace\<close> of one character.\<close>

definition replace_char :: "char \<Rightarrow> string \<Rightarrow> string \<Rightarrow> string" where
  "replace_char c t s = concat (map (\<lambda>x. if x = c then t else [x]) s)"

abbreviation squote :: char where "squote \<equiv> CHR 0x27"
abbreviation dquote :: char where "dquote \<equiv> CHR 0x22"

definition quote_for_posix :: "string \<Rightarrow> string" where
  "quote_for_posix value =
     (if value = [] then [squote, squote]
      else if \<not> starts_with value ''='' \<and> list_all posix_bare value then value
      else squote # replace_char squote [squote, dquote, squote, dquote, squote] value @ [squote])"

definition cmd_quoted :: "string \<Rightarrow> string" where
  "cmd_quoted value = dquote # replace_char dquote [dquote, dquote] value @ [dquote]"

definition quote_for_cmd :: "string \<Rightarrow> string" where
  "quote_for_cmd value =
     (if value = [] then [dquote, dquote]
      else if list_all cmd_bare value then value
      else cmd_quoted value)"

definition quote_for_cmd_path :: "string \<Rightarrow> string" where
  "quote_for_cmd_path value =
     (if CHR ''/'' \<in> set value then cmd_quoted value else quote_for_cmd value)"

definition dialect_quote :: "dialect \<Rightarrow> string \<Rightarrow> string" where
  "dialect_quote d value = (case d of Posix \<Rightarrow> quote_for_posix value | Cmd \<Rightarrow> quote_for_cmd value)"

definition dialect_path :: "dialect \<Rightarrow> string \<Rightarrow> string" where
  "dialect_path d path = (case d of Posix \<Rightarrow> quote_for_posix path | Cmd \<Rightarrow> quote_for_cmd_path path)"

subsection \<open>The remedies\<close>

definition copy_command :: "dialect \<Rightarrow> string \<Rightarrow> string \<Rightarrow> string" where
  "copy_command d source target =
     (case d of Posix \<Rightarrow> ''cp'' | Cmd \<Rightarrow> ''copy'') @ '' '' @ dialect_path d source @ '' '' @
     dialect_path d target"

definition move_command :: "dialect \<Rightarrow> string \<Rightarrow> string \<Rightarrow> string" where
  "move_command d source target =
     (case d of Posix \<Rightarrow> ''mv'' | Cmd \<Rightarrow> ''move'') @ '' '' @ dialect_path d source @ '' '' @
     dialect_path d target"

definition make_directory_command :: "dialect \<Rightarrow> string \<Rightarrow> string" where
  "make_directory_command d directory =
     (case d of Posix \<Rightarrow> ''mkdir -p'' | Cmd \<Rightarrow> ''mkdir'') @ '' '' @ dialect_path d directory"

definition trim_command :: "dialect \<Rightarrow> string \<Rightarrow> string \<Rightarrow> nat \<Rightarrow> string" where
  "trim_command d target kept n =
     copy_command d target kept @
     (case d of
        Posix \<Rightarrow>
          '' && dd if=/dev/null of='' @ dialect_path d target @ '' bs=1 seek='' @ show_nat n
      | Cmd \<Rightarrow>
          '' && powershell -NoProfile -Command '' @ [dquote] @ ''$f=[IO.File]::Open('' @ [squote] @
          replace_char squote [squote, squote] target @ [squote] @ '','' @ quoted ''Open'' @ '','' @
          quoted ''Write'' @ '');$f.SetLength('' @ show_nat n @ '');$f.Close()'' @ [dquote])"

subsection \<open>What a POSIX shell reads\<close>

text \<open>
  Words of a simple command: blanks separate, single quotes take everything literally, double
  quotes take everything but their own end and the expansions literally. A character the shell
  would act on outside quotes, an \<open>=\<close> that begins a word (\<open>zsh\<close> expands it) and an expansion
  inside double quotes give no reading.
\<close>

datatype sh_mode = Bare | Single | Double

definition sh_expands :: "char set" where
  "sh_expands = {CHR ''$'', CHR 0x60, CHR 0x5C, CHR ''!''}"

abbreviation grown :: "string option \<Rightarrow> string" where
  "grown w \<equiv> (case w of None \<Rightarrow> [] | Some s \<Rightarrow> s)"

fun sh_words :: "sh_mode \<Rightarrow> string option \<Rightarrow> string \<Rightarrow> string list option" where
  "sh_words Bare w [] = Some (case w of None \<Rightarrow> [] | Some s \<Rightarrow> [s])"
| "sh_words m w [] = None"
| "sh_words Bare w (c # s) =
     (if c = CHR '' '' then map_option (\<lambda>ws. (case w of None \<Rightarrow> [] | Some x \<Rightarrow> [x]) @ ws) (sh_words Bare None s)
      else if c = squote then sh_words Single (Some (grown w)) s
      else if c = dquote then sh_words Double (Some (grown w)) s
      else if posix_bare c \<and> \<not> (w = None \<and> c = CHR ''='') then sh_words Bare (Some (grown w @ [c])) s
      else None)"
| "sh_words Single w (c # s) =
     (if c = squote then sh_words Bare w s else sh_words Single (Some (grown w @ [c])) s)"
| "sh_words Double w (c # s) =
     (if c = dquote then sh_words Bare w s
      else if c \<in> sh_expands then None
      else sh_words Double (Some (grown w @ [c])) s)"

lemma posix_bare_plain: "posix_bare c \<Longrightarrow> c \<noteq> CHR '' '' \<and> c \<noteq> squote \<and> c \<noteq> dquote"
  by (auto simp: posix_bare_def bare_punctuation_def is_ascii_alphanumeric_def is_ascii_digit_def
      is_ascii_alphabetic_def)

lemma sh_words_grows:
  "list_all posix_bare s \<Longrightarrow> sh_words Bare (Some w) (s @ t) = sh_words Bare (Some (w @ s)) t"
  by (induction s arbitrary: w) (use posix_bare_plain in fastforce)+

lemma sh_words_bare:
  assumes "list_all posix_bare s" and "s \<noteq> []" and "w \<noteq> None \<or> \<not> starts_with s ''=''"
  shows "sh_words Bare w (s @ t) = sh_words Bare (Some (grown w @ s)) t"
proof -
  from assms(2) obtain c r where s: "s = c # r" by (cases s) auto
  with assms have "posix_bare c" "list_all posix_bare r" "\<not> (w = None \<and> c = CHR ''='')"
    by (auto simp: starts_with_def)
  with posix_bare_plain [of c] show ?thesis by (auto simp: s sh_words_grows)
qed

lemma sh_words_single:
  "sh_words Single (Some w)
     (replace_char squote [squote, dquote, squote, dquote, squote] s @ squote # t) =
   sh_words Bare (Some (w @ s)) t"
  by (induction s arbitrary: w) (auto simp: replace_char_def sh_expands_def)

text \<open>A quoted value, met between words, is read back as the value itself.\<close>

lemma sh_words_quoted: "sh_words Bare w (quote_for_posix v @ t) = sh_words Bare (Some (grown w @ v)) t"
proof (cases "v \<noteq> [] \<and> \<not> starts_with v ''='' \<and> list_all posix_bare v")
  case True
  then show ?thesis using sh_words_bare by (simp add: quote_for_posix_def)
next
  case False
  then show ?thesis by (auto simp: quote_for_posix_def sh_words_single)
qed

lemma sh_words_quoted_end: "sh_words Bare None (quote_for_posix v) = Some [v]"
  using sh_words_quoted [of None v "[]"] by simp

lemmas bare_letters = posix_bare_def bare_punctuation_def is_ascii_alphanumeric_def
  is_ascii_alphabetic_def is_ascii_digit_def

lemma show_nat_bare: "list_all posix_bare (show_nat n)"
proof (induction n rule: show_nat.induct)
  case (1 n)
  have "posix_bare (digit_char k)" if "k < 10" for k
    using that by (simp add: digit_char_def bare_letters)
  with 1 show ?case by (subst show_nat.simps) simp
qed

subsection \<open>What \<open>cmd\<close> reads\<close>

text \<open>
  One argument as \<open>cmd\<close> and the C runtime read it: inside double quotes a doubled quote is a
  literal one and everything else is itself; outside, a word of safe characters is itself.
  \<open>cmd_option\<close> says whether the word would be read as beginning an option.
\<close>

fun cmd_inside :: "string \<Rightarrow> string option" where
  "cmd_inside [] = None"
| "cmd_inside [c] = (if c = dquote then Some [] else None)"
| "cmd_inside (c # d # s) =
     (if c = dquote then (if d = dquote then map_option ((#) dquote) (cmd_inside s) else None)
      else map_option ((#) c) (cmd_inside (d # s)))"

definition cmd_argument :: "string \<Rightarrow> string option" where
  "cmd_argument s =
     (case s of
        c # t \<Rightarrow> if c = dquote then cmd_inside t
                 else if list_all cmd_bare s then Some s else None
      | [] \<Rightarrow> None)"

definition cmd_option :: "string \<Rightarrow> bool" where
  "cmd_option s \<longleftrightarrow> \<not> starts_with s [dquote] \<and> CHR ''/'' \<in> set s"

lemma cmd_inside_plain: "c \<noteq> dquote \<Longrightarrow> cmd_inside (c # s) = map_option ((#) c) (cmd_inside s)"
  by (cases s) auto

lemma cmd_inside_quoted: "cmd_inside (replace_char dquote [dquote, dquote] s @ [dquote]) = Some s"
  by (induction s) (auto simp: replace_char_def cmd_inside_plain)

lemma cmd_quoted_argument: "cmd_argument (cmd_quoted v) = Some v"
  using cmd_inside_quoted [of v] by (simp add: cmd_argument_def cmd_quoted_def)

lemma cmd_bare_not_quote: "cmd_bare c \<Longrightarrow> c \<noteq> dquote"
  by (auto simp: cmd_bare_def bare_punctuation_def is_ascii_alphanumeric_def is_ascii_digit_def
      is_ascii_alphabetic_def)

lemma quote_for_cmd_argument: "cmd_argument (quote_for_cmd v) = Some v"
proof -
  have "list_all cmd_bare v \<Longrightarrow> v \<noteq> [] \<Longrightarrow> cmd_argument v = Some v"
    using cmd_bare_not_quote [of "hd v"] by (auto simp: cmd_argument_def split: list.splits)
  moreover have "cmd_argument [dquote, dquote] = Some []" by (simp add: cmd_argument_def)
  ultimately show ?thesis using cmd_quoted_argument by (auto simp: quote_for_cmd_def)
qed

subsection \<open>The properties\<close>

text \<open>A printed remedy runs as it is meant: a POSIX shell reads the copy, the move, the
  directory creation and the two commands of the trim as the program and exactly the paths
  they name, whatever characters those paths hold.\<close>

theorem remedies_name_their_paths:
  "sh_words Bare None (copy_command Posix source target) = Some [''cp'', source, target] \<and>
   sh_words Bare None (move_command Posix source target) = Some [''mv'', source, target] \<and>
   sh_words Bare None (make_directory_command Posix source) = Some [''mkdir'', ''-p'', source] \<and>
   (\<exists>dd. trim_command Posix source target n = copy_command Posix source target @ '' && '' @ dd \<and>
      sh_words Bare None dd =
        Some [''dd'', ''if=/dev/null'', ''of='' @ source, ''bs=1'', ''seek='' @ show_nat n])"
proof -
  have one_more: "(@) [x] = (#) x" for x :: string by (simp add: fun_eq_iff)
  have verbs: "sh_words Bare None (''cp '' @ s) = map_option ((#) ''cp'') (sh_words Bare None s)"
    "sh_words Bare None (''mv '' @ s) = map_option ((#) ''mv'') (sh_words Bare None s)"
    "sh_words Bare None (''mkdir -p '' @ s) =
       map_option (\<lambda>ws. ''mkdir'' # ''-p'' # ws) (sh_words Bare None s)"
    "sh_words Bare None (''dd if=/dev/null of='' @ s) =
       map_option (\<lambda>ws. ''dd'' # ''if=/dev/null'' # ws) (sh_words Bare (Some ''of='') s)"
    "sh_words Bare (Some w) ('' bs=1 seek='' @ s) =
       map_option (\<lambda>ws. w # ''bs=1'' # ws) (sh_words Bare (Some ''seek='') s)" for s w
    by (simp_all add: bare_letters option.map_comp o_def one_more)
  have two: "sh_words Bare None (quote_for_posix a @ '' '' @ quote_for_posix b) = Some [a, b]" for a b
    by (simp add: sh_words_quoted sh_words_quoted_end)
  have seek: "sh_words Bare (Some ''seek='') (show_nat n) = Some [''seek='' @ show_nat n]"
    using sh_words_grows [OF show_nat_bare, of "''seek=''" n "[]"] by simp
  have "trim_command Posix source target n = copy_command Posix source target @ '' && '' @
      ''dd if=/dev/null of='' @ quote_for_posix source @ '' bs=1 seek='' @ show_nat n"
    by (simp add: trim_command_def dialect_path_def)
  moreover have "sh_words Bare None (''dd if=/dev/null of='' @ quote_for_posix source @
      '' bs=1 seek='' @ show_nat n) =
      Some [''dd'', ''if=/dev/null'', ''of='' @ source, ''bs=1'', ''seek='' @ show_nat n]"
    by (simp only: verbs sh_words_quoted option.case seek) simp
  ultimately show ?thesis
    using verbs(1-3) two
    by (simp add: copy_command_def move_command_def make_directory_command_def dialect_path_def
        sh_words_quoted_end)
qed

text \<open>For \<open>cmd\<close> a printed value is one argument with its own text, and a printed path is never
  read as an option, however many slashes it carries.\<close>

theorem cmd_values_are_arguments:
  "cmd_argument (dialect_quote Cmd v) = Some v \<and> cmd_argument (dialect_path Cmd v) = Some v \<and>
   \<not> cmd_option (dialect_path Cmd v)"
proof -
  have "\<not> cmd_option (quote_for_cmd v)" if "CHR ''/'' \<notin> set v"
    using that by (auto simp: cmd_option_def quote_for_cmd_def cmd_quoted_def starts_with_def)
  moreover have "\<not> cmd_option (cmd_quoted v)"
    by (simp add: cmd_option_def cmd_quoted_def starts_with_def)
  ultimately show ?thesis
    using quote_for_cmd_argument [of v] cmd_quoted_argument [of v]
    by (auto simp: dialect_quote_def dialect_path_def quote_for_cmd_path_def)
qed

end
