(* ===== verification/Diagnosis.thy ===== *)
theory Diagnosis
  imports Journal_Laws Identity Platform
begin

text \<open>
  What a damaged account is: \<open>diagnosis.rs\<close>. The operations on paths are those of
  \<open>std::path\<close> on the components of a path; what is read from the host (which shell it has,
  which directories exist, and the JSON text parser for a receipt of any shape) is the record
  \<open>host\<close>.
\<close>

subsection \<open>Paths\<close>

definition path_parts :: "string \<Rightarrow> string list" where
  "path_parts s =
     (case split_on CHR ''/'' s of
        [] \<Rightarrow> []
      | lead # rest \<Rightarrow>
          (if lead \<noteq> [] then [lead] else if s = [] then [] else [''/'']) @
          filter (\<lambda>p. p \<noteq> [] \<and> p \<noteq> ''.'') rest)"

definition parts_path :: "string list \<Rightarrow> string" where
  "parts_path ps =
     (case ps of
        [] \<Rightarrow> []
      | p # rest \<Rightarrow> if p = ''/'' then ''/'' @ join ''/'' rest else join ''/'' ps)"

definition path_parent :: "string \<Rightarrow> string option" where
  "path_parent s =
     (let ps = path_parts s
      in if ps = [] \<or> ps = [''/''] then None else Some (parts_path (butlast ps)))"

definition path_starts_with :: "string \<Rightarrow> string \<Rightarrow> bool" where
  "path_starts_with s base = starts_with (path_parts s) (path_parts base)"

definition path_join :: "string \<Rightarrow> string \<Rightarrow> string" where
  "path_join base part =
     (if starts_with part ''/'' then part
      else if base = [] \<or> last base = CHR ''/'' then base @ part
      else base @ ''/'' @ part)"

definition path_ancestors :: "string \<Rightarrow> string list" where
  "path_ancestors s =
     (let ps = path_parts s;
          cuts = map (\<lambda>n. take n ps) (rev [0..<length ps + 1])
      in map parts_path
           (if starts_with ps [''/''] then filter (\<lambda>c. c \<noteq> []) cuts else cuts))"

definition with_file_name :: "string \<Rightarrow> string \<Rightarrow> string" where
  "with_file_name s name =
     (case path_parent s of None \<Rightarrow> path_join s name | Some parent \<Rightarrow> path_join parent name)"

definition ACCOUNT_DIR :: string where
  "ACCOUNT_DIR = ''.agent-grounds/rhei/budgets''"

definition journal_path_of :: "string \<Rightarrow> string \<Rightarrow> string" where
  "journal_path_of root uuid = path_join (path_join (path_join root ACCOUNT_DIR) uuid) ''journal.jsonl''"

record 'v host =
  shell :: dialect
  directory_exists :: "string \<Rightarrow> bool"
  parse_value :: "bytes \<Rightarrow> 'v option"

subsection \<open>The kinds of damage\<close>

datatype damage =
  Journal_absent | Journal_truncated | Chain_broken | Held_elsewhere | Foreign_tail | Witness_torn

fun damage_as_str :: "damage \<Rightarrow> string" where
  "damage_as_str Journal_absent = ''journal_absent''"
| "damage_as_str Journal_truncated = ''journal_truncated''"
| "damage_as_str Chain_broken = ''chain_broken''"
| "damage_as_str Held_elsewhere = ''held_elsewhere''"
| "damage_as_str Foreign_tail = ''foreign_tail''"
| "damage_as_str Witness_torn = ''witness_torn''"

text \<open>The witness up to its last newline (\<open>classify.rs\<close>).\<close>

definition whole_receipts :: "bytes \<Rightarrow> bytes" where
  "whole_receipts witness = rev (dropWhile (\<lambda>b. b \<noteq> newline) (rev witness))"

record history =
  receipts_held :: nat
  first_written_at :: "string option"
  last_written_at :: "string option"
  invocations_charged :: u64

definition receipt_lines :: "bytes \<Rightarrow> bytes list" where
  "receipt_lines bs = filter (\<lambda>l. l \<noteq> []) (split_on newline bs)"

definition history_read :: "'v lib \<Rightarrow> 'v codec \<Rightarrow> string \<Rightarrow> bytes \<Rightarrow> history" where
  "history_read L C project bs =
     (let bs = whole_receipts bs
      in case replay_chain L C project bs of
           Err _ \<Rightarrow>
             \<lparr>receipts_held = length (receipt_lines bs), first_written_at = None,
              last_written_at = None, invocations_charged = 0\<rparr>
         | Ok r \<Rightarrow>
             \<lparr>receipts_held = length (r_receipts r),
              first_written_at = (case r_receipts r of [] \<Rightarrow> None | rc # _ \<Rightarrow> Some (written_at rc)),
              last_written_at =
                (if r_receipts r = [] then None else Some (written_at (last (r_receipts r)))),
              invocations_charged =
                (case lifetime_counter (r_state r) of Ok c \<Rightarrow> consumed c | Err _ \<Rightarrow> 0)\<rparr>)"

definition count_receipts :: "nat \<Rightarrow> string" where
  "count_receipts n = (if n = 1 then ''1 receipt'' else show_nat n @ '' receipts'')"

definition receipts_phrase :: "history \<Rightarrow> string" where
  "receipts_phrase h = count_receipts (receipts_held h)"

definition history_summary :: "history \<Rightarrow> string" where
  "history_summary h =
     receipts_phrase h @
     (case first_written_at h of None \<Rightarrow> [] | Some at \<Rightarrow> '', first '' @ at) @
     (case last_written_at h of None \<Rightarrow> [] | Some at \<Rightarrow> '', last '' @ at) @
     '', charging '' @ show_u64 (invocations_charged h) @ '' invocations to this path''"

record torn =
  torn_whole :: nat
  torn_fragment :: nat

record foreign =
  foreign_root :: string
  foreign_receipts :: nat

record diagnosis =
  d_damage :: damage
  d_root :: string
  d_uuid :: string
  d_journal :: string
  d_witness :: string
  d_history :: history
  d_held_by :: "string option"
  d_foreign :: "foreign option"
  d_torn :: "torn option"
  d_journal_present :: bool

definition diagnosis_new :: "damage \<Rightarrow> string \<Rightarrow> string \<Rightarrow> string \<Rightarrow> history \<Rightarrow> diagnosis" where
  "diagnosis_new dmg root uuid witness h =
     \<lparr>d_damage = dmg, d_root = root, d_uuid = uuid, d_journal = journal_path_of root uuid,
      d_witness = witness, d_history = h, d_held_by = None, d_foreign = None, d_torn = None,
      d_journal_present = (dmg \<noteq> Journal_absent)\<rparr>"

definition diagnosed_held_by :: "string \<Rightarrow> diagnosis \<Rightarrow> diagnosis" where
  "diagnosed_held_by holder d = d\<lparr>d_held_by := Some holder\<rparr>"

definition with_foreign :: "foreign option \<Rightarrow> diagnosis \<Rightarrow> diagnosis" where
  "with_foreign f d = d\<lparr>d_foreign := f\<rparr>"

definition with_tear :: "torn \<Rightarrow> bool \<Rightarrow> diagnosis \<Rightarrow> diagnosis" where
  "with_tear t present d = d\<lparr>d_torn := Some t, d_journal_present := present\<rparr>"

definition d_directory :: "diagnosis \<Rightarrow> string" where
  "d_directory d = (case path_parent (d_journal d) of Some p \<Rightarrow> p | None \<Rightarrow> [])"

definition d_project_id :: "diagnosis \<Rightarrow> string" where
  "d_project_id d = ''panta:'' @ d_uuid d"

subsection \<open>The remedies a diagnosis names\<close>

definition kept_name :: "string \<Rightarrow> diagnosis \<Rightarrow> string" where
  "kept_name what d =
     (let stamp = filter is_ascii_alphanumeric
            (case last_written_at (d_history d) of None \<Rightarrow> ''unknown'' | Some at \<Rightarrow> at)
      in with_file_name (d_witness d) (''history-'' @ what @ ''-'' @ stamp @ ''.jsonl''))"

definition restore_command :: "'v host \<Rightarrow> diagnosis \<Rightarrow> string option" where
  "restore_command H d =
     (let copy = copy_command (shell H) (d_witness d) (d_journal d)
      in case d_damage d of
           Journal_absent \<Rightarrow>
             Some (make_directory_command (shell H) (d_directory d) @ '' && '' @ copy)
         | Journal_truncated \<Rightarrow> Some copy
         | Chain_broken \<Rightarrow> Some copy
         | Held_elsewhere \<Rightarrow> None
         | Foreign_tail \<Rightarrow> None
         | Witness_torn \<Rightarrow> None)"

definition set_aside_command :: "'v host \<Rightarrow> diagnosis \<Rightarrow> string option" where
  "set_aside_command H d =
     (if d_damage d = Foreign_tail
      then Some (move_command (shell H) (d_witness d) (kept_name ''set-aside'' d)) else None)"

definition diagnosis_trim_command :: "'v host \<Rightarrow> diagnosis \<Rightarrow> string option" where
  "diagnosis_trim_command H d =
     (case d_torn d of
        Some t \<Rightarrow>
          if d_damage d = Witness_torn
          then Some (trim_command (shell H) (d_witness d) (kept_name ''torn'' d) (torn_whole t))
          else None
      | None \<Rightarrow> None)"

definition fragment_phrase :: "diagnosis \<Rightarrow> string option" where
  "fragment_phrase d =
     map_option (\<lambda>t.
       if torn_fragment t = 1 then ''1 byte past its last whole receipt''
       else show_nat (torn_fragment t) @ '' bytes past its last whole receipt'') (d_torn d)"

definition offers_forget :: "diagnosis \<Rightarrow> bool" where
  "offers_forget d =
     (case d_damage d of
        Journal_absent \<Rightarrow> True
      | Held_elsewhere \<Rightarrow> True
      | Witness_torn \<Rightarrow> \<not> d_journal_present d
      | Journal_truncated \<Rightarrow> False
      | Chain_broken \<Rightarrow> False
      | Foreign_tail \<Rightarrow> False)"

definition or_empty :: "string option \<Rightarrow> string" where
  "or_empty s = (case s of None \<Rightarrow> [] | Some t \<Rightarrow> t)"

definition headline :: "diagnosis \<Rightarrow> string" where
  "headline d =
     (case d_damage d of
        Journal_absent \<Rightarrow> ''this project has no budget journal''
      | Journal_truncated \<Rightarrow>
          ''this project's journal holds fewer receipts than the committed history''
      | Chain_broken \<Rightarrow>
          ''this project's journal does not verify against the committed history''
      | Held_elsewhere \<Rightarrow>
          ''budget account panta:'' @ d_uuid d @ '' belongs to another project root'' @
          or_empty (map_option (\<lambda>holder. '', '' @ holder @ '', which still holds it'') (d_held_by d))
      | Foreign_tail \<Rightarrow>
          ''the committed history runs past this project's journal with receipts written '' @
          ''from another project root'' @
          or_empty (map_option (\<lambda>f. '', '' @ foreign_root f) (d_foreign d))
      | Witness_torn \<Rightarrow>
          ''the committed history ends mid-receipt, '' @ or_empty (fragment_phrase d))"

subsection \<open>A tail written from another root\<close>

fun find_map :: "('a \<Rightarrow> 'b option) \<Rightarrow> 'a list \<Rightarrow> 'b option" where
  "find_map f [] = None"
| "find_map f (x # xs) = (case f x of Some y \<Rightarrow> Some y | None \<Rightarrow> find_map f xs)"

definition source_outside :: "'v lib \<Rightarrow> 'v host \<Rightarrow> string \<Rightarrow> bytes \<Rightarrow> string option" where
  "source_outside L H root line =
     (case parse_value H line of
        None \<Rightarrow> None
      | Some receipt \<Rightarrow>
          if vstr_at L receipt ''kind'' \<noteq> Some ''identity'' then None
          else (case vas_str L (vindex L (vindex L receipt ''payload'') ''source_path'') of
                  None \<Rightarrow> None
                | Some source \<Rightarrow> if path_starts_with source root then None else Some source))"

definition holding_root :: "'v host \<Rightarrow> string \<Rightarrow> string" where
  "holding_root H source =
     (let parent = (case path_parent source of Some p \<Rightarrow> p | None \<Rightarrow> source)
      in case find_map (\<lambda>a. if directory_exists H (path_join a ACCOUNT_DIR) then Some a else None)
                (path_ancestors parent) of
           Some a \<Rightarrow> a | None \<Rightarrow> parent)"

definition foreign_tail :: "'v lib \<Rightarrow> 'v host \<Rightarrow> string \<Rightarrow> bytes \<Rightarrow> bytes \<Rightarrow> foreign option" where
  "foreign_tail L H root journal witness =
     (let witness = whole_receipts witness
      in if length witness \<le> length journal \<or> \<not> starts_with witness journal then None
         else let receipts = receipt_lines (drop (length journal) witness)
              in map_option
                   (\<lambda>source. \<lparr>foreign_root = holding_root H source, foreign_receipts = length receipts\<rparr>)
                   (find_map (source_outside L H root) receipts))"

subsection \<open>Whole receipts\<close>

lemma whole_receipts_end [simp]: "whole_receipts (bs @ [newline]) = bs @ [newline]"
  by (simp add: whole_receipts_def)

lemma whole_receipts_fragment:
  assumes "newline \<notin> set fragment"
  shows "whole_receipts (bs @ fragment) = whole_receipts bs"
proof -
  have "dropWhile (\<lambda>b. b \<noteq> newline) (rev fragment @ rev bs) = dropWhile (\<lambda>b. b \<noteq> newline) (rev bs)"
    using assms by (intro dropWhile_append2) auto
  then show ?thesis by (simp add: whole_receipts_def)
qed

lemma whole_receipts_split:
  obtains fragment where "whole_receipts bs @ fragment = bs" and "newline \<notin> set fragment"
proof
  let ?p = "\<lambda>b. b \<noteq> newline"
  have "rev (takeWhile ?p (rev bs) @ dropWhile ?p (rev bs)) = bs" by simp
  then show "whole_receipts bs @ rev (takeWhile ?p (rev bs)) = bs"
    by (simp add: whole_receipts_def del: takeWhile_dropWhile_id)
  show "newline \<notin> set (rev (takeWhile ?p (rev bs)))"
    by (auto dest: set_takeWhileD)
qed

lemma whole_receipts_prefix: "prefix (whole_receipts bs) bs"
  by (rule whole_receipts_split [of bs]) (metis prefixI)

lemma whole_receipts_take: "take (length (whole_receipts bs)) bs = whole_receipts bs"
  by (rule whole_receipts_split [of bs]) (metis append_eq_conv_conj)

lemma whole_receipts_idem [simp]: "whole_receipts (whole_receipts bs) = whole_receipts bs"
proof -
  obtain f where bs: "whole_receipts bs @ f = bs" and f: "newline \<notin> set f"
    by (rule whole_receipts_split)
  from whole_receipts_fragment [OF f, of "whole_receipts bs"] bs show ?thesis by simp
qed

lemma whole_receipts_Nil [simp]: "whole_receipts [] = []"
  by (simp add: whole_receipts_def)

lemma whole_receipts_cases: "whole_receipts bs = [] \<or> last (whole_receipts bs) = newline"
proof (cases "dropWhile (\<lambda>b. b \<noteq> newline) (rev bs)")
  case (Cons b r)
  then have "b = newline" using hd_dropWhile [of "\<lambda>b. b \<noteq> newline" "rev bs"] by auto
  with Cons show ?thesis by (simp add: whole_receipts_def)
qed (simp add: whole_receipts_def)

lemma whole_receipts_unlines [simp]: "whole_receipts (unlines ls) = unlines ls"
proof (cases "ls = []")
  case False
  from unlines_snoc [OF this] obtain bs where "unlines ls = bs @ [newline]" by blast
  then show ?thesis by simp
qed simp

lemma replay_chain_whole: "replay_chain L C project bs = Inr r \<Longrightarrow> whole_receipts bs = bs"
  by (metis replay_chain_lines whole_receipts_unlines)

lemma foreign_tail_short:
  "length witness \<le> length journal \<Longrightarrow> foreign_tail L H root journal witness = None"
  using prefix_length_le [OF whole_receipts_prefix [of witness]] by (simp add: foreign_tail_def Let_def)

end
