(* ===== verification/Classify.thy ===== *)
theory Classify
  imports Diagnosis
begin

text \<open>
  One root's journal and witness read together: \<open>classify.rs\<close>. The lemmas say what each
  reading means for the two files, and that the remedy a diagnosis offers leads back to an
  account that opens.
\<close>

record sides =
  s_root :: string
  s_uuid :: string
  s_witness_path :: string
  s_witness :: bytes
  s_journal :: disk_file

datatype 'v reading =
  Absent
| Verified (verified: "'v replayed")
| Damaged diagnosis budget_error

definition sides_project :: "sides \<Rightarrow> string" where
  "sides_project s = ''panta:'' @ s_uuid s"

definition sides_diagnosis :: "'v lib \<Rightarrow> 'v codec \<Rightarrow> sides \<Rightarrow> damage \<Rightarrow> diagnosis" where
  "sides_diagnosis L C s dmg =
     diagnosis_new dmg (s_root s) (s_uuid s) (s_witness_path s)
       (history_read L C (sides_project s) (s_witness s))"

definition torn_refusal :: "'v host \<Rightarrow> diagnosis \<Rightarrow> budget_error" where
  "torn_refusal H d =
     (let refusal = corrupt
            (''the committed history at '' @ d_witness d @ '' ends mid-receipt, '' @
             or_empty (fragment_phrase d) @
             '', the fragment of an append that was cut short; copying it anywhere would carry the fragment along, so keep it and cut it back to its last whole receipt with: '' @
             or_empty (diagnosis_trim_command H d))
      in if offers_forget d
         then offering_forget refusal ''if the path was reused, retire that record instead with'' None
         else refusal)"

definition foreign_tail_refusal :: "'v host \<Rightarrow> foreign \<Rightarrow> diagnosis \<Rightarrow> budget_error" where
  "foreign_tail_refusal H f d =
     error_new ''untrustworthy_ledger''
       (''budget journal is untrustworthy: the committed history at '' @ d_witness d @ '' holds '' @
        count_receipts (foreign_receipts f) @ '' past the project journal at '' @ d_journal d @
        '', written from another project root, '' @ foreign_root f @
        ''; copying the witness back would import them, so set the witness aside instead, keeping every byte: '' @
        or_empty (set_aside_command H d))"

definition absent_journal_refusal :: "string \<Rightarrow> history \<Rightarrow> budget_error" where
  "absent_journal_refusal witness h =
     error_new ''untrustworthy_ledger''
       (''this project has no budget journal, but a committed history at '' @ witness @
        '' records '' @ receipts_phrase h @ '' for this path'' @
        or_empty (map_option (\<lambda>at. '', the last on '' @ at) (last_written_at h)))"

definition ahead_refusal :: "sides \<Rightarrow> budget_error" where
  "ahead_refusal s =
     corrupt (''the committed history at '' @ s_witness_path s @
       '' records receipts the project journal at '' @ journal_path_of (s_root s) (s_uuid s) @
       '' does not have; restore the journal by copying the witness back over it'')"

definition mismatch_refusal :: "sides \<Rightarrow> budget_error" where
  "mismatch_refusal s =
     corrupt (''the committed history at '' @ s_witness_path s @
       '' does not match the project journal at '' @ journal_path_of (s_root s) (s_uuid s) @
       ''; restore the journal by copying the witness back over it'')"

definition sides_damaged ::
  "'v lib \<Rightarrow> 'v codec \<Rightarrow> sides \<Rightarrow> damage \<Rightarrow> budget_error \<Rightarrow> 'v reading" where
  "sides_damaged L C s dmg e = Damaged (sides_diagnosis L C s dmg) e"

definition sides_torn :: "'v lib \<Rightarrow> 'v codec \<Rightarrow> 'v host \<Rightarrow> sides \<Rightarrow> torn \<Rightarrow> bool \<Rightarrow> 'v reading" where
  "sides_torn L C H s t present =
     (let d = with_tear t present (sides_diagnosis L C s Witness_torn)
      in Damaged d (torn_refusal H d))"

definition tear_of :: "bytes \<Rightarrow> torn option" where
  "tear_of witness =
     (let whole = length (whole_receipts witness)
      in if whole < length witness
         then Some \<lparr>torn_whole = whole, torn_fragment = length witness - whole\<rparr> else None)"

definition replay_journal :: "'v lib \<Rightarrow> 'v codec \<Rightarrow> string \<Rightarrow> bytes \<Rightarrow> 'v replayed option res" where
  "replay_journal L C project journal =
     (if journal = [] then Ok None
      else tryb (replay_chain L C project journal) (\<lambda>r. Ok (Some r)))"

definition classify_replayed ::
  "'v lib \<Rightarrow> 'v codec \<Rightarrow> sides \<Rightarrow> bytes \<Rightarrow> 'v replayed option res \<Rightarrow> 'v reading" where
  "classify_replayed L C s journal replayed =
     (case replayed of
        Err e \<Rightarrow> sides_damaged L C s Chain_broken e
      | Ok None \<Rightarrow>
          if s_witness s = [] then Absent
          else sides_damaged L C s Journal_truncated (ahead_refusal s)
      | Ok (Some r) \<Rightarrow>
          if s_witness s = [] \<or> s_witness s = journal then Verified r
          else if starts_with (s_witness s) journal
          then sides_damaged L C s Journal_truncated (mismatch_refusal s)
          else sides_damaged L C s Chain_broken (mismatch_refusal s))"

definition is_ok :: "'e + 'a \<Rightarrow> bool" where
  "is_ok m = (case m of Inl _ \<Rightarrow> False | Inr _ \<Rightarrow> True)"

definition classify :: "'v lib \<Rightarrow> 'v codec \<Rightarrow> 'v host \<Rightarrow> sides \<Rightarrow> 'v reading" where
  "classify L C H s =
     (case s_journal s of
        None \<Rightarrow>
          (case tear_of (s_witness s) of
             Some t \<Rightarrow> sides_torn L C H s t False
           | None \<Rightarrow>
               if s_witness s = [] then Absent
               else let d = sides_diagnosis L C s Journal_absent
                    in Damaged d (absent_journal_refusal (s_witness_path s) (d_history d)))
      | Some journal \<Rightarrow>
          (let replayed = replay_journal L C (sides_project s) journal;
               foreign = (if is_ok replayed
                          then foreign_tail L H (s_root s) journal (s_witness s) else None)
           in case foreign of
                Some f \<Rightarrow>
                  (let d = with_foreign (Some f) (sides_diagnosis L C s Foreign_tail)
                   in Damaged d (foreign_tail_refusal H f d))
              | None \<Rightarrow>
                  (case tear_of (s_witness s) of
                     Some t \<Rightarrow> sides_torn L C H s t True
                   | None \<Rightarrow> classify_replayed L C s journal replayed)))"

subsection \<open>What a reading says of the files\<close>

lemmas reading_defs = sides_torn_def sides_damaged_def sides_diagnosis_def Let_def
  diagnosis_new_def with_tear_def with_foreign_def

lemma tear_of_whole [simp]: "tear_of (whole_receipts bs) = None"
  by (simp add: tear_of_def)

lemma tear_of_Nil [simp]: "tear_of [] = None"
  by (simp add: tear_of_def)

lemma tear_of_None: "tear_of w = None \<longleftrightarrow> whole_receipts w = w"
proof (rule whole_receipts_split [of w])
  fix f
  assume w: "whole_receipts w @ f = w"
  have "length (whole_receipts w) + length f = length w"
    using arg_cong [OF w, of length] by simp
  then have "length (whole_receipts w) < length w \<longleftrightarrow> f \<noteq> []"
    by (cases f) auto
  moreover have "whole_receipts w = w \<longleftrightarrow> f = []"
    using w by (metis append_self_conv)
  ultimately show ?thesis by (simp add: tear_of_def Let_def)
qed

lemma tear_of_Some: "tear_of w = Some t \<Longrightarrow> torn_whole t = length (whole_receipts w)"
  by (auto simp: tear_of_def Let_def split: if_splits)

lemma replay_journal_Ok:
  "replay_journal L C project journal = Inr (Some r) \<longleftrightarrow> replay_chain L C project journal = Inr r"
  by (auto simp: replay_journal_def res_simps replay_chain_def)

lemma replay_journal_None:
  "replay_journal L C project journal = Inr None \<longleftrightarrow> journal = []"
  by (auto simp: replay_journal_def res_simps)

lemma foreign_tail_same [simp]:
  "foreign_tail L H root journal journal = None" "foreign_tail L H root journal [] = None"
  by (simp_all add: foreign_tail_short)

lemma classify_copy:
  assumes "replay_chain L C (sides_project s) bs = Inr r" and "w = bs \<or> w = []"
  shows "classify L C H (s\<lparr>s_journal := Some bs, s_witness := w\<rparr>) = Verified r"
proof -
  have "bs \<noteq> []" using assms(1) by (auto simp: replay_chain_def)
  moreover have "tear_of w = None" using assms replay_chain_whole by (auto simp: tear_of_None)
  moreover have "foreign_tail L H (s_root s) bs w = None" using assms(2) by auto
  ultimately show ?thesis
    using assms by (auto simp: classify_def classify_replayed_def replay_journal_def sides_project_def Let_def)
qed

lemma classify_Verified:
  "classify L C H s = Verified r \<longleftrightarrow>
   (\<exists>journal. s_journal s = Some journal \<and> replay_chain L C (sides_project s) journal = Inr r \<and>
      (s_witness s = [] \<or> s_witness s = journal))"
proof
  assume v: "classify L C H s = Verified r"
  then obtain journal where j: "s_journal s = Some journal"
    by (cases "s_journal s") (auto simp: classify_def reading_defs split: option.splits if_splits)
  with v have "classify_replayed L C s journal (replay_journal L C (sides_project s) journal) = Verified r"
    by (auto simp: classify_def reading_defs split: option.splits if_splits)
  then have "replay_journal L C (sides_project s) journal = Inr (Some r)"
    and "s_witness s = [] \<or> s_witness s = journal"
    by (auto simp: classify_replayed_def reading_defs split: sum.splits option.splits if_splits)
  with j show "\<exists>journal. s_journal s = Some journal \<and>
      replay_chain L C (sides_project s) journal = Inr r \<and>
      (s_witness s = [] \<or> s_witness s = journal)"
    by (simp add: replay_journal_Ok)
next
  assume "\<exists>journal. s_journal s = Some journal \<and>
      replay_chain L C (sides_project s) journal = Inr r \<and>
      (s_witness s = [] \<or> s_witness s = journal)"
  then obtain journal where j: "s_journal s = Some journal"
    "replay_chain L C (sides_project s) journal = Inr r" "s_witness s = journal \<or> s_witness s = []"
    by blast
  moreover have "s\<lparr>s_journal := Some journal, s_witness := s_witness s\<rparr> = s"
    using j(1) by (cases s) simp
  ultimately show "classify L C H s = Verified r" using classify_copy by metis
qed

lemma classify_Absent:
  "classify L C H s = Absent \<longleftrightarrow> s_witness s = [] \<and> bytes_in (s_journal s) = []"
proof (cases "s_journal s")
  case None
  then show ?thesis
    by (auto simp: classify_def bytes_in_def reading_defs split: option.splits)
next
  case (Some journal)
  show ?thesis
  proof (cases "s_witness s = [] \<and> journal = []")
    case True
    then show ?thesis
      using Some by (simp add: classify_def classify_replayed_def replay_journal_def bytes_in_def Let_def)
  next
    case False
    have "classify_replayed L C s journal (replay_journal L C (sides_project s) journal) \<noteq> Absent"
      using False
      by (auto simp: classify_replayed_def reading_defs replay_journal_def res_simps
          split: sum.splits option.splits)
    with Some False show ?thesis
      by (auto simp: classify_def bytes_in_def reading_defs split: option.splits if_splits)
  qed
qed

text \<open>What each kind of damage says of the two files.\<close>

lemma classify_Damaged:
  assumes "classify L C H s = Damaged d e"
  shows "d_witness d = s_witness_path s \<and> d_root d = s_root s \<and> d_uuid d = s_uuid s \<and>
    d_journal_present d = (s_journal s \<noteq> None) \<and> d_damage d \<noteq> Held_elsewhere \<and>
    (d_damage d = Witness_torn \<longrightarrow> d_torn d = tear_of (s_witness s) \<and> tear_of (s_witness s) \<noteq> None) \<and>
    (d_damage d \<notin> {Witness_torn, Foreign_tail} \<longrightarrow> tear_of (s_witness s) = None) \<and>
    (d_damage d = Foreign_tail \<longrightarrow>
       (\<exists>journal f. s_journal s = Some journal \<and> d_foreign d = Some f \<and>
          foreign_tail L H (s_root s) journal (s_witness s) = Some f \<and>
          is_ok (replay_journal L C (sides_project s) journal))) \<and>
    (d_damage d = Journal_truncated \<longrightarrow>
       (\<exists>journal. s_journal s = Some journal \<and> starts_with (s_witness s) journal \<and>
          s_witness s \<noteq> journal \<and> foreign_tail L H (s_root s) journal (s_witness s) = None)) \<and>
    (d_damage d = Journal_absent \<longleftrightarrow> s_journal s = None \<and> tear_of (s_witness s) = None)"
proof (cases "s_journal s")
  case None
  with assms show ?thesis
    by (auto simp: classify_def reading_defs split: option.splits if_splits)
next
  case (Some journal)
  let ?r = "replay_journal L C (sides_project s) journal"
  show ?thesis
  proof (cases "if is_ok ?r then foreign_tail L H (s_root s) journal (s_witness s) else None")
    case foreign: (Some f)
    with assms Some show ?thesis
      by (auto simp: classify_def reading_defs split: if_splits)
  next
    case no_foreign: None
    show ?thesis
    proof (cases "tear_of (s_witness s)")
      case tear: (Some t)
      with assms Some no_foreign show ?thesis
        by (auto simp: classify_def reading_defs)
    next
      case no_tear: None
      with assms Some no_foreign have c: "classify_replayed L C s journal ?r = Damaged d e"
        by (simp add: classify_def Let_def)
      then show ?thesis
        using Some no_tear no_foreign
        by (auto simp: classify_replayed_def reading_defs is_ok_def replay_journal_None
            split: sum.splits option.splits if_splits)
    qed
  qed
qed

end
