(* ===== verification/Recovery.thy ===== *)
theory Recovery
  imports Classify Samples
begin

text \<open>
  What a reopening finds after a crash, and that the remedies a damaged account is offered
  restore it. An append that failed is a crash at an arbitrary point of the two writes.
\<close>

subsection \<open>The two files after a failed append\<close>

lemma append_tails:
  assumes ok: "journal_ok L C ls j"
    and app: "append_in_window L C fl fresh k p a w j = (Err e, j')"
  obtains (same) "bytes_in (journal_file (j_files j')) = unlines ls"
      "bytes_in (witness_file (authority_of (j_files j'))) = unlines ls"
  | (witness_only) rc nxt line n where "prepare L C fresh k p a w j = Inr (rc, nxt, line)"
      "bytes_in (journal_file (j_files j')) = unlines ls"
      "bytes_in (witness_file (authority_of (j_files j'))) = unlines ls @ take n (line @ [newline])"
  | (both) rc nxt line n where "prepare L C fresh k p a w j = Inr (rc, nxt, line)"
      "bytes_in (journal_file (j_files j')) = unlines ls @ take n (line @ [newline])"
      "bytes_in (witness_file (authority_of (j_files j'))) = unlines (ls @ [line])"
proof (cases "prepare L C fresh k p a w j")
  case (Inl e0)
  with ok app show thesis by (intro same) (auto simp: append_in_window_def journal_ok_def files_agree_def)
next
  case (Inr x)
  then obtain rc nxt line where prep: "prepare L C fresh k p a w j = Inr (rc, nxt, line)"
    by (cases x) auto
  note agree = journal_okD(1) [OF ok]
  show thesis
  proof (cases rule: write_receipt_outcomes [OF agree, of fl "j_receipts j = []" "line @ [newline]"])
    case (1 d')
    with app prep show ?thesis by (simp add: append_in_window_def)
  next
    case (2 e' d' n)
    with app prep agree show ?thesis
      by (intro witness_only [OF prep]) (auto simp: append_in_window_def files_agree_def)
  next
    case (3 e' d' n)
    with app prep show ?thesis by (intro both [OF prep]) (auto simp: append_in_window_def)
  qed
qed

lemma whole_receipts_partial:
  assumes "newline \<notin> set line"
  shows "whole_receipts (unlines ls @ take n (line @ [newline])) =
    (if length line < n then unlines (ls @ [line]) else unlines ls)"
proof (cases "length line < n")
  case True
  have "whole_receipts (unlines (ls @ [line])) = unlines (ls @ [line])" by (rule whole_receipts_unlines)
  with True show ?thesis by simp
next
  case False
  then have "newline \<notin> set (take n (line @ [newline]))"
    using assms by (auto dest: in_set_takeD)
  with False show ?thesis by (simp add: whole_receipts_fragment)
qed

lemma journal_ok_replays:
  assumes "journal_ok L C ls j" and "ls \<noteq> []"
  shows "\<exists>r. replay_chain L C (j_project j) (unlines ls) = Inr r \<and> r_state r = j_state j \<and>
    r_receipts r = j_receipts j \<and> r_last_hash r = j_last_hash j"
  using assms replay_chain_unlines [of ls L C "j_project j"] by (auto simp: journal_ok_def)

context codec_laws
begin

lemma prepared_replays:
  assumes ok: "journal_ok L C ls j"
    and fresh: "''receipt:'' @ fresh \<notin> receipt_id ` set (j_receipts j)"
    and prep: "prepare L C fresh k p a w j = Inr (rc, nxt, line)"
  shows "newline \<notin> set line"
    and "\<exists>r. replay_chain L C (j_project j) (unlines (ls @ [line])) = Inr r \<and> r_state r = nxt"
proof -
  show line: "newline \<notin> set line" using prepare_Ok [OF prep] one_line by blast
  from ok obtain r where r: "chain_fold L C (j_project j) ls = Inr r" "r_state r = j_state j"
    "r_receipts r = j_receipts j" "r_last_hash r = j_last_hash j"
    and lines: "\<forall>l \<in> set ls. newline \<notin> set l"
    unfolding journal_ok_def by blast
  have "chain_fold L C (j_project j) (ls @ [line]) =
    Inr \<lparr>r_state = nxt, r_receipts = j_receipts j @ [rc], r_last_hash = Some (digest C line),
         r_ids = bs_insert (receipt_id rc) (r_ids r)\<rparr>"
    using r(1) prepared_line_replays [OF ok fresh prep r]
    by (simp add: chain_fold_def try_fold_append)
  then show "\<exists>r. replay_chain L C (j_project j) (unlines (ls @ [line])) = Inr r \<and> r_state r = nxt"
    using replay_chain_unlines [of "ls @ [line]" L C "j_project j"] lines line by simp
qed

text \<open>The state a file replays to is the one before the append or the one after it.\<close>

lemma partial_replays:
  assumes ok: "journal_ok L C ls j"
    and fresh: "''receipt:'' @ fresh \<notin> receipt_id ` set (j_receipts j)"
    and prep: "prepare L C fresh k p a w j = Inr (rc, nxt, line)"
    and res: "replay_chain L C (j_project j) (unlines ls @ take n (line @ [newline])) = Inr q"
  shows "r_state q = j_state j \<or> r_state q = nxt"
proof -
  note line = prepared_replays [OF ok fresh prep]
  have "whole_receipts (unlines ls @ take n (line @ [newline])) = unlines ls @ take n (line @ [newline])"
    using replay_chain_whole [OF res] .
  with whole_receipts_partial [OF line(1), of ls n] res
  consider "replay_chain L C (j_project j) (unlines ls) = Inr q"
    | "replay_chain L C (j_project j) (unlines (ls @ [line])) = Inr q"
    by (cases "length line < n") auto
  then show ?thesis
  proof cases
    case 1
    then have "ls \<noteq> []" by (auto simp: replay_chain_def)
    with 1 journal_ok_replays [OF ok] show ?thesis by auto
  next
    case 2
    with line(2) show ?thesis by auto
  qed
qed

lemma crash_reading:
  assumes ok: "journal_ok L C ls j" and some: "ls \<noteq> []"
    and fresh: "''receipt:'' @ fresh \<notin> receipt_id ` set (j_receipts j)"
    and app: "append_in_window L C fl fresh k p a w j = (Err e, j')"
  shows "\<exists>r. replay_chain L C (j_project j)
      (whole_receipts (bytes_in (witness_file (authority_of (j_files j'))))) = Inr r \<and>
      (r_state r = j_state j \<or> (\<exists>rc line. prepare L C fresh k p a w j = Inr (rc, r_state r, line)))"
    and "replay_chain L C (j_project j) (bytes_in (journal_file (j_files j'))) = Inr q \<Longrightarrow>
      r_state q = j_state j \<or> (\<exists>rc line. prepare L C fresh k p a w j = Inr (rc, r_state q, line))"
    and "bytes_in (witness_file (authority_of (j_files j'))) \<noteq> []"
proof -
  note old = journal_ok_replays [OF ok some]
  have full: "unlines ls \<noteq> []" using some by (cases ls) auto
  have "(\<exists>r. replay_chain L C (j_project j)
      (whole_receipts (bytes_in (witness_file (authority_of (j_files j'))))) = Inr r \<and>
      (r_state r = j_state j \<or> (\<exists>rc line. prepare L C fresh k p a w j = Inr (rc, r_state r, line)))) \<and>
    (replay_chain L C (j_project j) (bytes_in (journal_file (j_files j'))) = Inr q \<longrightarrow>
      r_state q = j_state j \<or> (\<exists>rc line. prepare L C fresh k p a w j = Inr (rc, r_state q, line))) \<and>
    bytes_in (witness_file (authority_of (j_files j'))) \<noteq> []"
  proof (cases rule: append_tails [OF ok app])
    case 1
    with old full show ?thesis by auto
  next
    case (2 rc nxt line n)
    note line = prepared_replays [OF ok fresh 2(1)]
    have "whole_receipts (bytes_in (witness_file (authority_of (j_files j')))) =
        (if length line < n then unlines (ls @ [line]) else unlines ls)"
      by (simp only: 2(3) whole_receipts_partial [OF line(1)])
    with 2 old line(2) full show ?thesis by (auto simp del: unlines_simps(3) take_append)
  next
    case (3 rc nxt line n)
    note line = prepared_replays [OF ok fresh 3(1)]
    from 3 line full partial_replays [OF ok fresh 3(1), of n q] show ?thesis
      by (auto simp del: unlines_simps(3)) (auto simp: unlines_simps)
  qed
  then show "\<exists>r. replay_chain L C (j_project j)
      (whole_receipts (bytes_in (witness_file (authority_of (j_files j'))))) = Inr r \<and>
      (r_state r = j_state j \<or> (\<exists>rc line. prepare L C fresh k p a w j = Inr (rc, r_state r, line)))"
    and "replay_chain L C (j_project j) (bytes_in (journal_file (j_files j'))) = Inr q \<Longrightarrow>
      r_state q = j_state j \<or> (\<exists>rc line. prepare L C fresh k p a w j = Inr (rc, r_state q, line))"
    and "bytes_in (witness_file (authority_of (j_files j'))) \<noteq> []"
    by blast+
qed

end

text \<open>The two files of a journal, as a reopening reads them.\<close>

definition sides_of :: "string \<Rightarrow> string \<Rightarrow> string \<Rightarrow> files \<Rightarrow> sides" where
  "sides_of root uuid path d =
     \<lparr>s_root = root, s_uuid = uuid, s_witness_path = path,
      s_witness = bytes_in (witness_file (authority_of d)), s_journal = journal_file d\<rparr>"

lemma remedy_damage:
  "restore_command H d \<noteq> None \<longleftrightarrow> d_damage d \<in> {Journal_absent, Journal_truncated, Chain_broken}"
  "set_aside_command H d \<noteq> None \<longleftrightarrow> d_damage d = Foreign_tail"
  "diagnosis_trim_command H d \<noteq> None \<longleftrightarrow> d_damage d = Witness_torn \<and> d_torn d \<noteq> None"
  by (auto simp: restore_command_def set_aside_command_def diagnosis_trim_command_def Let_def
      split: damage.splits option.splits)

lemma set_aside_opens:
  assumes "s_journal s = Some bs" and "is_ok (replay_journal L C (sides_project s) bs)"
  shows "classify L C H (s\<lparr>s_witness := []\<rparr>) = Absent \<and> bs = [] \<or>
    (\<exists>r. classify L C H (s\<lparr>s_witness := []\<rparr>) = Verified r \<and>
       replay_chain L C (sides_project s) bs = Ok r)"
proof (cases "bs = []")
  case True
  with assms(1) show ?thesis by (simp add: classify_Absent bytes_in_def)
next
  case False
  with assms(2) obtain r where r: "replay_chain L C (sides_project s) bs = Inr r"
    by (auto simp: is_ok_def replay_journal_def res_simps split: sum.splits)
  have "s\<lparr>s_journal := Some bs, s_witness := []\<rparr> = s\<lparr>s_witness := []\<rparr>"
    using assms(1) by (cases s) simp
  with classify_copy [OF r, of "[]" H] r show ?thesis by simp
qed

subsection \<open>The properties\<close>

text \<open>C13: The account opens exactly when it should: it reads as verified precisely where the journal
  is there, its chain replays, and the witness is the same bytes or not there yet, and as absent
  precisely where neither file holds a byte. Everything else is damage.\<close>

theorem reading_is_exact:
  "(classify L C H s = Verified r \<longleftrightarrow>
     (\<exists>journal. s_journal s = Some journal \<and> replay_chain L C (sides_project s) journal = Ok r \<and>
        (s_witness s = [] \<or> s_witness s = journal))) \<and>
   (classify L C H s = Absent \<longleftrightarrow> s_witness s = [] \<and> bytes_in (s_journal s) = [])"
  using classify_Verified [of L C H s r] classify_Absent [of L C H s] by simp

text \<open>C11: Every damage a reading of the two files finds is offered a remedy. A restore is offered only
  where the witness holds whole receipts alone, and copying it over the journal opens the account
  wherever the witness replays. A set-aside leaves the project's own journal, which opens. A
  trim cuts the witness to exactly its whole receipts. Retiring is offered for such a damage exactly
  where the journal is not there; a copy of another root's account, for which it is offered beside
  a present journal, is never what this reading finds.\<close>

theorem remedies_repair:
  assumes "classify L C H s = Damaged d e"
  shows "(restore_command H d \<noteq> None \<or> set_aside_command H d \<noteq> None \<or>
      diagnosis_trim_command H d \<noteq> None) \<and>
    (restore_command H d \<noteq> None \<longrightarrow> whole_receipts (s_witness s) = s_witness s \<and>
      (\<forall>r. replay_chain L C (sides_project s) (s_witness s) = Ok r \<longrightarrow>
         classify L C H (s\<lparr>s_journal := Some (s_witness s)\<rparr>) = Verified r)) \<and>
    (set_aside_command H d \<noteq> None \<longrightarrow>
      (\<exists>bs. s_journal s = Some bs \<and>
         (classify L C H (s\<lparr>s_witness := []\<rparr>) = Absent \<and> bs = [] \<or>
          (\<exists>r. classify L C H (s\<lparr>s_witness := []\<rparr>) = Verified r \<and>
             replay_chain L C (sides_project s) bs = Ok r)))) \<and>
    (diagnosis_trim_command H d \<noteq> None \<longrightarrow>
      (\<exists>t. d_torn d = Some t \<and> take (torn_whole t) (s_witness s) = whole_receipts (s_witness s) \<and>
         tear_of (take (torn_whole t) (s_witness s)) = None)) \<and>
    (offers_forget d \<longleftrightarrow> s_journal s = None) \<and> d_damage d \<noteq> Held_elsewhere"
proof -
  note d = classify_Damaged [OF assms]
  have copy: "classify L C H (s\<lparr>s_journal := Some (s_witness s)\<rparr>) = Verified r"
    if "replay_chain L C (sides_project s) (s_witness s) = Inr r" for r
  proof -
    have "s\<lparr>s_journal := Some (s_witness s), s_witness := s_witness s\<rparr> =
        s\<lparr>s_journal := Some (s_witness s)\<rparr>" by simp
    with classify_copy [OF that, of "s_witness s" H] show ?thesis by simp
  qed
  have trim: "take (torn_whole t) (s_witness s) = whole_receipts (s_witness s)"
    if "tear_of (s_witness s) = Some t" for t
    using tear_of_Some [OF that] whole_receipts_take by simp
  have held: "d_damage d \<noteq> Held_elsewhere"
    and torn: "d_damage d = Witness_torn \<Longrightarrow> d_torn d = tear_of (s_witness s) \<and> tear_of (s_witness s) \<noteq> None"
    and whole: "d_damage d \<notin> {Witness_torn, Foreign_tail} \<Longrightarrow> tear_of (s_witness s) = None"
    and foreign: "d_damage d = Foreign_tail \<Longrightarrow> \<exists>bs. s_journal s = Some bs \<and>
      is_ok (replay_journal L C (sides_project s) bs)"
    and present: "d_journal_present d = (s_journal s \<noteq> None)"
    and absent: "d_damage d = Journal_absent \<Longrightarrow> s_journal s = None"
    using d by blast+
  show ?thesis
    unfolding remedy_damage
  proof (intro conjI impI)
    show "d_damage d \<in> {Journal_absent, Journal_truncated, Chain_broken} \<or> d_damage d = Foreign_tail \<or>
        d_damage d = Witness_torn \<and> d_torn d \<noteq> None"
      using held torn by (cases "d_damage d") auto
    assume "d_damage d \<in> {Journal_absent, Journal_truncated, Chain_broken}"
    then have "tear_of (s_witness s) = None" using whole by auto
    then show "whole_receipts (s_witness s) = s_witness s" by (simp add: tear_of_None)
    show "\<forall>r. replay_chain L C (sides_project s) (s_witness s) = Ok r \<longrightarrow>
        classify L C H (s\<lparr>s_journal := Some (s_witness s)\<rparr>) = Verified r"
      using copy by blast
  next
    assume "d_damage d = Foreign_tail"
    with foreign obtain bs where bs: "s_journal s = Some bs"
      "is_ok (replay_journal L C (sides_project s) bs)" by blast
    from set_aside_opens [OF bs, of H] bs(1) show "\<exists>bs. s_journal s = Some bs \<and>
         (classify L C H (s\<lparr>s_witness := []\<rparr>) = Absent \<and> bs = [] \<or>
          (\<exists>r. classify L C H (s\<lparr>s_witness := []\<rparr>) = Verified r \<and>
             replay_chain L C (sides_project s) bs = Ok r))"
      by blast
  next
    assume "d_damage d = Witness_torn \<and> d_torn d \<noteq> None"
    with torn obtain t where t: "d_torn d = Some t" "tear_of (s_witness s) = Some t" by auto
    from trim [OF t(2)] t(1) show "\<exists>t. d_torn d = Some t \<and>
        take (torn_whole t) (s_witness s) = whole_receipts (s_witness s) \<and>
        tear_of (take (torn_whole t) (s_witness s)) = None"
      by (intro exI [of _ t]) (simp only: tear_of_whole)
  next
    have "d_damage d \<in> {Journal_absent, Witness_torn}" if "s_journal s = None"
      using d that by (cases "d_damage d") auto
    with absent present held show "offers_forget d \<longleftrightarrow> s_journal s = None"
      by (cases "d_damage d") (auto simp: offers_forget_def)
  qed (rule held)
qed

definition sample_host :: "json host" where
  "sample_host =
     \<lparr>shell = Posix, directory_exists = (\<lambda>d. False), parse_value = (\<lambda>bs. None)\<rparr>"

theorem remedies_repair_witness:
  "\<exists>bs r. classify json_lib line_codec sample_host
     \<lparr>s_root = ''/p'', s_uuid = ''ab'', s_witness_path = ''/w/history.jsonl'', s_witness = bs,
      s_journal = Some bs\<rparr> = Verified r \<and> length (r_receipts r) = 1"
proof -
  from sample_chain obtain bs r where r: "replay_chain json_lib line_codec ''panta:ab'' bs = Ok r"
    "length (r_receipts r) = 1" by blast
  let ?s = "\<lparr>s_root = ''/p'', s_uuid = ''ab'', s_witness_path = ''/w/history.jsonl'', s_witness = bs,
      s_journal = None\<rparr>"
  have "tear_of bs = None" using replay_chain_whole [OF r(1)] by (simp add: tear_of_None)
  moreover have "bs \<noteq> []" using r(1) by (auto simp: replay_chain_def)
  ultimately obtain d e where d: "classify json_lib line_codec sample_host ?s = Damaged d e"
    "d_damage d = Journal_absent"
    by (auto simp: classify_def reading_defs)
  from d(2) have "restore_command sample_host d \<noteq> None" unfolding remedy_damage by simp
  with remedies_repair [OF d(1)] r show ?thesis
    by (auto simp: sides_project_def)
qed

text \<open>C12: A crash in the middle of an append costs nothing that was recorded. Whatever failed, the
  witness's whole receipts replay to the ledger as it was before the append or as it would have
  been after it; a reopening never finds the account absent, and where it opens it holds one
  of those two ledgers.\<close>

theorem crash_recovers:
  assumes "codec_laws C" and "journal_ok L C ls j" and "ls \<noteq> []"
    and "''receipt:'' @ fresh \<notin> receipt_id ` set (j_receipts j)"
    and "append_in_window L C fl fresh k p a w j = (Err e, j')" and "j_project j = ''panta:'' @ uuid"
  shows "(\<exists>r. replay_chain L C (j_project j)
        (whole_receipts (bytes_in (witness_file (authority_of (j_files j'))))) = Ok r \<and>
        (r_state r = j_state j \<or> (\<exists>rc line. prepare L C fresh k p a w j = Ok (rc, r_state r, line)))) \<and>
    classify L C H (sides_of root uuid path (j_files j')) \<noteq> Absent \<and>
    (\<forall>q. classify L C H (sides_of root uuid path (j_files j')) = Verified q \<longrightarrow>
       r_state q = j_state j \<or> (\<exists>rc line. prepare L C fresh k p a w j = Ok (rc, r_state q, line)))"
proof -
  note crash = codec_laws.crash_reading [OF assms(1-5)]
  have "classify L C H (sides_of root uuid path (j_files j')) \<noteq> Absent"
    using crash(3) by (simp add: classify_Absent sides_of_def)
  moreover have "r_state q = j_state j \<or> (\<exists>rc line. prepare L C fresh k p a w j = Ok (rc, r_state q, line))"
    if "classify L C H (sides_of root uuid path (j_files j')) = Verified q" for q
  proof -
    from that have "replay_chain L C (j_project j) (bytes_in (journal_file (j_files j'))) = Ok q"
      by (auto simp: classify_Verified sides_of_def sides_project_def assms(6) bytes_in_def)
    then show ?thesis by (rule crash(2))
  qed
  ultimately show ?thesis using crash(1) by blast
qed

lemma torn_write:
  assumes "files_agree bs d" and "bs \<noteq> []"
  shows "\<exists>e d'. write_receipt (no_faults\<lparr>j_stop := Some 3, j_cut := Cut_failed\<rparr>) False line d = (Err e, d')"
proof -
  from assms have "held_bytes (authority_of d) \<noteq> []" "journal_file d = Some bs"
    "witness_file (authority_of d) = Some bs"
    by (auto simp: files_agree_def bytes_in_def split: option.splits)
  then show ?thesis
    by (simp add: write_receipt_step append_through_def append_line_def open_journal_def
        no_faults_def Let_def)
qed

theorem crash_recovers_witness:
  "\<exists>e j'. append_in_window json_lib line_codec (no_faults\<lparr>j_stop := Some 3, j_cut := Cut_failed\<rparr>) ''r2''
       ''identity'' sample_binding sample_audit None opened_journal = (Err e, j') \<and>
     classify json_lib line_codec sample_host (sides_of ''/p'' ''ab'' ''/w'' (j_files j')) \<noteq> Absent"
proof -
  from opened_facts(1) obtain ls where ok: "journal_ok json_lib line_codec ls opened_journal"
    by blast
  have some: "ls \<noteq> []" using journal_ok_first [OF ok] opened_facts(7) by auto
  then have "unlines ls \<noteq> []" by (cases ls) auto
  from prepare_bound obtain rc where "prepare json_lib line_codec ''r2'' ''identity''
     sample_binding sample_audit None opened_journal = Inr (rc, bound_state, put_receipt rc)" by blast
  moreover have "(j_receipts opened_journal = []) = False" using opened_facts(7) by auto
  ultimately obtain e j' where torn: "append_in_window json_lib line_codec
      (no_faults\<lparr>j_stop := Some 3, j_cut := Cut_failed\<rparr>) ''r2'' ''identity'' sample_binding sample_audit
      None opened_journal = (Err e, j')"
    using torn_write [OF journal_okD(1) [OF ok] \<open>unlines ls \<noteq> []\<close>, of "put_receipt rc @ [newline]"]
    by (auto simp: append_in_window_def)
  have fresh: "''receipt:'' @ ''r2'' \<notin> receipt_id ` set (j_receipts opened_journal)"
    and uuid: "j_project opened_journal = ''panta:'' @ ''ab''"
    by (simp_all add: opened_facts)
  from crash_recovers [OF lc.codec_laws_axioms ok some fresh torn uuid] torn show ?thesis by blast
qed

end
