(* ===== verification/Opening.thy ===== *)
theory Opening
  imports Recovery
begin

text \<open>
  Opening an account: \<open>Authority::lock_at\<close>, \<open>Journal::load\<close>, \<open>locked_or_damaged\<close> and
  \<open>establish\<close>. What the operating system answers on the way (whether a path resolves, whether
  the lock and the journal open, what day the clock shows) is the record \<open>open_env\<close>; the two
  files are read and written in the model.
\<close>

datatype lock_result = Lock_opened | Lock_missing string | Lock_refused string

record 'v open_env =
  oe_host :: "'v host"
  oe_root :: "string res"
  oe_base :: string
  oe_base_resolved :: "string res"
  oe_prepared :: "unit res"
  oe_witness_unread :: "budget_error option"
  oe_directories :: "unit res"
  oe_lock :: lock_result
  oe_journal_unread :: "string option"
  oe_clock_day :: "string res"
  oe_faults :: faults
  oe_synced :: "unit res"

subsection \<open>The witness\<close>

definition authority_path :: "'v open_env \<Rightarrow> string \<Rightarrow> string" where
  "authority_path E uuid =
     path_join (path_join (path_join (case oe_base_resolved E of Ok b \<Rightarrow> b | Err _ \<Rightarrow> oe_base E)
       ''rhei/budget-authority'') uuid) ''history.jsonl''"

definition authority_lock ::
  "'v lib \<Rightarrow> 'v open_env \<Rightarrow> string \<Rightarrow> disk_file \<Rightarrow> authority res" where
  "authority_lock L E uuid witness =
     tryb (check_uuid L uuid) (\<lambda>_.
     if \<not> is_absolute (oe_base E)
     then Err (corrupt ''budget authority directory must be absolute'') else
     tryb (oe_root E) (\<lambda>root.
     tryb (oe_base_resolved E) (\<lambda>resolved.
     if path_starts_with resolved (path_join root ACCOUNT_DIR)
     then Err (corrupt ''the budget authority cannot live inside the account it witnesses'') else
     tryb (oe_prepared E) (\<lambda>_.
     case oe_witness_unread E of
       Some e \<Rightarrow> Err e
     | None \<Rightarrow>
         Ok \<lparr>held_bytes = bytes_in witness, witness_file = witness, adopted = False\<rparr>))))"

subsection \<open>The journal\<close>

datatype 'v open_result =
  Opened "'v journal"
| Open_damaged diagnosis budget_error
| Open_absent budget_error

definition opened_sides :: "string \<Rightarrow> string \<Rightarrow> string \<Rightarrow> files \<Rightarrow> sides" where
  "opened_sides root uuid witness_path d =
     \<lparr>s_root = root, s_uuid = uuid, s_witness_path = witness_path,
      s_witness = held_bytes (authority_of d), s_journal = journal_file d\<rparr>"

definition journal_load ::
  "'v lib \<Rightarrow> 'v codec \<Rightarrow> 'v open_env \<Rightarrow> string \<Rightarrow> 'v journal \<Rightarrow>
   (diagnosis \<times> budget_error) option res \<times> 'v journal" where
  "journal_load L C E witness_path j =
     (case oe_journal_unread E of
        Some msg \<Rightarrow> (Err (unreachable (journal_path (j_files j)) msg), j)
      | None \<Rightarrow>
          (case classify L C (oe_host E) (opened_sides (j_root j) (account_uuid j) witness_path (j_files j)) of
             Absent \<Rightarrow> (Ok None, j)
           | Damaged d e \<Rightarrow> (Ok (Some (d, e)), j)
           | Verified r \<Rightarrow>
               (let j1 = j\<lparr>j_state := r_state r, j_receipts := r_receipts r,
                           j_last_hash := r_last_hash r\<rparr>;
                    a = authority_of (j_files j)
                in if held_bytes a \<noteq> [] then (Ok None, j1)
                   else case adopt (oe_faults E) (bytes_in (journal_file (j_files j))) a of
                     (Err e, a') \<Rightarrow> (Err e, j1\<lparr>j_files := (j_files j)\<lparr>authority_of := a'\<rparr>\<rparr>)
                   | (Ok _, a') \<Rightarrow> (Ok None, j1\<lparr>j_files := (j_files j)\<lparr>authority_of := a'\<rparr>\<rparr>))))"

definition fresh_journal ::
  "string \<Rightarrow> string \<Rightarrow> bool \<Rightarrow> authority \<Rightarrow> disk_file \<Rightarrow> string \<Rightarrow> 'v journal" where
  "fresh_journal resolved uuid writable a journal path =
     \<lparr>j_files = \<lparr>authority_of = a, journal_path = path, journal_file = journal\<rparr>,
      j_project = ''panta:'' @ uuid, j_root = resolved, j_state = state_default, j_receipts = [],
      j_last_hash = None, j_writable = writable, j_day = []\<rparr>"

definition finish_open :: "'v open_env \<Rightarrow> 'v journal \<Rightarrow> 'v open_result res" where
  "finish_open E j =
     (let j1 = (if unknown_kinds (j_state j) \<noteq> [] then j\<lparr>j_writable := False\<rparr> else j)
      in tryb (oe_clock_day E) (\<lambda>day.
         Ok (Opened (j1\<lparr>j_day := effective_day day (highest_day (j_state j))\<rparr>))))"

definition locked_or_damaged ::
  "'v lib \<Rightarrow> 'v codec \<Rightarrow> 'v open_env \<Rightarrow> string \<Rightarrow> string \<Rightarrow> bool \<Rightarrow> bool \<Rightarrow> disk_file \<Rightarrow> disk_file \<Rightarrow>
   'v open_result res" where
  "locked_or_damaged L C E root uuid writable create witness journal =
     tryb (check_uuid L uuid) (\<lambda>_.
     tryb (authority_lock L E uuid witness) (\<lambda>a.
     let resolved = (case oe_root E of Ok r \<Rightarrow> r | Err _ \<Rightarrow> root);
         path = journal_path_of root uuid;
         lock_path = path @ ''.lock'';
         witness_path = authority_path E uuid
     in
     tryb (if create then oe_directories E else Ok ()) (\<lambda>_.
     case oe_lock E of
       Lock_missing msg \<Rightarrow>
         if \<not> create \<and> journal = None
         then (case classify L C (oe_host E)
                 \<lparr>s_root = resolved, s_uuid = uuid, s_witness_path = witness_path,
                  s_witness = held_bytes a, s_journal = None\<rparr> of
                 Damaged d e \<Rightarrow> Ok (Open_damaged d e)
               | _ \<Rightarrow> Ok (Open_absent (unreachable lock_path msg)))
         else Err (unreachable lock_path msg)
     | Lock_refused msg \<Rightarrow> Err (unreachable lock_path msg)
     | Lock_opened \<Rightarrow>
         (case journal_load L C E witness_path (fresh_journal resolved uuid writable a journal path) of
            (Err e, _) \<Rightarrow> Err e
          | (Ok (Some (d, e)), _) \<Rightarrow> Ok (Open_damaged d e)
          | (Ok None, j) \<Rightarrow> finish_open E j))))"

definition open_refused :: "'v open_result \<Rightarrow> 'v journal res" where
  "open_refused res =
     (case res of Opened j \<Rightarrow> Ok j | Open_damaged _ e \<Rightarrow> Err e | Open_absent e \<Rightarrow> Err e)"

definition journal_locked ::
  "'v lib \<Rightarrow> 'v codec \<Rightarrow> 'v open_env \<Rightarrow> string \<Rightarrow> string \<Rightarrow> bool \<Rightarrow> bool \<Rightarrow> disk_file \<Rightarrow> disk_file \<Rightarrow>
   'v journal res" where
  "journal_locked L C E root uuid writable create witness journal =
     tryb (locked_or_damaged L C E root uuid writable create witness journal) open_refused"

definition journal_open ::
  "'v lib \<Rightarrow> 'v codec \<Rightarrow> 'v open_env \<Rightarrow> string \<Rightarrow> string \<Rightarrow> bool \<Rightarrow> disk_file \<Rightarrow> disk_file \<Rightarrow>
   'v journal res" where
  "journal_open L C E root uuid writable witness journal =
     journal_locked L C E root uuid writable False witness journal"

definition initialize_payload :: "'v lib \<Rightarrow> audit \<Rightarrow> 'v" where
  "initialize_payload L a = mk_obj L [(''contract'', to_json L Window), (''audit'', audit_json L a)]"

definition journal_establish ::
  "'v lib \<Rightarrow> 'v codec \<Rightarrow> 'v open_env \<Rightarrow> string \<Rightarrow> string \<Rightarrow> string \<Rightarrow> audit \<Rightarrow> disk_file \<Rightarrow>
   disk_file \<Rightarrow> unit res \<times> 'v journal option" where
  "journal_establish L C E fresh root uuid a witness journal =
     (case tryb (audit_validate a) (\<lambda>_. journal_locked L C E root uuid True True witness journal) of
        Err e \<Rightarrow> (Err e, None)
      | Ok j \<Rightarrow>
          if contract_of (j_state j) = None
          then (case journal_append L C (oe_faults E) fresh ''initialize'' (initialize_payload L a) a j of
                  (Err e, j') \<Rightarrow> (Err e, Some j')
                | (Ok _, j') \<Rightarrow> (oe_synced E, Some j'))
          else (Ok (), Some j))"

datatype 'v inspection = Inspect_verified "'v journal" | Inspect_damaged diagnosis | Inspect_absent

definition opening_inspection :: "'v open_result \<Rightarrow> 'v inspection" where
  "opening_inspection res =
     (case res of
        Opened j \<Rightarrow> if j_receipts j = [] then Inspect_absent else Inspect_verified j
      | Open_damaged d _ \<Rightarrow> Inspect_damaged d
      | Open_absent _ \<Rightarrow> Inspect_absent)"

subsection \<open>Reopening\<close>

lemma account_uuid_fresh [simp]: "account_uuid (fresh_journal root uuid w a f path) = uuid"
  by (simp add: account_uuid_def fresh_journal_def strip_prefix_def starts_with_def)

lemma fresh_journal_fields [simp]:
  "j_files (fresh_journal root uuid w a f path) =
     \<lparr>authority_of = a, journal_path = path, journal_file = f\<rparr>"
  "j_project (fresh_journal root uuid w a f path) = ''panta:'' @ uuid"
  "j_root (fresh_journal root uuid w a f path) = root"
  "j_state (fresh_journal root uuid w a f path) = state_default"
  "j_receipts (fresh_journal root uuid w a f path) = []"
  "j_writable (fresh_journal root uuid w a f path) = w"
  by (simp_all add: fresh_journal_def)

text \<open>An environment in which the operating system refuses nothing.\<close>

definition open_works :: "'v lib \<Rightarrow> 'v open_env \<Rightarrow> string \<Rightarrow> bool" where
  "open_works L E uuid \<longleftrightarrow>
     check_uuid L uuid = Ok () \<and> is_absolute (oe_base E) \<and>
     (\<exists>root base. oe_root E = Ok root \<and> oe_base_resolved E = Ok base \<and>
        \<not> path_starts_with base (path_join root ACCOUNT_DIR)) \<and>
     oe_prepared E = Ok () \<and> oe_witness_unread E = None \<and> oe_directories E = Ok () \<and>
     oe_lock E = Lock_opened \<and> oe_journal_unread E = None \<and> oe_faults E = no_faults \<and>
     oe_synced E = Ok () \<and> (\<exists>day. oe_clock_day E = Ok day)"

lemma open_works_authority:
  "open_works L E uuid \<Longrightarrow> authority_lock L E uuid witness =
     Ok \<lparr>held_bytes = bytes_in witness, witness_file = witness, adopted = False\<rparr>"
  by (auto simp: open_works_def authority_lock_def)

lemma adopt_no_faults:
  "held_bytes a = [] \<Longrightarrow> adopt no_faults bs a =
     (Ok (), a\<lparr>witness_file := Some bs, held_bytes := bs, adopted := True\<rparr>)"
  by (simp add: adopt_def write_initial_def write_durable_def no_faults_def)

lemma locked_opens:
  assumes works: "open_works L E uuid" and day: "oe_clock_day E = Ok day"
    and r: "replay_chain L C (''panta:'' @ uuid) bs = Ok r" and w: "bytes_in witness = bs \<or> bytes_in witness = []"
  shows "\<exists>j. locked_or_damaged L C E root uuid writable create witness (Some bs) = Ok (Opened j) \<and>
    j_state j = r_state r \<and> j_receipts j = r_receipts r \<and> j_last_hash j = r_last_hash r \<and>
    j_project j = ''panta:'' @ uuid \<and> j_day j = effective_day day (highest_day (r_state r)) \<and>
    j_writable j = (writable \<and> unknown_kinds (r_state r) = []) \<and> files_agree bs (j_files j)"
proof -
  let ?path = "journal_path_of root uuid"
  let ?wp = "authority_path E uuid"
  obtain resolved where resolved: "oe_root E = Ok resolved" using works by (auto simp: open_works_def)
  let ?a = "\<lparr>held_bytes = bytes_in witness, witness_file = witness, adopted = False\<rparr>"
  let ?j = "fresh_journal resolved uuid writable ?a (Some bs) ?path :: 'a journal"
  have bs: "bs \<noteq> []" using r by (auto simp: replay_chain_def)
  let ?d = "\<lparr>authority_of = ?a, journal_path = ?path, journal_file = Some bs\<rparr>"
  have verified: "classify L C (oe_host E) (opened_sides resolved uuid ?wp ?d) = Verified r"
    using r w by (auto simp: classify_Verified opened_sides_def sides_project_def)
  have "\<exists>d. journal_load L C E ?wp ?j = (Ok None, ?j\<lparr>j_state := r_state r,
      j_receipts := r_receipts r, j_last_hash := r_last_hash r, j_files := d\<rparr>) \<and> files_agree bs d"
  proof (cases "bytes_in witness = []")
    case True
    then show ?thesis
      using works verified bs
      by (intro exI [of _ "?d\<lparr>authority_of := ?a\<lparr>witness_file := Some bs, held_bytes := bs,
            adopted := True\<rparr>\<rparr>"])
        (auto simp: journal_load_def open_works_def adopt_no_faults Let_def files_agree_def
          bytes_in_def [of "Some bs"])
  next
    case False
    with w have same: "bytes_in witness = bs" by simp
    with bs have "journal_load L C E ?wp ?j = (Ok None, ?j\<lparr>j_state := r_state r,
      j_receipts := r_receipts r, j_last_hash := r_last_hash r\<rparr>)"
      using works verified by (simp add: journal_load_def open_works_def Let_def)
    moreover have "files_agree bs ?d" using same by (simp add: files_agree_def bytes_in_def)
    moreover have "?j\<lparr>j_state := r_state r, j_receipts := r_receipts r,
        j_last_hash := r_last_hash r, j_files := ?d\<rparr> = ?j\<lparr>j_state := r_state r,
        j_receipts := r_receipts r, j_last_hash := r_last_hash r\<rparr>"
      by (simp add: fresh_journal_def)
    ultimately show ?thesis by (intro exI [of _ ?d]) simp
  qed
  then obtain d where d: "journal_load L C E ?wp ?j = (Ok None, ?j\<lparr>j_state := r_state r,
      j_receipts := r_receipts r, j_last_hash := r_last_hash r, j_files := d\<rparr>)" "files_agree bs d"
    by blast
  have "locked_or_damaged L C E root uuid writable create witness (Some bs) =
    finish_open E (?j\<lparr>j_state := r_state r, j_receipts := r_receipts r,
      j_last_hash := r_last_hash r, j_files := d\<rparr>)"
    using works d(1) by (simp add: locked_or_damaged_def open_works_authority Let_def resolved)
      (auto simp: open_works_def)
  with day d(2) show ?thesis by (auto simp: finish_open_def Let_def)
qed

lemma journal_file_some:
  "journal_ok L C ls j \<Longrightarrow> ls \<noteq> [] \<Longrightarrow> journal_file (j_files j) = Some (unlines ls) \<and>
     bytes_in (witness_file (authority_of (j_files j))) = unlines ls"
  using journal_okD(1) [of L C ls j]
  by (cases ls) (auto simp: files_agree_def bytes_in_def split: option.splits)

lemma reopens:
  assumes ok: "journal_ok L C ls j" and some: "ls \<noteq> []" and uuid: "j_project j = ''panta:'' @ uuid"
    and works: "open_works L E uuid" and day: "oe_clock_day E = Ok day"
    and w: "w = witness_file (authority_of (j_files j)) \<or> w = None"
  shows "\<exists>j2. locked_or_damaged L C E root uuid writable create w (journal_file (j_files j)) = Ok (Opened j2) \<and>
    j_state j2 = j_state j \<and> j_receipts j2 = j_receipts j \<and> journal_ok L C ls j2 \<and>
    j_project j2 = j_project j \<and> j_day j2 = effective_day day (highest_day (j_state j)) \<and>
    j_writable j2 = (writable \<and> unknown_kinds (j_state j) = [])"
proof -
  from journal_ok_replays [OF ok some] uuid obtain r where
    r: "replay_chain L C (''panta:'' @ uuid) (unlines ls) = Inr r" "r_state r = j_state j"
      "r_receipts r = j_receipts j" "r_last_hash r = j_last_hash j" by auto
  have lines: "\<forall>l \<in> set ls. newline \<notin> set l" using ok by (simp add: journal_ok_def)
  have fold: "chain_fold L C (''panta:'' @ uuid) ls = Inr r"
    using r(1) replay_chain_unlines [OF lines some] by metis
  have "bytes_in w = unlines ls \<or> bytes_in w = []"
    using w journal_file_some [OF ok some] by (auto simp: bytes_in_def)
  from locked_opens [OF works day r(1) this] obtain j2 where
    "locked_or_damaged L C E root uuid writable create w (Some (unlines ls)) = Ok (Opened j2)"
    and j2: "j_state j2 = r_state r" "j_receipts j2 = r_receipts r" "j_last_hash j2 = r_last_hash r"
      "j_project j2 = ''panta:'' @ uuid" "j_day j2 = effective_day day (highest_day (r_state r))"
      "j_writable j2 = (writable \<and> unknown_kinds (r_state r) = [])" "files_agree (unlines ls) (j_files j2)"
    by blast
  moreover have "journal_ok L C ls j2"
    using j2 fold lines by (auto simp: journal_ok_def)
  ultimately show ?thesis using r uuid journal_file_some [OF ok some] by auto
qed

lemma opens_absent:
  assumes works: "open_works L E uuid" and day: "oe_clock_day E = Ok day"
  shows "\<exists>j. locked_or_damaged L C E root uuid True create None None = Ok (Opened j) \<and>
    journal_ok L C [] j \<and> j_state j = state_default \<and> j_receipts j = [] \<and>
    j_project j = ''panta:'' @ uuid \<and> j_writable j"
proof -
  obtain resolved where resolved: "oe_root E = Ok resolved" using works by (auto simp: open_works_def)
  let ?a = "\<lparr>held_bytes = [], witness_file = None, adopted = False\<rparr>"
  let ?j = "fresh_journal resolved uuid True ?a None (journal_path_of root uuid) :: 'a journal"
  have "classify L C (oe_host E) (opened_sides resolved uuid (authority_path E uuid) (j_files ?j)) = Absent"
    by (simp add: classify_Absent opened_sides_def bytes_in_def)
  then have "journal_load L C E (authority_path E uuid) ?j = (Ok None, ?j)"
    using works by (simp add: journal_load_def open_works_def)
  then have "locked_or_damaged L C E root uuid True create None None = finish_open E ?j"
    using works by (simp add: locked_or_damaged_def open_works_authority Let_def resolved bytes_in_def)
      (auto simp: open_works_def)
  moreover have "finish_open E ?j = Ok (Opened (?j\<lparr>j_day := effective_day day None\<rparr>))"
    using day by (simp add: finish_open_def Let_def state_default_def)
  moreover have "journal_ok L C [] (?j\<lparr>j_day := effective_day day None\<rparr>)"
    by (simp add: journal_ok_def chain_fold_def replayed_default_def files_agree_def bytes_in_def)
      (simp add: fresh_journal_def)
  ultimately show ?thesis by auto
qed

lemma initialized:
  assumes "json_laws L" and "kind rc = ''initialize''" and "receipt_payload rc = initialize_payload L a"
    and "receipt_window rc = None" and "apply_receipt L rc state_default = Inr s"
  shows "contract_of s = Some Window \<and> reservations s = [] \<and> travel s = [] \<and> unknown_kinds s = []"
proof -
  have "from_json L (vindex L (initialize_payload L a) ''contract'') = Inr Window"
    using json_laws.from_to_json [OF assms(1), of Window]
    by (simp add: initialize_payload_def json_laws.index_obj [OF assms(1)])
  with assms(2-5) show ?thesis
    by (auto simp: apply_receipt_def note_window_def apply_initialize_def state_default_def Let_def)
qed

subsection \<open>The properties\<close>

text \<open>C14: A ledger survives its process: opening the files a transaction left, with the witness
  there or lost, gives back the same state, receipts and chain, writable as asked unless a
  receipt kind is unknown, on a day no earlier than any the chain recorded.\<close>

theorem reopening_restores_the_ledger:
  assumes "journal_ok L C ls j" and "ls \<noteq> []" and "j_project j = ''panta:'' @ uuid"
    and "open_works L E uuid" and "oe_clock_day E = Ok day"
    and "w = witness_file (authority_of (j_files j)) \<or> w = None"
  shows "\<exists>j2. locked_or_damaged L C E root uuid writable create w (journal_file (j_files j)) = Ok (Opened j2) \<and>
    j_state j2 = j_state j \<and> j_receipts j2 = j_receipts j \<and> journal_ok L C ls j2 \<and>
    j_project j2 = j_project j \<and> j_day j2 = effective_day day (highest_day (j_state j)) \<and>
    j_writable j2 = (writable \<and> unknown_kinds (j_state j) = [])"
  by (rule reopens [OF assms])

definition sample_env :: "json open_env" where
  "sample_env =
     \<lparr>oe_host = sample_host, oe_root = Ok ''/p'', oe_base = ''/state'', oe_base_resolved = Ok ''/state'',
      oe_prepared = Ok (), oe_witness_unread = None, oe_directories = Ok (), oe_lock = Lock_opened,
      oe_journal_unread = None, oe_clock_day = Ok ''2026-01-02'', oe_faults = no_faults,
      oe_synced = Ok ()\<rparr>"

lemma sample_works: "open_works json_lib sample_env ''ab''"
  by (simp add: open_works_def sample_env_def check_uuid_def hex_uuid_def is_absolute_def
      path_starts_with_def path_parts_def path_join_def ACCOUNT_DIR_def starts_with_def)

lemma sample_at_lines:
  assumes "sample_at j s used n" and "0 < n"
  shows "\<exists>ls. journal_ok json_lib line_codec ls j \<and> ls \<noteq> [] \<and> j_state j = s \<and>
    j_project j = ''panta:'' @ ''ab''"
proof -
  from assms have "\<exists>ls. journal_ok json_lib line_codec ls j"
    and at: "j_state j = s" "j_project j = ''panta:ab''" "length (j_receipts j) = n"
    unfolding sample_at_def by simp_all
  then obtain ls where ok: "journal_ok json_lib line_codec ls j" by blast
  have "j_receipts j \<noteq> []" using at(3) assms(2) by (metis length_0_conv less_irrefl)
  then have "ls \<noteq> []" using journal_ok_first [OF ok] by auto
  with ok at show ?thesis by (intro exI [of _ ls]) simp
qed

theorem reopening_restores_the_ledger_witness:
  "\<exists>j2 :: json journal. j_state j2 = moved_state \<and> j_day j2 = ''2026-01-02''"
proof -
  from sample_at_lines [OF moved_step(2)] obtain ls where
    ok: "journal_ok json_lib line_codec ls moved_journal" and some: "ls \<noteq> []"
    and at: "j_state moved_journal = moved_state" "j_project moved_journal = ''panta:'' @ ''ab''"
    by auto
  have day: "oe_clock_day sample_env = Ok ''2026-01-02''" by (simp add: sample_env_def)
  have w: "None = witness_file (authority_of (j_files moved_journal)) \<or> None = (None :: disk_file)"
    by simp
  have "highest_day moved_state = Some ''2026-01-02''"
    by (simp add: moved_state_def running_state_def reserved_state_def)
  with reopening_restores_the_ledger [OF ok some at(2) sample_works day w, of root writable create] at(1)
  show ?thesis by (auto simp: effective_day_def)
qed

text \<open>Establishing an absent account mints one empty ledger under the window contract, and only
  once: establishing it again opens what the first establishment wrote and appends nothing.\<close>

theorem establish_mints_once:
  assumes "json_laws L" and "codec_laws C" and "open_works L E uuid"
    and "journal_establish L C E fresh root uuid a None None = (Ok (), Some j)"
  shows "contract_of (j_state j) = Some Window \<and> length (j_receipts j) = 1 \<and>
    (\<forall>d. consumed_count (j_state j) d = 0 \<and> outstanding_count (j_state j) d = 0) \<and>
    (\<exists>j2. journal_establish L C E again root uuid a (witness_file (authority_of (j_files j)))
        (journal_file (j_files j)) = (Ok (), Some j2) \<and>
      j_state j2 = j_state j \<and> j_receipts j2 = j_receipts j)"
proof -
  from assms(3) obtain day where day: "oe_clock_day E = Ok day" by (auto simp: open_works_def)
  from opens_absent [OF assms(3) day, of C root True] obtain j0 where
    open0: "locked_or_damaged L C E root uuid True True None None = Ok (Opened j0)"
    and j0: "journal_ok L C [] j0" "j_state j0 = state_default" "j_receipts j0 = []"
      "j_project j0 = ''panta:'' @ uuid" by blast
  from assms(4) have audit: "audit_validate a = Inr ()"
    by (cases "audit_validate a") (simp_all add: journal_establish_def)
  with assms(4) open0 j0(2) have app: "append_in_window L C (oe_faults E) fresh ''initialize''
      (initialize_payload L a) a None j0 = (Ok (), j)"
    by (auto simp: journal_establish_def journal_locked_def open_refused_def journal_append_def
        state_default_def res_simps split: prod.splits sum.splits)
  have "''receipt:'' @ fresh \<notin> receipt_id ` set (j_receipts j0)" using j0(3) by simp
  from codec_laws.append_keeps [OF assms(2) j0(1) this app] j0(3,4) obtain rc line where
    ok: "journal_ok L C [line] j" and one: "j_receipts j = [rc]"
    and project: "j_project j = ''panta:'' @ uuid" by auto
  from append_Ok [OF app] j0(2) obtain rc' line' where "kind rc' = ''initialize''"
    "receipt_payload rc' = initialize_payload L a" "receipt_window rc' = None"
    "apply_receipt L rc' state_default = Inr (j_state j)" by metis
  note state = initialized [OF assms(1) this]
  from reopens [OF ok _ project assms(3) day, of "witness_file (authority_of (j_files j))" root True True]
  obtain j2 where "locked_or_damaged L C E root uuid True True (witness_file (authority_of (j_files j)))
      (journal_file (j_files j)) = Ok (Opened j2)" "j_state j2 = j_state j" "j_receipts j2 = j_receipts j"
    by auto
  with audit state have "\<exists>j2. journal_establish L C E again root uuid a
      (witness_file (authority_of (j_files j))) (journal_file (j_files j)) = (Ok (), Some j2) \<and>
      j_state j2 = j_state j \<and> j_receipts j2 = j_receipts j"
    by (simp add: journal_establish_def journal_locked_def open_refused_def)
  with state one show ?thesis by (simp add: consumed_count_def outstanding_count_def)
qed

lemma sample_establish:
  "\<exists>j. journal_establish json_lib line_codec sample_env ''r1'' ''/p'' ''ab'' sample_audit None None =
     (Ok (), Some j)"
proof -
  have "oe_clock_day sample_env = Ok ''2026-01-02''" by (simp add: sample_env_def)
  from opens_absent [OF sample_works this, of line_codec "''/p''" True] obtain j0 where
    open0: "locked_or_damaged json_lib line_codec sample_env ''/p'' ''ab'' True True None None = Ok (Opened j0)"
    and j0: "journal_ok json_lib line_codec [] j0" "j_state j0 = state_default" "j_receipts j0 = []"
      "j_writable j0" by blast
  have "\<exists>x. prepare json_lib line_codec ''r1'' ''initialize'' (initialize_payload json_lib sample_audit)
      sample_audit None j0 = Inr x"
    by (simp add: prepare_def sample_audit_ok j0 add_def checked_add_def run_simps
        apply_receipt_def note_window_def apply_initialize_def state_default_def from_json_def
        to_json_def initialize_payload_def)
  with append_no_faults [OF j0(1)] have "fst (append_in_window json_lib line_codec no_faults ''r1''
      ''initialize'' (initialize_payload json_lib sample_audit) sample_audit None j0) = Ok ()" by blast
  then obtain j where "append_in_window json_lib line_codec no_faults ''r1'' ''initialize''
      (initialize_payload json_lib sample_audit) sample_audit None j0 = (Ok (), j)"
    by (metis prod.collapse)
  moreover have "contract_of (j_state j0) = None" "oe_faults sample_env = no_faults"
    "oe_synced sample_env = Ok ()"
    by (simp_all add: j0 state_default_def sample_env_def)
  ultimately show ?thesis
    using open0 by (simp add: journal_establish_def journal_locked_def open_refused_def
        journal_append_def sample_audit_ok)
qed

theorem establish_mints_once_witness:
  "\<exists>j. journal_establish json_lib line_codec sample_env ''r1'' ''/p'' ''ab'' sample_audit None None =
     (Ok (), Some j) \<and> contract_of (j_state j) = Some Window"
proof -
  from sample_establish obtain j where
    "journal_establish json_lib line_codec sample_env ''r1'' ''/p'' ''ab'' sample_audit None None =
     (Ok (), Some j)" by blast
  with establish_mints_once [OF js.json_laws_axioms lc.codec_laws_axioms sample_works this]
  show ?thesis by blast
qed

end
