(* ===== verification/Bounds.thy ===== *)
theory Bounds
  imports Admission_Laws
begin

text \<open>
  The bounds in force and what is said of them: \<open>bounds.rs\<close>, the built-in numbers of
  \<open>mod.rs\<close>, and the live lines of \<open>events.rs\<close>. A bound is resolved from the settings tiers
  and clamped to its active ceiling; a halt names the one thing that raises it.
\<close>

subsection \<open>The built-in numbers\<close>

definition TRANSITION_LIMIT :: u64 where "TRANSITION_LIMIT = 80"
definition INVOCATIONS_PER_DAY :: u64 where "INVOCATIONS_PER_DAY = 200"
definition INVOCATION_LIFETIME_MAX :: u64 where "INVOCATION_LIFETIME_MAX = 6000"
definition SPEND_PER_DAY :: u64 where "SPEND_PER_DAY = 400 * MICRO"
definition SPEND_RESERVE :: u64 where "SPEND_RESERVE = 20 * MICRO"

definition CLAMP_PROJECTS :: string where "CLAMP_PROJECTS = ''defaults.clamp_projects''"

subsection \<open>A bound and where it comes from\<close>

datatype bound_source = Built_in | Machine_set | Project_set | Plan_set | Account_set

fun source_as_str :: "bound_source \<Rightarrow> string" where
  "source_as_str Built_in = ''built_in''"
| "source_as_str Machine_set = ''machine''"
| "source_as_str Project_set = ''project''"
| "source_as_str Plan_set = ''plan''"
| "source_as_str Account_set = ''account''"

datatype bound_unit = Count_unit | Money_unit

definition unit_bare :: "bound_unit \<Rightarrow> u64 \<Rightarrow> string" where
  "unit_bare u v = (case u of Count_unit \<Rightarrow> show_u64 v | Money_unit \<Rightarrow> format_bare v)"

definition unit_amount :: "bound_unit \<Rightarrow> u64 \<Rightarrow> string option \<Rightarrow> string" where
  "unit_amount u v c = (case u of Count_unit \<Rightarrow> show_u64 v | Money_unit \<Rightarrow> format_micro v c)"

datatype limiter = Machine_limit | Project_limit

fun limiter_as_str :: "limiter \<Rightarrow> string" where
  "limiter_as_str Machine_limit = ''machine''"
| "limiter_as_str Project_limit = ''project''"

record settings_files =
  machine_file :: "string option"
  project_file :: "string option"

definition no_settings_files :: settings_files where
  "no_settings_files = \<lparr>machine_file = None, project_file = None\<rparr>"

definition settings_name :: "settings_files \<Rightarrow> limiter \<Rightarrow> string" where
  "settings_name f holder =
     (case (case holder of Machine_limit \<Rightarrow> machine_file f | Project_limit \<Rightarrow> project_file f) of
        Some path \<Rightarrow> path
      | None \<Rightarrow> ''the '' @ limiter_as_str holder @ '' settings file'')"

record bound =
  bound_key :: string
  effective :: u64
  bound_source_of :: bound_source
  requested :: "u64 option"
  bound_unit_of :: bound_unit
  ceiling :: u64
  bound_limiter :: limiter
  bound_files :: settings_files

definition bound_account :: "u64 \<Rightarrow> bound" where
  "bound_account allowed =
     \<lparr>bound_key = ''invocation_allowance'', effective = allowed, bound_source_of = Account_set,
      requested = None, bound_unit_of = Count_unit, ceiling = allowed,
      bound_limiter = Machine_limit, bound_files = no_settings_files\<rparr>"

definition bound_clamp ::
  "bound_unit \<Rightarrow> string \<Rightarrow> u64 \<Rightarrow> limiter \<Rightarrow> u64 \<times> bound_source \<Rightarrow> (u64 \<times> bound_source) option \<Rightarrow> bound" where
  "bound_clamp u key ceil lim fallback req =
     (let (value, source) = (case req of Some r \<Rightarrow> r | None \<Rightarrow> fallback);
          (eff, asked) = (if value > ceil then (ceil, Some value) else (value, None))
      in \<lparr>bound_key = key, effective = eff, bound_source_of = source, requested = asked,
          bound_unit_of = u, ceiling = ceil, bound_limiter = lim, bound_files = no_settings_files\<rparr>)"

definition bound_resolve_in ::
  "bound_unit \<Rightarrow> string \<Rightarrow> u64 \<Rightarrow> u64 option \<Rightarrow> (u64 \<times> bound_source) option \<Rightarrow> bound" where
  "bound_resolve_in u key built_in machine req =
     (let fallback = (case machine of Some v \<Rightarrow> (v, Machine_set) | None \<Rightarrow> (built_in, Built_in));
          ceil = (case machine of Some v \<Rightarrow> v | None \<Rightarrow> built_in)
      in bound_clamp u key ceil Machine_limit fallback req)"

definition bound_resolve ::
  "string \<Rightarrow> u64 \<Rightarrow> u64 option \<Rightarrow> (u64 \<times> bound_source) option \<Rightarrow> bound" where
  "bound_resolve key built_in machine req = bound_resolve_in Count_unit key built_in machine req"

definition bound_resolve_money ::
  "string \<Rightarrow> u64 \<Rightarrow> u64 option \<Rightarrow> (u64 \<times> bound_source) option \<Rightarrow> bound" where
  "bound_resolve_money key built_in machine req = bound_resolve_in Money_unit key built_in machine req"

definition bound_resolve_delegated ::
  "string \<Rightarrow> u64 \<Rightarrow> (u64 \<times> bound_source) option \<Rightarrow> bound" where
  "bound_resolve_delegated key project req =
     bound_clamp Count_unit key project Project_limit (project, Project_set) req"

definition bound_with_files :: "settings_files \<Rightarrow> bound \<Rightarrow> bound" where
  "bound_with_files f b = b\<lparr>bound_files := f\<rparr>"

definition limited_by_ceiling :: "bound \<Rightarrow> bool" where
  "limited_by_ceiling b \<longleftrightarrow> bound_source_of b \<noteq> Account_set \<and> effective b = ceiling b"

definition delegated :: "bound \<Rightarrow> bool" where
  "delegated b \<longleftrightarrow> bound_limiter b = Project_limit"

subsection \<open>What is said of a bound\<close>

definition bound_phrase :: "(u64 \<Rightarrow> string) \<Rightarrow> bound \<Rightarrow> string" where
  "bound_phrase write b =
     (case requested b of
        Some asked \<Rightarrow>
          write (effective b) @ '' (requested '' @ write asked @ '' by the '' @
          source_as_str (bound_source_of b) @ '', limited by '' @ limiter_as_str (bound_limiter b) @
          '' settings)''
      | None \<Rightarrow> write (effective b) @ '' ('' @ source_as_str (bound_source_of b) @ '')'')"

definition value_phrase :: "bound \<Rightarrow> string" where
  "value_phrase b = bound_phrase (unit_bare (bound_unit_of b)) b"

definition amount_phrase :: "string option \<Rightarrow> bound \<Rightarrow> string" where
  "amount_phrase c b = bound_phrase (\<lambda>v. unit_amount (bound_unit_of b) v c) b"

definition report_line :: "bound \<Rightarrow> string" where
  "report_line b = bound_key b @ '': '' @ value_phrase b"

definition ceiling_line :: "bound \<Rightarrow> string option" where
  "ceiling_line b =
     (if delegated b
      then Some (bound_key b @ '' ceiling: '' @ unit_bare (bound_unit_of b) (ceiling b) @
             '' (project, '' @ settings_name (bound_files b) Project_limit @ '')'')
      else None)"

definition ceiling_halt_phrase :: "string option \<Rightarrow> bound \<Rightarrow> string option" where
  "ceiling_halt_phrase c b =
     (if delegated b
      then Some (unit_amount (bound_unit_of b) (ceiling b) c @ '' (project, '' @
             settings_name (bound_files b) Project_limit @ ''; delegated by '' @ CLAMP_PROJECTS @
             ''=false in '' @ settings_name (bound_files b) Machine_limit @ '')'')
      else None)"

text \<open>\<open>Bound::remedy\<close> asserts that it is not asked of an account bound; the assertion is \<open>None\<close>.\<close>

definition bound_remedy :: "bound \<Rightarrow> string option" where
  "bound_remedy b =
     (if bound_source_of b = Account_set then None
      else if limited_by_ceiling b
      then Some (''set `defaults.'' @ bound_key b @ ''` in '' @ settings_name (bound_files b) (bound_limiter b))
      else if bound_source_of b = Project_set
      then Some (''set `defaults.'' @ bound_key b @ ''` in '' @ settings_name (bound_files b) Project_limit)
      else Some (''set `'' @ bound_key b @ ''` on the node's profile in the state machine''))"

definition ceiling_policy_line :: "bound list \<Rightarrow> string option" where
  "ceiling_policy_line bs =
     (case filter delegated bs of
        [] \<Rightarrow> None
      | b # ds \<Rightarrow>
          Some (''count ceiling policy: delegated '' @ join '', '' (map bound_key (b # ds)) @ '' by '' @
            CLAMP_PROJECTS @ ''=false in '' @ settings_name (bound_files b) Machine_limit))"

datatype remedy =
  Raise
| Renews string
| Adjust string
| Raise_then_adjust "string list" u64 string

definition remedy_render :: "remedy \<Rightarrow> bound \<Rightarrow> string option" where
  "remedy_render r b =
     (case r of
        Raise \<Rightarrow> bound_remedy b
      | Renews at \<Rightarrow> Some (''wait: the window renews at '' @ at)
      | Adjust command \<Rightarrow> Some (''run `'' @ command @ ''`'')
      | Raise_then_adjust ceilings allowed command \<Rightarrow>
          Some (join '', '' (map (\<lambda>c. c @ '' above '' @ show_u64 allowed) ceilings) @
            '', then run `'' @ command @ ''`''))"

definition renews_at :: "remedy \<Rightarrow> string option" where
  "renews_at r = (case r of Renews at \<Rightarrow> Some at | _ \<Rightarrow> None)"

definition halt_row :: "string \<Rightarrow> string \<Rightarrow> string" where
  "halt_row label v = ''       '' @ label @ replicate (13 - length label) CHR '' '' @ v"

definition halt_headline :: "exhaustion \<Rightarrow> string" where
  "halt_headline spent =
     (case spent_dimension spent of
        Travel \<Rightarrow> ''error: ticket '' @ quoted (spent_subject spent) @ '' has spent its travel bound''
      | Invocations \<Rightarrow>
          (case spent_contract spent of
             Window \<Rightarrow> ''error: project '' @ quoted (spent_subject spent) @
               '' has spent today's invocation capacity''
           | Lifetime _ \<Rightarrow> ''error: project '' @ quoted (spent_subject spent) @
               '' has spent its invocation allowance'')
      | Spend \<Rightarrow> ''error: project '' @ quoted (spent_subject spent) @
          '' has spent today's measured budget'')"

definition halt_mode :: "exhaustion \<Rightarrow> string" where
  "halt_mode spent =
     (case spent_dimension spent of
        Travel \<Rightarrow> ''per ticket identity''
      | Invocations \<Rightarrow>
          (case spent_contract spent of
             Window \<Rightarrow> ''window ('' @ spent_day spent @ ''Z)''
           | Lifetime _ \<Rightarrow> ''lifetime'')
      | Spend \<Rightarrow> ''window ('' @ spent_day spent @ ''Z)'')"

definition remaining_or_zero :: "counter \<Rightarrow> u64 \<Rightarrow> u64" where
  "remaining_or_zero c limit = (case remaining c limit of Ok n \<Rightarrow> n | Err _ \<Rightarrow> 0)"

definition halt_lines :: "exhaustion \<Rightarrow> bound \<Rightarrow> remedy \<Rightarrow> spend_marks \<Rightarrow> string list option" where
  "halt_lines spent b r m =
     (let currency = spent_currency spent;
          amount = (\<lambda>v. unit_amount (bound_unit_of b) v currency);
          c = spent_counter spent
      in case (case renews_at r of
                 Some at \<Rightarrow> Some (halt_row ''renews at:'' at)
               | None \<Rightarrow> map_option (halt_row ''to raise it:'') (remedy_render r b)) of
           None \<Rightarrow> None
         | Some how \<Rightarrow>
             Some ([halt_headline spent,
                    halt_row ''dimension:'' (dimension_label (spent_dimension spent)),
                    halt_row ''bound:'' (amount_phrase currency b)] @
               (case ceiling_halt_phrase currency b of
                  Some p \<Rightarrow> [halt_row ''ceiling:'' p] | None \<Rightarrow> []) @
               [halt_row ''consumed:''
                  (amount (consumed c) @ ''  outstanding: '' @ amount (reserved c) @ ''  remaining: '' @
                   amount (remaining_or_zero c (spent_bound spent)))] @
               (case marks_row m SPEND_RESERVE currency of
                  Some e \<Rightarrow> halt_row ''estimated:'' e # map (halt_row []) (continuations m)
                | None \<Rightarrow> []) @
               [halt_row ''mode:'' (halt_mode spent), how]))"

definition halt_text :: "exhaustion \<Rightarrow> bound \<Rightarrow> remedy \<Rightarrow> spend_marks \<Rightarrow> string option" where
  "halt_text spent b r m = map_option (join newline_char) (halt_lines spent b r m)"

subsection \<open>The live lines\<close>

record budget_line =
  line_dimension :: string
  line_bound :: u64
  line_consumed :: u64
  line_outstanding :: u64
  line_remaining :: u64
  line_mode :: string
  line_currency :: "string option"
  line_marks :: spend_marks

definition line_is_money :: "budget_line \<Rightarrow> bool" where
  "line_is_money l \<longleftrightarrow> line_dimension l = dimension_label Spend"

definition line_write :: "budget_line \<Rightarrow> u64 \<Rightarrow> string" where
  "line_write l v = (if line_is_money l then format_micro v (line_currency l) else show_u64 v)"

definition line_render :: "budget_line \<Rightarrow> string" where
  "line_render l =
     line_dimension l @ '': '' @ line_write l (line_consumed l) @ '' consumed + '' @
     line_write l (line_outstanding l) @ '' outstanding / '' @ line_write l (line_bound l) @ ''; '' @
     line_write l (line_remaining l) @ '' remaining ('' @ line_mode l @ '')''"

definition line_marks_line :: "budget_line \<Rightarrow> string option" where
  "line_marks_line l =
     (case marks_row (line_marks l) SPEND_RESERVE (line_currency l) of
        None \<Rightarrow> None
      | Some written \<Rightarrow>
          Some (join newline_char
            ((''  estimated:   '' @ written) #
             map (\<lambda>g. replicate 15 CHR '' '' @ g) (continuations (line_marks l)))))"

datatype budget_event =
  Budget_snapshot "budget_line list"
| Budget_halt "string option" string string

definition event_message :: "budget_event \<Rightarrow> string" where
  "event_message e =
     (case e of
        Budget_halt _ _ halt \<Rightarrow> halt
      | Budget_snapshot ls \<Rightarrow> join ''; '' (map line_render ls))"

definition count_line :: "dimension \<Rightarrow> u64 \<Rightarrow> counter \<Rightarrow> u64 \<Rightarrow> string \<Rightarrow> budget_line" where
  "count_line d limit c left mode =
     \<lparr>line_dimension = dimension_label d, line_bound = limit, line_consumed = consumed c,
      line_outstanding = reserved c, line_remaining = left, line_mode = mode,
      line_currency = None, line_marks = marks_default\<rparr>"

definition journal_lines ::
  "'v lib \<Rightarrow> 'v journal \<Rightarrow> string option \<Rightarrow> u64 \<Rightarrow> u64 \<Rightarrow> u64 \<Rightarrow> (string \<Rightarrow> bool) \<Rightarrow>
   budget_line list res" where
  "journal_lines L j tkt per_day travel_bound per_day_spend is_run_gone =
     tryb (journal_snapshot L j) (\<lambda>snap.
     let limit = invocation_bound snap per_day in
     tryb (remaining (invocations snap) limit) (\<lambda>left.
     tryb (remaining (snap_spend snap) per_day_spend) (\<lambda>spend_left.
     let first = count_line Invocations limit (invocations snap) left
           (case snap_contract snap of
              Window \<Rightarrow> ''window ('' @ snap_day snap @ ''Z)'' | Lifetime _ \<Rightarrow> ''lifetime'');
         second = (count_line Spend per_day_spend (snap_spend snap) spend_left
           (''window ('' @ snap_day snap @ ''Z)''))
             \<lparr>line_currency := snap_currency snap, line_marks := snapshot_marks snap is_run_gone\<rparr>
     in case tkt of
          None \<Rightarrow> Ok [first, second]
        | Some t \<Rightarrow>
            tryb (remaining (travel_for snap t) travel_bound) (\<lambda>travel_left.
            Ok [first, second,
                count_line Travel travel_bound (travel_for snap t) travel_left
                  ''per ticket identity'']))))"

end
