(* ===== verification/Bounds_Claims.thy ===== *)
theory Bounds_Claims
  imports Bounds Samples
begin

text \<open>
  What holds of the bounds in force: a clamped bound sends its reader to the number that
  limits it, the live lines foretell admission, and a refusal for exhaustion is true and can
  be rendered.
\<close>

subsection \<open>The ceiling\<close>

definition resolution ::
  "((u64 \<times> bound_source) option \<Rightarrow> bound) \<Rightarrow> u64 \<Rightarrow> limiter \<Rightarrow> string \<Rightarrow> bool" where
  "resolution f ceil lim key \<longleftrightarrow>
     (\<exists>u s files. s \<noteq> Account_set \<and>
        f = (\<lambda>req. bound_with_files files (bound_clamp u key ceil lim (ceil, s) req)))"

lemma resolutionI:
  "s \<noteq> Account_set \<Longrightarrow>
   resolution (\<lambda>req. bound_with_files files (bound_clamp u key ceil lim (ceil, s) req)) ceil lim key"
  by (auto simp: resolution_def)

lemma resolution_in:
  "resolution (\<lambda>req. bound_with_files files (bound_resolve_in u key built_in machine req))
     (case machine of Some m \<Rightarrow> m | None \<Rightarrow> built_in) Machine_limit key"
  by (cases machine) (simp_all add: bound_resolve_in_def resolutionI)

lemma resolution_delegated:
  "resolution (\<lambda>req. bound_with_files files (bound_resolve_delegated key project req))
     project Project_limit key"
  by (simp add: bound_resolve_delegated_def resolutionI)

lemma resolution_effective:
  assumes "resolution f ceil lim key"
  shows "effective (f req) = (case req of Some (v, s) \<Rightarrow> min v ceil | None \<Rightarrow> ceil)"
    and "ceiling (f req) = ceil" and "bound_limiter (f req) = lim" and "bound_key (f req) = key"
    and "(\<forall>v s. req = Some (v, s) \<longrightarrow> s \<noteq> Account_set) \<Longrightarrow> bound_source_of (f req) \<noteq> Account_set"
    and "requested (f req) = (case req of Some (v, s) \<Rightarrow> if v > ceil then Some v else None | None \<Rightarrow> None)"
  using assms
  by (auto simp: resolution_def bound_with_files_def bound_clamp_def Let_def min_def not_less
      split: option.splits prod.splits)

lemma resolution_files:
  "resolution f ceil lim key \<Longrightarrow> \<exists>files. \<forall>req. bound_files (f req) = files"
  by (auto simp: resolution_def bound_with_files_def)

lemma unat_suc:
  fixes v :: u64
  assumes "v < c"
  shows "unat (v + 1) = unat v + 1"
proof -
  have "unat v < unat c" using assms by (simp add: word_less_nat_alt)
  then have "unat v + 1 < 18446744073709551616" using unat_u64_lt [of c] by linarith
  then show ?thesis by (simp add: unat_word_ariths)
qed

subsection \<open>The live lines\<close>

lemma remaining_Ok:
  "remaining c limit = Ok left \<longleftrightarrow>
   (\<exists>e. exposure c = Ok e \<and> unat left = unat limit - (unat (consumed c) + unat (reserved c)))"
  by (auto simp: remaining_def res_simps exposure_Ok unat_saturating_sub)
     (metis exposure_Ok unat_saturating_sub word_unat_eq_iff)

lemma room_Ok:
  assumes "exposure c = Ok e" and "0 < unat units" and "remaining c limit = Ok left"
  shows "(\<exists>n. add e units = Ok n \<and> \<not> n > limit) \<longleftrightarrow> unat units \<le> unat left"
proof -
  have e: "unat e = unat (consumed c) + unat (reserved c)" using assms(1) by (simp add: exposure_Ok)
  have left: "unat left = unat limit - unat e" using assms(3) e by (auto simp: remaining_Ok)
  show ?thesis
  proof
    assume "\<exists>n. add e units = Ok n \<and> \<not> n > limit"
    then show "unat units \<le> unat left" using left by (auto simp: add_Ok word_less_nat_alt)
  next
    assume "unat units \<le> unat left"
    with left assms(2) have le: "unat e + unat units \<le> unat limit" by linarith
    with unat_u64_lt [of limit] have "unat e + unat units < 2 ^ 64" by (simp del: unat_u64_lt)
    with add_total obtain n where "add e units = Ok n" "unat n = unat e + unat units" by blast
    with le show "\<exists>n. add e units = Ok n \<and> \<not> n > limit" by (auto simp: word_less_nat_alt)
  qed
qed

subsection \<open>The properties\<close>

text \<open>A bound sends its reader to the number that limits it. Where the ceiling limits, the remedy
  names the file that holds the ceiling, and no inner request whatever gives more; where it does
  not, the inner request is what is in force and raising it by one raises the bound by one. The
  value asked for is kept exactly when it was lowered, and then a ceiling one higher gives more.\<close>

theorem remedy_names_the_limiter:
  assumes "f = (\<lambda>req. bound_with_files files (bound_resolve_in u key built_in machine req)) \<and>
      ceil = (case machine of Some m \<Rightarrow> m | None \<Rightarrow> built_in) \<and> lim = Machine_limit \<or>
    f = (\<lambda>req. bound_with_files files (bound_resolve_delegated key project req)) \<and>
      ceil = project \<and> lim = Project_limit"
    and "\<forall>v s. req = Some (v, s) \<longrightarrow> s \<noteq> Account_set"
  shows "(limited_by_ceiling (f req) \<longrightarrow>
      bound_remedy (f req) = Some (''set `defaults.'' @ key @ ''` in '' @ settings_name files lim) \<and>
      (\<forall>r. effective (f r) \<le> effective (f req))) \<and>
    (\<not> limited_by_ceiling (f req) \<longrightarrow>
      (\<exists>v s. req = Some (v, s) \<and> effective (f req) = v \<and> v < ceil \<and>
         effective (f (Some (v + 1, s))) = v + 1)) \<and>
    (requested (f req) \<noteq> None \<longleftrightarrow> (\<exists>v s. req = Some (v, s) \<and> effective (f req) < v))"
proof -
  have f: "resolution f ceil lim key" and files: "bound_files (f req) = files"
    using assms(1) resolution_in [of files u key built_in machine]
      resolution_delegated [of files key project]
    by (auto simp: bound_with_files_def)
  note eff = resolution_effective [OF f]
  have account: "bound_source_of (f req) \<noteq> Account_set" by (rule eff(5) [OF assms(2)])
  have at_most: "effective (f r) \<le> ceil" for r by (auto simp: eff(1) split: option.splits)
  have suc: "v \<le> ceil \<Longrightarrow> v \<noteq> ceil \<Longrightarrow> \<not> ceil < v + 1" for v
    using unat_suc [of v ceil] by (simp add: word_le_nat_alt word_less_nat_alt word_unat_eq_iff)
  have limited: "limited_by_ceiling (f req) \<longleftrightarrow> effective (f req) = ceil"
    using account by (simp add: limited_by_ceiling_def eff(2))
  have "bound_remedy (f req) = Some (''set `defaults.'' @ key @ ''` in '' @ settings_name files lim)"
    if "limited_by_ceiling (f req)"
    using that account by (simp add: bound_remedy_def eff(3,4) files)
  moreover have "\<exists>v s. req = Some (v, s) \<and> effective (f req) = v \<and> v < ceil \<and>
      effective (f (Some (v + 1, s))) = v + 1" if "\<not> limited_by_ceiling (f req)"
    using that suc by (auto simp: limited eff(1) min_def not_le split: option.splits if_splits)
  moreover have "requested (f req) \<noteq> None \<longleftrightarrow> (\<exists>v s. req = Some (v, s) \<and> effective (f req) < v)"
    by (auto simp: eff(1,6) split: option.splits)
  ultimately show ?thesis using at_most limited by auto
qed

theorem remedy_names_the_limiter_witness:
  "limited_by_ceiling (bound_with_files no_settings_files
     (bound_resolve_in Count_unit ''transition_limit'' TRANSITION_LIMIT None (Some (90, Plan_set))))"
proof -
  let ?f = "\<lambda>req. bound_with_files no_settings_files
     (bound_resolve_in Count_unit ''transition_limit'' TRANSITION_LIMIT None req)"
  have "\<not> (\<exists>v s. Some (90, Plan_set) = Some (v, s) \<and> effective (?f (Some (90, Plan_set))) = v)"
    by (simp add: bound_with_files_def bound_resolve_in_def bound_clamp_def TRANSITION_LIMIT_def)
  with remedy_names_the_limiter [of ?f no_settings_files Count_unit "''transition_limit''"
      TRANSITION_LIMIT None TRANSITION_LIMIT Machine_limit 0 "Some (90, Plan_set)"]
  show ?thesis by auto
qed

lemma journal_lines_Ok:
  assumes "journal_lines L j tkt per_day travel_bound per_day_spend gone = Ok ls"
  obtains snap left spend_left where "journal_snapshot L j = Ok snap"
    and "remaining (invocations snap) (invocation_bound snap per_day) = Ok left"
    and "remaining (snap_spend snap) per_day_spend = Ok spend_left"
    and "line_remaining (ls ! 0) = left" and "line_remaining (ls ! 1) = spend_left"
    and "\<And>t. tkt = Some t \<Longrightarrow>
      remaining (travel_for snap t) travel_bound = Ok (line_remaining (ls ! 2))"
  using assms
  by (auto simp: journal_lines_def res_simps Let_def count_line_def split: option.splits)

text \<open>The live lines foretell admission: where the run's lines can be written, what they say
  remains is exactly what the three checks of an admission would grant, of invocations, of the
  day's money (a fanout whose worst case is positive) and of a ticket's travel.\<close>

theorem live_lines_foretell_admission:
  assumes "journal_lines L j (Some tkt) per_day travel_bound per_day_spend gone = Ok ls"
  shows "\<exists>snap. journal_snapshot L j = Ok snap \<and> length ls = 3 \<and>
    (\<forall>req units. 0 < unat units \<longrightarrow>
       (check_invocations snap req units (invocation_bound snap per_day) = Ok () \<longleftrightarrow>
        unat units \<le> unat (line_remaining (ls ! 0)))) \<and>
    (\<forall>req units. 0 < unat (req_reserve_micro req) * unat units \<longrightarrow>
       (check_spend snap req units per_day_spend = Ok () \<longleftrightarrow>
        unat (req_reserve_micro req) * unat units \<le> unat (line_remaining (ls ! 1)))) \<and>
    (\<forall>display. check_travel snap tkt display travel_bound = Ok () \<longleftrightarrow>
        1 \<le> unat (line_remaining (ls ! 2)))"
proof -
  from journal_lines_Ok [OF assms] obtain snap left spend_left where
    snap: "journal_snapshot L j = Ok snap"
    and left: "remaining (invocations snap) (invocation_bound snap per_day) = Ok left"
      "remaining (snap_spend snap) per_day_spend = Ok spend_left"
      "remaining (travel_for snap tkt) travel_bound = Ok (line_remaining (ls ! 2))"
    and lines: "line_remaining (ls ! 0) = left" "line_remaining (ls ! 1) = spend_left" by metis
  have three: "length ls = 3"
    using assms by (auto simp: journal_lines_def res_simps Let_def)
  from left obtain e1 e2 e3 where e: "exposure (invocations snap) = Ok e1"
    "exposure (snap_spend snap) = Ok e2" "exposure (travel_for snap tkt) = Ok e3"
    unfolding remaining_Ok by blast
  have "check_invocations snap req units (invocation_bound snap per_day) = Ok () \<longleftrightarrow>
      unat units \<le> unat left" if "0 < unat units" for req and units :: u64
    using room_Ok [OF e(1) that left(1)] e(1) by (simp add: check_invocations_Ok)
  moreover have "check_travel snap tkt display travel_bound = Ok () \<longleftrightarrow>
      1 \<le> unat (line_remaining (ls ! 2))" for display
    using room_Ok [OF e(3) _ left(3), of 1] e(3) by (simp add: check_travel_Ok)
  moreover have "check_spend snap req units per_day_spend = Ok () \<longleftrightarrow>
      unat (req_reserve_micro req) * unat units \<le> unat spend_left"
    if "0 < unat (req_reserve_micro req) * unat units" for req and units :: u64
  proof (cases "checked_mul (req_reserve_micro req) units")
    case None
    then have "18446744073709551616 \<le> unat (req_reserve_micro req) * unat units"
      by (auto simp: checked_mul_def split: if_splits)
    then have "\<not> unat (req_reserve_micro req) * unat units \<le> unat spend_left"
      using unat_u64_lt [of spend_left] by linarith
    with None show ?thesis by (simp add: check_spend_Ok)
  next
    case (Some m)
    then have m: "unat m = unat (req_reserve_micro req) * unat units" by (rule checked_mul_unat)
    with room_Ok [OF e(2) _ left(2), of m] that Some e(2) show ?thesis
      by (simp add: check_spend_Ok)
  qed
  ultimately show ?thesis using snap three lines by blast
qed

theorem live_lines_foretell_admission_witness:
  "\<exists>ls :: budget_line list. journal_lines json_lib bound_journal (Some ''ticket:ab:c0'')
     INVOCATIONS_PER_DAY TRANSITION_LIMIT SPEND_PER_DAY (\<lambda>_. False) = Ok ls \<and>
     line_remaining (ls ! 0) = INVOCATIONS_PER_DAY"
proof -
  obtain ls where ls: "journal_lines json_lib bound_journal (Some ''ticket:ab:c0'')
     INVOCATIONS_PER_DAY TRANSITION_LIMIT SPEND_PER_DAY (\<lambda>_. False) = Ok ls"
    "line_remaining (ls ! 0) = INVOCATIONS_PER_DAY"
    by (simp add: journal_lines_def sample_snapshot remaining_def exposure_def add_def
        checked_add_def counter_default_def travel_for_def counter_or_default_def Let_def
        count_line_def invocation_bound_def saturating_sub_def)
  with live_lines_foretell_admission [OF ls(1)] show ?thesis by blast
qed

subsection \<open>A refusal for exhaustion is true\<close>

text \<open>A step that can fail, but never for exhaustion.\<close>

definition plain :: "'a res \<Rightarrow> bool" where
  "plain r \<longleftrightarrow> (\<forall>e. r = Err e \<longrightarrow> exhausted_by e = None)"

named_theorems plain_rules

lemma plain_basic [plain_rules]:
  "plain (Ok x)" "exhausted_by e = None \<Longrightarrow> plain (Err e)"
  "exhausted_by e = None \<Longrightarrow> plain (ok_or e v)"
  by (auto simp: plain_def ok_or_Err)

lemma plain_tryb [plain_rules]: "plain m \<Longrightarrow> (\<And>x. m = Ok x \<Longrightarrow> plain (f x)) \<Longrightarrow> plain (tryb m f)"
  by (auto simp: plain_def tryb_Err)

lemma plain_if [plain_rules]: "(c \<Longrightarrow> plain m) \<Longrightarrow> (\<not> c \<Longrightarrow> plain n) \<Longrightarrow> plain (if c then m else n)"
  by simp

lemma plain_fold [plain_rules]: "(\<And>x s. plain (f x s)) \<Longrightarrow> plain (try_fold f xs s)"
  by (induction xs arbitrary: s) (auto intro: plain_rules)

lemma plain_errors [plain_rules]:
  "exhausted_by (corrupt msg) = None" "exhausted_by (error_new code msg) = None"
  "exhausted_by (error_bounds msg) = None" "exhausted_by (unavailable d why) = None"
  "exhausted_by (currency_conflict label held wanted) = None"
  by (simp_all add: corrupt_def error_new_def error_bounds_def unavailable_def currency_conflict_def)

lemma plain_add [plain_rules]: "plain (add a b)"
  by (auto simp: plain_def add_Err plain_errors)

lemma plain_exposure [plain_rules]: "plain (exposure c)"
  by (simp add: exposure_def plain_add)

lemma plain_authenticate: "plain (authenticate_ancestor L j req)"
  by (auto simp: authenticate_ancestor_def place_under_def Let_def split: option.split intro!: plain_rules)

lemma plain_currency: "plain (check_currency snap req)"
  by (auto simp: check_currency_def split: option.split intro!: plain_rules)

lemma plain_attempts: "plain (try_fold (attempt_step s) arms [])"
  by (auto simp: attempt_step_def intro!: plain_rules)

lemma plain_drawn: "plain (descendants_drawn L s parent)"
  by (auto simp: descendants_drawn_def drawn_step_def intro!: plain_rules split: option.split)

lemma plain_envelope: "plain (check_envelope L s anc units)"
  by (auto simp: check_envelope_def intro!: plain_rules plain_drawn split: ancestry.split)

lemma plain_counter: "plain (state_counter s d)"
  by (auto simp: state_counter_def counter_step_def Let_def intro!: plain_rules)

lemma plain_basis: "plain (count_basis L basis rc a)"
  by (cases basis) (auto simp: count_basis_def Let_def intro!: plain_rules)

lemma plain_spend: "plain (state_spend L s day)"
  by (auto simp: state_spend_def spend_step_def Let_def intro!: plain_rules plain_basis
      split: option.split)

lemma plain_snapshot: "plain (journal_snapshot L j)"
  by (auto simp: journal_snapshot_def state_snapshot_def lifetime_counter_def held_step_def Let_def
      intro!: plain_rules plain_counter plain_spend split: contract.split)

text \<open>What each of the three checks refuses with, when it refuses for exhaustion.\<close>

definition exceeded :: "exhaustion \<Rightarrow> nat \<Rightarrow> bool" where
  "exceeded x asked \<longleftrightarrow>
     unat (spent_bound x) < unat (consumed (spent_counter x)) + unat (reserved (spent_counter x)) + asked"

lemma check_travel_exhausted:
  assumes "check_travel snap tkt display limit = Err e" and "exhausted_by e = Some x"
  shows "spent_dimension x = Travel \<and> spent_counter x = travel_for snap tkt \<and>
    spent_bound x = limit \<and> exceeded x 1"
  using assms plain_exposure [of "travel_for snap tkt"]
  by (auto simp: check_travel_def Let_def res_simps add_Err plain_errors plain_def exceeded_def
      travel_exhausted_def error_exhausted_def add_Ok exposure_Ok word_less_nat_alt
      split: if_splits)

lemma check_invocations_exhausted:
  assumes "check_invocations snap req units limit = Err e" and "exhausted_by e = Some x"
  shows "spent_dimension x = Invocations \<and> spent_counter x = invocations snap \<and>
    spent_bound x = limit \<and> exceeded x (unat units)"
  using assms plain_exposure [of "invocations snap"]
  by (auto simp: check_invocations_def Let_def res_simps add_Err plain_errors plain_def exceeded_def
      error_exhausted_def add_Ok exposure_Ok word_less_nat_alt
      split: if_splits)

lemma check_spend_exhausted:
  assumes "check_spend snap req units limit = Err e" and "exhausted_by e = Some x"
  shows "spent_dimension x = Spend \<and> consumed (spent_counter x) = consumed (snap_spend snap) \<and>
    unat (reserved (spent_counter x)) =
      unat (reserved (snap_spend snap)) + unat (req_reserve_micro req) * unat units \<and>
    spent_bound x = limit \<and> exceeded x 0"
  using assms plain_exposure [of "snap_spend snap"]
  by (auto simp: check_spend_def Let_def res_simps add_Err plain_errors plain_def exceeded_def
      spend_exhausted_def error_exhausted_def add_Ok exposure_Ok word_less_nat_alt checked_mul_Some
      split: if_splits)

lemma preview_exhausted:
  assumes "validate_identity_sources L W j = Ok ()" and "preview L W j req b = Err e"
    and "exhausted_by e = Some x"
  obtains snap where "journal_snapshot L j = Ok snap"
    and "req_travel req \<and>
        check_travel snap (req_ticket req) (req_display req) (transition_limit b) = Err e \<or>
      check_invocations snap req (of_nat (length (req_arms req)))
        (invocation_bound snap (invocations_per_day b)) = Err e \<or>
      check_spend snap req (of_nat (length (req_arms req))) (spend_per_day b) = Err e"
proof -
  have no: "authenticate_ancestor L j req \<noteq> Err e" "journal_snapshot L j \<noteq> Err e"
    "check_currency snap req \<noteq> Err e" "check_envelope L (j_state j) anc units \<noteq> Err e"
    "try_fold (attempt_step (j_state j)) (req_arms req) [] \<noteq> Err e"
    for snap :: "'a snapshot" and anc units
    using assms(3) plain_authenticate [of L j req] plain_snapshot [of L j]
      plain_currency [of snap req] plain_envelope [of L "j_state j" anc units]
      plain_attempts [of "j_state j" "req_arms req"]
    by (auto simp: plain_def)
  with assms that show ?thesis
    by (auto simp: preview_def res_simps Let_def plain_errors split: if_splits)
qed

text \<open>C15: A refusal for exhaustion is true and can be told: where admission refuses naming an
  exhausted dimension, the numbers it names are the ledger's own at that moment (with the
  fanout's worst case added to the day's outstanding money) and what was asked does not fit in
  the bound it names; and the halt that reports it can be written whatever remedy applies, an
  account bound alone needing one of its own.\<close>

theorem exhaustion_is_true:
  assumes "validate_identity_sources L W j = Ok ()" and "preview L W j req b = Err e"
    and "exhausted_by e = Some x"
  shows "\<exists>snap. journal_snapshot L j = Ok snap \<and>
    (case spent_dimension x of
       Travel \<Rightarrow> req_travel req \<and> spent_counter x = travel_for snap (req_ticket req) \<and>
         spent_bound x = transition_limit b \<and> exceeded x 1
     | Invocations \<Rightarrow> spent_counter x = invocations snap \<and>
         spent_bound x = invocation_bound snap (invocations_per_day b) \<and>
         exceeded x (unat (of_nat (length (req_arms req)) :: u64))
     | Spend \<Rightarrow> spent_bound x = spend_per_day b \<and> exceeded x 0 \<and>
         consumed (spent_counter x) = consumed (snap_spend snap) \<and>
         unat (reserved (spent_counter x)) = unat (reserved (snap_spend snap)) +
           unat (req_reserve_micro req) * unat (of_nat (length (req_arms req)) :: u64)) \<and>
    (\<forall>bnd r m. bound_source_of bnd \<noteq> Account_set \<or> r \<noteq> Raise \<longrightarrow> halt_text x bnd r m \<noteq> None)"
proof -
  have told: "halt_text x bnd r m \<noteq> None" if "bound_source_of bnd \<noteq> Account_set \<or> r \<noteq> Raise"
    for bnd r m
    using that by (cases r)
      (simp_all add: halt_text_def halt_lines_def Let_def renews_at_def remedy_render_def bound_remedy_def)
  from preview_exhausted [OF assms] obtain snap where snap: "journal_snapshot L j = Ok snap"
    and refused: "req_travel req \<and>
        check_travel snap (req_ticket req) (req_display req) (transition_limit b) = Err e \<or>
      check_invocations snap req (of_nat (length (req_arms req)))
        (invocation_bound snap (invocations_per_day b)) = Err e \<or>
      check_spend snap req (of_nat (length (req_arms req))) (spend_per_day b) = Err e" by blast
  with check_travel_exhausted [OF _ assms(3)] check_invocations_exhausted [OF _ assms(3)]
    check_spend_exhausted [OF _ assms(3)] told
  show ?thesis by (elim disjE conjE; fastforce intro: exI [of _ snap])
qed

theorem exhaustion_is_true_witness:
  "\<exists>e x. preview json_lib sample_world bound_journal sample_request
      (sample_bounds\<lparr>invocations_per_day := 0\<rparr>) = Err e \<and> exhausted_by e = Some x \<and> exceeded x 1"
proof -
  have "identity_installed json_lib bound_journal ''ticket:ab:c0''"
    by (simp add: identity_installed_def bound_facts bound_state_def run_simps)
      (simp add: sample_binding_def identity_payload_def)
  then obtain e x where e: "preview json_lib sample_world bound_journal sample_request
      (sample_bounds\<lparr>invocations_per_day := 0\<rparr>) = Err e" "exhausted_by e = Some x"
      "spent_dimension x = Invocations"
    by (simp add: preview_def sample_live sample_request_def authenticate_ancestor_def
        sample_snapshot check_currency_def check_travel_def travel_for_def counter_or_default_def
        exposure_def counter_default_def add_def checked_add_def sample_bounds_def Let_def
        check_invocations_def invocation_bound_def error_exhausted_def)
  from exhaustion_is_true [OF sample_live e(1,2)] e show ?thesis
    by (auto simp: sample_request_def)
qed

end
