(* ===== verification/Roots.thy ===== *)
theory Roots
  imports Opening
begin

text \<open>
  The witness index (\<open>budget/roots.rs\<close>): which canonical root holds each account on this
  machine, and what a root presenting an account may do. A root is the list of its path's
  components, which is what \<open>PathBuf\<close> orders by. The index is one file every process reads and
  replaces whole; a replacement that fails leaves it as it was.
\<close>

type_synonym root = "string list"
type_synonym roots = "(root, string) bmap"

text \<open>What \<open>read_dir\<close> gives of \<open>budgets/\<close>: nothing there, or its entries in some order, each a
  name and whether it is a directory.\<close>

type_synonym listing = "(string \<times> bool) res list option res"

subsection \<open>The account a root holds on disk\<close>

definition local_step :: "'v lib \<Rightarrow> string \<Rightarrow> (string \<times> bool) res \<Rightarrow> string option \<Rightarrow> string option res" where
  "local_step L directory entry found =
     tryb entry (\<lambda>(name, is_dir).
     if \<not> is_dir then Ok found
     else case check_uuid L name of
       Err _ \<Rightarrow> Ok found
     | Ok _ \<Rightarrow>
         if found \<noteq> None
         then Err (corrupt (directory @ '' holds more than one account directory''))
         else Ok (Some name))"

definition local_uuid :: "'v lib \<Rightarrow> (root \<Rightarrow> listing) \<Rightarrow> root \<Rightarrow> string option res" where
  "local_uuid L fs root =
     tryb (fs root) (\<lambda>entries.
     case entries of
       None \<Rightarrow> Ok None
     | Some es \<Rightarrow> try_fold (local_step L (path_join (parts_path root) ACCOUNT_DIR)) es None)"

definition holds :: "'v lib \<Rightarrow> (root \<Rightarrow> listing) \<Rightarrow> root \<Rightarrow> string \<Rightarrow> bool" where
  "holds L fs root uuid =
     (case local_uuid L fs root of Ok found \<Rightarrow> found = Some uuid | Err _ \<Rightarrow> True)"

subsection \<open>The four readings\<close>

datatype roots_reading = Home | Adopted | Copy root | Move "root list"

definition bound_roots :: "roots \<Rightarrow> string \<Rightarrow> root list" where
  "bound_roots index uuid = map fst (filter (\<lambda>(_, held). held = uuid) index)"

definition roots_read ::
  "'v lib \<Rightarrow> (root \<Rightarrow> listing) \<Rightarrow> roots \<Rightarrow> root \<Rightarrow> string \<Rightarrow> roots_reading" where
  "roots_read L fs index root uuid =
     (let bound = bound_roots index uuid
      in if root \<in> set bound then Home
         else if bound = [] then Adopted
         else case find (\<lambda>b. holds L fs b uuid) bound of
           Some holder \<Rightarrow> Copy holder
         | None \<Rightarrow> Move bound)"

definition moved_warning :: "string \<Rightarrow> root \<Rightarrow> root \<Rightarrow> string" where
  "moved_warning uuid root old =
     ''warning: budget account panta:'' @ uuid @ '' moved to '' @ parts_path root @
     ''; it was held at '' @ parts_path old @ '', which no longer holds it''"

definition rebound :: "roots \<Rightarrow> root \<Rightarrow> string \<Rightarrow> root list \<Rightarrow> roots" where
  "rebound index root uuid stale = bm_insert root uuid (fold bm_remove stale index)"

definition index_write :: "unit res \<Rightarrow> roots \<Rightarrow> roots \<Rightarrow> unit res \<times> roots" where
  "index_write written new old =
     (case written of Ok _ \<Rightarrow> (Ok (), new) | Err e \<Rightarrow> (Err e, old))"

text \<open>
  Settling reads the index twice, because another process may have written between the first
  read and the lock; each read may fail. \<open>visit\<close> is what the machine answers on the way: the
  directories and the index at the first read, the lock (already held by this thread, or the
  outcome of taking it), the directories and the index under the lock, and the outcome of the
  replacement.
\<close>

record visit =
  seen_listing :: "root \<Rightarrow> listing"
  seen_index :: "roots res"
  lock_held :: bool
  lock_taken :: "unit res"
  under_listing :: "root \<Rightarrow> listing"
  under_index :: "roots res"
  index_written :: "unit res"

text \<open>The second half: the outcome, the index after it, and what is said on stderr.\<close>

definition settle_under ::
  "'v lib \<Rightarrow> (root \<Rightarrow> listing) \<Rightarrow> unit res \<Rightarrow> roots \<Rightarrow> root \<Rightarrow> string \<Rightarrow>
   root option res \<times> roots \<times> string list" where
  "settle_under L fs written index root uuid =
     (let record_here = (\<lambda>stale.
            case index_write written (rebound index root uuid stale) index of
              (Err e, after) \<Rightarrow> (Err e, after, [])
            | (Ok _, after) \<Rightarrow> (Ok None, after,
                (case stale of [] \<Rightarrow> [] | old # _ \<Rightarrow> [moved_warning uuid root old])))
      in case roots_read L fs index root uuid of
           Home \<Rightarrow> (Ok None, index, [])
         | Copy holder \<Rightarrow> (Ok (Some holder), index, [])
         | Adopted \<Rightarrow> record_here []
         | Move stale \<Rightarrow> record_here stale)"

definition settle ::
  "'v lib \<Rightarrow> visit \<Rightarrow> root \<Rightarrow> string \<Rightarrow> root option res \<times> roots option \<times> string list" where
  "settle L V root uuid =
     (case seen_index V of
        Err e \<Rightarrow> (Err e, None, [])
      | Ok index \<Rightarrow>
          (case roots_read L (seen_listing V) index root uuid of
             Home \<Rightarrow> (Ok None, None, [])
           | Copy holder \<Rightarrow> (Ok (Some holder), None, [])
           | _ \<Rightarrow>
               (case tryb (if lock_held V then Ok () else lock_taken V) (\<lambda>_. under_index V) of
                  Err e \<Rightarrow> (Err e, None, [])
                | Ok index2 \<Rightarrow>
                    (case settle_under L (under_listing V) (index_written V) index2 root uuid of
                       (r, after, told) \<Rightarrow> (r, Some after, told)))))"

subsection \<open>The other uses of the index\<close>

definition held_elsewhere_refusal :: "root \<Rightarrow> string \<Rightarrow> root \<Rightarrow> budget_error" where
  "held_elsewhere_refusal root uuid holder =
     offering_forget
       (error_new ''untrustworthy_ledger''
          (''budget account panta:'' @ uuid @ '' belongs to another project root: '' @
           parts_path root @ '' presents it, but '' @ parts_path holder @
           '' still holds it, so this charge would be written into the history of '' @
           parts_path holder))
       ''if this is a copy, give it an account of its own with''
       (Some (''if it is meant to replace '' @ parts_path holder @
          '', move or delete that project first''))"

definition witnessed_root :: "roots res \<Rightarrow> string \<Rightarrow> root option res" where
  "witnessed_root index uuid =
     tryb index (\<lambda>m. Ok (map_option fst (find (\<lambda>(_, held). held = uuid) m)))"

definition record_root :: "roots res \<Rightarrow> unit res \<Rightarrow> root \<Rightarrow> string \<Rightarrow> unit res \<times> roots option" where
  "record_root index written root uuid =
     (case index of
        Err e \<Rightarrow> (Err e, None)
      | Ok m \<Rightarrow> (case index_write written (bm_insert root uuid m) m of (r, after) \<Rightarrow> (r, Some after)))"

definition retract_root :: "roots res \<Rightarrow> unit res \<Rightarrow> root \<Rightarrow> unit res \<times> roots option" where
  "retract_root index written root =
     (case index of
        Err e \<Rightarrow> (Err e, None)
      | Ok m \<Rightarrow>
          if bm_get m root = None then (Ok (), Some m)
          else (case index_write written (bm_remove root m) m of (r, after) \<Rightarrow> (r, Some after)))"

end
