(* ===== verification/Accounts.thy ===== *)
theory Accounts
  imports Roots
begin

text \<open>
  Resolving a project to its one account (\<open>budget/account.rs\<close>): locating it, refusing a copy,
  establishing and inspecting it, and retiring a root. What a retirement moves on disk is the
  record \<open>site\<close>; every call that can fail does so at a place the record \<open>retire_faults\<close> names.
\<close>

record account =
  acc_root :: root
  acc_uuid :: string
  acc_held_by :: "root option"

definition account_directory :: "account \<Rightarrow> string" where
  "account_directory acc = path_join (path_join (parts_path (acc_root acc)) ACCOUNT_DIR) (acc_uuid acc)"

definition ticket_identity :: "account \<Rightarrow> string \<Rightarrow> string" where
  "ticket_identity acc ticket_uuid = ''ticket:'' @ acc_uuid acc @ '':'' @ ticket_uuid"

subsection \<open>Locating, establishing, opening\<close>

text \<open>What the machine answers along the way: the canonical root, what settling meets, the index
  as a later lookup or recording reads it, and the outcome of that recording.\<close>

record place =
  place_root :: "root res"
  place_visit :: visit
  place_index :: "roots res"
  place_written :: "unit res"

definition locate ::
  "'v lib \<Rightarrow> place \<Rightarrow> account option res \<times> roots option \<times> string list" where
  "locate L P =
     (case tryb (place_root P) (\<lambda>root.
             tryb (local_uuid L (seen_listing (place_visit P)) root) (\<lambda>found. Ok (root, found))) of
        Err e \<Rightarrow> (Err e, None, [])
      | Ok (root, Some uuid) \<Rightarrow>
          (case settle L (place_visit P) root uuid of
             (held, index, told) \<Rightarrow>
               (tryb held (\<lambda>holder.
                  Ok (Some \<lparr>acc_root = root, acc_uuid = uuid, acc_held_by = holder\<rparr>)), index, told))
      | Ok (root, None) \<Rightarrow>
          (tryb (place_index P) (\<lambda>index.
             Ok (map_option (\<lambda>uuid. \<lparr>acc_root = root, acc_uuid = uuid, acc_held_by = None\<rparr>)
                   (bm_get index root))), None, []))"

definition refuse_copy :: "account \<Rightarrow> unit res" where
  "refuse_copy acc =
     (case acc_held_by acc of
        Some holder \<Rightarrow> Err (held_elsewhere_refusal (acc_root acc) (acc_uuid acc) holder)
      | None \<Rightarrow> Ok ())"

text \<open>Where there is no account a fresh uuid is recorded before anything else; the index after
  \<open>establish\<close> is the one settling wrote, or the one the recording wrote.\<close>

definition located_or_minted ::
  "'v lib \<Rightarrow> place \<Rightarrow> string \<Rightarrow> account res \<times> roots option \<times> string list" where
  "located_or_minted L P minted =
     (case locate L P of
        (Err e, index, told) \<Rightarrow> (Err e, index, told)
      | (Ok (Some acc), index, told) \<Rightarrow> (Ok acc, index, told)
      | (Ok None, _, told) \<Rightarrow>
          (case place_root P of
             Err e \<Rightarrow> (Err e, None, told)
           | Ok root \<Rightarrow>
               (case record_root (place_index P) (place_written P) root minted of
                  (Err e, index) \<Rightarrow> (Err e, index, told)
                | (Ok _, index) \<Rightarrow>
                    (Ok \<lparr>acc_root = root, acc_uuid = minted, acc_held_by = None\<rparr>, index, told))))"

definition account_establish ::
  "'v lib \<Rightarrow> 'v codec \<Rightarrow> 'v open_env \<Rightarrow> place \<Rightarrow> string \<Rightarrow> string \<Rightarrow> audit \<Rightarrow>
   (string \<Rightarrow> disk_file) \<Rightarrow> (string \<Rightarrow> disk_file) \<Rightarrow>
   (account \<times> 'v journal) res \<times> roots option \<times> string list" where
  "account_establish L C E P minted fresh a witness journal =
     (case located_or_minted L P minted of
        (r, index, told) \<Rightarrow>
          (tryb r (\<lambda>acc.
           tryb (refuse_copy acc) (\<lambda>_.
           case journal_establish L C E fresh (parts_path (acc_root acc)) (acc_uuid acc) a
                  (witness (acc_uuid acc)) (journal (acc_uuid acc)) of
             (Ok _, Some j) \<Rightarrow> Ok (acc, j)
           | (Ok _, None) \<Rightarrow> Err (corrupt ''no journal was established'')
           | (Err e, _) \<Rightarrow> Err e)), index, told))"

definition account_open ::
  "'v lib \<Rightarrow> 'v codec \<Rightarrow> 'v open_env \<Rightarrow> account \<Rightarrow> bool \<Rightarrow> disk_file \<Rightarrow> disk_file \<Rightarrow> 'v journal res" where
  "account_open L C E acc writable witness journal =
     tryb (refuse_copy acc) (\<lambda>_.
     journal_open L C E (parts_path (acc_root acc)) (acc_uuid acc) writable witness journal)"

definition account_verify ::
  "'v lib \<Rightarrow> 'v codec \<Rightarrow> 'v open_env \<Rightarrow> account \<Rightarrow> disk_file \<Rightarrow> disk_file \<Rightarrow> unit res" where
  "account_verify L C E acc witness journal =
     tryb (refuse_copy acc) (\<lambda>_.
     tryb (locked_or_damaged L C E (parts_path (acc_root acc)) (acc_uuid acc) False False witness journal)
       (\<lambda>found.
     case found of
       Opened _ \<Rightarrow> Ok ()
     | Open_absent _ \<Rightarrow> Ok ()
     | Open_damaged _ e \<Rightarrow> Err e))"

definition account_inspect ::
  "'v lib \<Rightarrow> 'v codec \<Rightarrow> 'v open_env \<Rightarrow> account \<Rightarrow> disk_file \<Rightarrow> disk_file \<Rightarrow> 'v inspection res" where
  "account_inspect L C E acc witness journal =
     (case acc_held_by acc of
        Some holder \<Rightarrow>
          tryb (authority_lock L E (acc_uuid acc) witness) (\<lambda>authority.
          let project = ''panta:'' @ acc_uuid acc;
              h = history_read L C project (held_bytes authority)
          in Ok (Inspect_damaged (diagnosed_held_by (parts_path holder)
               (diagnosis_new Held_elsewhere (parts_path (acc_root acc)) (acc_uuid acc)
                  (authority_path E (acc_uuid acc)) h))))
      | None \<Rightarrow>
          tryb (locked_or_damaged L C E (parts_path (acc_root acc)) (acc_uuid acc) False False
                  witness journal) (\<lambda>found. Ok (opening_inspection found)))"

subsection \<open>Retiring\<close>

record retired =
  retired_uuid :: string
  retired_root :: root
  retired_kept_at :: string
  retired_damage :: damage
  retired_history :: history

datatype retirement =
  Retired retired
| Sound
| Restore_instead diagnosis
| Nothing_to_retire

text \<open>
  What a retirement works on: the index, the account directory of this root and the journal in
  it, the witness under its live name, and what is kept under a retired name, a witness or a
  copy's claim, with whether its receipt is beside it.
\<close>

record 'v kept =
  kept_path :: string
  kept_bytes :: disk_file
  kept_receipt :: "'v option"

record 'v site =
  site_index :: roots
  site_directory :: bool
  site_journal :: disk_file
  site_witness :: disk_file
  site_kept :: "'v kept option"
  site_claim :: "'v kept option"

record retire_faults =
  rf_index :: "unit res"
  rf_index_written :: "unit res"
  rf_dropped :: "unit res"
  rf_base :: "unit res"
  rf_moved :: "unit res"
  rf_receipt :: "unit res"
  rf_synced :: "unit res"

definition stamp :: "string \<Rightarrow> string" where
  "stamp written = filter is_ascii_alphanumeric written"

definition retirement_receipt ::
  "'v lib \<Rightarrow> account \<Rightarrow> damage \<Rightarrow> audit \<Rightarrow> history \<Rightarrow> 'v" where
  "retirement_receipt L acc dmg a h =
     mk_obj L
       ([(''schema'', mk_str L ''rhei.budget.retirement.v1''), (''uuid'', mk_str L (acc_uuid acc)),
         (''root'', mk_str L (parts_path (acc_root acc))), (''damage'', mk_str L (damage_as_str dmg))] @
        (case acc_held_by acc of
           Some holder \<Rightarrow> [(''held_by'', mk_str L (parts_path holder))] | None \<Rightarrow> []) @
        [(''actor'', mk_str L (audit_actor a)), (''written_at'', mk_str L (audit_written_at a)),
         (''reason'', mk_str L (audit_reason a)),
         (''argv'', mk_arr L (map (mk_str L) (audit_argv a))),
         (''receipts'', mk_u64 L (of_nat (receipts_held h))),
         (''invocations'', mk_u64 L (invocations_charged h))])"

definition read_journal :: "'v open_env \<Rightarrow> string \<Rightarrow> disk_file \<Rightarrow> disk_file res" where
  "read_journal E path journal =
     (case oe_journal_unread E of Some msg \<Rightarrow> Err (unreachable path msg) | None \<Rightarrow> Ok journal)"

definition site_retract :: "retire_faults \<Rightarrow> root \<Rightarrow> 'v site \<Rightarrow> unit res \<times> 'v site" where
  "site_retract rf root s =
     (case retract_root (tryb (rf_index rf) (\<lambda>_. Ok (site_index s))) (rf_index_written rf) root of
        (r, Some index) \<Rightarrow> (r, s\<lparr>site_index := index\<rparr>)
      | (r, None) \<Rightarrow> (r, s))"

definition drop_empty_account_directory :: "retire_faults \<Rightarrow> 'v site \<Rightarrow> unit res \<times> 'v site" where
  "drop_empty_account_directory rf s =
     (if \<not> site_directory s \<or> site_journal s \<noteq> None then (Ok (), s)
      else case rf_dropped rf of
        Ok _ \<Rightarrow> (Ok (), s\<lparr>site_directory := False\<rparr>)
      | Err e \<Rightarrow> (Err e, s))"

text \<open>\<open>retired/\<close> beside the directory of a witness.\<close>

definition retired_base :: "string \<Rightarrow> string" where
  "retired_base witness =
     (case Option.bind (path_parent witness) path_parent of
        Some base \<Rightarrow> path_join base ''retired'' | None \<Rightarrow> ''retired'')"

text \<open>The whole witness directory moves in one rename, and its receipt is written afterwards.\<close>

definition authority_retire ::
  "retire_faults \<Rightarrow> string \<Rightarrow> 'v \<Rightarrow> 'v site \<Rightarrow> string res \<times> 'v site" where
  "authority_retire rf path receipt s =
     (case tryb (rf_base rf) (\<lambda>_. rf_moved rf) of
        Err e \<Rightarrow> (Err e, s)
      | Ok _ \<Rightarrow>
          (let moved = \<lparr>kept_path = path, kept_bytes = site_witness s, kept_receipt = None\<rparr>;
               s1 = s\<lparr>site_witness := None, site_kept := Some moved\<rparr>
           in case rf_receipt rf of
                Err e \<Rightarrow> (Err e, s1)
              | Ok _ \<Rightarrow>
                  (let s2 = s1\<lparr>site_kept := Some (moved\<lparr>kept_receipt := Some receipt\<rparr>)\<rparr>
                   in case rf_synced rf of Err e \<Rightarrow> (Err e, s2) | Ok _ \<Rightarrow> (Ok path, s2))))"

definition retire_claim ::
  "'v lib \<Rightarrow> 'v codec \<Rightarrow> 'v open_env \<Rightarrow> retire_faults \<Rightarrow> account \<Rightarrow> audit \<Rightarrow> 'v site \<Rightarrow>
   retirement res \<times> 'v site" where
  "retire_claim L C E rf acc a s =
     (case tryb (read_journal E (journal_path_of (parts_path (acc_root acc)) (acc_uuid acc)) (site_journal s))
             (\<lambda>journal. tryb (rf_base rf) (\<lambda>_. tryb (rf_moved rf) (\<lambda>_. Ok journal))) of
        Err e \<Rightarrow> (Err e, s)
      | Ok journal \<Rightarrow>
          (let h = history_read L C (''panta:'' @ acc_uuid acc) (bytes_in journal);
               at = path_join (path_join (path_join (parts_path (acc_root acc)) ACCOUNT_DIR) ''retired'')
                      (acc_uuid acc @ ''-'' @ stamp (audit_written_at a));
               receipt = retirement_receipt L acc Held_elsewhere a h;
               moved = \<lparr>kept_path = at, kept_bytes = site_journal s, kept_receipt = None\<rparr>;
               s1 = s\<lparr>site_directory := False, site_journal := None, site_claim := Some moved\<rparr>
           in case rf_receipt rf of
                Err e \<Rightarrow> (Err e, s1)
              | Ok _ \<Rightarrow>
                  (let s2 = s1\<lparr>site_claim := Some (moved\<lparr>kept_receipt := Some receipt\<rparr>)\<rparr>
                   in case rf_synced rf of
                        Err e \<Rightarrow> (Err e, s2)
                      | Ok _ \<Rightarrow> (Ok (Retired \<lparr>retired_uuid = acc_uuid acc, retired_root = acc_root acc,
                          retired_kept_at = at, retired_damage = Held_elsewhere,
                          retired_history = h\<rparr>), s2))))"

definition retire_witness ::
  "'v lib \<Rightarrow> 'v open_env \<Rightarrow> retire_faults \<Rightarrow> account \<Rightarrow> audit \<Rightarrow> diagnosis \<Rightarrow> 'v site \<Rightarrow>
   retirement res \<times> 'v site" where
  "retire_witness L E rf acc a d s =
     (let receipt = retirement_receipt L acc (d_damage d) a (d_history d);
          at = path_join (retired_base (d_witness d)) (acc_uuid acc @ ''-'' @ stamp (audit_written_at a))
      in case site_retract rf (acc_root acc) s of
           (Err e, s1) \<Rightarrow> (Err e, s1)
         | (Ok _, s1) \<Rightarrow>
             (case drop_empty_account_directory rf s1 of
                (Err e, s2) \<Rightarrow> (Err e, s2)
              | (Ok _, s2) \<Rightarrow>
                  (case authority_retire rf at receipt s2 of
                     (Err e, s3) \<Rightarrow> (Err e, s3)
                   | (Ok kept_at, s3) \<Rightarrow>
                       (Ok (Retired \<lparr>retired_uuid = acc_uuid acc, retired_root = acc_root acc,
                          retired_kept_at = kept_at, retired_damage = d_damage d,
                          retired_history = d_history d\<rparr>), s3))))"

definition retire ::
  "'v lib \<Rightarrow> 'v codec \<Rightarrow> 'v open_env \<Rightarrow> retire_faults \<Rightarrow> account \<Rightarrow> audit \<Rightarrow> 'v site \<Rightarrow>
   retirement res \<times> 'v site" where
  "retire L C E rf acc a s =
     (case audit_validate a of
        Err e \<Rightarrow> (Err e, s)
      | Ok _ \<Rightarrow>
          if acc_held_by acc \<noteq> None then retire_claim L C E rf acc a s
          else case authority_lock L E (acc_uuid acc) (site_witness s) of
            Err e \<Rightarrow> (Err e, s)
          | Ok authority \<Rightarrow>
              if held_bytes authority = [] then (Ok Nothing_to_retire, s)
              else case read_journal E (journal_path_of (parts_path (acc_root acc)) (acc_uuid acc))
                          (site_journal s) of
                Err e \<Rightarrow> (Err e, s)
              | Ok journal \<Rightarrow>
                  (case classify L C (oe_host E)
                          \<lparr>s_root = parts_path (acc_root acc), s_uuid = acc_uuid acc,
                           s_witness_path = authority_path E (acc_uuid acc),
                           s_witness = held_bytes authority, s_journal = journal\<rparr> of
                     Verified _ \<Rightarrow> (Ok Sound, s)
                   | Absent \<Rightarrow> (Ok Nothing_to_retire, s)
                   | Damaged d _ \<Rightarrow>
                       if d_journal_present d then (Ok (Restore_instead d), s)
                       else retire_witness L E rf acc a d s))"

end
