(* ===== verification/Races.thy ===== *)
theory Races
  imports Roots Samples
begin

text \<open>
  Several processes settling accounts on one machine. The index is one file; the lock a process
  takes before it writes is the lock of the uuid it presents. Every interleaving of the reads,
  the lock and the replacement is a run of the step relation below.
\<close>

subsection \<open>What a rebinding does\<close>

lemma find_None_holds: "find P xs = None \<longleftrightarrow> (\<forall>x \<in> set xs. \<not> P x)"
  by (auto simp: find_None_iff)

lemma find_Some_holds: "find P xs = Some x \<Longrightarrow> x \<in> set xs \<and> P x"
  by (induction xs) (auto split: if_splits)

lemma bound_roots_get: "bm_ok m \<Longrightarrow> root \<in> set (bound_roots m uuid) \<longleftrightarrow> bm_get m root = Some uuid"
  by (force simp: bound_roots_def bm_get_iff [symmetric])

lemma roots_read_simps:
  assumes "bm_ok m"
  shows "roots_read L fs m root uuid = Home \<longleftrightarrow> bm_get m root = Some uuid"
    and "roots_read L fs m root uuid = Adopted \<longleftrightarrow> (\<forall>r. bm_get m r \<noteq> Some uuid)"
    and "roots_read L fs m root uuid = Copy holder \<Longrightarrow>
      bm_get m holder = Some uuid \<and> holds L fs holder uuid \<and> holder \<noteq> root"
    and "roots_read L fs m root uuid = Move stale \<Longrightarrow> stale = bound_roots m uuid \<and>
      bm_get m root \<noteq> Some uuid \<and> (\<forall>r. bm_get m r = Some uuid \<longrightarrow> \<not> holds L fs r uuid)"
proof -
  note get = bound_roots_get [OF assms, of _ uuid]
  show "roots_read L fs m root uuid = Home \<longleftrightarrow> bm_get m root = Some uuid"
    by (auto simp: roots_read_def Let_def get split: option.splits)
  have "bound_roots m uuid = [] \<longleftrightarrow> (\<forall>r. bm_get m r \<noteq> Some uuid)"
    using get by (metis empty_iff empty_set list.set_intros(1) neq_Nil_conv)
  then show "roots_read L fs m root uuid = Adopted \<longleftrightarrow> (\<forall>r. bm_get m r \<noteq> Some uuid)"
    by (auto simp: roots_read_def Let_def split: option.splits)
  show "roots_read L fs m root uuid = Copy holder \<Longrightarrow>
      bm_get m holder = Some uuid \<and> holds L fs holder uuid \<and> holder \<noteq> root"
    by (auto simp: roots_read_def Let_def get [symmetric] split: option.splits if_splits
        dest!: find_Some_holds)
  show "roots_read L fs m root uuid = Move stale \<Longrightarrow> stale = bound_roots m uuid \<and>
      bm_get m root \<noteq> Some uuid \<and> (\<forall>r. bm_get m r = Some uuid \<longrightarrow> \<not> holds L fs r uuid)"
    by (auto simp: roots_read_def Let_def get [symmetric] find_None_holds
        split: option.splits if_splits)
qed

lemma bm_removes:
  "bm_ok m \<Longrightarrow> bm_ok (fold bm_remove ks m) \<and>
   bm_get (fold bm_remove ks m) = (\<lambda>k. if k \<in> set ks then None else bm_get m k)"
proof (induction ks arbitrary: m)
  case (Cons k ks)
  have "bm_ok (bm_remove k m)" by (rule bm_ok_remove [OF Cons.prems])
  with Cons.IH [of "bm_remove k m"] bm_get_remove [OF Cons.prems, of k]
  show ?case by (auto simp: fun_eq_iff)
qed simp

lemma rebound_facts:
  assumes "bm_ok m"
  shows "bm_ok (rebound m root uuid stale)"
    and "bm_get (rebound m root uuid stale) r =
      (if r = root then Some uuid else if r \<in> set stale then None else bm_get m r)"
  using bm_removes [OF assms, of stale] by (auto simp: rebound_def bm_ok_insert)

definition one_each :: "roots \<Rightarrow> bool" where
  "one_each m \<longleftrightarrow> bm_ok m \<and>
     (\<forall>a b uuid. bm_get m a = Some uuid \<longrightarrow> bm_get m b = Some uuid \<longrightarrow> a = b)"

lemma one_eachD: "one_each m \<Longrightarrow> bm_get m a = Some uuid \<Longrightarrow> bm_get m b = Some uuid \<Longrightarrow> a = b"
  unfolding one_each_def by iprover

lemma rebound_one_each:
  assumes one: "one_each m"
    and read: "roots_read L fs m root uuid = Adopted \<and> stale = [] \<or>
      roots_read L fs m root uuid = Move stale"
  shows "one_each (rebound m root uuid stale)"
proof -
  have ok: "bm_ok m" using one by (simp add: one_each_def)
  have gone: "r \<in> set stale" if "bm_get m r = Some uuid" for r
    using read roots_read_simps(2) [OF ok, of L fs root uuid] that
      roots_read_simps(4) [OF ok, of L fs root uuid stale] bound_roots_get [OF ok, of r uuid]
    by auto
  show ?thesis
    unfolding one_each_def
    using one gone rebound_facts [OF ok, of root uuid stale]
    by (auto simp: one_each_def split: if_splits)
qed

lemma settle_under_writes:
  "settle_under L fs (Ok ()) m root uuid =
   (case roots_read L fs m root uuid of
      Home \<Rightarrow> (Ok None, m, [])
    | Copy holder \<Rightarrow> (Ok (Some holder), m, [])
    | Adopted \<Rightarrow> (Ok None, rebound m root uuid [], [])
    | Move stale \<Rightarrow> (Ok None, rebound m root uuid stale,
        (case stale of [] \<Rightarrow> [] | old # _ \<Rightarrow> [moved_warning uuid root old])))"
  by (simp add: settle_under_def index_write_def Let_def split: roots_reading.split)

subsection \<open>The processes\<close>

text \<open>
  A process presents one root and one uuid (\<open>who\<close>). It looks at the index; where the reading
  writes nothing it is settled, and otherwise it waits for the uuid's lock, reads again under
  it, and either settles without writing or stages the index it will put in place. \<open>Settled None\<close>
  may charge, \<open>Settled (Some holder)\<close> is refused as a copy.
\<close>

datatype phase = Arriving | Waiting | Locked | Staged roots | Settled "root option" | Failed

record shared =
  sh_index :: roots
  sh_lock :: "string \<Rightarrow> nat option"
  sh_phase :: "nat \<Rightarrow> phase"

definition looked :: "'v lib \<Rightarrow> (root \<Rightarrow> listing) \<Rightarrow> roots \<Rightarrow> root \<Rightarrow> string \<Rightarrow> phase" where
  "looked L fs index root uuid =
     (case roots_read L fs index root uuid of
        Home \<Rightarrow> Settled None
      | Copy holder \<Rightarrow> Settled (Some holder)
      | _ \<Rightarrow> Waiting)"

definition looked_again :: "'v lib \<Rightarrow> (root \<Rightarrow> listing) \<Rightarrow> roots \<Rightarrow> root \<Rightarrow> string \<Rightarrow> phase" where
  "looked_again L fs index root uuid =
     (case roots_read L fs index root uuid of
        Home \<Rightarrow> Settled None
      | Copy holder \<Rightarrow> Settled (Some holder)
      | _ \<Rightarrow> Staged (fst (snd (settle_under L fs (Ok ()) index root uuid))))"

definition at_phase :: "nat \<Rightarrow> phase \<Rightarrow> shared \<Rightarrow> shared" where
  "at_phase p ph s = s\<lparr>sh_phase := (sh_phase s)(p := ph)\<rparr>"

definition unlocked :: "string \<Rightarrow> shared \<Rightarrow> shared" where
  "unlocked uuid s = s\<lparr>sh_lock := (sh_lock s)(uuid := None)\<rparr>"

inductive race ::
  "'v lib \<Rightarrow> (root \<Rightarrow> listing) \<Rightarrow> (nat \<Rightarrow> root \<times> string) \<Rightarrow> shared \<Rightarrow> shared \<Rightarrow> bool"
  for L fs who where
  look: "sh_phase s p = Arriving \<Longrightarrow> who p = (root, uuid) \<Longrightarrow>
    race L fs who s (at_phase p (looked L fs (sh_index s) root uuid) s)"
| take_lock: "sh_phase s p = Waiting \<Longrightarrow> who p = (root, uuid) \<Longrightarrow> sh_lock s uuid = None \<Longrightarrow>
    race L fs who s (at_phase p Locked (s\<lparr>sh_lock := (sh_lock s)(uuid \<mapsto> p)\<rparr>))"
| settle_without: "sh_phase s p = Locked \<Longrightarrow> who p = (root, uuid) \<Longrightarrow>
    looked_again L fs (sh_index s) root uuid = Settled h \<Longrightarrow>
    race L fs who s (at_phase p (Settled h) (unlocked uuid s))"
| stage: "sh_phase s p = Locked \<Longrightarrow> who p = (root, uuid) \<Longrightarrow>
    looked_again L fs (sh_index s) root uuid = Staged m \<Longrightarrow>
    race L fs who s (at_phase p (Staged m) s)"
| replace: "sh_phase s p = Staged m \<Longrightarrow> who p = (root, uuid) \<Longrightarrow>
    race L fs who s (at_phase p (Settled None) (unlocked uuid (s\<lparr>sh_index := m\<rparr>)))"
| refuse: "sh_phase s p = Staged m \<Longrightarrow> who p = (root, uuid) \<Longrightarrow>
    race L fs who s (at_phase p Failed (unlocked uuid s))"

inductive_cases raceE: "race L fs who s s'"

definition all_arriving :: "shared \<Rightarrow> bool" where
  "all_arriving s \<longleftrightarrow> (\<forall>p. sh_phase s p = Arriving) \<and> (\<forall>uuid. sh_lock s uuid = None)"

lemma phase_simps [simp]:
  "sh_index (at_phase p ph s) = sh_index s" "sh_lock (at_phase p ph s) = sh_lock s"
  "sh_phase (at_phase p ph s) = (sh_phase s)(p := ph)"
  "sh_index (unlocked uuid s) = sh_index s" "sh_phase (unlocked uuid s) = sh_phase s"
  "sh_lock (unlocked uuid s) = (sh_lock s)(uuid := None)"
  by (simp_all add: at_phase_def unlocked_def)

lemma looked_cases:
  "looked L fs m root uuid \<noteq> Staged k" "looked L fs m root uuid \<noteq> Locked"
  "looked L fs m root uuid = Settled None \<longleftrightarrow> roots_read L fs m root uuid = Home"
  by (auto simp: looked_def split: roots_reading.split)

lemma looked_again_cases:
  "looked_again L fs m root uuid = Settled None \<longleftrightarrow> roots_read L fs m root uuid = Home"
  "looked_again L fs m root uuid = Staged k \<longleftrightarrow>
     (\<exists>stale. (roots_read L fs m root uuid = Adopted \<and> stale = [] \<or>
        roots_read L fs m root uuid = Move stale) \<and> k = rebound m root uuid stale)"
  by (auto simp: looked_again_def settle_under_writes split: roots_reading.split)

subsection \<open>The invariants\<close>

definition sound_index :: "shared \<Rightarrow> bool" where
  "sound_index s \<longleftrightarrow> one_each (sh_index s) \<and> (\<forall>p m. sh_phase s p = Staged m \<longrightarrow> one_each m)"

lemma race_sound: "race L fs who s s' \<Longrightarrow> sound_index s \<Longrightarrow> sound_index s'"
  by (induction rule: race.induct)
    (auto simp: sound_index_def looked_cases looked_again_cases intro: rebound_one_each)

lemma races_sound: "(race L fs who)\<^sup>*\<^sup>* s s' \<Longrightarrow> sound_index s \<Longrightarrow> sound_index s'"
  by (induction rule: rtranclp_induct) (auto intro: race_sound)

text \<open>Where every process presents one uuid that its own root holds.\<close>

fun in_lock :: "phase \<Rightarrow> bool" where
  "in_lock Locked = True"
| "in_lock (Staged m) = True"
| "in_lock _ = False"

definition one_winner ::
  "'v lib \<Rightarrow> (root \<Rightarrow> listing) \<Rightarrow> (nat \<Rightarrow> root \<times> string) \<Rightarrow> string \<Rightarrow> shared \<Rightarrow> bool" where
  "one_winner L fs who uuid s \<longleftrightarrow>
     one_each (sh_index s) \<and>
     (\<forall>p. sh_phase s p = Settled None \<longrightarrow> bm_get (sh_index s) (fst (who p)) = Some uuid) \<and>
     (\<forall>p. in_lock (sh_phase s p) \<longrightarrow> sh_lock s uuid = Some p) \<and>
     (\<forall>p m. sh_phase s p = Staged m \<longrightarrow>
        looked_again L fs (sh_index s) (fst (who p)) uuid = Staged m)"

lemma staged_nobody:
  assumes "one_each m" and "looked_again L fs m root uuid = Staged k"
    and "bm_get m r = Some uuid"
  shows "\<not> holds L fs r uuid"
  using assms roots_read_simps [of m L fs root uuid]
  by (auto simp: one_each_def looked_again_cases)

lemma staged_binds:
  assumes "one_each m" and "looked_again L fs m root uuid = Staged k"
  shows "one_each k \<and> bm_get k root = Some uuid"
proof -
  from assms(2) obtain stale where read: "roots_read L fs m root uuid = Adopted \<and> stale = [] \<or>
      roots_read L fs m root uuid = Move stale" and k: "k = rebound m root uuid stale"
    unfolding looked_again_cases by blast
  have "bm_ok m" using assms(1) by (simp add: one_each_def)
  then have "bm_get k root = Some uuid" by (simp add: k rebound_facts)
  with rebound_one_each [OF assms(1) read] k show ?thesis by simp
qed

lemma one_winnerI:
  assumes "one_each (sh_index s)"
    and "\<And>p. sh_phase s p = Settled None \<Longrightarrow> bm_get (sh_index s) (fst (who p)) = Some uuid"
    and "\<And>p. in_lock (sh_phase s p) \<Longrightarrow> sh_lock s uuid = Some p"
    and "\<And>p m. sh_phase s p = Staged m \<Longrightarrow>
      looked_again L fs (sh_index s) (fst (who p)) uuid = Staged m"
  shows "one_winner L fs who uuid s"
  unfolding one_winner_def by (intro conjI allI impI; rule assms)

lemma one_winnerD:
  assumes "one_winner L fs who uuid s"
  shows "one_each (sh_index s)"
    and "sh_phase s p = Settled None \<Longrightarrow> bm_get (sh_index s) (fst (who p)) = Some uuid"
    and "in_lock (sh_phase s p) \<Longrightarrow> sh_lock s uuid = Some p"
    and "sh_phase s p = Staged m \<Longrightarrow> looked_again L fs (sh_index s) (fst (who p)) uuid = Staged m"
  using assms unfolding one_winner_def by iprover+

lemma lock_alone:
  assumes "one_winner L fs who uuid s" and "in_lock (sh_phase s p)" and "q \<noteq> p"
  shows "\<not> in_lock (sh_phase s q)"
  using one_winnerD(3) [OF assms(1,2)] one_winnerD(3) [OF assms(1), of q] assms(3) by auto

lemma home_binds: "one_each m \<Longrightarrow> roots_read L fs m root uuid = Home \<Longrightarrow> bm_get m root = Some uuid"
  by (simp add: one_each_def roots_read_simps)

lemma looked_in_lock [simp]: "\<not> in_lock (looked L fs m root uuid)"
  by (simp add: looked_def split: roots_reading.split)

text \<open>One process moves; the others stay as they are.\<close>

lemma one_winner_move:
  assumes inv: "one_winner L fs who uuid s"
    and same: "sh_index s' = sh_index s" and moved: "sh_phase s' = (sh_phase s)(p := ph)"
    and home: "ph = Settled None \<Longrightarrow> bm_get (sh_index s) (fst (who p)) = Some uuid"
    and locks: "\<And>q. in_lock (((sh_phase s)(p := ph)) q) \<Longrightarrow> sh_lock s' uuid = Some q"
    and staged: "\<And>m. ph = Staged m \<Longrightarrow> looked_again L fs (sh_index s) (fst (who p)) uuid = Staged m"
  shows "one_winner L fs who uuid s'"
proof (rule one_winnerI)
  show "one_each (sh_index s')" using one_winnerD(1) [OF inv] same by simp
  show "sh_phase s' q = Settled None \<Longrightarrow> bm_get (sh_index s') (fst (who q)) = Some uuid" for q
    using one_winnerD(2) [OF inv, of q] home same moved by (cases "q = p") simp_all
  show "in_lock (sh_phase s' q) \<Longrightarrow> sh_lock s' uuid = Some q" for q
    using locks [of q] moved by simp
  show "sh_phase s' q = Staged m \<Longrightarrow>
      looked_again L fs (sh_index s') (fst (who q)) uuid = Staged m" for q m
    using one_winnerD(4) [OF inv, of q m] staged same moved by (cases "q = p") simp_all
qed

lemma race_one_winner:
  assumes "race L fs who s s'" and inv: "one_winner L fs who uuid s"
    and one: "\<And>p. snd (who p) = uuid" and held: "\<And>p. holds L fs (fst (who p)) uuid"
  shows "one_winner L fs who uuid s'"
  using assms(1)
proof cases
  case (look p root u)
  have u: "u = uuid" "fst (who p) = root" using look one [of p] by auto
  show ?thesis
    by (rule one_winner_move [OF inv, where p = p and ph = "looked L fs (sh_index s) root u"])
      (use look u one_winnerD(3) [OF inv] home_binds [OF one_winnerD(1) [OF inv], of L fs root uuid] in
        \<open>simp_all add: looked_cases split: if_splits\<close>)
next
  case (take_lock p root u)
  have u: "u = uuid" "fst (who p) = root" using take_lock one [of p] by auto
  show ?thesis
    by (rule one_winner_move [OF inv, where p = p and ph = Locked])
      (use take_lock u one_winnerD(3) [OF inv] in \<open>fastforce split: if_splits\<close>)+
next
  case (settle_without p root u h)
  have u: "u = uuid" "fst (who p) = root" using settle_without one [of p] by auto
  have "bm_get (sh_index s) root = Some uuid" if "h = None"
    using settle_without u that home_binds [OF one_winnerD(1) [OF inv], of L fs root uuid]
    by (simp add: looked_again_cases(1))
  then show ?thesis
    by (intro one_winner_move [OF inv, where p = p and ph = "Settled h"])
      (use settle_without u lock_alone [OF inv, of p] in \<open>simp_all split: if_splits\<close>)
next
  case (stage p root u m)
  have u: "u = uuid" "fst (who p) = root" using stage one [of p] by auto
  show ?thesis
    by (rule one_winner_move [OF inv, where p = p and ph = "Staged m"])
      (use stage u one_winnerD(3) [OF inv] in \<open>simp_all split: if_splits\<close>)
next
  case (refuse p m root u)
  have u: "u = uuid" using refuse one [of p] by auto
  show ?thesis
    by (rule one_winner_move [OF inv, where p = p and ph = Failed])
      (use refuse u lock_alone [OF inv, of p] in \<open>simp_all split: if_splits\<close>)
next
  case (replace p m root u)
  have u: "u = uuid" "root = fst (who p)" using replace one [of p] by auto
  note again = one_winnerD(4) [OF inv replace(2)] and each = one_winnerD(1) [OF inv]
  note after = staged_binds [OF each again]
  have nobody: "sh_phase s q \<noteq> Settled None" for q
    using staged_nobody [OF each again] held [of q] one_winnerD(2) [OF inv, of q] by blast
  have alone: "\<not> in_lock (sh_phase s q)" if "q \<noteq> p" for q
    using lock_alone [OF inv, of p q] replace that by simp
  show ?thesis
  proof (rule one_winnerI)
    show "one_each (sh_index s')" using after replace by simp
    show "sh_phase s' q = Settled None \<Longrightarrow> bm_get (sh_index s') (fst (who q)) = Some uuid" for q
      using after nobody [of q] replace by (cases "q = p") simp_all
    show "in_lock (sh_phase s' q) \<Longrightarrow> sh_lock s' uuid = Some q" for q
      using alone [of q] replace by (cases "q = p") simp_all
    show "sh_phase s' q = Staged k \<Longrightarrow>
        looked_again L fs (sh_index s') (fst (who q)) uuid = Staged k" for q k
      using alone [of q] replace by (cases "q = p") simp_all
  qed
qed

subsection \<open>Three projects\<close>

definition race_root :: "nat \<Rightarrow> root" where
  "race_root p = (if p = 0 then [''/'', ''a''] else if p = 1 then [''/'', ''b''] else [''/'', ''c''])"

definition race_uuid :: "nat \<Rightarrow> string" where
  "race_uuid p = (if p = 1 then ''bb'' else ''aa'')"

definition race_who :: "nat \<Rightarrow> root \<times> string" where
  "race_who p = (race_root p, race_uuid p)"

definition race_fs :: "root \<Rightarrow> listing" where
  "race_fs root = Ok (Some [Ok (if root = [''/'', ''b''] then ''bb'' else ''aa'', True)])"

definition race_start :: shared where
  "race_start = \<lparr>sh_index = [], sh_lock = (\<lambda>_. None), sh_phase = (\<lambda>_. Arriving)\<rparr>"

lemma race_holds: "holds json_lib race_fs (race_root p) uuid \<longleftrightarrow> uuid = race_uuid p"
  by (auto simp: holds_def local_uuid_def race_fs_def local_step_def check_uuid_def hex_uuid_def
      race_root_def race_uuid_def)

lemma race_start_arriving: "all_arriving race_start" "one_each (sh_index race_start)"
  by (simp_all add: all_arriving_def race_start_def one_each_def)

definition staging :: "nat \<Rightarrow> shared \<Rightarrow> shared" where
  "staging p s = at_phase p (Staged (rebound (sh_index s) (race_root p) (race_uuid p) []))
     (s\<lparr>sh_lock := (sh_lock s)(race_uuid p \<mapsto> p)\<rparr>)"

definition replacing :: "nat \<Rightarrow> roots \<Rightarrow> shared \<Rightarrow> shared" where
  "replacing p m s = at_phase p (Settled None) (unlocked (race_uuid p) (s\<lparr>sh_index := m\<rparr>))"

lemma run_staging:
  assumes "sh_phase s p = Arriving" and "sh_lock s (race_uuid p) = None" and "bm_ok (sh_index s)"
    and "\<forall>r. bm_get (sh_index s) r \<noteq> Some (race_uuid p)"
  shows "(race L fs race_who)\<^sup>*\<^sup>* s (staging p s)"
proof -
  let ?s1 = "at_phase p Waiting s"
  let ?s2 = "at_phase p Locked (?s1\<lparr>sh_lock := (sh_lock ?s1)(race_uuid p \<mapsto> p)\<rparr>)"
  have read: "roots_read L fs (sh_index s) (race_root p) (race_uuid p) = Adopted"
    using assms(3,4) by (simp add: roots_read_simps)
  have who: "race_who p = (race_root p, race_uuid p)" by (simp add: race_who_def)
  have "race L fs race_who s ?s1"
    using race.look [where p = p and s = s and who = race_who, OF assms(1) who, of L fs] read by (simp add: looked_def)
  moreover have "race L fs race_who ?s1 ?s2"
    by (rule race.take_lock [where root = "race_root p" and uuid = "race_uuid p"]) (simp_all add: assms(2) who)
  moreover have "race L fs race_who ?s2 (at_phase p
      (Staged (rebound (sh_index s) (race_root p) (race_uuid p) [])) ?s2)"
    by (rule race.stage [where root = "race_root p" and uuid = "race_uuid p"]) (simp_all add: looked_again_cases read who)
  moreover have "at_phase p (Staged (rebound (sh_index s) (race_root p) (race_uuid p) [])) ?s2 =
      staging p s"
    by (simp add: staging_def at_phase_def)
  ultimately show ?thesis
    by (metis (no_types, lifting) rtranclp.rtrancl_into_rtrancl rtranclp.rtrancl_refl)
qed

lemma run_replacing:
  "sh_phase s p = Staged m \<Longrightarrow> (race L fs race_who)\<^sup>*\<^sup>* s (replacing p m s)"
  unfolding replacing_def
  by (rule r_into_rtranclp, rule race.replace) (simp_all add: race_who_def)

lemma staging_simps [simp]:
  "sh_index (staging p s) = sh_index s"
  "sh_lock (staging p s) = (sh_lock s)(race_uuid p \<mapsto> p)"
  "sh_phase (staging p s) = (sh_phase s)(p := Staged (rebound (sh_index s) (race_root p) (race_uuid p) []))"
  "sh_index (replacing p m s) = m" "sh_lock (replacing p m s) = (sh_lock s)(race_uuid p := None)"
  "sh_phase (replacing p m s) = (sh_phase s)(p := Settled None)"
  by (simp_all add: staging_def replacing_def)

text \<open>
  The lock a process takes is its own uuid's, and the index is every uuid's: two projects
  settling at once can lose one of the two bindings, and then a copy of the project whose
  binding was lost is let through, beside the root that still holds the account.
\<close>

theorem lost_binding_admits_a_copy:
  "\<exists>s. (race json_lib race_fs race_who)\<^sup>*\<^sup>* race_start s \<and>
     sh_phase s 0 = Settled None \<and> sh_phase s 2 = Settled None \<and>
     race_uuid 0 = race_uuid 2 \<and> race_root 0 \<noteq> race_root 2 \<and>
     holds json_lib race_fs (race_root 0) (race_uuid 0) \<and>
     holds json_lib race_fs (race_root 2) (race_uuid 0)"
proof -
  let ?m0 = "rebound [] (race_root 0) (race_uuid 0) []"
  let ?m1 = "rebound [] (race_root 1) (race_uuid 1) []"
  let ?m2 = "rebound ?m1 (race_root 2) (race_uuid 2) []"
  let ?a = "staging 0 race_start"
  let ?b = "staging 1 ?a"
  let ?c = "replacing 1 ?m1 (replacing 0 ?m0 ?b)"
  let ?d = "staging 2 ?c"
  have m1: "bm_ok ?m1" "\<forall>r. bm_get ?m1 r \<noteq> Some (race_uuid 2)"
    by (simp_all add: rebound_facts race_uuid_def)
  have index: "sh_index race_start = []" "\<And>p. sh_phase race_start p = Arriving"
    "\<And>u. sh_lock race_start u = None" by (simp_all add: race_start_def)
  have "(race json_lib race_fs race_who)\<^sup>*\<^sup>* race_start ?a"
    by (rule run_staging) (simp_all add: index)
  also have "(race json_lib race_fs race_who)\<^sup>*\<^sup>* ?a ?b"
    by (rule run_staging) (simp_all add: index race_uuid_def)
  also have "(race json_lib race_fs race_who)\<^sup>*\<^sup>* ?b (replacing 0 ?m0 ?b)"
    by (rule run_replacing) (simp add: index)
  also have "(race json_lib race_fs race_who)\<^sup>*\<^sup>* (replacing 0 ?m0 ?b) ?c"
    by (rule run_replacing) (simp add: index)
  also have "(race json_lib race_fs race_who)\<^sup>*\<^sup>* ?c ?d"
    using m1 by (intro run_staging) (simp_all add: index race_uuid_def)
  also have "(race json_lib race_fs race_who)\<^sup>*\<^sup>* ?d (replacing 2 ?m2 ?d)"
    by (rule run_replacing) simp
  finally have "(race json_lib race_fs race_who)\<^sup>*\<^sup>* race_start (replacing 2 ?m2 ?d)" .
  moreover have "race_root 0 \<noteq> race_root 2" by (simp add: race_root_def)
  ultimately show ?thesis
    by (intro exI [of _ "replacing 2 ?m2 ?d"]) (simp add: race_holds race_uuid_def)
qed

subsection \<open>The properties\<close>

text \<open>However many processes settle accounts at once, in whatever order their reads, locks and
  replacements fall and whichever replacements fail, the witness index never binds one account
  to two roots.\<close>

theorem index_binds_each_account_once:
  assumes "(race L fs who)\<^sup>*\<^sup>* s s'" and "all_arriving s" and "one_each (sh_index s)"
    and "bm_get (sh_index s') a = Some uuid" and "bm_get (sh_index s') b = Some uuid"
  shows "a = b"
proof -
  have "sound_index s" using assms(2,3) by (simp add: sound_index_def all_arriving_def)
  from races_sound [OF assms(1) this] have "one_each (sh_index s')" by (simp add: sound_index_def)
  then show ?thesis using assms(4,5) by (rule one_eachD)
qed

theorem index_binds_each_account_once_witness:
  "\<exists>s. (race json_lib race_fs race_who)\<^sup>*\<^sup>* race_start s \<and> sh_index s \<noteq> [] \<and>
     (\<forall>a b. bm_get (sh_index s) a = Some ''aa'' \<longrightarrow> bm_get (sh_index s) b = Some ''aa'' \<longrightarrow> a = b)"
proof -
  let ?m0 = "rebound [] (race_root 0) (race_uuid 0) []"
  let ?s = "replacing 0 ?m0 (staging 0 race_start)"
  have "(race json_lib race_fs race_who)\<^sup>*\<^sup>* race_start (staging 0 race_start)"
    by (rule run_staging) (simp_all add: race_start_def)
  also have "(race json_lib race_fs race_who)\<^sup>*\<^sup>* (staging 0 race_start) ?s"
    by (rule run_replacing) (simp add: race_start_def)
  finally have run: "(race json_lib race_fs race_who)\<^sup>*\<^sup>* race_start ?s" .
  note once = index_binds_each_account_once [OF run race_start_arriving]
  have "sh_index ?s \<noteq> []" by (simp add: rebound_def)
  with run once show ?thesis by blast
qed

text \<open>C17: Two processes racing to claim one account cannot both win. Where every process presents
  the same uuid from a root that holds it, all that may charge stand at one root, the one the
  index binds it to, whatever order their reads, locks and writes fell in.\<close>

theorem race_has_one_winner:
  assumes "(race L fs who)\<^sup>*\<^sup>* s s'" and "all_arriving s" and "one_each (sh_index s)"
    and "\<And>p. snd (who p) = uuid" and "\<And>p. holds L fs (fst (who p)) uuid"
    and "sh_phase s' p = Settled None" and "sh_phase s' q = Settled None"
  shows "fst (who p) = fst (who q) \<and> bm_get (sh_index s') (fst (who p)) = Some uuid"
proof -
  have "one_winner L fs who uuid s"
    using assms(2,3) by (intro one_winnerI) (simp_all add: all_arriving_def)
  with assms(1) have inv: "one_winner L fs who uuid s'"
    by (induction rule: rtranclp_induct) (auto intro: race_one_winner assms(4,5))
  from one_winnerD(2) [OF inv assms(6)] one_winnerD(2) [OF inv assms(7)]
    one_eachD [OF one_winnerD(1) [OF inv]]
  show ?thesis by blast
qed

theorem race_has_one_winner_witness:
  "\<exists>s. (race json_lib race_fs (\<lambda>p. race_who 0))\<^sup>*\<^sup>* race_start s \<and> sh_phase s 0 = Settled None \<and>
     bm_get (sh_index s) (race_root 0) = Some (race_uuid 0)"
proof -
  let ?who = "\<lambda>p :: nat. race_who 0"
  let ?m = "rebound [] (race_root 0) (race_uuid 0) []"
  let ?s1 = "at_phase 0 Waiting race_start"
  let ?s2 = "at_phase 0 Locked (?s1\<lparr>sh_lock := (sh_lock ?s1)(race_uuid 0 \<mapsto> 0)\<rparr>)"
  let ?s3 = "at_phase 0 (Staged ?m) ?s2"
  let ?s4 = "at_phase 0 (Settled None) (unlocked (race_uuid 0) (?s3\<lparr>sh_index := ?m\<rparr>))"
  have who: "?who 0 = (race_root 0, race_uuid 0)" by (simp add: race_who_def)
  have read: "roots_read json_lib race_fs [] (race_root 0) (race_uuid 0) = Adopted"
    by (simp add: roots_read_simps)
  have "race json_lib race_fs ?who race_start
      (at_phase 0 (looked json_lib race_fs (sh_index race_start) (race_root 0) (race_uuid 0)) race_start)"
    by (rule race.look [where root = "race_root 0" and uuid = "race_uuid 0"]) (simp_all add: race_start_def who)
  then have "race json_lib race_fs ?who race_start ?s1"
    using read by (simp add: looked_def race_start_def)
  moreover have "race json_lib race_fs ?who ?s1 ?s2"
    by (rule race.take_lock [where root = "race_root 0" and uuid = "race_uuid 0"]) (simp_all add: race_start_def who)
  moreover have "race json_lib race_fs ?who ?s2 ?s3"
    by (rule race.stage [where root = "race_root 0" and uuid = "race_uuid 0"]) (simp_all add: looked_again_cases read race_start_def who)
  moreover have "race json_lib race_fs ?who ?s3 ?s4"
    by (rule race.replace [where root = "race_root 0" and uuid = "race_uuid 0"]) (simp_all add: who)
  ultimately have run: "(race json_lib race_fs ?who)\<^sup>*\<^sup>* race_start ?s4"
    by (metis (no_types, lifting) rtranclp.rtrancl_into_rtrancl rtranclp.rtrancl_refl)
  have finished: "sh_phase ?s4 0 = Settled None" by simp
  have held: "snd (?who p) = race_uuid 0" "holds json_lib race_fs (fst (?who p)) (race_uuid 0)" for p
    by (simp_all add: race_who_def race_holds)
  from race_has_one_winner [OF run race_start_arriving held finished finished] run finished
  show ?thesis by (intro exI [of _ ?s4]) (simp add: race_who_def)
qed

end
