(* ===== verification/Accounts_Claims.thy ===== *)
theory Accounts_Claims
  imports Accounts Races
begin

text \<open>
  What holds of resolving, charging and retiring an account, whatever fails on the way.
\<close>

subsection \<open>Retiring\<close>

lemma site_retract_cases:
  obtains (kept) e where "site_retract rf root s = (Err e, s)"
  | (gone) "site_retract rf root s = (Ok (), s\<lparr>site_index := bm_remove root (site_index s)\<rparr>)"
  | (never) "site_retract rf root s = (Ok (), s)" "bm_get (site_index s) root = None"
proof (cases "rf_index rf")
  case (Inl e)
  then show thesis using kept by (simp add: site_retract_def retract_root_def)
next
  case (Inr u)
  show thesis
  proof (cases "bm_get (site_index s) root")
    case None
    then show thesis using never Inr by (simp add: site_retract_def retract_root_def)
  next
    case (Some x)
    then show thesis
      using kept gone Inr
      by (cases "rf_index_written rf") (auto simp: site_retract_def retract_root_def index_write_def)
  qed
qed

lemma drop_cases:
  obtains (kept) e where "drop_empty_account_directory rf s = (Err e, s)" "site_directory s"
    "site_journal s = None"
  | (gone) "drop_empty_account_directory rf s = (Ok (), s\<lparr>site_directory := False\<rparr>)"
  | (present) "drop_empty_account_directory rf s = (Ok (), s)" "site_journal s \<noteq> None"
proof (cases "site_directory s \<and> site_journal s = None")
  case True
  then show thesis
    using kept gone by (cases "rf_dropped rf") (auto simp: drop_empty_account_directory_def)
next
  case False
  show thesis
  proof (cases "site_journal s")
    case None
    with False have "s\<lparr>site_directory := False\<rparr> = s" by (cases s) simp
    with None False gone show thesis by (simp add: drop_empty_account_directory_def)
  next
    case (Some x)
    with present show thesis by (simp add: drop_empty_account_directory_def)
  qed
qed

lemma authority_retire_cases:
  obtains (kept) e where "authority_retire rf path receipt s = (Err e, s)"
  | (moved) r rcpt where "authority_retire rf path receipt s = (r, s\<lparr>site_witness := None,
      site_kept := Some \<lparr>kept_path = path, kept_bytes = site_witness s, kept_receipt = rcpt\<rparr>\<rparr>)"
      "r = Ok path \<longrightarrow> rcpt = Some receipt"
proof (cases "tryb (rf_base rf) (\<lambda>_. rf_moved rf)")
  case (Inl e)
  then show thesis by (intro kept) (simp add: authority_retire_def)
next
  case (Inr u)
  show thesis
  proof (cases "rf_receipt rf")
    case (Inl e)
    with Inr show thesis
      by (intro moved [where r = "Err e" and rcpt = None]) (simp_all add: authority_retire_def Let_def)
  next
    case receipt: (Inr v)
    with Inr show thesis
      by (intro moved [where r = "tryb (rf_synced rf) (\<lambda>_. Ok path)" and rcpt = "Some receipt"])
        (simp_all add: authority_retire_def Let_def split: sum.split)
  qed
qed

text \<open>
  What every outcome of moving the witness leaves: either it did not move and only the index
  entry and the empty directory can be gone, or it moved, and then both are gone first.
\<close>

lemma retire_witness_outcome:
  assumes "bm_ok (site_index s)" and "site_journal s = None" and "site_kept s = None"
    and "retire_witness L E rf acc a d s = (r, s')"
  shows "(\<forall>root. root \<noteq> acc_root acc \<longrightarrow> bm_get (site_index s') root = bm_get (site_index s) root) \<and>
    bm_ok (site_index s') \<and> site_journal s' = None \<and> site_claim s' = site_claim s \<and>
    (site_witness s' = site_witness s \<and> site_kept s' = None \<and> (\<exists>e. r = Err e) \<or>
     site_witness s' = None \<and> bm_get (site_index s') (acc_root acc) = None \<and> \<not> site_directory s' \<and>
       (\<exists>k. site_kept s' = Some k \<and> kept_bytes k = site_witness s))"
proof -
  obtain r1 s1 where one: "site_retract rf (acc_root acc) s = (r1, s1)" by fastforce
  have "(s1 = s \<or> s1 = s\<lparr>site_index := bm_remove (acc_root acc) (site_index s)\<rparr>) \<and>
      (r1 = Ok () \<longrightarrow> bm_get (site_index s1) (acc_root acc) = None)"
  proof (cases rule: site_retract_cases [of rf "acc_root acc" s])
    case gone
    with one have "s1 = s\<lparr>site_index := bm_remove (acc_root acc) (site_index s)\<rparr>" by simp
    then show ?thesis by (simp add: bm_get_remove [OF assms(1)])
  qed (use one in simp_all)
  then have s1: "s1 = s \<or> s1 = s\<lparr>site_index := bm_remove (acc_root acc) (site_index s)\<rparr>"
    and gone: "r1 = Ok () \<longrightarrow> bm_get (site_index s1) (acc_root acc) = None" by simp_all
  have index: "bm_ok (site_index s1)"
    "root \<noteq> acc_root acc \<Longrightarrow> bm_get (site_index s1) root = bm_get (site_index s) root" for root
    using s1 assms(1) by (auto simp: bm_ok_remove bm_get_remove)
  have rest: "site_journal s1 = None" "site_kept s1 = None" "site_witness s1 = site_witness s"
    "site_claim s1 = site_claim s" using s1 assms(2,3) by auto
  show ?thesis
  proof (cases r1)
    case (Inl e)
    with one assms(4) index rest show ?thesis by (auto simp: retire_witness_def Let_def)
  next
    case (Inr u)
    then have gone1: "bm_get (site_index s1) (acc_root acc) = None" using gone by simp
    obtain r2 s2 where two: "drop_empty_account_directory rf s1 = (r2, s2)" by fastforce
    have s2: "s2 = s1 \<and> (\<exists>e. r2 = Err e) \<or> r2 = Ok () \<and> s2 = s1\<lparr>site_directory := False\<rparr>"
      using two rest(1) by (cases rule: drop_cases [of rf s1]) auto
    show ?thesis
    proof (cases r2)
      case (Inl e)
      with one two Inr assms(4) index rest s2 show ?thesis by (auto simp: retire_witness_def Let_def)
    next
      case r2: (Inr v)
      with s2 have s2: "s2 = s1\<lparr>site_directory := False\<rparr>" by simp
      let ?at = "path_join (retired_base (d_witness d)) (acc_uuid acc @ ''-'' @ stamp (audit_written_at a))"
      let ?receipt = "retirement_receipt L acc (d_damage d) a (d_history d)"
      show ?thesis
      proof (cases rule: authority_retire_cases [of rf ?at ?receipt s2])
        case (kept e)
        with one two Inr r2 assms(4) index rest s2 show ?thesis
          by (auto simp: retire_witness_def Let_def)
      next
        case (moved r3 rcpt)
        then have "s' = s2\<lparr>site_witness := None,
            site_kept := Some \<lparr>kept_path = ?at, kept_bytes = site_witness s2, kept_receipt = rcpt\<rparr>\<rparr>"
          using one two Inr r2 assms(4) by (auto simp: retire_witness_def Let_def split: sum.splits)
        with index rest s2 gone1 show ?thesis by simp
      qed
    qed
  qed
qed

lemma retire_claim_outcome:
  assumes "retire_claim L C E rf acc a s = (r, s')"
  shows "site_index s' = site_index s \<and> site_witness s' = site_witness s \<and> site_kept s' = site_kept s \<and>
    (s' = s \<and> (\<exists>e. r = Err e) \<or>
     \<not> site_directory s' \<and> site_journal s' = None \<and>
       (\<exists>k. site_claim s' = Some k \<and> kept_bytes k = site_journal s))"
proof (cases "tryb (read_journal E (journal_path_of (parts_path (acc_root acc)) (acc_uuid acc))
    (site_journal s)) (\<lambda>journal. tryb (rf_base rf) (\<lambda>_. tryb (rf_moved rf) (\<lambda>_. Ok journal)))")
  case (Inl e)
  with assms have "r = Err e" "s' = s" by (simp_all add: retire_claim_def)
  then show ?thesis by blast
next
  case (Inr journal)
  with assms show ?thesis
    by (auto simp: retire_claim_def Let_def split: sum.splits)
qed

lemma retire_here:
  assumes "acc_held_by acc = None" and "retire L C E rf acc a s = (r, s')"
  obtains (still) "s' = s" "\<And>q. r \<noteq> Ok (Retired q)"
  | (moving) d where "site_journal s = None" "retire_witness L E rf acc a d s = (r, s')"
proof (cases "tryb (audit_validate a) (\<lambda>_. tryb (authority_lock L E (acc_uuid acc) (site_witness s)) (\<lambda>w.
    tryb (read_journal E (journal_path_of (parts_path (acc_root acc)) (acc_uuid acc)) (site_journal s))
      (\<lambda>j. Ok (w, j))))")
  case (Inl e)
  then have "r = Err e \<and> s' = s \<or> r = Ok Nothing_to_retire \<and> s' = s"
    using assms by (auto simp: retire_def res_simps split: sum.splits if_splits)
  then show thesis using still by blast
next
  case (Inr x)
  then obtain w where checks: "audit_validate a = Ok ()"
    "authority_lock L E (acc_uuid acc) (site_witness s) = Ok w"
    "read_journal E (journal_path_of (parts_path (acc_root acc)) (acc_uuid acc)) (site_journal s) =
      Ok (site_journal s)"
    by (auto simp: res_simps read_journal_def split: option.splits)
  let ?c = "classify L C (oe_host E) \<lparr>s_root = parts_path (acc_root acc), s_uuid = acc_uuid acc,
      s_witness_path = authority_path E (acc_uuid acc), s_witness = held_bytes w,
      s_journal = site_journal s\<rparr>"
  show thesis
  proof (cases ?c)
    case (Damaged d e)
    note present = classify_Damaged [OF Damaged]
    show thesis
    proof (cases "held_bytes w = [] \<or> d_journal_present d")
      case True
      with Damaged checks assms show thesis by (intro still) (auto simp: retire_def split: if_splits)
    next
      case False
      with Damaged checks assms present show thesis
        by (intro moving [of d]) (auto simp: retire_def)
    qed
  qed (use checks assms in \<open>intro still; auto simp: retire_def split: if_splits\<close>)+
qed

text \<open>C16: A retirement loses nothing, wherever it is cut short. A present journal of this root is
  never given up. Otherwise every other root's index entry stays, and either the witness is still
  live, or it moved whole under its retired name, and then the index entry and the empty account
  directory were gone before it. A copy's claim moves whole too, and touches neither the index
  nor the witness.\<close>

theorem retirement_is_crash_safe:
  assumes "bm_ok (site_index s)" and "site_kept s = None"
    and "retire L C E rf acc a s = (r, s')"
  shows "(acc_held_by acc = None \<longrightarrow>
      (site_journal s \<noteq> None \<longrightarrow> s' = s) \<and> site_journal s' = site_journal s \<and>
      (\<forall>root. root \<noteq> acc_root acc \<longrightarrow> bm_get (site_index s') root = bm_get (site_index s) root) \<and>
      (site_witness s' = site_witness s \<and> site_kept s' = None \<and> (\<forall>q. r \<noteq> Ok (Retired q)) \<or>
       site_witness s' = None \<and> bm_get (site_index s') (acc_root acc) = None \<and> \<not> site_directory s' \<and>
         (\<exists>k. site_kept s' = Some k \<and> kept_bytes k = site_witness s))) \<and>
    (acc_held_by acc \<noteq> None \<longrightarrow>
      site_index s' = site_index s \<and> site_witness s' = site_witness s \<and>
      (s' = s \<or> \<not> site_directory s' \<and>
         (\<exists>k. site_claim s' = Some k \<and> kept_bytes k = site_journal s)))"
proof (cases "acc_held_by acc")
  case None
  show ?thesis
  proof (cases rule: retire_here [OF None assms(3)])
    case 1
    with None assms(2) show ?thesis by auto
  next
    case (2 d)
    note moving = this
    from retire_witness_outcome [OF assms(1) moving(1) assms(2) moving(2)] moving(1) None show ?thesis
      by auto
  qed
next
  case (Some holder)
  show ?thesis
  proof (cases "audit_validate a")
    case (Inl e)
    with assms(3) Some show ?thesis by (simp add: retire_def)
  next
    case (Inr u)
    with assms(3) Some have "retire_claim L C E rf acc a s = (r, s')" by (simp add: retire_def)
    from retire_claim_outcome [OF this] Some show ?thesis by auto
  qed
qed

definition no_retire_faults :: retire_faults where
  "no_retire_faults = \<lparr>rf_index = Ok (), rf_index_written = Ok (), rf_dropped = Ok (), rf_base = Ok (),
     rf_moved = Ok (), rf_receipt = Ok (), rf_synced = Ok ()\<rparr>"

definition site_retired :: "root \<Rightarrow> disk_file \<Rightarrow> 'v site \<Rightarrow> bool" where
  "site_retired root witness s \<longleftrightarrow> bm_get (site_index s) root = None \<and> \<not> site_directory s \<and>
     site_witness s = None \<and> (\<exists>k. site_kept s = Some k \<and> kept_bytes k = witness)"

lemma retire_witness_finishes:
  assumes "bm_ok (site_index s)" and "site_journal s = None"
  shows "site_retired (acc_root acc) (site_witness s) (snd (retire_witness L E no_retire_faults acc a d s))"
proof -
  obtain s1 where one: "site_retract no_retire_faults (acc_root acc) s = (Ok (), s1)"
    "bm_get (site_index s1) (acc_root acc) = None" "site_journal s1 = None" "site_witness s1 = site_witness s"
  proof (cases rule: site_retract_cases [of no_retire_faults "acc_root acc" s])
    case (kept e)
    then show thesis
      by (auto simp: site_retract_def retract_root_def no_retire_faults_def index_write_def split: if_splits)
  next
    case gone
    with that show thesis by (simp add: bm_get_remove [OF assms(1)] assms(2))
  next
    case never
    with that assms(2) show thesis by simp
  qed
  obtain s2 where two: "drop_empty_account_directory no_retire_faults s1 = (Ok (), s2)"
    "\<not> site_directory s2" "site_index s2 = site_index s1" "site_witness s2 = site_witness s1"
  proof (cases rule: drop_cases [of no_retire_faults s1])
    case (kept e)
    then show thesis by (simp add: drop_empty_account_directory_def no_retire_faults_def)
  next
    case gone
    with that show thesis by simp
  next
    case present
    with one(3) show thesis by simp
  qed
  show ?thesis
    using one two
    by (simp add: retire_witness_def Let_def authority_retire_def no_retire_faults_def site_retired_def)
qed

lemma retire_absent_journal:
  assumes held: "acc_held_by acc = None" and journal: "site_journal s = None"
    and audit: "audit_validate a = Ok ()" and works: "open_works L E (acc_uuid acc)"
  shows "(bytes_in (site_witness s) = [] \<longrightarrow> retire L C E rf acc a s = (Ok Nothing_to_retire, s)) \<and>
    (bytes_in (site_witness s) \<noteq> [] \<longrightarrow>
      (\<exists>d. retire L C E rf acc a s = retire_witness L E rf acc a d s))"
proof -
  have lock: "authority_lock L E (acc_uuid acc) (site_witness s) =
      Ok \<lparr>held_bytes = bytes_in (site_witness s), witness_file = site_witness s, adopted = False\<rparr>"
    by (rule open_works_authority [OF works])
  have read: "read_journal E path None = Ok None" for path
    using works by (simp add: read_journal_def open_works_def)
  let ?sides = "\<lparr>s_root = parts_path (acc_root acc), s_uuid = acc_uuid acc,
      s_witness_path = authority_path E (acc_uuid acc), s_witness = bytes_in (site_witness s),
      s_journal = None\<rparr>"
  show ?thesis
  proof (cases "classify L C (oe_host E) ?sides")
    case Absent
    moreover from this have "bytes_in (site_witness s) = []" by (simp add: classify_Absent)
    ultimately show ?thesis using held audit lock by (simp add: retire_def)
  next
    case (Verified r)
    then show ?thesis by (simp add: classify_Verified)
  next
    case (Damaged d e)
    then have "\<not> d_journal_present d" using classify_Damaged [OF Damaged] by simp
    with Damaged held audit lock read journal show ?thesis
      by (auto simp: retire_def)
  qed
qed

text \<open>A retirement cut short is finished by running it again: whatever failed the first time, a
  second run that nothing fails leaves the root retired, its index entry and its directory gone
  and every byte of the witness under its retired name.\<close>

theorem retirement_finishes:
  assumes "bm_ok (site_index s)" and "site_kept s = None" and "site_journal s = None"
    and "bytes_in (site_witness s) \<noteq> []" and "acc_held_by acc = None"
    and "open_works L E (acc_uuid acc)" and "audit_validate b = Ok ()"
    and "retire L C E rf acc a s = (r, s')"
  shows "site_retired (acc_root acc) (site_witness s) (snd (retire L C E no_retire_faults acc b s'))"
proof -
  have again: "site_retired (acc_root acc) (site_witness t) (snd (retire L C E no_retire_faults acc b t))"
    if "bm_ok (site_index t)" "site_journal t = None" "bytes_in (site_witness t) \<noteq> []" for t
    using retire_absent_journal [OF assms(5) that(2) assms(7,6), of C no_retire_faults] that(3)
      retire_witness_finishes [OF that(1,2), of acc L E b] by metis
  show ?thesis
  proof (cases rule: retire_here [OF assms(5,8)])
    case 1
    with again [OF assms(1,3,4)] show ?thesis by simp
  next
    case (2 d)
    from retire_witness_outcome [OF assms(1,3,2) 2(2)] have
      s': "bm_ok (site_index s')" "site_journal s' = None"
        "site_witness s' = site_witness s \<or> site_retired (acc_root acc) (site_witness s) s'"
      by (auto simp: site_retired_def)
    show ?thesis
    proof (cases "site_witness s' = site_witness s")
      case True
      with again [of s'] s' assms(4) show ?thesis by simp
    next
      case False
      with s'(3) have moved: "site_retired (acc_root acc) (site_witness s) s'" by simp
      then have "bytes_in (site_witness s') = []" by (simp add: site_retired_def bytes_in_def)
      with retire_absent_journal [OF assms(5) s'(2) assms(7,6), of C no_retire_faults] moved
      show ?thesis by simp
    qed
  qed
qed

definition sample_account :: account where
  "sample_account = \<lparr>acc_root = [''/'', ''p''], acc_uuid = ''ab'', acc_held_by = None\<rparr>"

definition sample_site :: "json site" where
  "sample_site = \<lparr>site_index = [([''/'', ''p''], ''ab''), ([''/'', ''q''], ''cd'')], site_directory = True,
     site_journal = None, site_witness = Some [1, 2], site_kept = None, site_claim = None\<rparr>"

definition unmoved :: retire_faults where
  "unmoved = no_retire_faults\<lparr>rf_moved := Err (corrupt ''no space'')\<rparr>"

lemma sample_site_ok: "bm_ok (site_index sample_site)"
  by (simp add: sample_site_def bm_ok_def less_char_def)

theorem retirement_is_crash_safe_witness:
  "site_witness (snd (retire json_lib line_codec sample_env unmoved sample_account sample_audit sample_site)) =
     Some [1, 2] \<and>
   bm_get (site_index (snd (retire json_lib line_codec sample_env unmoved sample_account sample_audit sample_site)))
     [''/'', ''q''] = Some ''cd''"
proof -
  let ?x = "retire json_lib line_codec sample_env unmoved sample_account sample_audit sample_site"
  have kept: "site_kept sample_site = None" and here: "acc_held_by sample_account = None"
    and works: "open_works json_lib sample_env (acc_uuid sample_account)"
    using sample_works by (simp_all add: sample_site_def sample_account_def)
  have "site_journal sample_site = None" "bytes_in (site_witness sample_site) \<noteq> []"
    by (simp_all add: sample_site_def bytes_in_def)
  with retire_absent_journal [OF here _ sample_audit_ok works] obtain d where
    x: "?x = retire_witness json_lib sample_env unmoved sample_account sample_audit d sample_site" by blast
  have "fst ?x \<noteq> Ok (Retired q)" for q
    unfolding x by (simp add: retire_witness_def Let_def authority_retire_def unmoved_def no_retire_faults_def
        split: sum.split prod.split)
  moreover have "site_witness (snd ?x) \<noteq> None"
  proof -
    have "site_witness (snd ?x) = site_witness sample_site"
      unfolding x by (simp add: retire_witness_def Let_def authority_retire_def unmoved_def no_retire_faults_def
          site_retract_def retract_root_def index_write_def drop_empty_account_directory_def)
    then show ?thesis by (simp add: sample_site_def)
  qed
  ultimately show ?thesis
    using retirement_is_crash_safe [OF sample_site_ok kept, of json_lib line_codec sample_env unmoved
        sample_account sample_audit "fst ?x" "snd ?x"] here
    by (auto simp: sample_site_def sample_account_def)
qed

theorem retirement_finishes_witness:
  "site_retired [''/'', ''p''] (Some [1, 2])
     (snd (retire json_lib line_codec sample_env no_retire_faults sample_account sample_audit
       (snd (retire json_lib line_codec sample_env unmoved sample_account sample_audit sample_site))))"
proof -
  have works: "open_works json_lib sample_env (acc_uuid sample_account)"
    using sample_works by (simp add: sample_account_def)
  have "site_kept sample_site = None" "site_journal sample_site = None"
    "bytes_in (site_witness sample_site) \<noteq> []" "acc_held_by sample_account = None"
    by (simp_all add: sample_site_def sample_account_def bytes_in_def)
  from retirement_finishes [OF sample_site_ok this works sample_audit_ok prod.collapse [symmetric]]
  show ?thesis by (simp add: sample_account_def sample_site_def)
qed

subsection \<open>A copy\<close>

lemma locate_copy:
  assumes "place_root P = Ok root" and "local_uuid L (seen_listing (place_visit P)) root = Ok (Some uuid)"
    and "seen_index (place_visit P) = Ok m"
    and "roots_read L (seen_listing (place_visit P)) m root uuid = Copy holder"
  shows "locate L P =
    (Ok (Some \<lparr>acc_root = root, acc_uuid = uuid, acc_held_by = Some holder\<rparr>), None, [])"
  using assms by (simp add: locate_def settle_def)

text \<open>C18: A copy charges nothing. Where the index binds the uuid a root presents to another root that
  still holds it, the root is located with that holder, and establishing, opening or verifying
  it is refused with a reason that offers to forget the claim, while nothing is written: no
  index, no receipt, no directory.\<close>

theorem copy_is_refused:
  assumes "place_root P = Ok root" and "local_uuid L (seen_listing (place_visit P)) root = Ok (Some uuid)"
    and "seen_index (place_visit P) = Ok m" and "one_each m"
    and "bm_get m holder = Some uuid" and "holder \<noteq> root"
    and "holds L (seen_listing (place_visit P)) holder uuid"
  shows "\<exists>e. account_establish L C E P minted fresh a witness journal = (Err e, None, []) \<and>
    reason_code e = ''untrustworthy_ledger'' \<and> forget_offer e \<noteq> None \<and>
    (\<exists>acc. locate L P = (Ok (Some acc), None, []) \<and> acc_held_by acc = Some holder \<and>
      (\<forall>writable w j. account_open L C E acc writable w j = Err e) \<and>
      (\<forall>w j. account_verify L C E acc w j = Err e))"
proof -
  have ok: "bm_ok m" using assms(4) by (simp add: one_each_def)
  have mine: "r = holder" if "bm_get m r = Some uuid" for r by (rule one_eachD [OF assms(4) that assms(5)])
  have "roots_read L (seen_listing (place_visit P)) m root uuid = Copy holder"
  proof (cases "roots_read L (seen_listing (place_visit P)) m root uuid")
    case Home
    with mine assms(6) show ?thesis by (auto simp: roots_read_simps [OF ok])
  next
    case Adopted
    with assms(5) show ?thesis by (auto simp: roots_read_simps [OF ok])
  next
    case (Copy h)
    with mine show ?thesis using roots_read_simps(3) [OF ok Copy] by simp
  next
    case (Move stale)
    with roots_read_simps(4) [OF ok Move] assms(5,7) show ?thesis by blast
  qed
  note at = locate_copy [OF assms(1-3) this]
  show ?thesis
    by (intro exI [of _ "held_elsewhere_refusal root uuid holder"])
      (simp add: account_establish_def located_or_minted_def at refuse_copy_def account_open_def
        account_verify_def held_elsewhere_refusal_def offering_forget_def error_new_def)
qed

definition sample_place :: place where
  "sample_place = \<lparr>place_root = Ok [''/'', ''c''],
     place_visit = \<lparr>seen_listing = race_fs, seen_index = Ok [([''/'', ''a''], ''aa'')], lock_held = False,
       lock_taken = Ok (), under_listing = race_fs, under_index = Ok [], index_written = Ok ()\<rparr>,
     place_index = Ok [], place_written = Ok ()\<rparr>"

theorem copy_is_refused_witness:
  "\<exists>e. account_establish json_lib line_codec sample_env sample_place ''ff'' ''r1'' sample_audit
     (\<lambda>_. None) (\<lambda>_. None) = (Err e, None, []) \<and> reason_code e = ''untrustworthy_ledger''"
proof -
  have local: "local_uuid json_lib (seen_listing (place_visit sample_place)) [''/'', ''c''] = Ok (Some ''aa'')"
    by (simp add: sample_place_def local_uuid_def race_fs_def local_step_def check_uuid_def hex_uuid_def)
  have holder: "holds json_lib (seen_listing (place_visit sample_place)) [''/'', ''a''] ''aa''"
    using race_holds [of 0 "''aa''"] by (simp add: sample_place_def race_root_def race_uuid_def)
  have "one_each [([''/'', ''a''], ''aa'')]" by (simp add: one_each_def bm_ok_def)
  from copy_is_refused [OF _ local _ this _ _ holder, of line_codec sample_env "''ff''" "''r1''"
      sample_audit "\<lambda>_. None" "\<lambda>_. None"]
  show ?thesis by (auto simp: sample_place_def)
qed

subsection \<open>Two first charges of one project\<close>

text \<open>
  \<open>establish\<close> decides to mint before it holds any lock. Two processes making a project's first
  charge from the same reading each mint a uuid of their own; once both have made their account
  directory, every later resolution of the project is refused as corrupt.
\<close>

theorem two_first_charges_mint_two_accounts:
  assumes "place_root P = Ok root" and "seen_listing (place_visit P) root = Ok None"
    and "place_index P = Ok m" and "bm_get m root = None" and "place_written P = Ok ()"
    and "check_uuid L one = Ok ()" and "check_uuid L two = Ok ()" and "one \<noteq> two"
    and "place_root Q = Ok root"
    and "seen_listing (place_visit Q) root = Ok (Some [Ok (one, True), Ok (two, True)])"
  shows "\<exists>a b. fst (located_or_minted L P one) = Ok a \<and> fst (located_or_minted L P two) = Ok b \<and>
    acc_root a = acc_root b \<and> acc_uuid a \<noteq> acc_uuid b \<and>
    (\<exists>e. locate L Q = (Err e, None, []) \<and> reason_code e = ''untrustworthy_ledger'')"
proof -
  have "locate L P = (Ok None, None, [])"
    using assms(1-4) by (simp add: locate_def local_uuid_def)
  then have "fst (located_or_minted L P u) = Ok \<lparr>acc_root = root, acc_uuid = u, acc_held_by = None\<rparr>" for u
    using assms(1,3,5) by (simp add: located_or_minted_def record_root_def index_write_def)
  moreover have "\<exists>e. locate L Q = (Err e, None, []) \<and> reason_code e = ''untrustworthy_ledger''"
    using assms(6,7,9,10) by (simp add: locate_def local_uuid_def local_step_def corrupt_def error_new_def)
  ultimately show ?thesis using assms(8) by simp
qed

end
