(* ===== verification/Machine.thy ===== *)
theory Machine
  imports Prelude Complex_Main
begin

text \<open>
  A plan's state machine (\<open>state_machine/validator/state_defs.rs\<close>, \<open>ast.rs\<close>) and the
  questions every surface asks of it: which state a raw value names, which rules leave a
  state, which states are cancellations, which profile binds a node, which machine governs a
  task. An \<open>IndexMap\<close> is the list of its entries in declaration order, read with
  \<open>map_of\<close>. The records hold the fields the modelled code reads; of a field of a
  third-party type (\<open>program\<close>) only whether it was declared.
\<close>

subsection \<open>Identifiers\<close>

datatype segment = Number u32 | Named string

type_synonym task_id = "segment list"

definition show_segment :: "segment \<Rightarrow> string" where
  "show_segment s = (case s of Number n \<Rightarrow> show_nat (unat n) | Named t \<Rightarrow> t)"

definition show_task_id :: "task_id \<Rightarrow> string" where
  "show_task_id i = join ''.'' (map show_segment i)"

definition extends :: "task_id \<Rightarrow> task_id \<Rightarrow> bool" where
  "extends i other \<longleftrightarrow> length i = length other + 1 \<and> take (length other) i = other"

definition parent :: "task_id \<Rightarrow> task_id option" where
  "parent i = (if length i \<le> 1 then None else Some (take (length i - 1) i))"

definition as_single :: "task_id \<Rightarrow> segment option" where
  "as_single i = (if length i = 1 then Some (i ! 0) else None)"

definition as_number :: "task_id \<Rightarrow> u32 option" where
  "as_number i = (case as_single i of Some (Number n) \<Rightarrow> Some n | _ \<Rightarrow> None)"

definition as_named :: "task_id \<Rightarrow> string option" where
  "as_named i = (case as_single i of Some (Named s) \<Rightarrow> Some s | _ \<Rightarrow> None)"

subsection \<open>The machine\<close>

record transition_rule =
  r_from :: string
  r_sources :: "string list option"
  r_to :: string
  r_on_leave :: "string option"
  r_on_enter :: "string option"
  r_condition :: "string option"
  r_callback_timeout :: "string option"

record poll_config =
  interval :: string
  max_attempts :: u32
  waiting_on :: "string option"

record state_def =
  initial :: bool
  terminal :: bool
  role :: "string option"
  gating :: bool
  poll :: "poll_config option"
  visits :: "u32 option"
  execute_on_raw :: "string option"
  target :: "string option"
  all_targets :: "string list"
  all_models :: "string list"
  model :: "string option"
  agent :: "string option"
  program_declared :: bool
  inherits_snapshot :: bool

record profile =
  p_initial :: string
  p_allowed :: "string list"
  p_transition_limit :: "u64 option"

record node_match =
  node_type :: "string option"
  level :: "u8 option"

record node_override =
  match_of :: node_match
  o_profile :: string

record node_policy =
  np_root :: string
  np_default :: string
  by_type :: "(string \<times> string) list"
  overrides :: "node_override list"

text \<open>The version of the file as YAML reads it: an integer, a float (\<open>None\<close>: not a number, or
  infinite), a string, or anything else.\<close>

datatype version = Integer int | Float "rat option" | Text string | Other

record state_machine =
  m_name :: string
  m_version :: version
  states :: "(string \<times> state_def) list"
  transitions :: "transition_rule list"
  profiles :: "(string \<times> profile) list option"
  policy :: "node_policy option"
  m_callback_timeout :: "string option"

abbreviation state_of :: "state_machine \<Rightarrow> string \<Rightarrow> state_def option" where
  "state_of m s \<equiv> map_of (states m) s"

definition holds_of :: "state_machine \<Rightarrow> (state_def \<Rightarrow> bool) \<Rightarrow> string \<Rightarrow> bool" where
  "holds_of m p s = (case state_of m s of None \<Rightarrow> False | Some d \<Rightarrow> p d)"

definition is_valid_state :: "state_machine \<Rightarrow> string \<Rightarrow> bool" where
  "is_valid_state m s \<longleftrightarrow> state_of m s \<noteq> None"

subsection \<open>The state a raw value names\<close>

text \<open>\<open>str::rsplit_once\<close> and \<open>str::parse\<close> into an unsigned integer of a given width.\<close>

definition rsplit_once :: "char \<Rightarrow> string \<Rightarrow> (string \<times> string) option" where
  "rsplit_once c s =
     (if c \<in> set s
      then Some (rev (tl (dropWhile (\<lambda>x. x \<noteq> c) (rev s))), rev (takeWhile (\<lambda>x. x \<noteq> c) (rev s)))
      else None)"

definition unsigned_digits :: "string \<Rightarrow> string" where
  "unsigned_digits s = (case s of c # t \<Rightarrow> if c = CHR ''+'' then t else s | [] \<Rightarrow> s)"

definition parse_below :: "nat \<Rightarrow> string \<Rightarrow> nat option" where
  "parse_below bound s =
     (let d = unsigned_digits s in
      if d \<noteq> [] \<and> list_all is_ascii_digit d \<and> read_nat d < bound then Some (read_nat d) else None)"

definition parse_u32 :: "string \<Rightarrow> u32 option" where
  "parse_u32 s = map_option of_nat (parse_below (2 ^ 32) s)"

record parsed_state =
  ps_state :: string
  ps_visit :: "u32 option"

definition parse_task_state :: "string \<Rightarrow> state_machine \<Rightarrow> parsed_state" where
  "parse_task_state raw m =
     (if is_valid_state m raw then \<lparr>ps_state = raw, ps_visit = None\<rparr>
      else case rsplit_once (CHR ''-'') raw of
        Some (base, visit_text) \<Rightarrow>
          (case parse_u32 visit_text of
             Some visit \<Rightarrow>
               if is_valid_state m base then \<lparr>ps_state = base, ps_visit = Some visit\<rparr>
               else \<lparr>ps_state = raw, ps_visit = None\<rparr>
           | None \<Rightarrow> \<lparr>ps_state = raw, ps_visit = None\<rparr>)
      | None \<Rightarrow> \<lparr>ps_state = raw, ps_visit = None\<rparr>)"

subsection \<open>Rules and their sources\<close>

definition transition_matches_source :: "state_machine \<Rightarrow> transition_rule \<Rightarrow> string \<Rightarrow> bool" where
  "transition_matches_source m rule s =
     (let s' = ps_state (parse_task_state s m) in
      if r_from rule \<noteq> ''*'' then r_from rule = s'
      else holds_of m (\<lambda>d. \<not> terminal d) s' \<and>
           (case r_sources rule of None \<Rightarrow> True | Some sources \<Rightarrow> s' \<in> set sources))"

definition transitions_from :: "state_machine \<Rightarrow> string \<Rightarrow> transition_rule list" where
  "transitions_from m s =
     filter (\<lambda>rule. r_from rule \<noteq> ''*'' \<and> transition_matches_source m rule s) (transitions m) @
     filter (\<lambda>rule. r_from rule = ''*'' \<and> transition_matches_source m rule s) (transitions m)"

definition is_cancelled_state_name :: "string \<Rightarrow> bool" where
  "is_cancelled_state_name s \<longleftrightarrow> s = ''cancelled'' \<or> s = ''canceled''"

definition is_cancellation :: "state_machine \<Rightarrow> string \<Rightarrow> bool" where
  "is_cancellation m s =
     (let s' = ps_state (parse_task_state s m) in
      is_cancelled_state_name s' \<or> holds_of m (\<lambda>d. role d = Some ''cancellation'') s')"

subsection \<open>Profiles\<close>

definition node_matches :: "node_match \<Rightarrow> string \<Rightarrow> u8 \<Rightarrow> bool" where
  "node_matches w kind lvl \<longleftrightarrow>
     (case node_type w of None \<Rightarrow> True | Some want \<Rightarrow> eq_ignore_ascii_case want kind) \<and>
     (case level w of None \<Rightarrow> True | Some want \<Rightarrow> want = lvl)"

definition resolved_name :: "node_policy \<Rightarrow> string \<Rightarrow> u8 \<Rightarrow> string" where
  "resolved_name p kind lvl =
     (case find (\<lambda>ov. node_matches (match_of ov) kind lvl) (overrides p) of
        Some ov \<Rightarrow> o_profile ov
      | None \<Rightarrow>
          (case find (\<lambda>(candidate, _). eq_ignore_ascii_case candidate kind) (by_type p) of
             Some (_, name) \<Rightarrow> name
           | None \<Rightarrow> np_default p))"

definition profile_for_node :: "state_machine \<Rightarrow> string \<Rightarrow> u8 \<Rightarrow> profile option" where
  "profile_for_node m kind lvl =
     (case (profiles m, policy m) of
        (Some ps, Some p) \<Rightarrow> map_of ps (resolved_name p kind lvl)
      | _ \<Rightarrow> None)"

definition root_profile :: "state_machine \<Rightarrow> profile option" where
  "root_profile m =
     (case (profiles m, policy m) of
        (Some ps, Some p) \<Rightarrow> map_of ps (np_root p)
      | _ \<Rightarrow> None)"

definition task_profile_allows_state :: "state_machine \<Rightarrow> string \<Rightarrow> u8 \<Rightarrow> string \<Rightarrow> bool" where
  "task_profile_allows_state m kind lvl s =
     (case profile_for_node m kind lvl of None \<Rightarrow> True | Some p \<Rightarrow> s \<in> set (p_allowed p))"

subsection \<open>The machines of a plan\<close>

record machine_set =
  default_machine :: state_machine
  per_rhei :: "(string \<times> state_machine) list"

definition for_task :: "machine_set \<Rightarrow> task_id \<Rightarrow> state_machine" where
  "for_task ms i =
     (case i of
        Named rhei # _ \<Rightarrow>
          (case map_of (per_rhei ms) rhei of Some m \<Rightarrow> m | None \<Rightarrow> default_machine ms)
      | _ \<Rightarrow> default_machine ms)"

definition for_task_str :: "machine_set \<Rightarrow> string \<Rightarrow> state_machine" where
  "for_task_str ms i =
     (case map_of (per_rhei ms) (hd (split_on (CHR ''.'') i)) of
        Some m \<Rightarrow> m | None \<Rightarrow> default_machine ms)"

subsection \<open>What the readings give\<close>

lemma rsplit_once_join:
  assumes "c \<notin> set t"
  shows "rsplit_once c (s @ c # t) = Some (s, t)"
proof -
  have "takeWhile (\<lambda>x. x \<noteq> c) (rev t @ c # rev s) = rev t"
    using assms by (subst takeWhile_append2) auto
  moreover have "dropWhile (\<lambda>x. x \<noteq> c) (rev t @ c # rev s) = c # rev s"
    using assms by (subst dropWhile_append2) auto
  ultimately show ?thesis by (simp add: rsplit_once_def)
qed

lemma parse_declared: "is_valid_state m s \<Longrightarrow> ps_state (parse_task_state s m) = s"
  by (simp add: parse_task_state_def)

text \<open>What the parse gives is either declared or the value as it was written, and reading it
  again changes nothing.\<close>

lemma parse_cases:
  "is_valid_state m (ps_state (parse_task_state s m)) \<or> ps_state (parse_task_state s m) = s"
  by (simp add: parse_task_state_def split: option.split prod.split)

lemma parse_again:
  "ps_state (parse_task_state (ps_state (parse_task_state s m)) m) = ps_state (parse_task_state s m)"
  using parse_cases [of m s] by (auto simp: parse_declared)

lemma holds_ofI: "state_of m s = Some d \<Longrightarrow> p d \<Longrightarrow> holds_of m p s"
  by (simp add: holds_of_def)

lemma holds_ofE:
  assumes "holds_of m p s"
  obtains d where "state_of m s = Some d" and "p d"
  using assms by (auto simp: holds_of_def split: option.splits)

lemma holds_of_valid: "holds_of m p s \<Longrightarrow> is_valid_state m s"
  by (auto simp: holds_of_def is_valid_state_def split: option.splits)

lemma matches_wildcard:
  "r_from rule = ''*'' \<Longrightarrow> transition_matches_source m rule s \<Longrightarrow>
   holds_of m (\<lambda>d. \<not> terminal d) (ps_state (parse_task_state s m))"
  by (simp add: transition_matches_source_def Let_def)

lemma matches_exact:
  "r_from rule \<noteq> ''*'' \<Longrightarrow>
   transition_matches_source m rule s \<longleftrightarrow> r_from rule = ps_state (parse_task_state s m)"
  by (simp add: transition_matches_source_def Let_def)

lemma set_transitions_from:
  "set (transitions_from m s) = {rule \<in> set (transitions m). transition_matches_source m rule s}"
  by (auto simp: transitions_from_def)

lemma for_task_str_of:
  assumes "i = Named r # rest" and "CHR ''.'' \<notin> set r"
  shows "for_task_str ms (show_task_id i) = for_task ms i"
proof -
  have "hd (split_on (CHR ''.'') (show_task_id i)) = r"
    using assms by (cases rest) (simp_all add: show_task_id_def show_segment_def split_on_append split_on_no_sep)
  then show ?thesis
    using assms by (simp add: for_task_str_def for_task_def)
qed

end
