(* ===== verification/Plan.thy ===== *)
theory Plan
  imports Machine
begin

text \<open>
  The task tree of a plan (\<open>ast.rs\<close>) and the frontmatter that rides with it. YAML is the
  \<open>serde_yaml\<close> crate's: its mappings are a type variable \<open>'m\<close>, its values \<open>'y\<close>, and the
  record holds the accessors and constructors the program uses. \<open>y_pattern\<close> is the pattern
  \<open>Value::Mapping(m)\<close>, \<open>y_as_mapping\<close> the accessor that also looks through a tag,
  \<open>y_as_u64\<close> a number read as a \<open>u64\<close>, \<open>y_text\<close> a string or a number as text;
  \<open>ym_retain\<close> keeps the entries a predicate holds of and
  \<open>ym_map_values\<close> is a loop over \<open>values_mut\<close>;
  \<open>y_number_pattern\<close> is \<open>as_u64\<close> of what the pattern \<open>Value::Number\<close> matches and
  \<open>y_string_pattern\<close> the pattern \<open>Value::String\<close>. The locale states what the crate documents
  of them.
\<close>

record consumed_export =
  ce_task :: task_id
  ce_name :: string

record task_fields =
  t_id :: task_id
  t_profile_depth_offset :: u8
  t_kind :: string
  t_title :: string
  t_state :: string
  t_prior :: "task_id list"
  t_prior_kinds :: "string option list"
  t_provides :: "string list"
  t_consumes :: "consumed_export list"
  t_assignee :: "string option"

datatype task = Task (row: task_fields) (children: "task list")

abbreviation id_of :: "task \<Rightarrow> task_id" where "id_of t \<equiv> t_id (row t)"
abbreviation state_text :: "task \<Rightarrow> string" where "state_text t \<equiv> t_state (row t)"
abbreviation kind_of :: "task \<Rightarrow> string" where "kind_of t \<equiv> t_kind (row t)"

text \<open>\<open>depth() as u8\<close> truncates; \<open>saturating_sub\<close> and \<open>max(1)\<close> follow.\<close>

definition profile_level :: "task \<Rightarrow> u8" where
  "profile_level t =
     (let depth = of_nat (length (id_of t)) :: u8;
          offset = t_profile_depth_offset (row t);
          d = (if depth < offset then 0 else depth - offset)
      in if d < 1 then 1 else d)"

fun collect_plan_tasks :: "task list \<Rightarrow> task list" where
  "collect_plan_tasks [] = []"
| "collect_plan_tasks (Task f cs # ts) = Task f cs # collect_plan_tasks cs @ collect_plan_tasks ts"

subsection \<open>Frontmatter\<close>

record ('m, 'y) yaml =
  ym_get :: "'m \<Rightarrow> 'y \<Rightarrow> 'y option"
  ym_insert :: "'m \<Rightarrow> 'y \<Rightarrow> 'y \<Rightarrow> 'm"
  ym_remove :: "'m \<Rightarrow> 'y \<Rightarrow> 'm"
  ym_new :: "'m"
  ym_is_empty :: "'m \<Rightarrow> bool"
  y_mapping :: "'m \<Rightarrow> 'y"
  y_pattern :: "'y \<Rightarrow> 'm option"
  y_as_mapping :: "'y \<Rightarrow> 'm option"
  y_string :: "string \<Rightarrow> 'y"
  y_number :: "u64 \<Rightarrow> 'y"
  y_as_u64 :: "'y \<Rightarrow> u64 option"
  y_as_str :: "'y \<Rightarrow> string option"
  y_text :: "'y \<Rightarrow> string option"
  y_sequence :: "'y list \<Rightarrow> 'y"
  y_as_sequence :: "'y \<Rightarrow> 'y list option"
  y_number_pattern :: "'y \<Rightarrow> u64 option"
  y_string_pattern :: "'y \<Rightarrow> string option"
  ym_retain :: "('y \<Rightarrow> 'y \<Rightarrow> bool) \<Rightarrow> 'm \<Rightarrow> 'm"
  ym_map_values :: "('y \<Rightarrow> 'y) \<Rightarrow> 'm \<Rightarrow> 'm"

definition yaml_key :: "('m, 'y) yaml \<Rightarrow> string \<Rightarrow> 'y" where
  "yaml_key Y name = y_string Y name"

definition task_id_yaml_key :: "('m, 'y) yaml \<Rightarrow> task_id \<Rightarrow> 'y" where
  "task_id_yaml_key Y i =
     (case as_number i of Some n \<Rightarrow> y_number Y (ucast n) | None \<Rightarrow> yaml_key Y (show_task_id i))"

definition task_metadata_map :: "('m, 'y) yaml \<Rightarrow> 'm option \<Rightarrow> task_id \<Rightarrow> 'm option" where
  "task_metadata_map Y metadata i =
     Option.bind metadata (\<lambda>root.
     Option.bind (ym_get Y root (yaml_key Y ''metadata'')) (\<lambda>v.
     Option.bind (y_as_mapping Y v) (\<lambda>sect.
     Option.bind (ym_get Y sect (yaml_key Y ''tasks'')) (\<lambda>v.
     Option.bind (y_as_mapping Y v) (\<lambda>tasks.
     Option.bind (ym_get Y tasks (task_id_yaml_key Y i)) (\<lambda>v.
     y_as_mapping Y v))))))"

definition task_metadata_number :: "('m, 'y) yaml \<Rightarrow> 'm option \<Rightarrow> task_id \<Rightarrow> string \<Rightarrow> u64 option" where
  "task_metadata_number Y metadata i field =
     Option.bind (task_metadata_map Y metadata i) (\<lambda>task_map.
     Option.bind (ym_get Y task_map (yaml_key Y field)) (\<lambda>v. y_as_u64 Y v))"

definition task_visit_count :: "('m, 'y) yaml \<Rightarrow> 'm option \<Rightarrow> task_id \<Rightarrow> string \<Rightarrow> u64" where
  "task_visit_count Y metadata i s =
     (case Option.bind (task_metadata_map Y metadata i) (\<lambda>task_map.
           Option.bind (ym_get Y task_map (yaml_key Y ''stateVisits'')) (\<lambda>v.
           Option.bind (y_as_mapping Y v) (\<lambda>state_visits.
           Option.bind (ym_get Y state_visits (yaml_key Y s)) (\<lambda>v. y_as_u64 Y v))))
      of Some count \<Rightarrow> max count 1 | None \<Rightarrow> 0)"

text \<open>\<open>ensure_mapping\<close> hands out the child mapping to be changed in place: the child found
  under the key, or a new one, is changed by \<open>f\<close> and put back.\<close>

definition child_mapping :: "('m, 'y) yaml \<Rightarrow> 'm \<Rightarrow> 'y \<Rightarrow> 'm" where
  "child_mapping Y parent_map key =
     (case Option.bind (ym_get Y parent_map key) (y_pattern Y) of Some c \<Rightarrow> c | None \<Rightarrow> ym_new Y)"

definition in_mapping :: "('m, 'y) yaml \<Rightarrow> 'y \<Rightarrow> ('m \<Rightarrow> 'm) \<Rightarrow> 'm \<Rightarrow> 'm" where
  "in_mapping Y key f parent_map =
     ym_insert Y parent_map key (y_mapping Y (f (child_mapping Y parent_map key)))"

definition in_task_entry :: "('m, 'y) yaml \<Rightarrow> task_id \<Rightarrow> ('m \<Rightarrow> 'm) \<Rightarrow> 'm option \<Rightarrow> 'm" where
  "in_task_entry Y i f existing =
     in_mapping Y (yaml_key Y ''metadata'') (in_mapping Y (yaml_key Y ''tasks'')
       (in_mapping Y (task_id_yaml_key Y i) f))
     (case existing of Some whole \<Rightarrow> whole | None \<Rightarrow> ym_new Y)"

definition set_visit_count ::
  "('m, 'y) yaml \<Rightarrow> 'm option \<Rightarrow> task_id \<Rightarrow> string \<Rightarrow> ('m \<Rightarrow> u64) \<Rightarrow> 'm" where
  "set_visit_count Y existing i s next =
     in_task_entry Y i (in_mapping Y (yaml_key Y ''stateVisits'')
       (\<lambda>state_visits. ym_insert Y state_visits (yaml_key Y s) (y_number Y (next state_visits)))) existing"

locale yaml_laws =
  fixes Y :: "('m, 'y) yaml"
  assumes get_new [simp]: "ym_get Y (ym_new Y) k = None"
    and get_insert: "ym_get Y (ym_insert Y m k v) l = (if l = k then Some v else ym_get Y m l)"
    and get_remove: "ym_get Y (ym_remove Y m k) l = (if l = k then None else ym_get Y m l)"
    and get_retain: "ym_get Y (ym_retain Y keep m) k =
      (case ym_get Y m k of Some v \<Rightarrow> if keep k v then Some v else None | None \<Rightarrow> None)"
    and get_map_values: "ym_get Y (ym_map_values Y f m) k = map_option f (ym_get Y m k)"
    and is_empty_iff: "ym_is_empty Y m \<longleftrightarrow> (\<forall>k. ym_get Y m k = None)"
    and pattern_mapping [simp]: "y_pattern Y (y_mapping Y m) = Some m"
    and as_mapping_pattern: "y_pattern Y v = Some m \<Longrightarrow> y_as_mapping Y v = Some m"
    and as_u64_number [simp]: "y_as_u64 Y (y_number Y n) = Some n"
    and as_str_string [simp]: "y_as_str Y (y_string Y s) = Some s"
    and text_string [simp]: "y_text Y (y_string Y s) = Some s"
    and as_sequence_sequence [simp]: "y_as_sequence Y (y_sequence Y vs) = Some vs"
    and number_pattern_number [simp]: "y_number_pattern Y (y_number Y n) = Some n"
    and string_inject [simp]: "y_string Y a = y_string Y b \<longleftrightarrow> a = b"
    and string_number [simp]: "y_string Y a \<noteq> y_number Y n"
begin

lemma as_mapping_mapping [simp]: "y_as_mapping Y (y_mapping Y m) = Some m"
  by (rule as_mapping_pattern) simp

lemma get_in_mapping:
  "ym_get Y (in_mapping Y k f m) l =
   (if l = k then Some (y_mapping Y (f (child_mapping Y m k))) else ym_get Y m l)"
  by (simp add: in_mapping_def get_insert)

lemma child_mapping_cases:
  obtains "child_mapping Y m k = ym_new Y"
  | v where "ym_get Y m k = Some v" and "y_as_mapping Y v = Some (child_mapping Y m k)"
  using that as_mapping_pattern
  by (cases "Option.bind (ym_get Y m k) (y_pattern Y)")
    (auto simp: child_mapping_def bind_eq_Some_conv)

lemma child_of_new [simp]: "child_mapping Y (ym_new Y) k = ym_new Y"
  by (simp add: child_mapping_def)

text \<open>The counters a write finds, and what reading them says: whatever they hold is what a
  reader saw, though behind a tag a reader may see more.\<close>

definition found_visits :: "'m option \<Rightarrow> task_id \<Rightarrow> 'm" where
  "found_visits existing i =
     (let whole = (case existing of Some w \<Rightarrow> w | None \<Rightarrow> ym_new Y) in
      child_mapping Y (child_mapping Y (child_mapping Y (child_mapping Y whole
        (yaml_key Y ''metadata'')) (yaml_key Y ''tasks'')) (task_id_yaml_key Y i)) (yaml_key Y ''stateVisits''))"

definition counted :: "'m \<Rightarrow> string \<Rightarrow> u64 option" where
  "counted sv k = Option.bind (ym_get Y sv (yaml_key Y k)) (y_as_u64 Y)"

lemma counted_new [simp]: "counted (ym_new Y) k = None"
  by (simp add: counted_def)

lemma found_visits_read:
  assumes "counted (found_visits existing i) k = Some c"
  shows "task_visit_count Y existing i k = max c 1"
proof (cases existing)
  case None
  with assms show ?thesis by (simp add: found_visits_def)
next
  case (Some whole)
  define sect where "sect = child_mapping Y whole (yaml_key Y ''metadata'')"
  define tasks where "tasks = child_mapping Y sect (yaml_key Y ''tasks'')"
  define entry where "entry = child_mapping Y tasks (task_id_yaml_key Y i)"
  define sv where "sv = child_mapping Y entry (yaml_key Y ''stateVisits'')"
  have v: "found_visits existing i = sv"
    by (simp add: found_visits_def Some sect_def tasks_def entry_def sv_def)
  with assms have "sv \<noteq> ym_new Y" by auto
  then obtain v4 where 4: "ym_get Y entry (yaml_key Y ''stateVisits'') = Some v4" "y_as_mapping Y v4 = Some sv"
    unfolding sv_def by (cases rule: child_mapping_cases [of entry "yaml_key Y ''stateVisits''"]) auto
  then have "entry \<noteq> ym_new Y" by auto
  then obtain v3 where 3: "ym_get Y tasks (task_id_yaml_key Y i) = Some v3" "y_as_mapping Y v3 = Some entry"
    unfolding entry_def by (cases rule: child_mapping_cases [of tasks "task_id_yaml_key Y i"]) auto
  then have "tasks \<noteq> ym_new Y" by auto
  then obtain v2 where 2: "ym_get Y sect (yaml_key Y ''tasks'') = Some v2" "y_as_mapping Y v2 = Some tasks"
    unfolding tasks_def by (cases rule: child_mapping_cases [of sect "yaml_key Y ''tasks''"]) auto
  then have "sect \<noteq> ym_new Y" by auto
  then obtain v1 where 1: "ym_get Y whole (yaml_key Y ''metadata'') = Some v1" "y_as_mapping Y v1 = Some sect"
    unfolding sect_def by (cases rule: child_mapping_cases [of whole "yaml_key Y ''metadata''"]) auto
  from assms v have "Option.bind (ym_get Y sv (yaml_key Y k)) (y_as_u64 Y) = Some c" by (simp add: counted_def)
  with 1 2 3 4 Some show ?thesis
    by (simp add: task_visit_count_def task_metadata_map_def)
qed

lemma count_after_set:
  "task_visit_count Y (Some (set_visit_count Y existing i s next)) i k =
   (if k = s then max (next (found_visits existing i)) 1
    else case counted (found_visits existing i) k of Some c \<Rightarrow> max c 1 | None \<Rightarrow> 0)"
  unfolding task_visit_count_def set_visit_count_def task_metadata_map_def in_task_entry_def
    found_visits_def counted_def Let_def
  by (simp add: get_in_mapping get_insert yaml_key_def)

end

end
