(* ===== verification/Dead_Ends.thy ===== *)
theory Dead_Ends
  imports Machine
begin

text \<open>
  A state nothing can take a task out of is refused when the machine loads
  (\<open>state_machine_dead_ends.rs\<close>). The breadth-first walk keeps the visited set, the order in
  which states were found and the queue; it is total, because every state it finds is the
  target of a declared rule and is queued once. \<open>way_out\<close> is what the walk is measured
  against: one counted edge, as a relation.
\<close>

definition state_is_terminal :: "state_machine \<Rightarrow> string \<Rightarrow> bool" where
  "state_is_terminal m s = holds_of m terminal s"

definition transition_leaves_state :: "state_machine \<Rightarrow> string \<Rightarrow> transition_rule \<Rightarrow> bool" where
  "transition_leaves_state m s rule =
     (if r_from rule = s then True
      else if \<not> transition_matches_source m rule s then False
      else holds_of m gating s \<or> \<not> state_is_terminal m (r_to rule))"

definition permits :: "string set option \<Rightarrow> string \<Rightarrow> bool" where
  "permits allowed s = (case allowed of None \<Rightarrow> True | Some names \<Rightarrow> s \<in> names)"

subsection \<open>The walk\<close>

type_synonym walk = "string set \<times> string list \<times> string list"

definition follow_rule ::
  "state_machine \<Rightarrow> string \<Rightarrow> string set option \<Rightarrow> transition_rule \<Rightarrow> walk \<Rightarrow> walk" where
  "follow_rule m s allowed rule w =
     (case w of (seen, order, queue) \<Rightarrow>
        if \<not> transition_leaves_state m s rule then w
        else if \<not> permits allowed (r_to rule) then w
        else if r_to rule \<in> seen then w
        else (insert (r_to rule) seen, order @ [r_to rule], queue @ [r_to rule]))"

definition follow ::
  "state_machine \<Rightarrow> string \<Rightarrow> string set option \<Rightarrow> transition_rule list \<Rightarrow> walk \<Rightarrow> walk" where
  "follow m s allowed rules w = fold (follow_rule m s allowed) rules w"

definition targets :: "state_machine \<Rightarrow> string set" where
  "targets m = r_to ` set (transitions m)"

definition unseen :: "state_machine \<Rightarrow> string set \<Rightarrow> nat" where
  "unseen m seen = card (targets m - seen)"

lemma finite_targets [simp]: "finite (targets m)"
  by (simp add: targets_def)

text \<open>A state found is taken off the unseen targets and put on the queue.\<close>

lemma follow_rule_measure:
  assumes "rule \<in> set (transitions m)" and "follow_rule m s allowed rule (seen, order, queue) = (seen', order', queue')"
  shows "unseen m seen' + length queue' = unseen m seen + length queue"
proof (cases "seen' = seen")
  case True
  with assms(2) show ?thesis by (auto simp: follow_rule_def split: if_splits)
next
  case False
  with assms(2) have new: "r_to rule \<notin> seen" "seen' = insert (r_to rule) seen" "queue' = queue @ [r_to rule]"
    by (auto simp: follow_rule_def split: if_splits)
  have t: "r_to rule \<in> targets m - seen" using assms(1) new(1) by (simp add: targets_def)
  have "targets m - seen' = (targets m - seen) - {r_to rule}" using new(2) by blast
  then have "unseen m seen' = unseen m seen - 1" using t by (simp add: unseen_def)
  moreover have "0 < unseen m seen" using t by (auto simp: unseen_def card_gt_0_iff)
  ultimately show ?thesis using new(3) by simp
qed

lemma follow_measure:
  "set rules \<subseteq> set (transitions m) \<Longrightarrow> follow m s allowed rules (seen, order, queue) = (seen', order', queue') \<Longrightarrow>
   unseen m seen' + length queue' = unseen m seen + length queue"
proof (induction rules arbitrary: seen order queue)
  case (Cons rule rules)
  obtain seen1 order1 queue1 where one: "follow_rule m s allowed rule (seen, order, queue) = (seen1, order1, queue1)"
    by (cases "follow_rule m s allowed rule (seen, order, queue)") auto
  with Cons.prems have "follow m s allowed rules (seen1, order1, queue1) = (seen', order', queue')"
    by (simp add: follow_def)
  with Cons one show ?case by (auto dest: follow_rule_measure)
qed (simp add: follow_def)

function walk_from :: "state_machine \<Rightarrow> string set option \<Rightarrow> walk \<Rightarrow> string list" where
  "walk_from m allowed (seen, order, []) = order"
| "walk_from m allowed (seen, order, s # queue) =
     (if state_is_terminal m s then walk_from m allowed (seen, order, queue)
      else walk_from m allowed (follow m s allowed (transitions m) (seen, order, queue)))"
  by pat_completeness auto
termination
proof (relation "measure (\<lambda>(m, allowed, seen, order, queue). unseen m seen + length queue)")
  fix m allowed seen order s queue
  show "((m, allowed, follow m s allowed (transitions m) (seen, order, queue)), m, allowed, seen, order, s # queue)
      \<in> measure (\<lambda>(m, allowed, seen, order, queue). unseen m seen + length queue)"
    by (cases "follow m s allowed (transitions m) (seen, order, queue)")
      (auto dest!: follow_measure [OF subset_refl])
qed auto

definition states_reachable_from :: "state_machine \<Rightarrow> string \<Rightarrow> string set option \<Rightarrow> string list" where
  "states_reachable_from m start allowed = walk_from m allowed ({start}, [], [start])"

subsection \<open>Arriving\<close>

datatype final_reached = AnyFinal | NotCancellation

definition arrives_at :: "final_reached \<Rightarrow> state_machine \<Rightarrow> string \<Rightarrow> bool" where
  "arrives_at counts m s \<longleftrightarrow>
     state_is_terminal m s \<and> (counts = AnyFinal \<or> \<not> is_cancellation m s)"

definition state_can_reach_final ::
  "state_machine \<Rightarrow> string \<Rightarrow> string set option \<Rightarrow> final_reached \<Rightarrow> bool" where
  "state_can_reach_final m start allowed counts \<longleftrightarrow>
     arrives_at counts m start \<or>
     list_ex (arrives_at counts m) (states_reachable_from m start allowed)"

text \<open>\<open>supervisor_finish.rs\<close>: the walk starts at the edge's target.\<close>

definition contains :: "string \<Rightarrow> string \<Rightarrow> bool" where
  "contains s p \<longleftrightarrow> list_ex (\<lambda>n. starts_with (drop n s) p) [0..<Suc (length s)]"

definition condition_mentions :: "string \<Rightarrow> transition_rule \<Rightarrow> bool" where
  "condition_mentions p rule = (case r_condition rule of None \<Rightarrow> False | Some cond \<Rightarrow> contains cond p)"

definition supervising_state_can_finish :: "state_machine \<Rightarrow> string \<Rightarrow> bool" where
  "supervising_state_can_finish m s \<longleftrightarrow>
     list_ex (\<lambda>rule. r_from rule = s \<and> r_to rule \<noteq> s \<and> condition_mentions ''openDescendants'' rule \<and>
                     state_can_reach_final m (r_to rule) None NotCancellation) (transitions m)"

subsection \<open>What the walk is measured against\<close>

definition way_out :: "state_machine \<Rightarrow> string set option \<Rightarrow> string \<Rightarrow> string \<Rightarrow> bool" where
  "way_out m allowed s t \<longleftrightarrow>
     \<not> state_is_terminal m s \<and> permits allowed t \<and>
     (\<exists>rule\<in>set (transitions m). transition_leaves_state m s rule \<and> r_to rule = t)"

definition leads :: "state_machine \<Rightarrow> string set option \<Rightarrow> string \<Rightarrow> string \<Rightarrow> bool" where
  "leads m allowed = (way_out m allowed)\<^sup>*\<^sup>*"

definition new_targets :: "state_machine \<Rightarrow> string set option \<Rightarrow> string \<Rightarrow> transition_rule list \<Rightarrow> string set" where
  "new_targets m allowed s rules =
     {r_to rule |rule. rule \<in> set rules \<and> transition_leaves_state m s rule \<and> permits allowed (r_to rule)}"

lemma follow_effect:
  "follow m s allowed rules (seen, order, queue) = (seen', order', queue') \<Longrightarrow>
   (\<exists>found. order' = order @ found \<and> queue' = queue @ found \<and> distinct found \<and> set found \<inter> seen = {} \<and>
            set found \<subseteq> new_targets m allowed s rules \<and>
            seen' = seen \<union> new_targets m allowed s rules \<and> seen' = seen \<union> set found)"
proof (induction rules arbitrary: seen order queue)
  case Nil
  then show ?case by (auto simp: follow_def new_targets_def)
next
  case (Cons rule rules)
  show ?case
  proof (cases "transition_leaves_state m s rule \<and> permits allowed (r_to rule)")
    case False
    then have "follow_rule m s allowed rule (seen, order, queue) = (seen, order, queue)"
      by (auto simp: follow_rule_def)
    with Cons.prems have "follow m s allowed rules (seen, order, queue) = (seen', order', queue')"
      by (simp add: follow_def)
    moreover have "new_targets m allowed s (rule # rules) = new_targets m allowed s rules"
      using False by (auto simp: new_targets_def)
    ultimately show ?thesis using Cons.IH by simp
  next
    case counted: True
    have nt: "new_targets m allowed s (rule # rules) = insert (r_to rule) (new_targets m allowed s rules)"
      using counted by (auto simp: new_targets_def)
    show ?thesis
    proof (cases "r_to rule \<in> seen")
      case True
      then have "follow_rule m s allowed rule (seen, order, queue) = (seen, order, queue)"
        by (simp add: follow_rule_def)
      with Cons.prems have "follow m s allowed rules (seen, order, queue) = (seen', order', queue')"
        by (simp add: follow_def)
      from Cons.IH [OF this] show ?thesis using True nt by auto
    next
      case False
      then have "follow_rule m s allowed rule (seen, order, queue) =
          (insert (r_to rule) seen, order @ [r_to rule], queue @ [r_to rule])"
        using counted by (simp add: follow_rule_def)
      with Cons.prems have "follow m s allowed rules
          (insert (r_to rule) seen, order @ [r_to rule], queue @ [r_to rule]) = (seen', order', queue')"
        by (simp add: follow_def)
      from Cons.IH [OF this] obtain found where
        "order' = (order @ [r_to rule]) @ found" "queue' = (queue @ [r_to rule]) @ found" "distinct found"
        "set found \<inter> insert (r_to rule) seen = {}" "set found \<subseteq> new_targets m allowed s rules"
        "seen' = insert (r_to rule) seen \<union> new_targets m allowed s rules"
        "seen' = insert (r_to rule) seen \<union> set found" by blast
      then show ?thesis using False nt by (intro exI [of _ "r_to rule # found"]) auto
    qed
  qed
qed

definition walk_inv :: "state_machine \<Rightarrow> string set option \<Rightarrow> string \<Rightarrow> walk \<Rightarrow> bool" where
  "walk_inv m allowed start w =
     (case w of (seen, order, queue) \<Rightarrow>
        seen = insert start (set order) \<and> distinct order \<and> start \<notin> set order \<and> set queue \<subseteq> seen \<and>
        (\<forall>s\<in>seen. leads m allowed start s) \<and>
        (\<forall>s\<in>seen - set queue. \<forall>t. way_out m allowed s t \<longrightarrow> t \<in> seen))"

lemma way_out_new_targets:
  "way_out m allowed s t \<longleftrightarrow> \<not> state_is_terminal m s \<and> t \<in> new_targets m allowed s (transitions m)"
  by (auto simp: way_out_def new_targets_def)

lemma walk_inv_start: "walk_inv m allowed start ({start}, [], [start])"
  by (simp add: walk_inv_def leads_def)

lemma walk_invI:
  assumes "seen = insert start (set order)" and "distinct order" and "start \<notin> set order"
    and "set queue \<subseteq> seen" and "\<And>s. s \<in> seen \<Longrightarrow> leads m allowed start s"
    and "\<And>s t. s \<in> seen \<Longrightarrow> s \<notin> set queue \<Longrightarrow> way_out m allowed s t \<Longrightarrow> t \<in> seen"
  shows "walk_inv m allowed start (seen, order, queue)"
  unfolding walk_inv_def using assms by blast

lemma walk_invD:
  assumes "walk_inv m allowed start (seen, order, queue)"
  shows "seen = insert start (set order)" and "distinct order" and "start \<notin> set order"
    and "set queue \<subseteq> seen" and "s \<in> seen \<Longrightarrow> leads m allowed start s"
    and "s \<in> seen \<Longrightarrow> s \<notin> set queue \<Longrightarrow> way_out m allowed s t \<Longrightarrow> t \<in> seen"
proof -
  from assms have "seen = insert start (set order) \<and> distinct order \<and> start \<notin> set order \<and> set queue \<subseteq> seen \<and>
      (\<forall>s\<in>seen. leads m allowed start s) \<and>
      (\<forall>s\<in>seen - set queue. \<forall>t. way_out m allowed s t \<longrightarrow> t \<in> seen)"
    unfolding walk_inv_def split_conv .
  then show "seen = insert start (set order)" and "distinct order" and "start \<notin> set order"
    and "set queue \<subseteq> seen" and "s \<in> seen \<Longrightarrow> leads m allowed start s"
    and "s \<in> seen \<Longrightarrow> s \<notin> set queue \<Longrightarrow> way_out m allowed s t \<Longrightarrow> t \<in> seen"
    by blast+
qed

lemma no_way_out_of_terminal: "state_is_terminal m s \<Longrightarrow> \<not> way_out m allowed s t"
  by (simp add: way_out_def)

lemma walk_inv_skip:
  assumes inv: "walk_inv m allowed start (seen, order, s # queue)" and "state_is_terminal m s"
  shows "walk_inv m allowed start (seen, order, queue)"
proof (rule walk_invI)
  fix x t
  assume x: "x \<in> seen" "x \<notin> set queue" "way_out m allowed x t"
  with assms(2) have "x \<noteq> s" by (auto dest: no_way_out_of_terminal)
  with x show "t \<in> seen" by (auto intro: walk_invD(6) [OF inv])
qed (use walk_invD(1-5) [OF inv] in \<open>simp_all\<close>)

lemma walk_inv_follow:
  assumes inv: "walk_inv m allowed start (seen, order, s # queue)" and open_state: "\<not> state_is_terminal m s"
  shows "walk_inv m allowed start (follow m s allowed (transitions m) (seen, order, queue))"
proof -
  obtain seen' order' queue' where f: "follow m s allowed (transitions m) (seen, order, queue) = (seen', order', queue')"
    by (cases "follow m s allowed (transitions m) (seen, order, queue)") auto
  from follow_effect [OF f] obtain found where
    e: "order' = order @ found" "queue' = queue @ found" "distinct found" "set found \<inter> seen = {}"
       "set found \<subseteq> new_targets m allowed s (transitions m)"
       "seen' = seen \<union> new_targets m allowed s (transitions m)" "seen' = seen \<union> set found" by blast
  note i = walk_invD [OF inv]
  have sq: "s \<in> seen" "set queue \<subseteq> seen" using i(4) by simp_all
  show ?thesis
    unfolding f
  proof (rule walk_invI)
    show "seen' = insert start (set order')" using i(1) e(1,7) by simp
    show "distinct order'" using i(1,2) e(1,3,4) by auto
    show "start \<notin> set order'" using i(1,3) e(1,4) by auto
    show "set queue' \<subseteq> seen'" using sq e(2,7) by auto
  next
    fix x assume "x \<in> seen'"
    show "leads m allowed start x"
    proof (cases "x \<in> seen")
      case False
      with \<open>x \<in> seen'\<close> e(5,7) have "way_out m allowed s x"
        using open_state by (auto simp: way_out_new_targets)
      with i(5) [OF sq(1)] show ?thesis
        unfolding leads_def by (rule rtranclp.rtrancl_into_rtrancl)
    qed (rule i(5))
  next
    fix x t assume x: "x \<in> seen'" "x \<notin> set queue'" "way_out m allowed x t"
    show "t \<in> seen'"
    proof (cases "x = s")
      case True
      with x(3) e(6) show ?thesis by (simp add: way_out_new_targets)
    next
      case False
      with x(1,2) e(2,7) have "x \<in> seen" "x \<notin> set (s # queue)" by auto
      from i(6) [OF this x(3)] e(7) show ?thesis by simp
    qed
  qed
qed

lemma walk_from_exact:
  "walk_inv m allowed start w \<Longrightarrow>
   distinct (walk_from m allowed w) \<and> start \<notin> set (walk_from m allowed w) \<and>
   insert start (set (walk_from m allowed w)) = {t. leads m allowed start t}"
proof (induction m allowed w rule: walk_from.induct)
  case (1 m allowed seen order)
  note i = walk_invD [OF 1]
  have "t \<in> seen" if "leads m allowed start t" for t
    using that unfolding leads_def
    by (induction rule: rtranclp_induct) (use i(1) in simp, rule i(6), simp_all)
  then have "seen = {t. leads m allowed start t}" using i(5) by blast
  then show ?case using i(1-3) by simp
next
  case (2 m allowed seen order s queue)
  then show ?case
    by (cases "state_is_terminal m s") (auto dest: walk_inv_skip walk_inv_follow)
qed

lemma states_reachable_from_exact:
  "distinct (states_reachable_from m start allowed)"
  "start \<notin> set (states_reachable_from m start allowed)"
  "insert start (set (states_reachable_from m start allowed)) = {t. leads m allowed start t}"
  using walk_from_exact [OF walk_inv_start [of m allowed start]]
  by (simp_all add: states_reachable_from_def)

lemma state_can_reach_final_iff:
  "state_can_reach_final m start allowed counts \<longleftrightarrow>
   (\<exists>t. leads m allowed start t \<and> arrives_at counts m t)"
proof -
  have "state_can_reach_final m start allowed counts \<longleftrightarrow>
      (\<exists>t\<in>insert start (set (states_reachable_from m start allowed)). arrives_at counts m t)"
    by (auto simp: state_can_reach_final_def list_ex_iff)
  then show ?thesis by (simp add: states_reachable_from_exact(3))
qed

end
