(* ===== verification/Selection.thy ===== *)
theory Selection
  imports Plan Dead_Ends
begin

text \<open>
  Which edge a ticket takes next (\<open>metadata_conditions.rs\<close>, \<open>loop_budget.rs\<close>,
  \<open>ready_auto_advance.rs\<close>): the visit counters, the operands and operators of a
  \<open>condition:\<close>, the two loop budgets, whether a rule is applicable now, and the forward edge
  the engine selects. A report is the message it prints; the help beside it is not modelled.
  An \<open>i64\<close> is the same 64 bits read with a sign.
\<close>

type_synonym report = string

type_synonym i64 = "64 word"

subsection \<open>Supervision of a state\<close>

datatype execute_on = ChildTerminal | ChildTransition | DescendantTerminal | DescendantTransition

definition parse_execute_on :: "string \<Rightarrow> execute_on option" where
  "parse_execute_on value =
     (let v = trim value in
      if v = ''child-terminal'' then Some ChildTerminal
      else if v = ''child-transition'' then Some ChildTransition
      else if v = ''descendant-terminal'' then Some DescendantTerminal
      else if v = ''descendant-transition'' then Some DescendantTransition
      else None)"

definition execute_on :: "state_def \<Rightarrow> execute_on option" where
  "execute_on d = Option.bind (execute_on_raw d) parse_execute_on"

subsection \<open>Counting visits\<close>

definition normalized_state_name :: "string \<Rightarrow> state_machine \<Rightarrow> string" where
  "normalized_state_name raw m = ps_state (parse_task_state raw m)"

definition state_visit_limit :: "state_machine \<Rightarrow> string \<Rightarrow> u64 option" where
  "state_visit_limit m s = map_option ucast (Option.bind (state_of m s) visits)"

definition raw_state_visit_count :: "string \<Rightarrow> state_machine \<Rightarrow> string \<Rightarrow> u64" where
  "raw_state_visit_count raw m expected =
     (let parsed = parse_task_state raw m in
      if ps_state parsed \<noteq> expected \<or> state_visit_limit m expected = None then 0
      else case ps_visit parsed of Some n \<Rightarrow> ucast n | None \<Rightarrow> 1)"

definition format_task_state_value :: "string \<Rightarrow> u64 option \<Rightarrow> state_machine \<Rightarrow> string" where
  "format_task_state_value s visit_count m =
     (case visit_count of
        Some count \<Rightarrow>
          if 1 < count \<and> state_visit_limit m s \<noteq> None then s @ ''-'' @ show_u64 count else s
      | None \<Rightarrow> s)"

definition state_declares_self_loop :: "state_machine \<Rightarrow> string \<Rightarrow> bool" where
  "state_declares_self_loop m s \<longleftrightarrow> list_ex (\<lambda>rule. r_from rule = s \<and> r_to rule = s) (transitions m)"

definition state_counts_visits :: "state_machine \<Rightarrow> string \<Rightarrow> bool" where
  "state_counts_visits m s =
     (if state_visit_limit m s \<noteq> None then True
      else case state_of m s of
        None \<Rightarrow> False
      | Some d \<Rightarrow>
          if poll d \<noteq> None then False
          else execute_on d \<noteq> None \<or> state_declares_self_loop m s)"

definition poll_of :: "state_machine \<Rightarrow> string \<Rightarrow> poll_config option" where
  "poll_of m s = Option.bind (state_of m s) poll"

definition current_state_visit_count ::
  "('m, 'y) yaml \<Rightarrow> 'm option \<Rightarrow> task_id \<Rightarrow> string \<Rightarrow> string \<Rightarrow> state_machine \<Rightarrow> u64" where
  "current_state_visit_count Y metadata i current raw m =
     (let count = max (task_visit_count Y metadata i current) (raw_state_visit_count raw m current) in
      if 0 < count then count
      else if state_counts_visits m current then 1
      else if poll_of m current \<noteq> None then 1
      else 0)"

subsection \<open>Conditions\<close>

text \<open>\<open>str::parse\<close> into an \<open>i64\<close>, and \<open>str::split_whitespace\<close>.\<close>

definition parse_i64 :: "string \<Rightarrow> i64 option" where
  "parse_i64 s =
     (case s of
        c # d \<Rightarrow>
          if c = CHR ''-''
          then (if d \<noteq> [] \<and> list_all is_ascii_digit d \<and> read_nat d \<le> 2 ^ 63
                then Some (- of_nat (read_nat d)) else None)
          else map_option of_nat (parse_below (2 ^ 63) s)
      | [] \<Rightarrow> None)"

fun split_whitespace_from :: "string \<Rightarrow> string \<Rightarrow> string list" where
  "split_whitespace_from word [] = (if word = [] then [] else [word])"
| "split_whitespace_from word (c # cs) =
     (if is_whitespace c
      then (if word = [] then split_whitespace_from [] cs else word # split_whitespace_from [] cs)
      else split_whitespace_from (word @ [c]) cs)"

definition split_whitespace :: "string \<Rightarrow> string list" where
  "split_whitespace s = split_whitespace_from [] s"

fun open_descendant_count :: "task \<Rightarrow> state_machine \<Rightarrow> nat" where
  "open_descendant_count (Task f cs) m =
     sum_list (map (\<lambda>child.
       (if \<not> holds_of m terminal (normalized_state_name (state_text child) m) then 1 else 0) +
       open_descendant_count child m) cs)"

definition resolve_condition_operand ::
  "('m, 'y) yaml \<Rightarrow> string \<Rightarrow> 'm option \<Rightarrow> task_id \<Rightarrow> task option \<Rightarrow> string \<Rightarrow> string \<Rightarrow>
   state_machine \<Rightarrow> report + i64" where
  "resolve_condition_operand Y token metadata i node current raw m =
     (case parse_i64 token of
        Some value \<Rightarrow> Ok value
      | None \<Rightarrow>
          if token = ''visitCount'' \<or> token = ''visit_count''
          then Ok (current_state_visit_count Y metadata i current raw m)
          else if token = ''visits'' then
            ok_or (''state '' @ quoted current @ '' does not declare a visit limit'')
              (state_visit_limit m current)
          else if token = ''openDescendants'' then
            (case node of
               None \<Rightarrow> Err (''condition operand '' @ quoted ''openDescendants'' @
                 '' needs the transitioning task'' @ [CHR 0x27] @
                 ''s subtree, which is not available here'')
             | Some t \<Rightarrow> Ok (of_nat (open_descendant_count t m)))
          else if token = ''pollAttempts'' then
            (case poll_of m current of
               None \<Rightarrow> Err (''condition operand '' @ quoted ''pollAttempts'' @
                 '' is only available on poll states'')
             | Some _ \<Rightarrow> Ok (current_state_visit_count Y metadata i current raw m))
          else if token = ''pollMaxAttempts'' then
            (case poll_of m current of
               None \<Rightarrow> Err (''condition operand '' @ quoted ''pollMaxAttempts'' @
                 '' is only available on poll states'')
             | Some p \<Rightarrow> Ok (ucast (max_attempts p)))
          else
            ok_or (''condition operand '' @ quoted token @ '' is not available in task metadata'')
              (task_metadata_number Y metadata i token))"

definition compare_operands :: "string \<Rightarrow> i64 \<Rightarrow> i64 \<Rightarrow> bool option" where
  "compare_operands op lhs rhs =
     (if op = ''<'' then Some (sint lhs < sint rhs)
      else if op = ''<='' then Some (sint lhs \<le> sint rhs)
      else if op = ''>'' then Some (sint lhs > sint rhs)
      else if op = ''>='' then Some (sint lhs \<ge> sint rhs)
      else if op = ''=='' then Some (lhs = rhs)
      else if op = ''!='' then Some (lhs \<noteq> rhs)
      else None)"

definition evaluate_transition_condition ::
  "('m, 'y) yaml \<Rightarrow> string \<Rightarrow> 'm option \<Rightarrow> task_id \<Rightarrow> task option \<Rightarrow> string \<Rightarrow> string \<Rightarrow>
   state_machine \<Rightarrow> report + bool" where
  "evaluate_transition_condition Y condition metadata i node current raw m =
     (case split_whitespace condition of
        [a, op, b] \<Rightarrow>
          tryb (resolve_condition_operand Y a metadata i node current raw m) (\<lambda>lhs.
          tryb (resolve_condition_operand Y b metadata i node current raw m) (\<lambda>rhs.
          ok_or (''unsupported operator '' @ quoted op @ '' in transition condition '' @ quoted condition)
            (compare_operands op lhs rhs)))
      | _ \<Rightarrow> Err (''unsupported transition condition '' @ quoted condition @
              ''; expected '' @ quoted ''<lhs> <op> <rhs>''))"

subsection \<open>Loop budgets\<close>

datatype loop_budget_kind = Visits | PollAttempts

definition budget_noun :: "loop_budget_kind \<Rightarrow> string" where
  "budget_noun k = (case k of Visits \<Rightarrow> ''visit'' | PollAttempts \<Rightarrow> ''poll'')"

definition budget_unit :: "loop_budget_kind \<Rightarrow> string" where
  "budget_unit k = (case k of Visits \<Rightarrow> ''visits'' | PollAttempts \<Rightarrow> ''attempts'')"

record spent_budget =
  sb_state :: string
  sb_kind :: loop_budget_kind
  sb_used :: u64
  sb_limit :: u64

definition when_exhausted :: "string \<Rightarrow> loop_budget_kind \<Rightarrow> u64 \<Rightarrow> u64 \<Rightarrow> spent_budget option" where
  "when_exhausted s kind used limit =
     (if limit \<le> used
      then Some \<lparr>sb_state = s, sb_kind = kind, sb_used = used, sb_limit = limit\<rparr> else None)"

definition show_spent_budget :: "spent_budget \<Rightarrow> string" where
  "show_spent_budget b =
     budget_noun (sb_kind b) @ '' budget for state '' @ quoted (sb_state b) @ '' is exhausted ('' @
     show_u64 (sb_used b) @ ''/'' @ show_u64 (sb_limit b) @ '' '' @ budget_unit (sb_kind b) @ '')''"

definition spent_loop_budget ::
  "('m, 'y) yaml \<Rightarrow> state_machine \<Rightarrow> 'm option \<Rightarrow> task_id \<Rightarrow> string \<Rightarrow> string \<Rightarrow> string \<Rightarrow>
   spent_budget option" where
  "spent_loop_budget Y m metadata i current raw to_state =
     (case (if current = to_state then poll_of m current else None) of
        Some p \<Rightarrow>
          when_exhausted to_state PollAttempts
            (current_state_visit_count Y metadata i current raw m) (ucast (max_attempts p))
      | None \<Rightarrow>
          Option.bind (state_visit_limit m to_state) (\<lambda>limit.
            let counted = task_visit_count Y metadata i to_state;
                used = (if current = to_state
                        then max counted (raw_state_visit_count raw m to_state) else counted)
            in when_exhausted to_state Visits used limit))"

definition loop_reentry_allowed ::
  "('m, 'y) yaml \<Rightarrow> state_machine \<Rightarrow> 'm option \<Rightarrow> task_id \<Rightarrow> string \<Rightarrow> string \<Rightarrow> string \<Rightarrow> bool" where
  "loop_reentry_allowed Y m metadata i current raw to_state \<longleftrightarrow>
     spent_loop_budget Y m metadata i current raw to_state = None"

subsection \<open>Applicability and selection\<close>

definition transition_rule_is_applicable ::
  "('m, 'y) yaml \<Rightarrow> transition_rule \<Rightarrow> state_machine \<Rightarrow> 'm option \<Rightarrow> task_id \<Rightarrow> task option \<Rightarrow>
   string \<Rightarrow> string \<Rightarrow> report + bool" where
  "transition_rule_is_applicable Y rule m metadata i node current raw =
     (if \<not> transition_matches_source m rule current then Ok False
      else if \<not> loop_reentry_allowed Y m metadata i current raw (r_to rule) then Ok False
      else case r_condition rule of
        Some condition \<Rightarrow> evaluate_transition_condition Y condition metadata i node current raw m
      | None \<Rightarrow> Ok True)"

text \<open>One of the two loops of the selection: the first rule the guard admits that is
  applicable; an error of one that is reached leaves the function.\<close>

fun first_applicable ::
  "(transition_rule \<Rightarrow> bool) \<Rightarrow> (transition_rule \<Rightarrow> report + bool) \<Rightarrow> transition_rule list \<Rightarrow>
   report + string option" where
  "first_applicable admits applicable [] = Ok None"
| "first_applicable admits applicable (rule # rules) =
     (if admits rule
      then tryb (applicable rule) (\<lambda>yes.
             if yes then Ok (Some (r_to rule)) else first_applicable admits applicable rules)
      else first_applicable admits applicable rules)"

definition find_next_transition_from ::
  "('m, 'y) yaml \<Rightarrow> task \<Rightarrow> 'm option \<Rightarrow> state_machine \<Rightarrow> string \<Rightarrow> report + string option" where
  "find_next_transition_from Y t metadata m from_raw =
     (let current = normalized_state_name from_raw m;
          allows = task_profile_allows_state m (kind_of t) (profile_level t);
          applicable = (\<lambda>rule. transition_rule_is_applicable Y rule m metadata (id_of t) (Some t) current from_raw)
      in tryb (first_applicable (\<lambda>rule. r_from rule = current \<and> allows (r_to rule)) applicable (transitions m))
         (\<lambda>found.
           case found of
             Some s \<Rightarrow> Ok (Some s)
           | None \<Rightarrow>
               first_applicable (\<lambda>rule. r_from rule = ''*'' \<and> transition_matches_source m rule current \<and>
                   \<not> holds_of m terminal (r_to rule) \<and> allows (r_to rule)) applicable (transitions m)))"

definition find_next_transition ::
  "('m, 'y) yaml \<Rightarrow> task \<Rightarrow> 'm option \<Rightarrow> state_machine \<Rightarrow> report + string option" where
  "find_next_transition Y t metadata m = find_next_transition_from Y t metadata m (state_text t)"

definition selected_forward_transition_from ::
  "('m, 'y) yaml \<Rightarrow> 'm option \<Rightarrow> state_machine \<Rightarrow> task \<Rightarrow> string \<Rightarrow> string option" where
  "selected_forward_transition_from Y metadata m t from_raw =
     (case find_next_transition_from Y t metadata m from_raw of Inr s \<Rightarrow> s | Inl _ \<Rightarrow> None)"

subsection \<open>Why a move is refused\<close>

definition describe_blocked_transition ::
  "('m, 'y) yaml \<Rightarrow> transition_rule \<Rightarrow> state_machine \<Rightarrow> 'm option \<Rightarrow> task_id \<Rightarrow> string \<Rightarrow> string \<Rightarrow> string" where
  "describe_blocked_transition Y rule m metadata i current raw =
     (case spent_loop_budget Y m metadata i current raw (r_to rule) of
        Some budget \<Rightarrow> show_spent_budget budget
      | None \<Rightarrow>
          (case r_condition rule of
             Some condition \<Rightarrow> ''condition `'' @ condition @ ''` evaluated to false''
           | None \<Rightarrow> ''transition is not currently applicable''))"

definition applicable_alternatives ::
  "('m, 'y) yaml \<Rightarrow> state_machine \<Rightarrow> 'm option \<Rightarrow> task_id \<Rightarrow> task option \<Rightarrow> string \<Rightarrow> string \<Rightarrow> string list" where
  "applicable_alternatives Y m metadata i node from_state raw =
     fold (\<lambda>rule out.
       if \<not> transition_matches_source m rule from_state then out
       else case transition_rule_is_applicable Y rule m metadata i node from_state raw of
         Inr True \<Rightarrow> if r_to rule \<in> set out then out else out @ [r_to rule]
       | _ \<Rightarrow> out) (transitions m) []"

definition describe_refused_alternatives ::
  "('m, 'y) yaml \<Rightarrow> state_machine \<Rightarrow> 'm option \<Rightarrow> task_id \<Rightarrow> task option \<Rightarrow> string \<Rightarrow> string \<Rightarrow> string \<Rightarrow>
   bool \<Rightarrow> string" where
  "describe_refused_alternatives Y m metadata i node from_state raw refused_to resolved_by_pair =
     (let found = applicable_alternatives Y m metadata i node from_state raw;
          pair_has_an_applicable_rule = (refused_to \<in> set found);
          alternatives = filter (\<lambda>s. s \<noteq> refused_to) found;
          governs = (if resolved_by_pair \<and> pair_has_an_applicable_rule then
            ''A move that names only a state pair takes the pair'' @ [CHR 0x27] @ ''s first declared exact '' @
            quoted from_state @ '' -> '' @ quoted refused_to @
            '' edge, and a wildcard-source edge only where the pair declares no exact one, so that edge '' @
            ''is the one refused here; another rule for the pair is currently applicable, and naming a '' @
            ''state pair does not reach it. '' else [])
      in governs @
         (if alternatives \<noteq> []
          then ''Currently applicable transitions from '' @ quoted from_state @ '': '' @
               join '', '' alternatives @ ''.''
          else if governs = []
          then ''No other transitions from this state are currently applicable.''
          else ''No other state is reachable from '' @ quoted from_state @ '' right now.''))"

end
