(* ===== verification/Moves.thy ===== *)
theory Moves
  imports Selection
begin

text \<open>
  Applying a transition (\<open>metadata_rewrite.rs\<close>, the decisions of
  \<open>execute_transition_with_origin\<close> in \<open>system_transition_execution.rs\<close>): compare and swap,
  the profile, the governing rule, its applicability, the descendants-first guard, an
  \<open>on_leave\<close> redirect, and what the move makes of the visit counters and the state line. A
  ticket is the metadata and the state text of one task. What the callback answered is an
  argument; locks, artifacts, results, ledgers and the other frontmatter keys are left out.
\<close>

subsection \<open>Counters in the frontmatter\<close>

definition ensure_current_state_visit_count ::
  "('m, 'y) yaml \<Rightarrow> 'm option \<Rightarrow> task_id \<Rightarrow> string \<Rightarrow> string \<Rightarrow> state_machine \<Rightarrow> 'm option" where
  "ensure_current_state_visit_count Y existing i current raw m =
     (if \<not> state_counts_visits m current then None
      else let count = current_state_visit_count Y existing i current raw m in
        if count = task_visit_count Y existing i current then existing
        else Some (set_visit_count Y existing i current (\<lambda>_. count)))"

definition next_visit :: "('m, 'y) yaml \<Rightarrow> string \<Rightarrow> 'm \<Rightarrow> u64" where
  "next_visit Y to_state state_visits =
     (case Option.bind (ym_get Y state_visits (yaml_key Y to_state)) (y_as_u64 Y) of
        Some n \<Rightarrow> max n 1 + 1 | None \<Rightarrow> 1)"

definition update_metadata_for_transition ::
  "('m, 'y) yaml \<Rightarrow> 'm option \<Rightarrow> task_id \<Rightarrow> string \<Rightarrow> state_machine \<Rightarrow> 'm option" where
  "update_metadata_for_transition Y existing i to_state m =
     (if \<not> state_counts_visits m to_state then None
      else Some (set_visit_count Y existing i to_state (next_visit Y to_state)))"

text \<open>\<open>get_mut\<close> under a pattern: where nothing is there, or something of another shape, the
  function returns what it has; a mapping is changed in place.\<close>

definition change_child :: "('m, 'y) yaml \<Rightarrow> 'y \<Rightarrow> ('m \<Rightarrow> 'm) \<Rightarrow> 'm \<Rightarrow> 'm" where
  "change_child Y key f parent_map =
     (case Option.bind (ym_get Y parent_map key) (y_pattern Y) of
        None \<Rightarrow> parent_map
      | Some c \<Rightarrow> ym_insert Y parent_map key (y_mapping Y (f c)))"

text \<open>One counter removed from the mapping under a key of the task's entry, and the mapping
  with it when it is empty.\<close>

definition drop_counter :: "('m, 'y) yaml \<Rightarrow> string \<Rightarrow> string \<Rightarrow> 'm \<Rightarrow> 'm" where
  "drop_counter Y field s entry =
     (let key = yaml_key Y field;
          entry' = (case Option.bind (ym_get Y entry key) (y_pattern Y) of
                      Some c \<Rightarrow> ym_insert Y entry key (y_mapping Y (ym_remove Y c (yaml_key Y s)))
                    | None \<Rightarrow> entry)
      in case Option.bind (ym_get Y entry' key) (y_as_mapping Y) of
           Some c \<Rightarrow> if ym_is_empty Y c then ym_remove Y entry' key else entry'
         | None \<Rightarrow> entry')"

definition clear_poll_state_metadata ::
  "('m, 'y) yaml \<Rightarrow> 'm option \<Rightarrow> task_id \<Rightarrow> string \<Rightarrow> 'm option" where
  "clear_poll_state_metadata Y existing i s =
     map_option
       (change_child Y (yaml_key Y ''metadata'') (change_child Y (yaml_key Y ''tasks'')
         (change_child Y (task_id_yaml_key Y i) (\<lambda>entry.
           drop_counter Y ''stateVisits'' s (drop_counter Y ''pollNextAttemptAt'' s entry))))) existing"

subsection \<open>Guards\<close>

definition ensure_task_profile_allows_state ::
  "state_machine \<Rightarrow> string \<Rightarrow> string \<Rightarrow> u8 \<Rightarrow> string \<Rightarrow> report + unit" where
  "ensure_task_profile_allows_state m i kind lvl s =
     (case profile_for_node m kind lvl of
        None \<Rightarrow> Ok ()
      | Some p \<Rightarrow>
          if s \<in> set (p_allowed p) then Ok ()
          else Err (''Task '' @ i @ '' cannot enter state '' @ quoted s @
            '': state is not allowed by its resolved profile. Profile allows: ['' @
            join '', '' (p_allowed p) @ '']''))"

definition is_terminal_state :: "string \<Rightarrow> state_machine \<Rightarrow> bool" where
  "is_terminal_state s m = holds_of m terminal (normalized_state_name s m)"

fun non_terminal_descendants :: "task \<Rightarrow> state_machine \<Rightarrow> string \<Rightarrow> string list" where
  "non_terminal_descendants (Task f cs) m prefix =
     concat (map (\<lambda>child.
       (if \<not> is_terminal_state (state_text child) m
        then [''Task '' @ prefix @ show_task_id (id_of child) @ '' ('' @
              normalized_state_name (state_text child) m @ '')'']
        else []) @ non_terminal_descendants child m prefix) cs)"

definition strip_suffix :: "string \<Rightarrow> string \<Rightarrow> string option" where
  "strip_suffix p s = map_option rev (strip_prefix (rev p) (rev s))"

definition ensure_descendants_terminal ::
  "state_machine \<Rightarrow> task \<Rightarrow> string \<Rightarrow> string \<Rightarrow> string \<Rightarrow> report + unit" where
  "ensure_descendants_terminal m t local_id qualified_id to_state =
     (if children t = [] \<or> \<not> holds_of m terminal to_state then Ok ()
      else
        let prefix = (case strip_suffix local_id qualified_id of Some p \<Rightarrow> p | None \<Rightarrow> []);
            unfinished = non_terminal_descendants t m prefix
        in if unfinished = [] then Ok ()
           else Err (''Task '' @ qualified_id @ '' cannot enter terminal state '' @ quoted to_state @
             '' while descendant tasks remain non-terminal.'' @ [CHR 0x0A] @
             ''Offending descendants: '' @ join '', '' unfinished))"

subsection \<open>The governing rule\<close>

definition rule_the_caller_selected ::
  "state_machine \<Rightarrow> nat option \<Rightarrow> string \<Rightarrow> string \<Rightarrow> transition_rule option" where
  "rule_the_caller_selected m selected from_state to_state =
     Option.bind selected (\<lambda>n.
       if n < length (transitions m) then
         let rule = transitions m ! n in
         if transition_matches_source m rule from_state \<and> r_to rule = to_state then Some rule else None
       else None)"

definition rule_of_pair :: "state_machine \<Rightarrow> string \<Rightarrow> string \<Rightarrow> transition_rule option" where
  "rule_of_pair m from_state to_state =
     (case find (\<lambda>rule. r_from rule = from_state \<and> r_to rule = to_state) (transitions m) of
        Some rule \<Rightarrow> Some rule
      | None \<Rightarrow> find (\<lambda>rule. r_from rule = ''*'' \<and> transition_matches_source m rule from_state \<and>
                             r_to rule = to_state) (transitions m))"

definition matching_rule ::
  "state_machine \<Rightarrow> nat option \<Rightarrow> string \<Rightarrow> string \<Rightarrow> transition_rule option" where
  "matching_rule m selected from_state to_state =
     (case rule_the_caller_selected m selected from_state to_state of
        Some rule \<Rightarrow> Some rule | None \<Rightarrow> rule_of_pair m from_state to_state)"

subsection \<open>What \<open>on_leave\<close> answered\<close>

text \<open>The callback runs once per agent of the state; a refusal ends the move, and the first
  redirect is the one that counts.\<close>

datatype answer = Broken string | Rejected "string option" | Proceed "string option"

fun settle_answers :: "string \<Rightarrow> answer list \<Rightarrow> string option \<Rightarrow> report + string option" where
  "settle_answers callback [] redirect = Ok redirect"
| "settle_answers callback (Broken e # answers) redirect = Err e"
| "settle_answers callback (Rejected error # answers) redirect =
     Err (''on_leave callback '' @ quoted callback @ '' rejected the transition: '' @
       (case error of Some e \<Rightarrow> e | None \<Rightarrow> ''transition rejected by callback''))"
| "settle_answers callback (Proceed next_state # answers) redirect =
     settle_answers callback answers
       (case redirect of Some s \<Rightarrow> Some s | None \<Rightarrow> next_state)"

definition run_on_leave ::
  "transition_rule \<Rightarrow> (string \<Rightarrow> answer list) \<Rightarrow> report + string option" where
  "run_on_leave rule on_leave =
     (case r_on_leave rule of
        None \<Rightarrow> Ok None
      | Some callback \<Rightarrow> settle_answers callback (on_leave callback) None)"

subsection \<open>The move\<close>

record 'm ticket =
  tk_metadata :: "'m option"
  tk_raw :: string

text \<open>What stays the same through one call: the machine, the task as the locked file holds it,
  the key of its metadata and the two spellings of its id.\<close>

record call =
  c_machine :: state_machine
  c_task :: task
  c_key :: task_id
  c_local :: string
  c_artifact :: string
  c_level :: u8

definition unless :: "bool \<Rightarrow> report \<Rightarrow> report + unit" where
  "unless ok message = (if ok then Ok () else Err message)"

definition not_a_state :: "state_machine \<Rightarrow> string \<Rightarrow> report" where
  "not_a_state m s =
     quoted s @ '' is not a valid state. Allowed: ['' @ join '', '' (map fst (states m)) @ '']''"

text \<open>Where the move lands once \<open>on_leave\<close> has answered: the target and its rule, or the
  state it redirected to and that pair's rule.\<close>

definition effective_target ::
  "call \<Rightarrow> string \<Rightarrow> string \<Rightarrow> transition_rule \<Rightarrow> string option \<Rightarrow> report + string \<times> transition_rule" where
  "effective_target c from_state to_state rule redirect =
     (case redirect of
        None \<Rightarrow> Ok (to_state, rule)
      | Some s \<Rightarrow>
          if s = to_state then Ok (to_state, rule)
          else if \<not> is_valid_state (c_machine c) s
          then Err (''on_leave callback redirected to unknown state '' @ quoted s)
          else
            tryb (ensure_task_profile_allows_state (c_machine c) (c_artifact c) (kind_of (c_task c)) (c_level c) s) (\<lambda>_.
            case rule_of_pair (c_machine c) from_state s of
              Some rule' \<Rightarrow> Ok (s, rule')
            | None \<Rightarrow> Err (''on_leave callback redirected to '' @ quoted s @ '', but no transition from '' @
                quoted from_state @ '' to '' @ quoted s @ '' is declared'')))"

definition or_else :: "'a option \<Rightarrow> 'a option \<Rightarrow> 'a option" where
  "or_else a b = (case a of Some x \<Rightarrow> Some x | None \<Rightarrow> b)"

text \<open>The counters after the move: the entry counted, and a poll state's attempts dropped when
  it is left.\<close>

definition metadata_after ::
  "('m, 'y) yaml \<Rightarrow> call \<Rightarrow> 'm option \<Rightarrow> 'm option \<Rightarrow> string \<Rightarrow> string \<Rightarrow> 'm option" where
  "metadata_after Y c normalized for_checks from_state to_state =
     (let updated = or_else
            (update_metadata_for_transition Y for_checks (c_key c) to_state (c_machine c)) normalized
      in if poll_of (c_machine c) from_state \<noteq> None \<and> to_state \<noteq> from_state
         then clear_poll_state_metadata Y (or_else updated for_checks) (c_key c) from_state
         else updated)"

definition applied_ticket ::
  "('m, 'y) yaml \<Rightarrow> call \<Rightarrow> 'm option \<Rightarrow> 'm ticket \<Rightarrow> string \<Rightarrow> string \<Rightarrow> 'm ticket" where
  "applied_ticket Y c normalized tk from_state to_state =
     (let for_checks = or_else normalized (tk_metadata tk);
          updated = metadata_after Y c normalized for_checks from_state to_state;
          visit = Option.bind updated (\<lambda>md.
            let n = task_visit_count Y (Some md) (c_key c) to_state in if 0 < n then Some n else None)
      in tk\<lparr>tk_metadata := or_else updated (tk_metadata tk),
            tk_raw := format_task_state_value to_state visit (c_machine c)\<rparr>)"

definition decide_move ::
  "('m, 'y) yaml \<Rightarrow> call \<Rightarrow> nat option \<Rightarrow> string \<Rightarrow> string \<Rightarrow> (string \<Rightarrow> answer list) \<Rightarrow>
   'm ticket \<Rightarrow> report + string \<times> 'm ticket" where
  "decide_move Y c selected from_state to_state on_leave tk =
     (let m = c_machine c in
      tryb (unless (is_valid_state m from_state) (not_a_state m from_state)) (\<lambda>_.
      tryb (unless (is_valid_state m to_state) (not_a_state m to_state)) (\<lambda>_.
      tryb (unless (normalized_state_name (tk_raw tk) m = from_state)
             (''conflict: Task '' @ c_artifact c @ '' is in state '' @ quoted (tk_raw tk) @ '', expected '' @
              quoted from_state)) (\<lambda>_.
      tryb (ensure_task_profile_allows_state m (c_artifact c) (kind_of (c_task c)) (c_level c) to_state) (\<lambda>_.
      tryb (ok_or (''transition from '' @ quoted from_state @ '' to '' @ quoted to_state @
             '' is not allowed by the state machine'') (matching_rule m selected from_state to_state)) (\<lambda>rule.
      let normalized = ensure_current_state_visit_count Y (tk_metadata tk) (c_key c) from_state (tk_raw tk) m;
          for_checks = or_else normalized (tk_metadata tk) in
      tryb (transition_rule_is_applicable Y rule m for_checks (c_key c) (Some (c_task c)) from_state (tk_raw tk)) (\<lambda>yes.
      tryb (unless yes (''transition from '' @ quoted from_state @ '' to '' @ quoted to_state @
             '' is not currently applicable: '' @
             describe_blocked_transition Y rule m for_checks (c_key c) from_state (tk_raw tk) @ ''. '' @
             describe_refused_alternatives Y m for_checks (c_key c) (Some (c_task c)) from_state (tk_raw tk) to_state
               (rule_the_caller_selected m selected from_state to_state = None))) (\<lambda>_.
      tryb (ensure_descendants_terminal m (c_task c) (c_local c) (c_artifact c) to_state) (\<lambda>_.
      tryb (run_on_leave rule on_leave) (\<lambda>redirect.
      tryb (effective_target c from_state to_state rule redirect) (\<lambda>(landed, _).
      tryb (ensure_descendants_terminal m (c_task c) (c_local c) (c_artifact c) landed) (\<lambda>_.
      Ok (landed, applied_ticket Y c normalized tk from_state landed)))))))))))))"

end
