(* ===== verification/Moves_Laws.thy ===== *)
theory Moves_Laws
  imports Moves
begin

text \<open>
  The counters a move leaves, read back: one write raises the counter it is about and no
  other, dropping a poll state's attempts raises none, and the state line a move writes
  reads back within the budget. The facts are proved of any YAML library that keeps its
  documented laws.
\<close>

definition counts_within :: "('m, 'y) yaml \<Rightarrow> state_machine \<Rightarrow> task_id \<Rightarrow> 'm option \<Rightarrow> bool" where
  "counts_within Y m i metadata \<longleftrightarrow>
     (\<forall>s limit. state_visit_limit m s = Some limit \<longrightarrow> task_visit_count Y metadata i s \<le> limit)"

definition raw_within :: "state_machine \<Rightarrow> string \<Rightarrow> bool" where
  "raw_within m raw \<longleftrightarrow>
     (\<forall>s limit. state_visit_limit m s = Some limit \<longrightarrow> raw_state_visit_count raw m s \<le> limit)"

text \<open>What the loader guarantees of a machine here: no budget of zero, and none beside a poll.\<close>

definition budgets_ok :: "state_machine \<Rightarrow> bool" where
  "budgets_ok m \<longleftrightarrow> (\<forall>s limit. state_visit_limit m s = Some limit \<longrightarrow> 1 \<le> limit \<and> poll_of m s = None)"

lemma counts_withinD: "counts_within Y m i md \<Longrightarrow> state_visit_limit m s = Some limit \<Longrightarrow> task_visit_count Y md i s \<le> limit"
  by (simp add: counts_within_def)

lemma raw_withinD: "raw_within m raw \<Longrightarrow> state_visit_limit m s = Some limit \<Longrightarrow> raw_state_visit_count raw m s \<le> limit"
  by (simp add: raw_within_def)

lemma budgets_okD: "budgets_ok m \<Longrightarrow> state_visit_limit m s = Some limit \<Longrightarrow> 1 \<le> limit \<and> poll_of m s = None"
  by (simp add: budgets_ok_def)

lemma limit_valid: "state_visit_limit m s = Some limit \<Longrightarrow> is_valid_state m s"
  by (auto simp: state_visit_limit_def is_valid_state_def bind_eq_Some_conv)

subsection \<open>The state line\<close>

lemma show_nat_no_dash: "CHR ''-'' \<notin> set (show_nat n)"
  using show_nat_digits [of "CHR ''-''" n] by (auto simp: is_ascii_digit_def)

lemma parse_below_show: "parse_below bound (show_nat n) = (if n < bound then Some n else None)"
proof -
  have "unsigned_digits (show_nat n) = show_nat n"
  proof (cases "show_nat n")
    case (Cons c t)
    then have "is_ascii_digit c" using show_nat_digits [of c n] by simp
    then have "c \<noteq> CHR ''+''" by (auto simp: is_ascii_digit_def)
    with Cons show ?thesis by (simp add: unsigned_digits_def)
  qed (simp add: unsigned_digits_def)
  then show ?thesis by (simp add: parse_below_def list_all_iff show_nat_digits)
qed

lemma parse_u32_show: "n < 2 ^ 32 \<Longrightarrow> parse_u32 (show_nat n) = Some (of_nat n)"
  by (simp add: parse_u32_def parse_below_show)

lemma parse_u32_show_large: "\<not> n < 2 ^ 32 \<Longrightarrow> parse_u32 (show_nat n) = None"
  by (simp add: parse_u32_def parse_below_show)

lemma counted_value_parts: "rsplit_once (CHR ''-'') (s @ CHR ''-'' # show_nat n) = Some (s, show_nat n)"
  using rsplit_once_join [OF show_nat_no_dash, of s n] by simp

text \<open>Reading what was written: the visit comes back, unless the written value is the name of
  another declared state, which wins.\<close>

lemma parse_counted:
  assumes "is_valid_state m s" and "\<not> is_valid_state m (s @ ''-'' @ show_nat n)" and "n < 2 ^ 32"
  shows "parse_task_state (s @ ''-'' @ show_nat n) m = \<lparr>ps_state = s, ps_visit = Some (of_nat n)\<rparr>"
  using assms by (simp add: parse_task_state_def counted_value_parts parse_u32_show)

lemma parse_counted_other:
  assumes "is_valid_state m (s @ ''-'' @ show_nat n)"
  shows "parse_task_state (s @ ''-'' @ show_nat n) m = \<lparr>ps_state = s @ ''-'' @ show_nat n, ps_visit = None\<rparr>"
  using assms by (simp add: parse_task_state_def)

lemma raw_count_declared:
  assumes "is_valid_state m raw"
  shows "raw_state_visit_count raw m s \<le> 1"
  using assms by (simp add: raw_state_visit_count_def parse_task_state_def)

lemma raw_count_counted_le:
  assumes "is_valid_state m s"
  shows "raw_state_visit_count (s @ ''-'' @ show_u64 n) m s' \<le> max 1 n \<and>
    (s' \<noteq> s \<longrightarrow> raw_state_visit_count (s @ ''-'' @ show_u64 n) m s' \<le> 1)"
proof (cases "is_valid_state m (s @ ''-'' @ show_u64 n)")
  case True
  from raw_count_declared [OF this, of s'] show ?thesis by (auto simp: max_def)
next
  case undeclared: False
  show ?thesis
  proof (cases "unat n < 2 ^ 32")
    case True
    have p: "parse_task_state (s @ CHR ''-'' # show_u64 n) m = \<lparr>ps_state = s, ps_visit = Some (ucast n)\<rparr>"
      using parse_counted [OF assms, of "unat n"] undeclared True by (simp add: show_u64_def)
    have "ucast (of_nat k :: u32) = (of_nat k :: u64)" if "k < 2 ^ 32" for k
      using that by (simp add: unsigned_of_nat take_bit_nat_eq_self)
    from this [OF True] have "ucast (of_nat (unat n) :: u32) = n" by simp
    then show ?thesis by (simp add: raw_state_visit_count_def p Let_def)
  next
    case False
    then have "ps_state (parse_task_state (s @ ''-'' @ show_u64 n) m) = s @ ''-'' @ show_u64 n"
      using undeclared by (simp add: parse_task_state_def counted_value_parts parse_u32_show_large show_u64_def)
    then have "raw_state_visit_count (s @ ''-'' @ show_u64 n) m s' = 0"
      using undeclared by (auto simp: raw_state_visit_count_def Let_def dest: limit_valid)
    then show ?thesis by simp
  qed
qed

text \<open>The line a move into \<open>s\<close> writes stays within every budget where the counter does.\<close>

lemma raw_within_formatted:
  assumes valid: "is_valid_state m s" and ok: "budgets_ok m"
    and count: "\<And>limit n. state_visit_limit m s = Some limit \<Longrightarrow> visit = Some n \<Longrightarrow> n \<le> limit"
  shows "raw_within m (format_task_state_value s visit m)"
  unfolding raw_within_def
proof (intro allI impI)
  fix s' limit
  assume limit: "state_visit_limit m s' = Some limit"
  have one: "1 \<le> limit" using budgets_okD [OF ok limit] ..
  show "raw_state_visit_count (format_task_state_value s visit m) m s' \<le> limit"
  proof (cases "\<exists>n. visit = Some n \<and> 1 < n \<and> state_visit_limit m s \<noteq> None")
    case True
    then obtain n where n: "visit = Some n" "1 < n" "state_visit_limit m s \<noteq> None" by blast
    then have f: "format_task_state_value s visit m = s @ ''-'' @ show_u64 n"
      by (simp add: format_task_state_value_def)
    show ?thesis
    proof (cases "s' = s")
      case True
      with n count limit have "n \<le> limit" by simp
      with one raw_count_counted_le [OF valid, of n s'] show ?thesis
        unfolding f by (auto simp: max_def split: if_splits intro: order.trans)
    next
      case False
      with one raw_count_counted_le [OF valid, of n s'] show ?thesis
        unfolding f by (auto intro: order.trans)
    qed
  next
    case False
    then have "format_task_state_value s visit m = s"
      by (auto simp: format_task_state_value_def split: option.splits)
    with raw_count_declared [OF valid, of s'] one show ?thesis by (auto intro: order.trans)
  qed
qed

subsection \<open>The counters\<close>

lemma max_1_le: "(1 :: u64) \<le> limit \<Longrightarrow> n \<le> limit \<Longrightarrow> max n 1 \<le> limit"
  by (simp add: max_def)

lemma u64_succ_le: "(c :: u64) < limit \<Longrightarrow> c + 1 \<le> limit"
  by (simp add: inc_le)

lemma u64_not_zero: "(0 :: u64) < n \<Longrightarrow> 1 \<le> n"
  using u64_succ_le [of 0 n] by simp

context yaml_laws
begin

lemma count_max [simp]: "task_visit_count Y md i s = 0 \<or> 1 \<le> task_visit_count Y md i s"
  by (auto simp: task_visit_count_def split: option.split)

lemma count_set_other:
  assumes "k \<noteq> s"
  shows "task_visit_count Y (Some (set_visit_count Y existing i s next)) i k \<le> task_visit_count Y existing i k"
proof (cases "counted (found_visits existing i) k")
  case None
  with assms show ?thesis by (simp add: count_after_set)
next
  case (Some c)
  with assms found_visits_read [OF Some] show ?thesis by (simp add: count_after_set)
qed

lemma within_set:
  assumes ok: "budgets_ok m" and before: "counts_within Y m i existing"
    and put: "\<And>limit. state_visit_limit m s = Some limit \<Longrightarrow> next (found_visits existing i) \<le> limit"
  shows "counts_within Y m i (Some (set_visit_count Y existing i s next))"
  unfolding counts_within_def
proof (intro allI impI)
  fix k limit
  assume limit: "state_visit_limit m k = Some limit"
  show "task_visit_count Y (Some (set_visit_count Y existing i s next)) i k \<le> limit"
  proof (cases "k = s")
    case True
    with put limit budgets_okD [OF ok limit] show ?thesis by (simp add: count_after_set max_1_le)
  next
    case False
    from count_set_other [OF this] counts_withinD [OF before limit] show ?thesis by (rule order.trans)
  qed
qed

text \<open>Writing down the visit the ticket is in keeps the counters within.\<close>

lemma current_count_within:
  assumes "budgets_ok m" and "counts_within Y m i md" and "raw_within m raw"
    and "state_visit_limit m s = Some limit"
  shows "current_state_visit_count Y md i s raw m \<le> limit"
  using counts_withinD [OF assms(2,4)] raw_withinD [OF assms(3,4)] budgets_okD [OF assms(1,4)]
  by (simp add: current_state_visit_count_def Let_def)

lemma ensure_within:
  assumes "budgets_ok m" and "counts_within Y m i md" and "raw_within m raw"
  shows "counts_within Y m i (or_else (ensure_current_state_visit_count Y md i s raw m) md)"
proof -
  have "counts_within Y m i (Some (set_visit_count Y md i s (\<lambda>_. current_state_visit_count Y md i s raw m)))"
    using assms by (intro within_set) (simp_all add: current_count_within)
  with assms(2) show ?thesis
    by (auto simp: ensure_current_state_visit_count_def or_else_def Let_def split: option.split)
qed

text \<open>A move into a state whose budget is not spent counts one visit more, and stays within.\<close>

lemma next_visit_le:
  assumes "task_visit_count Y md i s < limit"
  shows "next_visit Y s (found_visits md i) \<le> limit"
proof (cases "counted (found_visits md i) s")
  case None
  have "1 \<le> limit" using assms by (intro u64_not_zero) (meson le_less_trans word_coorder.extremum)
  with None show ?thesis by (simp add: next_visit_def counted_def)
next
  case (Some c)
  with assms found_visits_read [OF Some] have "max c 1 < limit" by simp
  then have "max c 1 + 1 \<le> limit" by (rule u64_succ_le)
  with Some show ?thesis by (simp add: next_visit_def counted_def)
qed

lemma update_within:
  assumes "budgets_ok m" and "counts_within Y m i md"
    and "\<And>limit. state_visit_limit m s = Some limit \<Longrightarrow> task_visit_count Y md i s < limit"
  shows "counts_within Y m i (or_else (update_metadata_for_transition Y md i s m) md)"
  using assms by (auto simp: update_metadata_for_transition_def or_else_def intro: within_set next_visit_le)

text \<open>An allowed re-entry found the budget unspent.\<close>

lemma reentry_unspent:
  assumes "budgets_ok m" and "loop_reentry_allowed Y m md i current raw s"
    and "state_visit_limit m s = Some limit"
  shows "task_visit_count Y md i s < limit"
proof -
  have "poll_of m s = None" using budgets_okD [OF assms(1,3)] ..
  with assms(2,3) show ?thesis
    by (auto simp: loop_reentry_allowed_def spent_loop_budget_def when_exhausted_def Let_def not_le
        split: if_splits)
qed

text \<open>Dropping a poll state's attempts raises no counter.\<close>

definition visits_in :: "'m \<Rightarrow> string \<Rightarrow> u64 option" where
  "visits_in entry k =
     Option.bind (Option.bind (ym_get Y entry (yaml_key Y ''stateVisits'')) (y_as_mapping Y))
       (\<lambda>sv. counted sv k)"

lemma task_visit_count_entry:
  "task_visit_count Y md i k =
   (case Option.bind (task_metadata_map Y md i) (\<lambda>entry. visits_in entry k) of
      Some c \<Rightarrow> max c 1 | None \<Rightarrow> 0)"
  by (cases "task_metadata_map Y md i")
    (simp_all add: task_visit_count_def visits_in_def counted_def bind_assoc)

lemma counted_remove: "counted (ym_remove Y c (yaml_key Y s)) k = None \<or>
    counted (ym_remove Y c (yaml_key Y s)) k = counted c k"
  by (simp add: counted_def get_remove)

lemma visits_in_remove: "visits_in (ym_remove Y entry key) k = None \<or>
    visits_in (ym_remove Y entry key) k = visits_in entry k"
  by (simp add: visits_in_def get_remove)

lemma visits_in_drop:
  "visits_in (drop_counter Y field s entry) k = None \<or> visits_in (drop_counter Y field s entry) k = visits_in entry k"
proof -
  define entry' where "entry' = (case Option.bind (ym_get Y entry (yaml_key Y field)) (y_pattern Y) of
      Some c \<Rightarrow> ym_insert Y entry (yaml_key Y field) (y_mapping Y (ym_remove Y c (yaml_key Y s))) | None \<Rightarrow> entry)"
  have one: "visits_in entry' k = None \<or> visits_in entry' k = visits_in entry k"
  proof (cases "Option.bind (ym_get Y entry (yaml_key Y field)) (y_pattern Y)")
    case None
    then show ?thesis by (simp add: entry'_def)
  next
    case (Some c)
    then obtain v where v: "ym_get Y entry (yaml_key Y field) = Some v" "y_as_mapping Y v = Some c"
      by (auto simp: bind_eq_Some_conv dest: as_mapping_pattern)
    show ?thesis
      using counted_remove [of c s k] v Some
      by (auto simp: entry'_def visits_in_def get_insert)
  qed
  have "drop_counter Y field s entry = entry' \<or> drop_counter Y field s entry = ym_remove Y entry' (yaml_key Y field)"
    by (auto simp: drop_counter_def Let_def entry'_def [symmetric] split: option.split)
  with one visits_in_remove [of entry' "yaml_key Y field" k] show ?thesis by metis
qed

lemma change_child_cases:
  obtains "change_child Y key f parent_map = parent_map"
  | v c where "ym_get Y parent_map key = Some v" and "y_as_mapping Y v = Some c"
      and "change_child Y key f parent_map = ym_insert Y parent_map key (y_mapping Y (f c))"
proof (cases "Option.bind (ym_get Y parent_map key) (y_pattern Y)")
  case None
  then show ?thesis by (intro that(1)) (simp add: change_child_def)
next
  case (Some c)
  then obtain v where "ym_get Y parent_map key = Some v" "y_as_mapping Y v = Some c"
    by (auto simp: bind_eq_Some_conv dest: as_mapping_pattern)
  then show ?thesis using Some by (intro that(2)) (simp_all add: change_child_def)
qed

lemma count_clear_le:
  assumes "clear_poll_state_metadata Y existing i s = Some changed"
  shows "task_visit_count Y (Some changed) i k \<le> task_visit_count Y existing i k"
proof -
  define g where "g = (\<lambda>entry. drop_counter Y ''stateVisits'' s (drop_counter Y ''pollNextAttemptAt'' s entry))"
  define f3 where "f3 = change_child Y (task_id_yaml_key Y i) g"
  define f2 where "f2 = change_child Y (yaml_key Y ''tasks'') f3"
  from assms obtain whole where w: "existing = Some whole"
    "changed = change_child Y (yaml_key Y ''metadata'') f2 whole"
    by (auto simp: clear_poll_state_metadata_def g_def f2_def f3_def)
  have "task_metadata_map Y (Some changed) i = task_metadata_map Y (Some whole) i \<or>
      (\<exists>entry. task_metadata_map Y (Some whole) i = Some entry \<and>
               task_metadata_map Y (Some changed) i = Some (g entry))"
  proof (cases rule: change_child_cases [of "yaml_key Y ''metadata''" f2 whole])
    case (2 v1 c1)
    note one = this
    show ?thesis
    proof (cases rule: change_child_cases [of "yaml_key Y ''tasks''" f3 c1])
      case 1
      with one w(2) show ?thesis by (simp add: task_metadata_map_def get_insert f2_def)
    next
      case (2 v2 c2)
      with one w(2) show ?thesis
        by (cases rule: change_child_cases [of "task_id_yaml_key Y i" g c2])
          (simp_all add: task_metadata_map_def get_insert f2_def f3_def)
    qed
  qed (simp add: w(2))
  then show ?thesis
  proof
    assume "\<exists>entry. task_metadata_map Y (Some whole) i = Some entry \<and>
        task_metadata_map Y (Some changed) i = Some (g entry)"
    then obtain entry where e: "task_metadata_map Y (Some whole) i = Some entry"
      "task_metadata_map Y (Some changed) i = Some (g entry)" by blast
    have "visits_in (g entry) k = None \<or> visits_in (g entry) k = visits_in entry k"
      unfolding g_def
      using visits_in_drop [of "''stateVisits''" s "drop_counter Y ''pollNextAttemptAt'' s entry" k]
        visits_in_drop [of "''pollNextAttemptAt''" s entry k] by metis
    with e w(1) show ?thesis by (auto simp: task_visit_count_entry)
  qed (simp add: task_visit_count_entry w(1))
qed

lemma clear_within:
  assumes "counts_within Y m i md" and "clear_poll_state_metadata Y md i s = Some changed"
  shows "counts_within Y m i (Some changed)"
  using assms(1) count_clear_le [OF assms(2)] unfolding counts_within_def by (meson order.trans)

lemma metadata_after_within:
  assumes ok: "budgets_ok (c_machine c)" and fc: "counts_within Y (c_machine c) (c_key c) (or_else normalized md)"
    and unspent: "\<And>limit. state_visit_limit (c_machine c) s = Some limit \<Longrightarrow>
        task_visit_count Y (or_else normalized md) (c_key c) s < limit"
    and after: "metadata_after Y c normalized (or_else normalized md) a s = Some changed"
  shows "counts_within Y (c_machine c) (c_key c) (Some changed)"
proof -
  define updated where "updated = or_else
      (update_metadata_for_transition Y (or_else normalized md) (c_key c) s (c_machine c)) normalized"
  have whole: "counts_within Y (c_machine c) (c_key c) (or_else updated (or_else normalized md))"
    using update_within [OF ok fc unspent] fc
    by (auto simp: updated_def or_else_def split: option.splits)
  show ?thesis
  proof (cases "poll_of (c_machine c) a \<noteq> None \<and> s \<noteq> a")
    case True
    with after have "clear_poll_state_metadata Y (or_else updated (or_else normalized md)) (c_key c) a = Some changed"
      by (simp add: metadata_after_def updated_def Let_def)
    with whole show ?thesis by (rule clear_within)
  next
    case False
    with after have "updated = Some changed" by (auto simp: metadata_after_def updated_def Let_def)
    with whole show ?thesis by (simp add: or_else_def)
  qed
qed

lemma applied_ticket_within:
  assumes ok: "budgets_ok (c_machine c)" and md: "counts_within Y (c_machine c) (c_key c) (tk_metadata tk)"
    and raw: "raw_within (c_machine c) (tk_raw tk)" and valid: "is_valid_state (c_machine c) s"
    and normalized: "normalized = ensure_current_state_visit_count Y (tk_metadata tk) (c_key c) a (tk_raw tk) (c_machine c)"
    and allowed: "loop_reentry_allowed Y (c_machine c) (or_else normalized (tk_metadata tk)) (c_key c) current txt s"
  shows "counts_within Y (c_machine c) (c_key c) (tk_metadata (applied_ticket Y c normalized tk a s)) \<and>
    raw_within (c_machine c) (tk_raw (applied_ticket Y c normalized tk a s))"
proof -
  define updated where "updated = metadata_after Y c normalized (or_else normalized (tk_metadata tk)) a s"
  have fc: "counts_within Y (c_machine c) (c_key c) (or_else normalized (tk_metadata tk))"
    unfolding normalized by (rule ensure_within [OF ok md raw])
  have after: "counts_within Y (c_machine c) (c_key c) (Some changed)" if "updated = Some changed" for changed
  proof (rule metadata_after_within [OF ok fc])
    show "metadata_after Y c normalized (or_else normalized (tk_metadata tk)) a s = Some changed"
      using that by (simp add: updated_def)
  qed (rule reentry_unspent [OF ok allowed])
  have "counts_within Y (c_machine c) (c_key c) (or_else updated (tk_metadata tk))"
    using after md by (cases updated) (auto simp: or_else_def)
  moreover have "raw_within (c_machine c) (format_task_state_value s
      (Option.bind updated (\<lambda>md. let n = task_visit_count Y (Some md) (c_key c) s in if 0 < n then Some n else None))
      (c_machine c))"
    by (rule raw_within_formatted [OF valid ok])
      (auto simp: bind_eq_Some_conv Let_def split: if_splits dest!: after intro: counts_withinD)
  ultimately show ?thesis by (simp add: applied_ticket_def updated_def Let_def)
qed

end

end
