(* ===== verification/Stranded.thy ===== *)
theory Stranded
  imports Dead_Ends
begin

text \<open>
  What the loader says of the walk (\<open>state_machine_dead_ends.rs\<close>,
  \<open>transition_sources.rs\<close>, the closing checks of \<open>state_machine_impl.rs\<close>): which states
  are stranded, why each cannot be left, the line that repairs it, and where a profile
  narrowed the way out away. Messages are the bytes the program prints.
\<close>

datatype load_error = Invalid string

type_synonym load_result = "load_error + unit"

subsection \<open>Messages\<close>

definition name_states :: "string list \<Rightarrow> string" where
  "name_states names =
     (if length names \<le> 8 then join '', '' (map quoted names)
      else join '', '' (map quoted (take 5 names)) @ '', and '' @ show_nat (length names - 5) @ '' more'')"

text \<open>The targets a list of rules leads to, each once, in declaration order.\<close>

definition targets_once :: "(transition_rule \<Rightarrow> bool) \<Rightarrow> transition_rule list \<Rightarrow> string list" where
  "targets_once p rules =
     fold (\<lambda>rule out. if p rule \<and> r_to rule \<notin> set out then out @ [r_to rule] else out) rules []"

definition out_of_it :: "state_machine \<Rightarrow> string \<Rightarrow> string list" where
  "out_of_it m s = targets_once (transition_leaves_state m s) (transitions m)"

definition escapes :: "state_machine \<Rightarrow> string \<Rightarrow> string list" where
  "escapes m s =
     targets_once (\<lambda>rule. r_from rule = ''*'' \<and> transition_matches_source m rule s \<and>
                          state_is_terminal m (r_to rule)) (transitions m)"

definition dead_end_reason :: "state_machine \<Rightarrow> string \<Rightarrow> string set option \<Rightarrow> string" where
  "dead_end_reason m s allowed =
     (if list_ex (permits allowed) (out_of_it m s) then
        (let onward = states_reachable_from m s allowed in
         if onward = [] then ''every path out of it leads back to itself''
         else ''every path out of it leads only to '' @ name_states onward @
              '', and none of those is final'')
      else if out_of_it m s \<noteq> [] then
        ''the only edges out of it lead to '' @ name_states (out_of_it m s) @
        '', which this profile does not allow''
      else if escapes m s = [] then
        ''the machine declares no `from: '' @ s @ ''` transition, and no wildcard matches it''
      else
        ''the machine declares no `from: '' @ s @ ''` transition, and its wildcard transition to '' @
        ''the final state '' @ name_states (escapes m s) @
        '' is an escape hatch rather than forward progress, which `rhei run` never takes'')"

definition capitalized :: "string \<Rightarrow> string" where
  "capitalized t = (case t of [] \<Rightarrow> [] | c # rest \<Rightarrow> to_ascii_uppercase c # rest)"

definition dead_end_repair :: "string \<Rightarrow> string" where
  "dead_end_repair s = ''give it a way on with `- {from: '' @ s @ '', to: <next-state>}`''"

definition DEAD_END_HELP :: string where
  "DEAD_END_HELP = ''List every state and edge with: rhei states''"

definition em_dash :: string where
  "em_dash = [CHR 0xE2, CHR 0x80, CHR 0x94]"

definition newline :: string where
  "newline = [CHR 0x0A]"

definition dead_end_line :: "state_machine \<Rightarrow> string \<Rightarrow> string" where
  "dead_end_line m s =
     newline @ ''  '' @ quoted s @ '': '' @ dead_end_reason m s None @ '' '' @ em_dash @ '' '' @
     dead_end_repair s @ ''.''"

definition dead_end_message :: "state_machine \<Rightarrow> string list \<Rightarrow> string" where
  "dead_end_message m stranded =
     ''state machine '' @ quoted (m_name m) @ '' declares '' @ show_nat (length stranded) @ '' '' @
     (if length stranded = 1 then ''state'' else ''states'') @
     '' a task cannot be taken out of, so every task that reaches one is stranded there:'' @
     concat (map (dead_end_line m) (take 8 stranded)) @
     (if length stranded > 8
      then newline @ ''  ... and '' @ show_nat (length stranded - 8) @ '' more'' else []) @
     newline @ DEAD_END_HELP"

subsection \<open>The machine-wide check\<close>

definition stranded :: "state_machine \<Rightarrow> string list" where
  "stranded m =
     map fst (filter (\<lambda>(name, def). \<not> terminal def \<and> \<not> state_can_reach_final m name None AnyFinal)
       (states m))"

definition validate_every_state_can_be_left :: "state_machine \<Rightarrow> load_result" where
  "validate_every_state_can_be_left m =
     (if stranded m = [] then Ok () else Err (Invalid (dead_end_message m (stranded m))))"

definition validate_terminal_state_present :: "state_machine \<Rightarrow> load_result" where
  "validate_terminal_state_present m =
     (if list_ex (\<lambda>(_, d). terminal d) (states m) then Ok ()
      else Err (Invalid (''state machine '' @ quoted (m_name m) @
        '' declares no terminal states. Mark at least one state with `final: true` '' @
        ''(note: the field is `final`, not `terminal`).'')))"

text \<open>The loop of \<open>validate\<close> over the exact edges out of a final state.\<close>

definition section_sign :: string where
  "section_sign = [CHR 0xC2, CHR 0xA7]"

definition validate_final_exits :: "state_machine \<Rightarrow> load_result" where
  "validate_final_exits m =
     try_fold (\<lambda>rule _.
       if r_from rule \<noteq> ''*'' \<and> holds_of m terminal (r_from rule)
       then Err (Invalid (''exact transition from final state '' @ quoted (r_from rule) @
         '' is forbidden ('' @ section_sign @ ''FS-rhei-transitions.4.6; '' @ section_sign @
         ''FS-rhei-states.1.3)''))
       else Ok ()) (transitions m) ()"

definition validate_role :: "string \<times> state_def \<Rightarrow> unit \<Rightarrow> load_result" where
  "validate_role entry _ =
     (case entry of (name, d) \<Rightarrow>
        case role d of
          Some r \<Rightarrow>
            if r \<noteq> ''cancellation'' \<or> \<not> terminal d
            then Err (Invalid (''state '' @ quoted name @ '' role '' @ quoted r @
              '' is invalid: use role: cancellation with final: true, or omit role''))
            else Ok ()
        | None \<Rightarrow> Ok ())"

definition validate_source ::
  "state_machine \<Rightarrow> transition_rule \<Rightarrow> string \<Rightarrow> string set \<Rightarrow> load_error + string set" where
  "validate_source m rule source seen =
     (if \<not> is_valid_state m source \<or> source \<in> seen
      then Err (Invalid (''transition '' @ quoted (''* -> '' @ r_to rule) @
        '' has unknown or duplicate source '' @ quoted source @
        ''; sources must contain unique declared state names''))
      else Ok (insert source seen))"

definition validate_sources :: "state_machine \<Rightarrow> transition_rule \<Rightarrow> unit \<Rightarrow> load_result" where
  "validate_sources m rule _ =
     (case r_sources rule of
        None \<Rightarrow> Ok ()
      | Some sources \<Rightarrow>
          if r_from rule \<noteq> ''*''
          then Err (Invalid (''transition '' @ quoted (r_from rule @ '' -> '' @ r_to rule) @
            '' declares sources on an exact edge; use from: \"*\" or remove sources''))
          else tryb (try_fold (validate_source m rule) sources {}) (\<lambda>_. Ok ()))"

definition validate_cancellation_and_sources :: "state_machine \<Rightarrow> load_result" where
  "validate_cancellation_and_sources m =
     tryb (try_fold validate_role (states m) ()) (\<lambda>_.
     try_fold (validate_sources m) (transitions m) ())"

subsection \<open>The same question of one profile\<close>

definition narrowed_away_at :: "state_machine \<Rightarrow> string \<Rightarrow> string set \<Rightarrow> string option" where
  "narrowed_away_at m s allowed =
     find (\<lambda>on_path. list_ex (\<lambda>rule. transition_leaves_state m on_path rule \<and> r_to rule \<notin> allowed)
             (transitions m))
       (s # states_reachable_from m s (Some allowed))"

definition profile_dead_end_message ::
  "state_machine \<Rightarrow> string \<Rightarrow> string \<Rightarrow> string set \<Rightarrow> string" where
  "profile_dead_end_message m profile_name s allowed =
     (let (widen, repair) =
        (case narrowed_away_at m s allowed of
           Some place \<Rightarrow>
             if place = s
             then (''Widen this profile's `allowed` to a state that reaches a final one, or '',
                   dead_end_repair s)
             else (''The path dies at '' @ quoted place @ '', whose own edges leave `allowed`: widen '' @
                   ''this profile's `allowed` to keep one of them, or '', dead_end_repair place)
         | None \<Rightarrow> ([], capitalized (dead_end_repair s)))
      in ''profile '' @ quoted profile_name @ '' allows non-final state '' @ quoted s @
         '', but no path using only allowed states reaches a final state: '' @
         dead_end_reason m s (Some allowed) @ ''. '' @ widen @ repair @ ''. '' @ DEAD_END_HELP)"

end
