(* ===== verification/Stranded_Claims.thy ===== *)
theory Stranded_Claims
  imports Stranded
begin

text \<open>
  The dead-end check is right: the walk finds exactly the reachable states, the machine is
  accepted exactly when no task can be stranded, the repair the message prints repairs, and
  the profile's message names the right file. The machine at the top of the theory has one
  stranded state, whose only edge is a wildcard into a final state.
\<close>

subsection \<open>A machine with a stranded state\<close>

definition plain_state :: state_def where
  "plain_state = \<lparr>initial = False, terminal = False, role = None, gating = False, poll = None,
     visits = None, execute_on_raw = None, target = None, all_targets = [], all_models = [],
     model = None, agent = None, program_declared = False, inherits_snapshot = False\<rparr>"

definition edge :: "string \<Rightarrow> string \<Rightarrow> transition_rule" where
  "edge a b = \<lparr>r_from = a, r_sources = None, r_to = b, r_on_leave = None, r_on_enter = None,
     r_condition = None, r_callback_timeout = None\<rparr>"

definition review_machine :: state_machine where
  "review_machine = \<lparr>m_name = ''review'', m_version = Integer 3,
     states = [(''todo'', plain_state), (''doing'', plain_state\<lparr>visits := Some 2\<rparr>),
               (''done'', plain_state\<lparr>terminal := True\<rparr>), (''lost'', plain_state),
               (''gone'', plain_state\<lparr>terminal := True, role := Some ''cancellation''\<rparr>)],
     transitions = [edge ''todo'' ''doing'', edge ''doing'' ''doing'', edge ''doing'' ''done'', edge ''*'' ''gone''],
     profiles = None, policy = None, m_callback_timeout = None\<rparr>"

subsection \<open>Adding an edge\<close>

text \<open>The line of the repair: an exact edge with nothing else declared.\<close>

definition add_edge :: "state_machine \<Rightarrow> string \<Rightarrow> string \<Rightarrow> state_machine" where
  "add_edge m s t = m\<lparr>transitions := transitions m @ [edge s t]\<rparr>"

lemma add_edge_states [simp]: "states (add_edge m s t) = states m"
  by (simp add: add_edge_def)

lemma add_edge_readings [simp]:
  "holds_of (add_edge m s t) p x = holds_of m p x"
  "is_valid_state (add_edge m s t) x = is_valid_state m x"
  "parse_task_state x (add_edge m s t) = parse_task_state x m"
  "transition_matches_source (add_edge m s t) rule x = transition_matches_source m rule x"
  "state_is_terminal (add_edge m s t) x = state_is_terminal m x"
  "transition_leaves_state (add_edge m s t) x rule = transition_leaves_state m x rule"
proof -
  show valid: "is_valid_state (add_edge m s t) x = is_valid_state m x" for x
    by (simp add: is_valid_state_def)
  show holds: "holds_of (add_edge m s t) p x = holds_of m p x" for p x
    by (simp add: holds_of_def)
  show parse: "parse_task_state x (add_edge m s t) = parse_task_state x m" for x
    unfolding parse_task_state_def valid ..
  show matches: "transition_matches_source (add_edge m s t) rule x = transition_matches_source m rule x"
    unfolding transition_matches_source_def parse holds ..
  show final: "state_is_terminal (add_edge m s t) x = state_is_terminal m x" for x
    unfolding state_is_terminal_def holds ..
  show "transition_leaves_state (add_edge m s t) x rule = transition_leaves_state m x rule"
    unfolding transition_leaves_state_def matches holds final ..
qed

lemma way_out_add_edge:
  "way_out m allowed x y \<Longrightarrow> way_out (add_edge m s t) allowed x y"
  by (auto simp: way_out_def) (auto simp: add_edge_def)

lemma leads_add_edge: "leads m allowed x y \<Longrightarrow> leads (add_edge m s t) allowed x y"
  unfolding leads_def by (rule rtranclp_mono [THEN predicate2D]) (auto intro: way_out_add_edge)

lemma new_edge_leaves:
  "\<not> state_is_terminal m s \<Longrightarrow> permits allowed t \<Longrightarrow> way_out (add_edge m s t) allowed s t"
  by (auto simp: way_out_def transition_leaves_state_def add_edge_def edge_def state_is_terminal_def holds_of_def)

lemma stranded_iff:
  assumes "distinct (map fst (states m))"
  shows "s \<in> set (stranded m) \<longleftrightarrow>
    is_valid_state m s \<and> \<not> state_is_terminal m s \<and> (\<nexists>f. state_is_terminal m f \<and> leads m None s f)"
proof -
  have "s \<in> set (stranded m) \<longleftrightarrow>
      (\<exists>d. (s, d) \<in> set (states m) \<and> \<not> terminal d \<and> \<not> state_can_reach_final m s None AnyFinal)"
    by (auto simp: stranded_def image_iff)
  also have "\<dots> \<longleftrightarrow> (\<exists>d. state_of m s = Some d \<and> \<not> terminal d \<and> \<not> state_can_reach_final m s None AnyFinal)"
    using assms by (simp add: map_of_eq_Some_iff)
  also have "\<dots> \<longleftrightarrow> is_valid_state m s \<and> \<not> state_is_terminal m s \<and>
      \<not> state_can_reach_final m s None AnyFinal"
    by (auto simp: is_valid_state_def state_is_terminal_def holds_of_def split: option.splits)
  finally show ?thesis
    by (auto simp: state_can_reach_final_iff arrives_at_def)
qed

subsection \<open>The properties\<close>

text \<open>
  C19: The breadth-first walk terminates and finds exactly the states a chain of counted edges
  leads to: each once, never the state it started from, and nothing else.
\<close>

theorem walk_finds_the_reachable:
  "distinct (states_reachable_from m start allowed) \<and>
   set (states_reachable_from m start allowed) = {t. (way_out m allowed)\<^sup>*\<^sup>* start t} - {start}"
  using states_reachable_from_exact [where m = m and start = start and allowed = allowed] by (auto simp: leads_def set_eq_iff)

text \<open>
  C20: A machine passes the check exactly when from every declared state that is not final a
  chain of edges the engine counts as a way out leads to a final state. (The state names are
  the keys of a map, so they are distinct.)
\<close>

theorem accepted_machine_strands_no_task:
  assumes "distinct (map fst (states m))"
  shows "validate_every_state_can_be_left m = Ok () \<longleftrightarrow>
    (\<forall>s. is_valid_state m s \<longrightarrow> (\<exists>f. state_is_terminal m f \<and> (way_out m None)\<^sup>*\<^sup>* s f))"
proof -
  have "validate_every_state_can_be_left m = Ok () \<longleftrightarrow> (\<forall>s. s \<notin> set (stranded m))"
    by (cases "stranded m") (simp_all add: validate_every_state_can_be_left_def, blast)
  also have "\<dots> \<longleftrightarrow> (\<forall>s. is_valid_state m s \<longrightarrow> state_is_terminal m s \<or>
      (\<exists>f. state_is_terminal m f \<and> leads m None s f))"
    by (auto simp: stranded_iff [OF assms])
  finally show ?thesis by (auto simp: leads_def)
qed

theorem accepted_machine_strands_no_task_witness:
  "validate_every_state_can_be_left review_machine \<noteq> Ok () \<and>
   \<not> (\<forall>s. is_valid_state review_machine s \<longrightarrow>
        (\<exists>f. state_is_terminal review_machine f \<and> (way_out review_machine None)\<^sup>*\<^sup>* s f)) \<and>
   stranded review_machine = [''lost'']"
proof -
  have d: "distinct (map fst (states review_machine))" by (simp add: review_machine_def)
  have s: "stranded review_machine = [''lost'']" by code_simp
  then have "validate_every_state_can_be_left review_machine \<noteq> Ok ()"
    by (simp add: validate_every_state_can_be_left_def)
  with s show ?thesis using accepted_machine_strands_no_task [OF d] by simp
qed

text \<open>
  The repair the refusal prints repairs: give a stranded state an exact edge to any state
  from which a final one can be reached, and it is stranded no longer, while no other state
  becomes so and the closing check on exits from final states has nothing new to refuse.
\<close>

theorem printed_repair_repairs:
  assumes "distinct (map fst (states m))" and "s \<in> set (stranded m)"
    and "state_can_reach_final m t None AnyFinal"
  shows "s \<notin> set (stranded (add_edge m s t)) \<and>
    set (stranded (add_edge m s t)) \<subseteq> set (stranded m) \<and>
    (validate_final_exits m = Ok () \<longrightarrow> validate_final_exits (add_edge m s t) = Ok ())"
proof -
  have d: "distinct (map fst (states (add_edge m s t)))" using assms(1) by simp
  have s: "\<not> state_is_terminal m s" using assms(2) by (simp add: stranded_iff [OF assms(1)])
  from assms(3) obtain f where f: "state_is_terminal m f" "leads m None t f"
    by (auto simp: state_can_reach_final_iff arrives_at_def)
  have "way_out (add_edge m s t) None s t" using s by (simp add: new_edge_leaves permits_def)
  then have "leads (add_edge m s t) None s f"
    unfolding leads_def by (rule converse_rtranclp_into_rtranclp) (use leads_add_edge [OF f(2)] in \<open>simp add: leads_def\<close>)
  then have "s \<notin> set (stranded (add_edge m s t))"
    using f(1) by (auto simp: stranded_iff [OF d])
  moreover have "set (stranded (add_edge m s t)) \<subseteq> set (stranded m)"
    using leads_add_edge by (auto simp: stranded_iff [OF d] stranded_iff [OF assms(1)]) blast
  moreover have "validate_final_exits (add_edge m s t) = Ok ()" if "validate_final_exits m = Ok ()"
    using that s unfolding validate_final_exits_def
    by (simp add: add_edge_def try_fold_append holds_of_def state_is_terminal_def edge_def split: option.splits)
  ultimately show ?thesis by blast
qed

theorem printed_repair_repairs_witness:
  "stranded (add_edge review_machine ''lost'' ''todo'') = []"
proof -
  have d: "distinct (map fst (states review_machine))" by (simp add: review_machine_def)
  have s: "stranded review_machine = [''lost'']" by code_simp
  have r: "state_can_reach_final review_machine ''todo'' None AnyFinal" by code_simp
  have "''lost'' \<in> set (stranded review_machine)" by (simp add: s)
  then have "''lost'' \<notin> set (stranded (add_edge review_machine ''lost'' ''todo''))"
    and "set (stranded (add_edge review_machine ''lost'' ''todo'')) \<subseteq> set (stranded review_machine)"
    using printed_repair_repairs [OF d _ r] by iprover+
  with s show ?thesis by (cases "stranded (add_edge review_machine ''lost'' ''todo'')") auto
qed

lemma narrowed_None:
  assumes "narrowed_away_at m s allowed = None" and "leads m None s t"
  shows "leads m (Some allowed) s t"
  using assms(2) unfolding leads_def
proof (induction rule: rtranclp_induct)
  case (step y z)
  then have "y \<in> set (s # states_reachable_from m s (Some allowed))"
    using states_reachable_from_exact(3) [where m = m and start = s and allowed = "Some allowed"]
    by (auto simp: leads_def)
  with assms(1) have "\<not> (\<exists>rule\<in>set (transitions m). transition_leaves_state m y rule \<and> r_to rule \<notin> allowed)"
    unfolding narrowed_away_at_def find_None_iff list_ex_iff by blast
  with step(2) have "way_out m (Some allowed) y z"
    unfolding way_out_def permits_def by fastforce
  with step(3) show ?case by (rule rtranclp.rtrancl_into_rtrancl)
qed simp

lemma leads_profile: "leads m (Some allowed) s t \<Longrightarrow> leads m None s t"
  unfolding leads_def
  by (rule rtranclp_mono [THEN predicate2D]) (auto simp: way_out_def permits_def)

text \<open>
  A profile's refusal sends the reader to the right file. Where the walk inside the
  profile finds no state whose edges leave the allowed set, the profile is not to blame: a
  final state can be reached within it exactly when it can be reached in the machine. Where it
  names a place, a task of this profile can stand there, and some edge that would take it on
  leads out of the allowed set.
\<close>

theorem profile_refusal_names_the_file:
  "(narrowed_away_at m s allowed = None \<longrightarrow>
     state_can_reach_final m s (Some allowed) counts = state_can_reach_final m s None counts) \<and>
   (\<forall>place. narrowed_away_at m s allowed = Some place \<longrightarrow>
     (way_out m (Some allowed))\<^sup>*\<^sup>* s place \<and>
     (\<exists>rule\<in>set (transitions m). transition_leaves_state m place rule \<and> r_to rule \<notin> allowed))"
proof (intro conjI impI allI)
  assume "narrowed_away_at m s allowed = None"
  then have "leads m (Some allowed) s t \<longleftrightarrow> leads m None s t" for t
    using narrowed_None leads_profile by blast
  then show "state_can_reach_final m s (Some allowed) counts = state_can_reach_final m s None counts"
    by (simp add: state_can_reach_final_iff)
next
  fix place
  assume found: "narrowed_away_at m s allowed = Some place"
  then have "place \<in> insert s (set (states_reachable_from m s (Some allowed)))"
    unfolding narrowed_away_at_def find_Some_iff by (metis list.simps(15) nth_mem)
  then show "(way_out m (Some allowed))\<^sup>*\<^sup>* s place"
    unfolding states_reachable_from_exact(3) leads_def by simp
  show "\<exists>rule\<in>set (transitions m). transition_leaves_state m place rule \<and> r_to rule \<notin> allowed"
    using found unfolding narrowed_away_at_def find_Some_iff list_ex_iff by blast
qed

theorem profile_refusal_names_the_file_witness:
  "narrowed_away_at review_machine ''todo'' {''todo'', ''doing'', ''gone''} = Some ''doing'' \<and>
   (way_out review_machine (Some {''todo'', ''doing'', ''gone''}))\<^sup>*\<^sup>* ''todo'' ''doing''"
proof -
  have "narrowed_away_at review_machine ''todo'' {''todo'', ''doing'', ''gone''} = Some ''doing''"
    by code_simp
  with profile_refusal_names_the_file
    [where m = review_machine and s = "''todo''" and allowed = "{''todo'', ''doing'', ''gone''}"]
  show ?thesis by blast
qed

end
