(* ===== verification/Moves_Claims.thy ===== *)
theory Moves_Claims
  imports Moves_Laws Stranded_Claims
begin

text \<open>
  What selecting and applying an edge promise: a decided move passed every guard, the visit
  budgets hold over any sequence of moves no callback redirects, a counted state line reads
  back, and the engine selects exactly along the edges the dead-end walk counts.
\<close>

subsection \<open>Concrete frontmatter\<close>

datatype yaml_value = YString string | YNumber u64 | YSequence "yaml_value list"
  | YMapping "(yaml_value \<times> yaml_value) list"

definition sample_yaml :: "((yaml_value \<times> yaml_value) list, yaml_value) yaml" where
  "sample_yaml = \<lparr>ym_get = map_of, ym_insert = (\<lambda>m k v. (k, v) # filter (\<lambda>p. fst p \<noteq> k) m),
     ym_remove = (\<lambda>m k. filter (\<lambda>p. fst p \<noteq> k) m), ym_new = [], ym_is_empty = (\<lambda>m. m = []),
     y_mapping = YMapping, y_pattern = (\<lambda>v. case v of YMapping m \<Rightarrow> Some m | _ \<Rightarrow> None),
     y_as_mapping = (\<lambda>v. case v of YMapping m \<Rightarrow> Some m | _ \<Rightarrow> None), y_string = YString,
     y_number = YNumber, y_as_u64 = (\<lambda>v. case v of YNumber n \<Rightarrow> Some n | _ \<Rightarrow> None),
     y_as_str = (\<lambda>v. case v of YString s \<Rightarrow> Some s | _ \<Rightarrow> None),
     y_text = (\<lambda>v. case v of YString s \<Rightarrow> Some s | YNumber n \<Rightarrow> Some (show_u64 n) | _ \<Rightarrow> None),
     y_sequence = YSequence, y_as_sequence = (\<lambda>v. case v of YSequence vs \<Rightarrow> Some vs | _ \<Rightarrow> None),
     y_number_pattern = (\<lambda>v. case v of YNumber n \<Rightarrow> Some n | _ \<Rightarrow> None),
     y_string_pattern = (\<lambda>v. case v of YString s \<Rightarrow> Some s | _ \<Rightarrow> None),
     ym_retain = (\<lambda>keep m. filter (\<lambda>(k, v). map_of m k = Some v \<and> keep k v) m),
     ym_map_values = (\<lambda>f m. map (\<lambda>(k, v). (k, f v)) m)\<rparr>"

lemma map_of_filter_neq: "map_of (filter (\<lambda>p. fst p \<noteq> k) m) l = (if l = k then None else map_of m l)"
  by (induction m) auto

lemma map_of_filter_kept:
  "map_of (filter (\<lambda>(k, v). map_of base k = Some v \<and> keep k v) m) l =
   (case map_of base l of Some v \<Rightarrow> if keep l v \<and> (l, v) \<in> set m then Some v else None | None \<Rightarrow> None)"
  by (induction m) (auto split: option.splits)

lemma no_key_empty: "(m = []) = (\<forall>k. map_of m k = None)"
  by (cases m) auto

interpretation sy: yaml_laws sample_yaml
  by unfold_locales (auto simp: sample_yaml_def map_of_filter_neq map_of_filter_kept no_key_empty map_of_map
      split: yaml_value.splits option.splits dest: map_of_SomeD)

definition sample_task :: task where
  "sample_task = Task \<lparr>t_id = [Number 1], t_profile_depth_offset = 0, t_kind = ''task'', t_title = [],
     t_state = ''todo'', t_prior = [], t_prior_kinds = [], t_provides = [], t_consumes = [],
     t_assignee = None\<rparr> []"

definition sample_call :: "state_machine \<Rightarrow> call" where
  "sample_call m = \<lparr>c_machine = m, c_task = sample_task, c_key = [Number 1], c_local = ''1'',
     c_artifact = ''1'', c_level = 1\<rparr>"

definition fresh_ticket :: "(yaml_value \<times> yaml_value) list ticket" where
  "fresh_ticket = \<lparr>tk_metadata = None, tk_raw = ''todo''\<rparr>"

subsection \<open>A decided move passed its guards\<close>

lemma unless_Ok [res_simps]: "unless ok msg = Inr u \<longleftrightarrow> ok"
  by (simp add: unless_def)

lemma profile_ok_iff:
  "ensure_task_profile_allows_state m i kind lvl s = Inr u \<longleftrightarrow> task_profile_allows_state m kind lvl s"
  by (auto simp: ensure_task_profile_allows_state_def task_profile_allows_state_def split: option.splits)

lemma rule_of_pair_props:
  assumes "rule_of_pair m a b = Some rule"
  shows "rule \<in> set (transitions m) \<and> r_to rule = b \<and> (r_from rule = a \<or> r_from rule = ''*'' \<and> transition_matches_source m rule a)"
  using assms by (auto simp: rule_of_pair_def split: option.splits dest!: find_Some_props)

definition declares_move :: "state_machine \<Rightarrow> string \<Rightarrow> string \<Rightarrow> transition_rule \<Rightarrow> bool" where
  "declares_move m a b rule \<longleftrightarrow>
     rule \<in> set (transitions m) \<and> r_to rule = b \<and>
     (r_from rule = a \<or> r_from rule = ''*'' \<and> transition_matches_source m rule a)"

lemma matching_rule_props:
  assumes "matching_rule m selected a b = Some rule" and "is_valid_state m a"
  shows "declares_move m a b rule"
proof -
  have "r_from rule = a" if "transition_matches_source m rule a" "r_from rule \<noteq> ''*''"
    using that parse_declared [OF assms(2)] by (simp add: transition_matches_source_def Let_def)
  then show ?thesis
    using assms(1) rule_of_pair_props [of m a b rule]
    by (auto simp: matching_rule_def rule_the_caller_selected_def declares_move_def bind_eq_Some_conv Let_def
        split: option.splits if_splits)
qed

text \<open>The guards of a decided move, one by one.\<close>

lemma decide_moveE:
  assumes "decide_move Y c selected a b on_leave tk = Ok (landed, tk')"
  obtains rule redirect where
    "is_valid_state (c_machine c) a" and "is_valid_state (c_machine c) b"
    and "normalized_state_name (tk_raw tk) (c_machine c) = a"
    and "task_profile_allows_state (c_machine c) (kind_of (c_task c)) (c_level c) b"
    and "matching_rule (c_machine c) selected a b = Some rule"
    and "transition_rule_is_applicable Y rule (c_machine c)
          (or_else (ensure_current_state_visit_count Y (tk_metadata tk) (c_key c) a (tk_raw tk) (c_machine c)) (tk_metadata tk))
          (c_key c) (Some (c_task c)) a (tk_raw tk) = Ok True"
    and "run_on_leave rule on_leave = Ok redirect"
    and "\<exists>r. effective_target c a b rule redirect = Ok (landed, r)"
    and "ensure_descendants_terminal (c_machine c) (c_task c) (c_local c) (c_artifact c) landed = Ok ()"
    and "tk' = applied_ticket Y c (ensure_current_state_visit_count Y (tk_metadata tk) (c_key c) a (tk_raw tk) (c_machine c)) tk a landed"
  using assms unfolding decide_move_def
  by (auto simp: res_simps profile_ok_iff Let_def)

lemma effective_target_props:
  assumes "effective_target c a b rule redirect = Ok (landed, r)" and "is_valid_state (c_machine c) a"
    and "is_valid_state (c_machine c) b" and "matching_rule (c_machine c) selected a b = Some rule"
    and "task_profile_allows_state (c_machine c) (kind_of (c_task c)) (c_level c) b"
  shows "is_valid_state (c_machine c) landed \<and>
    task_profile_allows_state (c_machine c) (kind_of (c_task c)) (c_level c) landed \<and>
    (\<exists>r. declares_move (c_machine c) a landed r)"
  using assms matching_rule_props [OF assms(4,2)] rule_of_pair_props [of "c_machine c" a landed]
  by (auto simp: effective_target_def res_simps profile_ok_iff declares_move_def
      split: option.splits if_splits)

lemma collect_member: "d \<in> set (collect_plan_tasks ts) \<longleftrightarrow>
    (\<exists>t\<in>set ts. d = t \<or> d \<in> set (collect_plan_tasks (children t)))"
proof (induction ts)
  case (Cons t ts)
  then show ?case by (cases t) auto
qed simp

lemma non_terminal_descendants_none:
  "non_terminal_descendants t m p = [] \<longleftrightarrow>
   (\<forall>d\<in>set (collect_plan_tasks (children t)). is_terminal_state (state_text d) m)"
proof (induction t)
  case (Task f cs)
  have "non_terminal_descendants (Task f cs) m p = [] \<longleftrightarrow>
      (\<forall>child\<in>set cs. is_terminal_state (state_text child) m \<and> non_terminal_descendants child m p = [])"
    by auto
  also have "\<dots> \<longleftrightarrow> (\<forall>child\<in>set cs. is_terminal_state (state_text child) m \<and>
      (\<forall>d\<in>set (collect_plan_tasks (children child)). is_terminal_state (state_text d) m))"
    using Task by simp
  also have "\<dots> \<longleftrightarrow> (\<forall>d\<in>set (collect_plan_tasks cs). is_terminal_state (state_text d) m)"
    unfolding Ball_def collect_member [of _ cs] by blast
  finally show ?case by simp
qed

lemma descendants_guard:
  assumes "ensure_descendants_terminal m t l q s = Ok ()" and "holds_of m terminal s"
    and "d \<in> set (collect_plan_tasks (children t))"
  shows "is_terminal_state (state_text d) m"
  using assms
  by (auto simp: ensure_descendants_terminal_def Let_def non_terminal_descendants_none split: if_splits)

text \<open>
  C21: A move that is decided started from the state the file holds, landed in a declared state
  its profile allows along a declared edge from the one it left, named or by a wildcard whose
  sources hold it, and never put a parent into a final state over a
  descendant that is not final, whatever the callback redirected it to.
\<close>

theorem decided_move_is_guarded:
  assumes "decide_move Y c selected a b on_leave tk = Ok (landed, tk')"
  shows "normalized_state_name (tk_raw tk) (c_machine c) = a \<and>
    is_valid_state (c_machine c) landed \<and>
    task_profile_allows_state (c_machine c) (kind_of (c_task c)) (c_level c) landed \<and>
    (\<exists>rule\<in>set (transitions (c_machine c)). r_to rule = landed \<and>
       (r_from rule = a \<or> r_from rule = ''*'' \<and> transition_matches_source (c_machine c) rule a)) \<and>
    (state_is_terminal (c_machine c) landed \<longrightarrow>
      (\<forall>d\<in>set (collect_plan_tasks (children (c_task c))).
         is_terminal_state (state_text d) (c_machine c)))"
  using assms
proof (cases rule: decide_moveE)
  case (1 rule redirect)
  then obtain r where r: "effective_target c a b rule redirect = Ok (landed, r)" by blast
  show ?thesis
    using effective_target_props [OF r 1(1,2,5,4)] 1(3) descendants_guard [OF 1(9)]
    unfolding state_is_terminal_def declares_move_def by blast
qed

definition fresh_move :: "report + string \<times> (yaml_value \<times> yaml_value) list ticket" where
  "fresh_move = decide_move sample_yaml (sample_call review_machine) None ''todo'' ''doing'' (\<lambda>_. []) fresh_ticket"

lemma fresh_move_lands: "\<exists>tk'. fresh_move = Ok (''doing'', tk')"
proof -
  have "(case fresh_move of Inr (s, _) \<Rightarrow> s = ''doing'' | Inl _ \<Rightarrow> False)" by code_simp
  then show ?thesis by (auto split: sum.splits)
qed

theorem decided_move_is_guarded_witness:
  "task_profile_allows_state review_machine ''task'' 1 ''doing'' \<and> is_valid_state review_machine ''doing''"
proof -
  obtain tk' where "fresh_move = Ok (''doing'', tk')" using fresh_move_lands by blast
  from decided_move_is_guarded [OF this [unfolded fresh_move_def]]
  show ?thesis by (simp add: sample_call_def sample_task_def)
qed

subsection \<open>Budgets over sequences of moves\<close>

inductive moves ::
  "('m, 'y) yaml \<Rightarrow> state_machine \<Rightarrow> task_id \<Rightarrow> 'm ticket \<Rightarrow> 'm ticket \<Rightarrow> bool" for Y m i tk where
  moves_start: "moves Y m i tk tk"
| moves_step: "moves Y m i tk tk1 \<Longrightarrow> c_machine c = m \<Longrightarrow> c_key c = i \<Longrightarrow>
    decide_move Y c selected a b on_leave tk1 = Ok (b, tk2) \<Longrightarrow> moves Y m i tk tk2"

lemma applicable_allowed:
  "transition_rule_is_applicable Y rule m md i node current raw = Ok True \<Longrightarrow>
   transition_matches_source m rule current \<and> loop_reentry_allowed Y m md i current raw (r_to rule)"
  by (auto simp: transition_rule_is_applicable_def split: if_splits)

lemma move_keeps_budgets:
  assumes Y: "yaml_laws Y" and ok: "budgets_ok (c_machine c)"
    and md: "counts_within Y (c_machine c) (c_key c) (tk_metadata tk)" and raw: "raw_within (c_machine c) (tk_raw tk)"
    and move: "decide_move Y c selected a b on_leave tk = Ok (b, tk')"
  shows "counts_within Y (c_machine c) (c_key c) (tk_metadata tk') \<and> raw_within (c_machine c) (tk_raw tk')"
  using move
proof (cases rule: decide_moveE)
  case (1 rule redirect)
  from applicable_allowed [OF 1(6)] matching_rule_props [OF 1(5,1)]
  have "loop_reentry_allowed Y (c_machine c)
      (or_else (ensure_current_state_visit_count Y (tk_metadata tk) (c_key c) a (tk_raw tk) (c_machine c)) (tk_metadata tk))
      (c_key c) a (tk_raw tk) b" by (simp add: declares_move_def)
  from yaml_laws.applied_ticket_within [OF Y ok md raw 1(2) refl this] show ?thesis
    unfolding 1(10) .
qed

text \<open>
  C22: Over any sequence of moves that land where they were asked to, whatever the children of
  the task do in between, no visit counter ever exceeds the budget its state declares, and
  neither does the visit the state line names.
\<close>

theorem visits_stay_within_budget:
  assumes "yaml_laws Y" and "budgets_ok m" and "moves Y m i tk tk'"
    and "counts_within Y m i (tk_metadata tk)" and "raw_within m (tk_raw tk)"
  shows "\<forall>s limit. state_visit_limit m s = Some limit \<longrightarrow>
    task_visit_count Y (tk_metadata tk') i s \<le> limit \<and> raw_state_visit_count (tk_raw tk') m s \<le> limit"
proof -
  from assms(3) have "counts_within Y m i (tk_metadata tk') \<and> raw_within m (tk_raw tk')"
  proof induction
    case moves_start
    show ?case using assms(4,5) by simp
  next
    case (moves_step tk1 c selected a b on_leave tk2)
    from moves_step.hyps(2,3) have "counts_within Y (c_machine c) (c_key c) (tk_metadata tk1)"
      "raw_within (c_machine c) (tk_raw tk1)" "budgets_ok (c_machine c)"
      using moves_step.IH assms(2) by simp_all
    from move_keeps_budgets [OF assms(1) this(3,1,2) moves_step.hyps(4)] moves_step.hyps(2,3)
    show ?case by simp
  qed
  then show ?thesis by (simp add: counts_within_def raw_within_def)
qed

lemma review_limits:
  "state_visit_limit review_machine s = (if s = ''doing'' then Some 2 else None)"
  by (simp add: state_visit_limit_def review_machine_def plain_state_def)

lemma review_polls: "poll_of review_machine s = None"
  by (simp add: poll_of_def review_machine_def plain_state_def)

lemma review_budgets: "budgets_ok review_machine"
  by (auto simp: budgets_ok_def review_limits review_polls split: if_splits)

lemma review_fresh: "counts_within sample_yaml review_machine [Number 1] None" "raw_within review_machine ''todo''"
proof -
  show "counts_within sample_yaml review_machine [Number 1] None"
    by (simp add: counts_within_def task_visit_count_def task_metadata_map_def)
  have "is_valid_state review_machine ''todo''" by (simp add: is_valid_state_def review_machine_def)
  then show "raw_within review_machine ''todo''"
    using raw_count_declared budgets_okD [OF review_budgets] unfolding raw_within_def
    by (meson order.trans)
qed

theorem visits_stay_within_budget_witness:
  "\<exists>tk'. moves sample_yaml review_machine [Number 1] fresh_ticket tk' \<and>
     task_visit_count sample_yaml (tk_metadata tk') [Number 1] ''doing'' \<le> 2"
proof -
  obtain tk' where "fresh_move = Ok (''doing'', tk')" using fresh_move_lands by blast
  then have m: "moves sample_yaml review_machine [Number 1] fresh_ticket tk'"
    unfolding fresh_move_def by (intro moves_step [OF moves_start]) (simp_all add: sample_call_def)
  have "counts_within sample_yaml review_machine [Number 1] (tk_metadata fresh_ticket)"
    "raw_within review_machine (tk_raw fresh_ticket)"
    using review_fresh by (simp_all add: fresh_ticket_def)
  from visits_stay_within_budget [OF sy.yaml_laws_axioms review_budgets m this]
  have "task_visit_count sample_yaml (tk_metadata tk') [Number 1] ''doing'' \<le> 2"
    by (simp add: review_limits)
  with m show ?thesis by blast
qed

text \<open>
  C23: The state line of a counted visit reads back: whatever visit within the budget a move
  writes, the line names the state it came from and that visit, as long as the written value
  is not itself the name of a declared state.
\<close>

theorem counted_visit_reads_back:
  assumes "state_visit_limit m s = Some limit" and "1 \<le> n" and "n \<le> limit"
    and "1 < n \<longrightarrow> \<not> is_valid_state m (s @ ''-'' @ show_u64 n)"
  shows "normalized_state_name (format_task_state_value s (Some n) m) m = s \<and>
    raw_state_visit_count (format_task_state_value s (Some n) m) m s = n"
proof (cases "1 < n")
  case True
  obtain v :: u32 where "limit = ucast v" using assms(1) by (auto simp: state_visit_limit_def)
  then have "unat limit < 2 ^ 32"
    using unsigned_less [where 'a = nat, of v] by (simp add: unsigned_ucast_eq take_bit_nat_eq_self)
  then have small: "unat n < 2 ^ 32" using assms(3) by (simp add: word_le_nat_alt)
  have cast: "ucast (of_nat k :: u32) = (of_nat k :: u64)" if "k < 2 ^ 32" for k
    using that by (simp add: unsigned_of_nat take_bit_nat_eq_self)
  have p: "parse_task_state (s @ CHR ''-'' # show_nat (unat n)) m = \<lparr>ps_state = s, ps_visit = Some (of_nat (unat n))\<rparr>"
    using parse_counted [OF limit_valid [OF assms(1)] _ small] assms(4) True by (simp add: show_u64_def)
  have f: "format_task_state_value s (Some n) m = s @ CHR ''-'' # show_nat (unat n)"
    using True assms(1) by (simp add: format_task_state_value_def show_u64_def)
  show ?thesis
    unfolding f normalized_state_name_def raw_state_visit_count_def Let_def p
    using assms(1) cast [OF small] by simp
next
  case False
  with assms(2) have n: "n = 1" by simp
  show ?thesis
    using limit_valid [OF assms(1)] assms(1)
    by (simp add: n format_task_state_value_def normalized_state_name_def raw_state_visit_count_def
        parse_task_state_def)
qed

theorem counted_visit_reads_back_witness:
  "normalized_state_name (format_task_state_value ''doing'' (Some 2) review_machine) review_machine = ''doing''"
proof -
  have "\<not> is_valid_state review_machine (''doing'' @ ''-'' @ show_u64 2)"
    by code_simp
  with counted_visit_reads_back [where m = review_machine and s = "''doing''" and n = 2 and limit = 2]
  show ?thesis by (simp add: review_limits)
qed

subsection \<open>Selection and the dead-end walk\<close>

lemma first_applicable_Some:
  "first_applicable admits applicable rules = Ok (Some t) \<Longrightarrow>
   \<exists>rule\<in>set rules. admits rule \<and> applicable rule = Ok True \<and> r_to rule = t"
  by (induction rules) (auto simp: res_simps split: if_splits)

lemma first_applicable_None:
  "first_applicable admits applicable rules = Ok None \<Longrightarrow> rule \<in> set rules \<Longrightarrow> admits rule \<Longrightarrow>
   applicable rule = Ok False"
  by (induction rules) (auto simp: res_simps split: if_splits)

lemma try_fold_check:
  "try_fold (\<lambda>x _. if p x then Err (e x) else Ok ()) xs () = Ok () \<longleftrightarrow> (\<forall>x\<in>set xs. \<not> p x)"
  by (induction xs) (auto simp: res_simps)

lemma final_exits_ok:
  "validate_final_exits m = Ok () \<Longrightarrow> rule \<in> set (transitions m) \<Longrightarrow> r_from rule \<noteq> ''*'' \<Longrightarrow>
   \<not> state_is_terminal m (r_from rule)"
  by (auto simp: validate_final_exits_def try_fold_check state_is_terminal_def)

definition profile_states :: "state_machine \<Rightarrow> task \<Rightarrow> string set option" where
  "profile_states m t = map_option (\<lambda>p. set (p_allowed p)) (profile_for_node m (kind_of t) (profile_level t))"

lemma permits_profile:
  "permits (profile_states m t) s \<longleftrightarrow> task_profile_allows_state m (kind_of t) (profile_level t) s"
  by (simp add: permits_def profile_states_def task_profile_allows_state_def split: option.split)

lemma matches_not_terminal:
  assumes "validate_final_exits m = Ok ()" and "rule \<in> set (transitions m)"
    and "transition_matches_source m rule s" and "ps_state (parse_task_state s m) = s"
  shows "\<not> state_is_terminal m s"
proof (cases "r_from rule = ''*''")
  case True
  with matches_wildcard [OF True assms(3)] assms(4) show ?thesis
    by (auto simp: state_is_terminal_def holds_of_def split: option.splits)
next
  case False
  with matches_exact [OF False, of m s] assms(3,4) have "r_from rule = s" by simp
  with final_exits_ok [OF assms(1,2) False] show ?thesis by simp
qed

lemma leaves_cases:
  assumes "transition_leaves_state m s rule" and "\<not> holds_of m gating s" and "ps_state (parse_task_state s m) = s"
  shows "r_from rule = s \<or>
    r_from rule = ''*'' \<and> transition_matches_source m rule s \<and> \<not> holds_of m terminal (r_to rule)"
  using assms matches_exact [of rule m s]
  by (auto simp: transition_leaves_state_def state_is_terminal_def split: if_splits)

text \<open>
  C24: The engine and the dead-end check read the machine alike. An edge the engine selects is
  one the check's walk follows within the ticket's profile, so it never leaves a final state
  and never takes a wildcard into one; and where the engine finds nothing at a state that is
  not gating, every edge the walk counts there is held back by a budget or a condition.
\<close>

theorem engine_selects_along_the_walk:
  assumes "validate_final_exits m = Ok ()"
  shows "(\<forall>s. find_next_transition_from Y t md m raw = Ok (Some s) \<longrightarrow>
      way_out m (profile_states m t) (normalized_state_name raw m) s) \<and>
    (find_next_transition_from Y t md m raw = Ok None \<and> \<not> holds_of m gating (normalized_state_name raw m) \<longrightarrow>
      (\<forall>rule\<in>set (transitions m).
         transition_leaves_state m (normalized_state_name raw m) rule \<and> permits (profile_states m t) (r_to rule) \<longrightarrow>
         transition_rule_is_applicable Y rule m md (id_of t) (Some t) (normalized_state_name raw m) raw = Ok False))"
proof -
  define current where "current = normalized_state_name raw m"
  have again: "ps_state (parse_task_state current m) = current"
    by (simp add: current_def normalized_state_name_def parse_again)
  have followed: "way_out m (profile_states m t) current (r_to rule)"
    if "rule \<in> set (transitions m)" "transition_matches_source m rule current"
      "permits (profile_states m t) (r_to rule)" "r_from rule = current \<or> \<not> holds_of m terminal (r_to rule)" for rule
    using that matches_not_terminal [OF assms that(1,2) again]
    unfolding way_out_def transition_leaves_state_def by (auto simp: state_is_terminal_def)
  show ?thesis
    unfolding current_def [symmetric]
  proof (intro conjI allI impI ballI)
    fix s
    assume "find_next_transition_from Y t md m raw = Ok (Some s)"
    then have "\<exists>rule\<in>set (transitions m). r_to rule = s \<and> transition_matches_source m rule current \<and>
        permits (profile_states m t) (r_to rule) \<and> (r_from rule = current \<or> \<not> holds_of m terminal (r_to rule))"
      unfolding find_next_transition_from_def current_def [symmetric] Let_def
      by (auto simp: res_simps permits_profile split: option.splits
          dest!: first_applicable_Some applicable_allowed)
    then show "way_out m (profile_states m t) current s" using followed by blast
  next
    fix rule
    assume none: "find_next_transition_from Y t md m raw = Ok None \<and> \<not> holds_of m gating current"
      and rule: "rule \<in> set (transitions m)"
      and counted: "transition_leaves_state m current rule \<and> permits (profile_states m t) (r_to rule)"
    from counted none again have "r_from rule = current \<or>
        r_from rule = ''*'' \<and> transition_matches_source m rule current \<and> \<not> holds_of m terminal (r_to rule)"
      by (intro leaves_cases) simp_all
    with none rule counted
    show "transition_rule_is_applicable Y rule m md (id_of t) (Some t) current raw = Ok False"
      unfolding find_next_transition_from_def current_def [symmetric] Let_def
      by (auto simp: res_simps permits_profile split: option.splits dest: first_applicable_None)
  qed
qed

theorem engine_selects_along_the_walk_witness:
  "find_next_transition_from sample_yaml sample_task None review_machine ''doing'' = Ok (Some ''doing'') \<and>
   way_out review_machine None ''doing'' ''doing''"
proof -
  have f: "find_next_transition_from sample_yaml sample_task None review_machine ''doing'' = Ok (Some ''doing'')"
    by code_simp
  have v: "validate_final_exits review_machine = Ok ()" by code_simp
  have n: "normalized_state_name ''doing'' review_machine = ''doing''" by code_simp
  have p: "profile_states review_machine sample_task = None"
    by (simp add: profile_states_def profile_for_node_def review_machine_def)
  from engine_selects_along_the_walk [OF v, of sample_yaml sample_task None "''doing''"] f show ?thesis
    by (simp add: n p)
qed

end
