(* ===== verification/Moves_Findings.thy ===== *)
theory Moves_Findings
  imports Moves_Claims
begin

text \<open>
  Two behaviours of the moves that the documentation does not promise. An \<open>on_leave\<close>
  callback that redirects is checked against the declared edges and the profile and against no
  budget or condition; and the line a counted visit writes can be the name of another
  declared state, which is what it is then read as.
\<close>

definition callback_edge :: "string \<Rightarrow> string \<Rightarrow> transition_rule" where
  "callback_edge a b = (edge a b)\<lparr>r_on_leave := Some ''cli:gate''\<rparr>"

definition redirect_machine :: state_machine where
  "redirect_machine = review_machine\<lparr>
     states := [(''todo'', plain_state), (''doing'', plain_state\<lparr>visits := Some 1\<rparr>),
                (''fix'', plain_state), (''done'', plain_state\<lparr>terminal := True\<rparr>)],
     transitions := [edge ''todo'' ''doing'', edge ''doing'' ''fix'', callback_edge ''fix'' ''done'',
                     edge ''fix'' ''doing'']\<rparr>"

definition plain_move ::
  "state_machine \<Rightarrow> string \<Rightarrow> string \<Rightarrow> (yaml_value \<times> yaml_value) list ticket \<Rightarrow>
   report + string \<times> (yaml_value \<times> yaml_value) list ticket" where
  "plain_move m a b tk = decide_move sample_yaml (sample_call m) None a b (\<lambda>_. []) tk"

definition to_fix :: "(yaml_value \<times> yaml_value) list ticket" where
  "to_fix = (case tryb (plain_move redirect_machine ''todo'' ''doing'' fresh_ticket)
               (\<lambda>(_, tk). plain_move redirect_machine ''doing'' ''fix'' tk) of
               Inr (_, tk) \<Rightarrow> tk | Inl _ \<Rightarrow> fresh_ticket)"

text \<open>
  The edge from \<open>fix\<close> to \<open>doing\<close> is refused, because the one visit \<open>doing\<close> allows is spent; the
  callback of the edge to \<open>done\<close> answers with a redirect to \<open>doing\<close>, and the ticket lands
  there on its second visit.
\<close>

theorem redirect_skips_the_budget:
  "plain_move redirect_machine ''fix'' ''doing'' to_fix =
     Err (''transition from '' @ quoted ''fix'' @ '' to '' @ quoted ''doing'' @
       '' is not currently applicable: visit budget for state '' @ quoted ''doing'' @
       '' is exhausted (1/1 visits). Currently applicable transitions from '' @ quoted ''fix'' @ '': done.'') \<and>
   (case decide_move sample_yaml (sample_call redirect_machine) None ''fix'' ''done''
           (\<lambda>_. [Proceed (Some ''doing'')]) to_fix of
      Inr (landed, tk) \<Rightarrow> landed = ''doing'' \<and>
        task_visit_count sample_yaml (tk_metadata tk) [Number 1] ''doing'' = 2
    | Inl _ \<Rightarrow> False) \<and>
   state_visit_limit redirect_machine ''doing'' = Some 1"
  by code_simp

definition twin_machine :: state_machine where
  "twin_machine = review_machine\<lparr>
     states := [(''todo'', plain_state), (''doing'', plain_state\<lparr>visits := Some 3\<rparr>),
                (''doing-2'', plain_state), (''done'', plain_state\<lparr>terminal := True\<rparr>)],
     transitions := [edge ''todo'' ''doing'', edge ''doing'' ''doing'', edge ''doing'' ''done'',
                     edge ''doing-2'' ''done'']\<rparr>"

text \<open>The second visit to \<open>doing\<close> is written as the name of the other state, and read as it.\<close>

theorem counted_line_names_another_state:
  "stranded twin_machine = [] \<and>
   (case tryb (plain_move twin_machine ''todo'' ''doing'' fresh_ticket)
      (\<lambda>(_, tk). plain_move twin_machine ''doing'' ''doing'' tk) of
      Inr (landed, tk) \<Rightarrow> landed = ''doing'' \<and> normalized_state_name (tk_raw tk) twin_machine = ''doing-2''
    | Inl _ \<Rightarrow> False)"
  by code_simp

end
