(* ===== verification/Supervision.thy ===== *)
theory Supervision
  imports Moves
begin

text \<open>
  Subtree supervision (\<open>subtree_supervision.rs\<close>, \<open>subtree_supervision_barrier.rs\<close>,
  \<open>subtree_supervision_owner.rs\<close>): the hold and release a task in an \<open>execute_on:\<close> state puts
  over its subtree, the checkpoints its descendants deliver, and the \<open>supervision\<close> block of the
  frontmatter that carries both.
\<close>

subsection \<open>Identifiers as text\<close>

fun parse_segments :: "string list \<Rightarrow> segment list option" where
  "parse_segments [] = Some []"
| "parse_segments (part # parts) =
     (if part = [] then None
      else map_option ((#) (case parse_u32 part of Some n \<Rightarrow> Number n | None \<Rightarrow> Named part))
        (parse_segments parts))"

definition parse_task_id :: "string \<Rightarrow> task_id" where
  "parse_task_id s =
     (if s = [] then [Named s]
      else case parse_segments (split_on (CHR ''.'') s) of Some i \<Rightarrow> i | None \<Rightarrow> [Named s])"

subsection \<open>The block\<close>

datatype supervision_phase = Held | Released

definition phase_as_str :: "supervision_phase \<Rightarrow> string" where
  "phase_as_str p = (case p of Held \<Rightarrow> ''held'' | Released \<Rightarrow> ''released'')"

definition parse_phase :: "string \<Rightarrow> supervision_phase option" where
  "parse_phase value =
     (if trim value = ''held'' then Some Held
      else if trim value = ''released'' then Some Released else None)"

record checkpoint =
  cp_task :: string
  cp_from :: string
  cp_to :: string
  cp_visit :: u64

definition execute_on_of :: "state_machine \<Rightarrow> string \<Rightarrow> execute_on option" where
  "execute_on_of m s = Option.bind (state_of m s) execute_on"

definition task_is_supervising :: "task \<Rightarrow> state_machine \<Rightarrow> bool" where
  "task_is_supervising t m \<longleftrightarrow> execute_on_of m (normalized_state_name (state_text t) m) \<noteq> None"

definition supervision_map :: "('m, 'y) yaml \<Rightarrow> 'm option \<Rightarrow> task_id \<Rightarrow> 'm option" where
  "supervision_map Y metadata i =
     Option.bind (task_metadata_map Y metadata i) (\<lambda>entry.
     Option.bind (ym_get Y entry (yaml_key Y ''supervision'')) (y_as_mapping Y))"

definition recorded_supervision_phase ::
  "('m, 'y) yaml \<Rightarrow> 'm option \<Rightarrow> task_id \<Rightarrow> supervision_phase option" where
  "recorded_supervision_phase Y metadata i =
     Option.bind (supervision_map Y metadata i) (\<lambda>block.
     Option.bind (ym_get Y block (yaml_key Y ''phase'')) (\<lambda>v.
     Option.bind (y_as_str Y v) parse_phase))"

definition supervision_phase_of :: "('m, 'y) yaml \<Rightarrow> 'm option \<Rightarrow> task_id \<Rightarrow> supervision_phase" where
  "supervision_phase_of Y metadata i =
     (case recorded_supervision_phase Y metadata i of Some p \<Rightarrow> p | None \<Rightarrow> Held)"

definition recorded_checkpoints :: "('m, 'y) yaml \<Rightarrow> 'm option \<Rightarrow> task_id \<Rightarrow> 'y list option" where
  "recorded_checkpoints Y metadata i =
     Option.bind (supervision_map Y metadata i) (\<lambda>block.
     Option.bind (ym_get Y block (yaml_key Y ''checkpoints'')) (y_as_sequence Y))"

definition read_checkpoint :: "('m, 'y) yaml \<Rightarrow> 'y \<Rightarrow> checkpoint option" where
  "read_checkpoint Y v =
     Option.bind (y_as_mapping Y v) (\<lambda>entry.
       let text = (\<lambda>key. Option.bind (ym_get Y entry (yaml_key Y key)) (y_text Y));
           or_empty = (\<lambda>t. case t of Some s \<Rightarrow> s | None \<Rightarrow> []) in
       map_option (\<lambda>task.
         \<lparr>cp_task = task, cp_from = or_empty (text ''from''), cp_to = or_empty (text ''to''),
          cp_visit = (case Option.bind (ym_get Y entry (yaml_key Y ''visit'')) (y_as_u64 Y) of
                        Some n \<Rightarrow> n | None \<Rightarrow> 1)\<rparr>) (text ''task''))"

definition supervision_checkpoints :: "('m, 'y) yaml \<Rightarrow> 'm option \<Rightarrow> task_id \<Rightarrow> checkpoint list" where
  "supervision_checkpoints Y metadata i =
     (case recorded_checkpoints Y metadata i of
        None \<Rightarrow> [] | Some entries \<Rightarrow> List.map_filter (read_checkpoint Y) entries)"

definition checkpoint_yaml :: "('m, 'y) yaml \<Rightarrow> checkpoint \<Rightarrow> 'y" where
  "checkpoint_yaml Y cp =
     y_mapping Y
       (ym_insert Y (ym_insert Y (ym_insert Y (ym_insert Y (ym_new Y)
         (yaml_key Y ''task'') (yaml_key Y (cp_task cp)))
         (yaml_key Y ''from'') (yaml_key Y (cp_from cp)))
         (yaml_key Y ''to'') (yaml_key Y (cp_to cp)))
         (yaml_key Y ''visit'') (y_number Y (cp_visit cp)))"

definition hold_block :: "('m, 'y) yaml \<Rightarrow> 'y list \<Rightarrow> 'm \<Rightarrow> 'm" where
  "hold_block Y entries block =
     (let held = ym_insert Y block (yaml_key Y ''phase'') (yaml_key Y (phase_as_str Held)) in
      if entries = [] then ym_remove Y held (yaml_key Y ''checkpoints'')
      else ym_insert Y held (yaml_key Y ''checkpoints'') (y_sequence Y entries))"

definition record_supervision_hold ::
  "('m, 'y) yaml \<Rightarrow> 'm option \<Rightarrow> task_id \<Rightarrow> checkpoint option \<Rightarrow> 'm" where
  "record_supervision_hold Y existing i cp =
     (let carried = (case cp of
            Some _ \<Rightarrow> (case recorded_checkpoints Y existing i of Some entries \<Rightarrow> entries | None \<Rightarrow> [])
          | None \<Rightarrow> []);
          entries = carried @ (case cp of Some c \<Rightarrow> [checkpoint_yaml Y c] | None \<Rightarrow> [])
      in in_task_entry Y i (in_mapping Y (yaml_key Y ''supervision'') (hold_block Y entries)) existing)"

definition release_block :: "('m, 'y) yaml \<Rightarrow> 'm \<Rightarrow> 'm" where
  "release_block Y block =
     ym_remove Y (ym_insert Y block (yaml_key Y ''phase'') (yaml_key Y (phase_as_str Released)))
       (yaml_key Y ''checkpoints'')"

definition record_supervision_release :: "('m, 'y) yaml \<Rightarrow> 'm option \<Rightarrow> task_id \<Rightarrow> 'm" where
  "record_supervision_release Y existing i =
     in_task_entry Y i (in_mapping Y (yaml_key Y ''supervision'') (release_block Y)) existing"

text \<open>The \<open>?\<close> on \<open>get_mut\<close> leaves the function with nothing where a level is missing; a value of
  another shape leaves the metadata as it is.\<close>

definition enter_child ::
  "('m, 'y) yaml \<Rightarrow> 'y \<Rightarrow> ('m \<Rightarrow> 'm option) \<Rightarrow> 'm \<Rightarrow> 'm option" where
  "enter_child Y key f parent_map =
     (case ym_get Y parent_map key of
        None \<Rightarrow> None
      | Some v \<Rightarrow>
          (case y_pattern Y v of
             None \<Rightarrow> Some parent_map
           | Some c \<Rightarrow> map_option (\<lambda>c'. ym_insert Y parent_map key (y_mapping Y c')) (f c)))"

definition clear_supervision_for_task :: "('m, 'y) yaml \<Rightarrow> 'm option \<Rightarrow> task_id \<Rightarrow> 'm option" where
  "clear_supervision_for_task Y existing i =
     Option.bind existing
       (enter_child Y (yaml_key Y ''metadata'') (enter_child Y (yaml_key Y ''tasks'')
         (enter_child Y (task_id_yaml_key Y i) (\<lambda>entry.
           Some (ym_remove Y entry (yaml_key Y ''supervision''))))))"

subsection \<open>Owners and checkpoints\<close>

datatype supervision_scope = Child | Descendant

datatype supervision_event = Terminal | Transition

definition scope_of :: "execute_on \<Rightarrow> supervision_scope" where
  "scope_of e = (case e of ChildTerminal \<Rightarrow> Child | ChildTransition \<Rightarrow> Child
     | DescendantTerminal \<Rightarrow> Descendant | DescendantTransition \<Rightarrow> Descendant)"

definition event_of :: "execute_on \<Rightarrow> supervision_event" where
  "event_of e = (case e of ChildTerminal \<Rightarrow> Terminal | DescendantTerminal \<Rightarrow> Terminal
     | ChildTransition \<Rightarrow> Transition | DescendantTransition \<Rightarrow> Transition)"

text \<open>The ancestors come nearest first; the first one in the list is the parent.\<close>

fun owner_from :: "state_machine \<Rightarrow> bool \<Rightarrow> task list \<Rightarrow> task option" where
  "owner_from m nearest [] = None"
| "owner_from m nearest (a # ancestors) =
     (case execute_on_of m (normalized_state_name (state_text a) m) of
        None \<Rightarrow> owner_from m False ancestors
      | Some e \<Rightarrow>
          if (case scope_of e of Child \<Rightarrow> nearest | Descendant \<Rightarrow> True) then Some a
          else owner_from m False ancestors)"

definition nearest_in_scope_supervising_owner :: "state_machine \<Rightarrow> task list \<Rightarrow> task option" where
  "nearest_in_scope_supervising_owner m ancestors = owner_from m True ancestors"

record supervised_move =
  sm_machine :: state_machine
  sm_task :: task
  sm_owner :: "task option"
  sm_key :: task_id
  sm_prefix :: string
  sm_local :: string
  sm_from :: string
  sm_to :: string
  sm_to_visit :: u64
  sm_operation_supervisor :: "task_id option"

definition supervisor_is_in_flight :: "task \<Rightarrow> task_id option \<Rightarrow> bool" where
  "supervisor_is_in_flight supervisor operation_supervisor \<longleftrightarrow>
     t_assignee (row supervisor) \<noteq> None \<or> operation_supervisor = Some (id_of supervisor)"

text \<open>A poll's retry and a supervisor's own release edge wake nobody.\<close>

definition is_waiting_loop :: "supervised_move \<Rightarrow> bool" where
  "is_waiting_loop mv \<longleftrightarrow>
     sm_from mv = sm_to mv \<and>
     (poll_of (sm_machine mv) (sm_from mv) \<noteq> None \<or> execute_on_of (sm_machine mv) (sm_from mv) \<noteq> None)"

definition move_checkpoint :: "supervised_move \<Rightarrow> (task \<times> checkpoint) option" where
  "move_checkpoint mv =
     (if is_waiting_loop mv then None
      else
        Option.bind (sm_owner mv) (\<lambda>supervisor.
        Option.bind (execute_on_of (sm_machine mv)
            (normalized_state_name (state_text supervisor) (sm_machine mv))) (\<lambda>e.
          if event_of e = Terminal \<and> \<not> holds_of (sm_machine mv) terminal (sm_to mv) then None
          else if supervisor_is_in_flight supervisor (sm_operation_supervisor mv) then None
          else Some (supervisor, \<lparr>cp_task = sm_local mv, cp_from = sm_from mv, cp_to = sm_to mv,
                       cp_visit = max (sm_to_visit mv) 1\<rparr>))))"

definition supervisor_local_id :: "task \<Rightarrow> string \<Rightarrow> task \<Rightarrow> string" where
  "supervisor_local_id supervisor local_id t =
     (let prefix = (case strip_suffix local_id (show_task_id (id_of t)) of Some p \<Rightarrow> p | None \<Rightarrow> []);
          whole = show_task_id (id_of supervisor)
      in case strip_prefix prefix whole of Some s \<Rightarrow> s | None \<Rightarrow> whole)"

subsection \<open>One applied transition\<close>

text \<open>The moving task's own block: released by the self-loop, kept at a gate, cleared where
  supervision ends, held anew where it begins.\<close>

definition own_block :: "('m, 'y) yaml \<Rightarrow> 'm option \<Rightarrow> supervised_move \<Rightarrow> 'm option" where
  "own_block Y existing mv =
     (let m = sm_machine mv;
          from_supervises = (execute_on_of m (sm_from mv) \<noteq> None);
          to_supervises = (execute_on_of m (sm_to mv) \<noteq> None);
          left = (if from_supervises \<and> sm_from mv = sm_to mv
                  then Some (record_supervision_release Y existing (sm_key mv))
                  else if from_supervises \<and> holds_of m gating (sm_to mv)
                  then Some (record_supervision_hold Y existing (sm_key mv) None)
                  else if from_supervises
                  then clear_supervision_for_task Y existing (sm_key mv)
                  else if sm_from mv \<noteq> sm_to mv \<and>
                    recorded_supervision_phase Y existing (sm_key mv) \<noteq> None
                  then clear_supervision_for_task Y existing (sm_key mv)
                  else None)
      in if to_supervises \<and> sm_from mv \<noteq> sm_to mv
         then Some (record_supervision_hold Y (or_else left existing) (sm_key mv) None)
         else left)"

definition apply_supervision_transition ::
  "('m, 'y) yaml \<Rightarrow> 'm option \<Rightarrow> supervised_move \<Rightarrow> 'm option" where
  "apply_supervision_transition Y existing mv =
     (let updated = own_block Y existing mv in
      case move_checkpoint mv of
        None \<Rightarrow> updated
      | Some (supervisor, cp) \<Rightarrow>
          Some (record_supervision_hold Y (or_else updated existing)
            (parse_task_id (sm_prefix mv @ supervisor_local_id supervisor (sm_local mv) (sm_task mv)))
            (Some cp)))"

definition transition_ends_supervisor_visit :: "state_machine \<Rightarrow> string \<Rightarrow> string \<Rightarrow> bool" where
  "transition_ends_supervisor_visit m a b \<longleftrightarrow> a = b \<and> execute_on_of m a \<noteq> None"

end
