(* ===== verification/Provider_Waits.thy ===== *)
theory Provider_Waits
  imports Supervision
begin

text \<open>
  The wait a provider's refusal leaves in the frontmatter (\<open>provider_limits.rs\<close>,
  \<open>provider_unavailable.rs\<close>): one record per task and state under \<open>providerLimits\<close>, what a second
  refusal makes of it, how it is cleared, and the deadline a plan holds for one identity.
  \<open>epoch\<close> is \<open>DateTime::parse_from_rfc3339(..).timestamp()\<close> of the \<open>chrono\<close> crate, the signed
  64 bits of it; nothing where the text is no such instant.
\<close>

record provider_identity =
  pi_agent :: string
  pi_provider :: string

datatype provider_wait_kind = Limit | Unavailable

record provider_limit =
  pl_identity :: provider_identity
  pl_kind :: provider_wait_kind
  pl_signal :: string
  pl_observed_at :: string
  pl_next_attempt_at :: string

definition read_wait_kind :: "('m, 'y) yaml \<Rightarrow> 'y option \<Rightarrow> provider_wait_kind" where
  "read_wait_kind Y value =
     (if Option.bind value (y_as_str Y) = Some ''unavailable'' then Unavailable else Limit)"

definition written_kind :: "provider_wait_kind \<Rightarrow> string option" where
  "written_kind k = (case k of Limit \<Rightarrow> None | Unavailable \<Rightarrow> Some ''unavailable'')"

definition deadline_epoch :: "(string \<Rightarrow> u64 option) \<Rightarrow> provider_limit \<Rightarrow> u64 option" where
  "deadline_epoch epoch limit =
     Option.bind (epoch (pl_next_attempt_at limit)) (\<lambda>secs. if 0 \<le> sint secs then Some secs else None)"

definition str_field :: "('m, 'y) yaml \<Rightarrow> 'm \<Rightarrow> string \<Rightarrow> string option" where
  "str_field Y m key = Option.bind (ym_get Y m (yaml_key Y key)) (y_as_str Y)"

definition provider_limit_from_value :: "('m, 'y) yaml \<Rightarrow> 'y \<Rightarrow> provider_limit option" where
  "provider_limit_from_value Y value =
     Option.bind (y_as_mapping Y value) (\<lambda>m.
     Option.bind (Option.bind (ym_get Y m (yaml_key Y ''identity'')) (y_as_mapping Y)) (\<lambda>who.
     Option.bind (str_field Y who ''agent'') (\<lambda>the_agent.
     Option.bind (str_field Y who ''provider'') (\<lambda>provider.
     Option.bind (str_field Y m ''signal'') (\<lambda>signal.
     Option.bind (str_field Y m ''observedAt'') (\<lambda>observed.
     Option.bind (str_field Y m ''nextAttemptAt'') (\<lambda>again.
       Some \<lparr>pl_identity = \<lparr>pi_agent = the_agent, pi_provider = provider\<rparr>,
             pl_kind = read_wait_kind Y (ym_get Y m (yaml_key Y ''kind'')),
             pl_signal = signal, pl_observed_at = observed, pl_next_attempt_at = again\<rparr>)))))))"

definition provider_limits_map :: "('m, 'y) yaml \<Rightarrow> 'm option \<Rightarrow> task_id \<Rightarrow> 'm option" where
  "provider_limits_map Y metadata i =
     Option.bind (task_metadata_map Y metadata i) (\<lambda>task_map.
     Option.bind (ym_get Y task_map (yaml_key Y ''providerLimits'')) (y_as_mapping Y))"

definition provider_limit_for_task_state ::
  "('m, 'y) yaml \<Rightarrow> 'm option \<Rightarrow> task_id \<Rightarrow> string \<Rightarrow> provider_limit option" where
  "provider_limit_for_task_state Y metadata i s =
     Option.bind (provider_limits_map Y metadata i) (\<lambda>limits.
     Option.bind (ym_get Y limits (yaml_key Y s)) (provider_limit_from_value Y))"

definition provider_limit_value :: "('m, 'y) yaml \<Rightarrow> provider_limit \<Rightarrow> 'y" where
  "provider_limit_value Y limit =
     (let put = (\<lambda>key s m. ym_insert Y m (yaml_key Y key) (yaml_key Y s));
          who = put ''provider'' (pi_provider (pl_identity limit)) (put ''agent'' (pi_agent (pl_identity limit)) (ym_new Y));
          rec = ym_insert Y (ym_new Y) (yaml_key Y ''identity'') (y_mapping Y who);
          rec = (case written_kind (pl_kind limit) of Some k \<Rightarrow> put ''kind'' k rec | None \<Rightarrow> rec)
      in y_mapping Y (put ''nextAttemptAt'' (pl_next_attempt_at limit)
           (put ''observedAt'' (pl_observed_at limit) (put ''signal'' (pl_signal limit) rec))))"

text \<open>The record that stays: the present one where it is the same identity's and no earlier than what
  was observed.\<close>

definition effective_limit :: "(string \<Rightarrow> u64 option) \<Rightarrow> provider_limit option \<Rightarrow> provider_limit \<Rightarrow> provider_limit" where
  "effective_limit epoch current observed =
     (case current of
        None \<Rightarrow> observed
      | Some c \<Rightarrow>
          if pl_identity c = pl_identity observed
          then (case (deadline_epoch epoch c, deadline_epoch epoch observed) of
                  (Some a, Some b) \<Rightarrow> if a \<ge> b then c else observed
                | _ \<Rightarrow> observed)
          else observed)"

definition set_provider_limit_metadata ::
  "('m, 'y) yaml \<Rightarrow> (string \<Rightarrow> u64 option) \<Rightarrow> 'm option \<Rightarrow> task_id \<Rightarrow> string \<Rightarrow> provider_limit \<Rightarrow> 'm \<times> provider_limit" where
  "set_provider_limit_metadata Y epoch existing i s observed =
     (let effective = effective_limit epoch (provider_limit_for_task_state Y existing i s) observed in
      (in_task_entry Y i (in_mapping Y (yaml_key Y ''providerLimits'')
         (\<lambda>limits. ym_insert Y limits (yaml_key Y s) (provider_limit_value Y effective))) existing,
       effective))"

text \<open>\<open>drop_empty_task_metadata\<close>: \<open>ym_retain\<close> keeps the entries a predicate holds of.\<close>

definition is_empty_entry :: "('m, 'y) yaml \<Rightarrow> 'y \<Rightarrow> bool" where
  "is_empty_entry Y v \<longleftrightarrow> (case y_pattern Y v of Some c \<Rightarrow> ym_is_empty Y c | None \<Rightarrow> False)"

definition drop_empty_entries :: "('m, 'y) yaml \<Rightarrow> 'm \<Rightarrow> 'm" where
  "drop_empty_entries Y sect =
     (case Option.bind (ym_get Y sect (yaml_key Y ''tasks'')) (y_pattern Y) of
        None \<Rightarrow> sect
      | Some tasks \<Rightarrow>
          let kept = ym_retain Y (\<lambda>_ v. \<not> is_empty_entry Y v) tasks;
              sect' = ym_insert Y sect (yaml_key Y ''tasks'') (y_mapping Y kept)
          in if ym_is_empty Y kept then ym_remove Y sect' (yaml_key Y ''tasks'') else sect')"

definition drop_empty_task_metadata :: "('m, 'y) yaml \<Rightarrow> 'm \<Rightarrow> 'm" where
  "drop_empty_task_metadata Y whole =
     (case Option.bind (ym_get Y whole (yaml_key Y ''metadata'')) (y_pattern Y) of
        None \<Rightarrow> whole
      | Some sect \<Rightarrow>
          let sect' = drop_empty_entries Y sect;
              whole' = ym_insert Y whole (yaml_key Y ''metadata'') (y_mapping Y sect')
          in if ym_is_empty Y sect' then ym_remove Y whole' (yaml_key Y ''metadata'') else whole')"

text \<open>Where a mapping on the way is missing or is none, the metadata is handed back before the empty
  containers are dropped.\<close>

definition reaches_entry :: "('m, 'y) yaml \<Rightarrow> 'm \<Rightarrow> task_id \<Rightarrow> bool" where
  "reaches_entry Y whole i \<longleftrightarrow>
     Option.bind (ym_get Y whole (yaml_key Y ''metadata'')) (\<lambda>v.
     Option.bind (y_pattern Y v) (\<lambda>sect.
     Option.bind (ym_get Y sect (yaml_key Y ''tasks'')) (\<lambda>v.
     Option.bind (y_pattern Y v) (\<lambda>tasks.
     Option.bind (ym_get Y tasks (task_id_yaml_key Y i)) (y_pattern Y))))) \<noteq> None"

definition clear_provider_limit_state_metadata ::
  "('m, 'y) yaml \<Rightarrow> 'm option \<Rightarrow> task_id \<Rightarrow> string \<Rightarrow> 'm option" where
  "clear_provider_limit_state_metadata Y existing i s =
     map_option (\<lambda>whole.
       if reaches_entry Y whole i
       then drop_empty_task_metadata Y
              (change_child Y (yaml_key Y ''metadata'') (change_child Y (yaml_key Y ''tasks'')
                (change_child Y (task_id_yaml_key Y i) (drop_counter Y ''providerLimits'' s))) whole)
       else whole) existing"

definition provider_limit_resumed ::
  "(string \<Rightarrow> u64 option) \<Rightarrow> provider_limit \<Rightarrow> provider_identity option \<Rightarrow> u64 \<Rightarrow> bool" where
  "provider_limit_resumed epoch limit resolved started_at \<longleftrightarrow>
     resolved = Some (pl_identity limit) \<and>
     (case deadline_epoch epoch limit of Some deadline \<Rightarrow> started_at \<ge> deadline | None \<Rightarrow> False)"

end
