(* ===== verification/Ready.thy ===== *)
theory Ready
  imports Provider_Waits
begin

text \<open>
  Which tasks are work right now (\<open>subtree_supervision_barrier.rs\<close>, \<open>ready_transition.rs\<close>,
  \<open>run_pass_remaining_work.rs\<close>, \<open>ready_run_views.rs\<close>, \<open>ready_blocking_priors.rs\<close>): the verdict
  of the supervision barrier, the subtree rule, the poll deadline, the priors, and the narrower
  sets that claiming and the run loop take from the ready set. The record \<open>outlook\<close> holds what
  the scan reads outside the plan: which input artifacts are there, whether a poll's spawn
  record has spent its bound, the instant of the reading, the tickets a live run has spawned,
  how an instant's text reads, and the agents a task's state resolves to.
\<close>

subsection \<open>Open descendants\<close>

fun any_open_descendant :: "machine_set \<Rightarrow> task \<Rightarrow> bool" where
  "any_open_descendant ms (Task f cs) =
     list_ex (\<lambda>child. \<not> is_terminal_state (state_text child) (for_task ms (id_of child)) \<or>
       any_open_descendant ms child) cs"

definition descendants_are_terminal :: "task \<Rightarrow> machine_set \<Rightarrow> bool" where
  "descendants_are_terminal t ms \<longleftrightarrow> \<not> any_open_descendant ms t"

fun open_descendant_tasks :: "machine_set \<Rightarrow> task \<Rightarrow> task list" where
  "open_descendant_tasks ms (Task f cs) =
     concat (map (\<lambda>child.
       (if \<not> is_terminal_state (state_text child) (for_task ms (id_of child)) then [child] else []) @
       open_descendant_tasks ms child) cs)"

definition format_open_descendants :: "task list \<Rightarrow> machine_set \<Rightarrow> string" where
  "format_open_descendants opened ms =
     join '', '' (map (\<lambda>t. ''Task '' @ show_task_id (id_of t) @ '' ('' @
       normalized_state_name (state_text t) (for_task ms (id_of t)) @ '')'') (take 3 opened)) @
     (if length opened > 3 then '' (+'' @ show_nat (length opened - 3) @ '' more)'' else [])"

subsection \<open>The verdict of the barrier\<close>

datatype subtree_verdict =
    Unsupervised
  | SupervisorReady
  | SupervisorWaiting
  | HeldBy task_id string

text \<open>Of two entries with one id the later one stays in a \<open>HashMap\<close> that is collected.\<close>

definition task_index :: "task list \<Rightarrow> task_id \<Rightarrow> task option" where
  "task_index ts = map_of (rev (map (\<lambda>t. (id_of t, t)) ts))"

fun any_descendant_in_flight :: "(task \<Rightarrow> bool) \<Rightarrow> task \<Rightarrow> bool" where
  "any_descendant_in_flight in_flight (Task f cs) =
     list_ex (\<lambda>child. in_flight child \<or> any_descendant_in_flight in_flight child) cs"

definition supervision_holds_subtree ::
  "('m, 'y) yaml \<Rightarrow> task \<Rightarrow> state_machine \<Rightarrow> 'm option \<Rightarrow> bool" where
  "supervision_holds_subtree Y t m metadata =
     (case recorded_supervision_phase Y metadata (id_of t) of
        Some phase \<Rightarrow> phase = Held
      | None \<Rightarrow> task_is_supervising t m)"

definition holds_beneath ::
  "('m, 'y) yaml \<Rightarrow> machine_set \<Rightarrow> 'm option \<Rightarrow> (task \<Rightarrow> bool) \<Rightarrow> task \<Rightarrow> bool" where
  "holds_beneath Y ms metadata in_flight ancestor \<longleftrightarrow>
     (let m = for_task ms (id_of ancestor) in
      supervision_holds_subtree Y ancestor m metadata \<or>
      (task_is_supervising ancestor m \<and> in_flight ancestor))"

text \<open>The ancestors, the parent first; the walk ends at an id the plan does not hold.\<close>

function holder :: "(task_id \<Rightarrow> task option) \<Rightarrow> (task \<Rightarrow> bool) \<Rightarrow> task_id option \<Rightarrow> task option" where
  "holder index holds None = None"
| "holder index holds (Some i) =
     (case index i of
        None \<Rightarrow> None
      | Some ancestor \<Rightarrow> if holds ancestor then Some ancestor else holder index holds (parent i))"
  by pat_completeness auto
termination
  by (relation "measure (\<lambda>(_, _, cursor). case cursor of None \<Rightarrow> 0 | Some i \<Rightarrow> Suc (length i))")
    (auto simp: parent_def split: option.splits if_splits)

definition supervision_verdict ::
  "('m, 'y) yaml \<Rightarrow> task \<Rightarrow> (task_id \<Rightarrow> task option) \<Rightarrow> machine_set \<Rightarrow> 'm option \<Rightarrow> (task \<Rightarrow> bool) \<Rightarrow>
   subtree_verdict" where
  "supervision_verdict Y t index ms metadata in_flight =
     (case holder index (holds_beneath Y ms metadata in_flight) (parent (id_of t)) of
        Some a \<Rightarrow> HeldBy (id_of a) (normalized_state_name (state_text a) (for_task ms (id_of a)))
      | None \<Rightarrow>
          if \<not> task_is_supervising t (for_task ms (id_of t)) then Unsupervised
          else if any_descendant_in_flight in_flight t then SupervisorWaiting
          else (case supervision_phase_of Y metadata (id_of t) of
                  Held \<Rightarrow> SupervisorReady | Released \<Rightarrow> SupervisorWaiting))"

definition is_in_flight :: "string set \<Rightarrow> task \<Rightarrow> bool" where
  "is_in_flight spawned t \<longleftrightarrow> t_assignee (row t) \<noteq> None \<or> show_task_id (id_of t) \<in> spawned"

definition supervision_verdict_for ::
  "('m, 'y) yaml \<Rightarrow> task \<Rightarrow> (task_id \<Rightarrow> task option) \<Rightarrow> machine_set \<Rightarrow> 'm option \<Rightarrow> string set \<Rightarrow>
   subtree_verdict" where
  "supervision_verdict_for Y t index ms metadata spawned =
     supervision_verdict Y t index ms metadata (is_in_flight spawned)"

definition subtree_admits_to_ready_set ::
  "('m, 'y) yaml \<Rightarrow> task \<Rightarrow> (task_id \<Rightarrow> task option) \<Rightarrow> machine_set \<Rightarrow> 'm option \<Rightarrow> string set \<Rightarrow> bool" where
  "subtree_admits_to_ready_set Y t index ms metadata spawned =
     (case supervision_verdict_for Y t index ms metadata spawned of
        SupervisorReady \<Rightarrow> True
      | SupervisorWaiting \<Rightarrow> False
      | HeldBy _ _ \<Rightarrow> False
      | Unsupervised \<Rightarrow> descendants_are_terminal t ms)"

record supervisor_hold =
  sh_supervisor :: task_id
  sh_state :: string
  sh_awaiting_human :: bool

record 'm rhei =
  rh_tasks :: "task list"
  rh_metadata :: "'m option"

abbreviation all_tasks :: "'m rhei \<Rightarrow> task list" where
  "all_tasks r \<equiv> collect_plan_tasks (rh_tasks r)"

definition held_by_supervisor ::
  "('m, 'y) yaml \<Rightarrow> task \<Rightarrow> 'm rhei \<Rightarrow> machine_set \<Rightarrow> supervisor_hold option" where
  "held_by_supervisor Y t r ms =
     (case supervision_verdict_for Y t (task_index (all_tasks r)) ms (rh_metadata r) {} of
        HeldBy supervisor s \<Rightarrow>
          Some \<lparr>sh_supervisor = supervisor, sh_state = s,
                sh_awaiting_human = holds_of (for_task ms supervisor) gating s\<rparr>
      | _ \<Rightarrow> None)"

subsection \<open>Priors and deadlines\<close>

definition plan_state_map :: "task list \<Rightarrow> machine_set \<Rightarrow> task_id \<Rightarrow> string option" where
  "plan_state_map ts ms =
     map_of (rev (map (\<lambda>t. (id_of t, normalized_state_name (state_text t) (for_task ms (id_of t)))) ts))"

definition dependency_is_satisfied :: "string \<Rightarrow> state_machine \<Rightarrow> bool" where
  "dependency_is_satisfied s m \<longleftrightarrow>
     \<not> is_cancellation m (normalized_state_name s m) \<and> is_terminal_state s m"

definition all_priors_done :: "machine_set \<Rightarrow> (task_id \<Rightarrow> string option) \<Rightarrow> task \<Rightarrow> bool" where
  "all_priors_done ms state_map t =
     list_all (\<lambda>dep. case state_map dep of
         Some s \<Rightarrow> dependency_is_satisfied s (for_task ms dep) | None \<Rightarrow> False)
       (t_prior (row t))"

definition blocking_priors :: "task \<Rightarrow> (task_id \<Rightarrow> string option) \<Rightarrow> machine_set \<Rightarrow> string list" where
  "blocking_priors t state_map ms =
     List.map_filter (\<lambda>dep. case state_map dep of
         Some s \<Rightarrow>
           if \<not> dependency_is_satisfied s (for_task ms dep)
           then Some (''Task '' @ show_task_id dep @ '' ('' @ s @ '')'') else None
       | None \<Rightarrow> Some (''Task '' @ show_task_id dep @ '' (missing)''))
       (t_prior (row t))"

record blocking_prior =
  bp_prior :: string
  bp_cancelled :: bool

text \<open>\<open>in_scope\<close> is \<open>task_in_rhei_scope\<close> for the run's scope.\<close>

definition blockers ::
  "task \<Rightarrow> (task_id \<Rightarrow> string option) \<Rightarrow> machine_set \<Rightarrow> (string \<Rightarrow> bool) \<Rightarrow> blocking_prior list" where
  "blockers t state_map ms in_scope =
     List.map_filter (\<lambda>dep. case state_map dep of
         Some s \<Rightarrow>
           if \<not> dependency_is_satisfied s (for_task ms dep) then
             let outside = (if in_scope (show_task_id dep) then [] else '', outside the --rhei scope'');
                 m = for_task ms dep
             in Some \<lparr>bp_prior = ''Task '' @ show_task_id dep @ '' ('' @ s @ outside @ '')'',
                      bp_cancelled = is_cancellation m (normalized_state_name s m)\<rparr>
           else None
       | None \<Rightarrow> Some \<lparr>bp_prior = ''Task '' @ show_task_id dep @ '' (missing)'', bp_cancelled = False\<rparr>)
       (t_prior (row t))"

fun first_blocker :: "blocking_prior option \<Rightarrow> blocking_prior list \<Rightarrow> blocking_prior option" where
  "first_blocker first [] = first"
| "first_blocker first (b # bs) =
     (if bp_cancelled b then Some b
      else first_blocker (case first of None \<Rightarrow> Some b | Some f \<Rightarrow> Some f) bs)"

definition first_blocking_prior_reading ::
  "task \<Rightarrow> (task_id \<Rightarrow> string option) \<Rightarrow> machine_set \<Rightarrow> (string \<Rightarrow> bool) \<Rightarrow> blocking_prior option" where
  "first_blocking_prior_reading t state_map ms in_scope =
     first_blocker None (blockers t state_map ms in_scope)"

definition first_blocking_prior ::
  "task \<Rightarrow> (task_id \<Rightarrow> string option) \<Rightarrow> machine_set \<Rightarrow> (string \<Rightarrow> bool) \<Rightarrow> string option" where
  "first_blocking_prior t state_map ms in_scope =
     map_option bp_prior (first_blocking_prior_reading t state_map ms in_scope)"

definition yaml_value_to_epoch_secs :: "('m, 'y) yaml \<Rightarrow> 'y \<Rightarrow> u64 option" where
  "yaml_value_to_epoch_secs Y v =
     (case y_number_pattern Y v of
        Some n \<Rightarrow> Some n
      | None \<Rightarrow> Option.bind (y_string_pattern Y v) (\<lambda>s. map_option of_nat (parse_below (2 ^ 64) s)))"

definition poll_next_attempt_at ::
  "('m, 'y) yaml \<Rightarrow> 'm option \<Rightarrow> task_id \<Rightarrow> string \<Rightarrow> u64 option" where
  "poll_next_attempt_at Y metadata i s =
     Option.bind (task_metadata_map Y metadata i) (\<lambda>task_map.
     Option.bind (ym_get Y task_map (yaml_key Y ''pollNextAttemptAt'')) (\<lambda>v.
     Option.bind (y_as_mapping Y v) (\<lambda>poll_map.
     Option.bind (ym_get Y poll_map (yaml_key Y s)) (yaml_value_to_epoch_secs Y))))"

record outlook =
  spawned_ids :: "string set"
  read_at :: u64
  poll_bound_spent :: "state_machine \<Rightarrow> task \<Rightarrow> string \<Rightarrow> bool"
  inputs_found :: "state_machine \<Rightarrow> task \<Rightarrow> string \<Rightarrow> bool"
  rfc3339_secs :: "string \<Rightarrow> u64 option"
  resolved_agents :: "state_machine \<Rightarrow> task \<Rightarrow> string \<Rightarrow> provider_identity option list option"

definition pending_since :: "outlook \<Rightarrow> u64" where
  "pending_since view = saturating_add (read_at view) 1"

definition pending_poll_deadline ::
  "('m, 'y) yaml \<Rightarrow> outlook \<Rightarrow> 'm rhei \<Rightarrow> state_machine \<Rightarrow> task \<Rightarrow> string \<Rightarrow> u64 \<Rightarrow> u64 option" where
  "pending_poll_deadline Y view r m t s since =
     Option.bind (state_of m s) (\<lambda>d.
     Option.bind (poll d) (\<lambda>_.
     Option.bind (poll_next_attempt_at Y (rh_metadata r) (id_of t) s) (\<lambda>deadline.
       if deadline \<ge> since \<and> \<not> poll_bound_spent view m t s then Some deadline else None)))"

definition state_inputs_exist :: "outlook \<Rightarrow> state_machine \<Rightarrow> task \<Rightarrow> string \<Rightarrow> bool" where
  "state_inputs_exist view m t s \<longleftrightarrow> (case state_of m s of None \<Rightarrow> False | Some _ \<Rightarrow> inputs_found view m t s)"

subsection \<open>The ready set\<close>

datatype ready_set_view = RunnableNow | ProgramModeProbe

definition is_ready ::
  "('m, 'y) yaml \<Rightarrow> 'm rhei \<Rightarrow> machine_set \<Rightarrow> outlook \<Rightarrow> ready_set_view \<Rightarrow> task \<Rightarrow> bool" where
  "is_ready Y r ms view mode t \<longleftrightarrow>
     (let m = for_task ms (id_of t);
          s = normalized_state_name (state_text t) m
      in (case supervision_verdict_for Y t (task_index (all_tasks r)) ms (rh_metadata r) (spawned_ids view) of
            HeldBy _ _ \<Rightarrow> False
          | SupervisorWaiting \<Rightarrow> False
          | SupervisorReady \<Rightarrow> True
          | Unsupervised \<Rightarrow> descendants_are_terminal t ms) \<and>
         \<not> (is_terminal_state (state_text t) m \<or> holds_of m gating s) \<and>
         \<not> (mode = RunnableNow \<and>
            pending_poll_deadline Y view r m t s (pending_since view) \<noteq> None) \<and>
         all_priors_done ms (plan_state_map (all_tasks r) ms) t \<and>
         state_inputs_exist view m t s)"

definition find_ready_tasks_in_view ::
  "('m, 'y) yaml \<Rightarrow> 'm rhei \<Rightarrow> machine_set \<Rightarrow> outlook \<Rightarrow> ready_set_view \<Rightarrow> task list" where
  "find_ready_tasks_in_view Y r ms view mode = filter (is_ready Y r ms view mode) (all_tasks r)"

definition find_ready_tasks ::
  "('m, 'y) yaml \<Rightarrow> 'm rhei \<Rightarrow> machine_set \<Rightarrow> outlook \<Rightarrow> task list" where
  "find_ready_tasks Y r ms view = find_ready_tasks_in_view Y r ms view RunnableNow"

definition nothing_spawned :: "outlook \<Rightarrow> outlook" where
  "nothing_spawned view = view\<lparr>spawned_ids := {}\<rparr>"

definition find_held_tasks :: "('m, 'y) yaml \<Rightarrow> 'm rhei \<Rightarrow> machine_set \<Rightarrow> outlook \<Rightarrow> task list" where
  "find_held_tasks Y r ms view =
     filter (\<lambda>t. t_assignee (row t) \<noteq> None) (find_ready_tasks Y r ms (nothing_spawned view))"

text \<open>\<open>refused\<close> is the process's record of tickets a strict seal refused.\<close>

definition find_runnable_tasks_with_options ::
  "('m, 'y) yaml \<Rightarrow> 'm rhei \<Rightarrow> machine_set \<Rightarrow> outlook \<Rightarrow> (string \<Rightarrow> bool) \<Rightarrow> task list" where
  "find_runnable_tasks_with_options Y r ms view refused =
     filter (\<lambda>t. \<not> refused (show_task_id (id_of t)))
       (filter (\<lambda>t. t_assignee (row t) = None) (find_ready_tasks_in_view Y r ms view RunnableNow))"

definition find_runnable_program_polls_for_mode_selection ::
  "('m, 'y) yaml \<Rightarrow> 'm rhei \<Rightarrow> machine_set \<Rightarrow> outlook \<Rightarrow> task list" where
  "find_runnable_program_polls_for_mode_selection Y r ms view =
     filter (\<lambda>t. let m = for_task ms (id_of t) in
         holds_of m (\<lambda>d. program_declared d \<and> poll d \<noteq> None) (normalized_state_name (state_text t) m))
       (filter (\<lambda>t. t_assignee (row t) = None)
         (find_ready_tasks_in_view Y r ms (nothing_spawned view) ProgramModeProbe))"

datatype claim_selection = Automatic | Explicit

definition task_is_in_initial_state :: "task \<Rightarrow> string \<Rightarrow> state_machine \<Rightarrow> bool" where
  "task_is_in_initial_state t s m =
     (case profile_for_node m (kind_of t) (profile_level t) of
        Some p \<Rightarrow> p_initial p = s
      | None \<Rightarrow> holds_of m initial s)"

definition find_claimable_tasks_for_selection ::
  "('m, 'y) yaml \<Rightarrow> 'm rhei \<Rightarrow> machine_set \<Rightarrow> outlook \<Rightarrow> claim_selection \<Rightarrow> task list" where
  "find_claimable_tasks_for_selection Y r ms view selection =
     filter (\<lambda>t. selection = Explicit \<or>
         (let m = for_task ms (id_of t) in
          task_is_in_initial_state t (normalized_state_name (state_text t) m) m))
       (filter (\<lambda>t. t_assignee (row t) = None) (find_ready_tasks Y r ms (nothing_spawned view)))"

definition find_claimable_tasks ::
  "('m, 'y) yaml \<Rightarrow> 'm rhei \<Rightarrow> machine_set \<Rightarrow> outlook \<Rightarrow> task list" where
  "find_claimable_tasks Y r ms view = find_claimable_tasks_for_selection Y r ms view Automatic"

end
