(* ===== verification/Plan_Checks.thy ===== *)
theory Plan_Checks
  imports Ready
begin

text \<open>
  What validation says of the task tree itself (\<open>validator_tree_coherence.rs\<close>,
  \<open>validator_prior_states.rs\<close>, \<open>validator_entry.rs\<close>): ids, claims, states, priors in final states,
  and the fit of a node policy to the plan's structure. A check gives the remarks it pushes, in
  order; an \<open>Error\<close> lands in the report's errors, a \<open>Warning\<close> in its warnings, a \<open>Help\<close> in its
  guidance. Node kinds are ASCII words, as the heading grammar reads them.
\<close>

datatype remark = Error string | Warning string | Help string

record validation_report =
  vr_errors :: "string list"
  vr_warnings :: "string list"
  vr_help :: "string list"

definition report_of :: "remark list \<Rightarrow> validation_report" where
  "report_of notes = \<lparr>
     vr_errors = List.map_filter (\<lambda>n. case n of Error e \<Rightarrow> Some e | _ \<Rightarrow> None) notes,
     vr_warnings = List.map_filter (\<lambda>n. case n of Warning w \<Rightarrow> Some w | _ \<Rightarrow> None) notes,
     vr_help = List.map_filter (\<lambda>n. case n of Help h \<Rightarrow> Some h | _ \<Rightarrow> None) notes\<rparr>"

definition has_errors :: "validation_report \<Rightarrow> bool" where
  "has_errors report \<longleftrightarrow> vr_errors report \<noteq> []"

definition title_case_kind :: "string \<Rightarrow> string" where
  "title_case_kind kind = (case kind of [] \<Rightarrow> [] | c # cs \<Rightarrow> to_ascii_uppercase c # cs)"

text \<open>The \<open>Debug\<close> form of a string without control characters, and of a list of them.\<close>

definition debug_string :: "string \<Rightarrow> string" where
  "debug_string s =
     CHR 0x22 # concat (map (\<lambda>c. if c = CHR 0x22 \<or> c = CHR 0x5C then [CHR 0x5C, c] else [c]) s) @ [CHR 0x22]"

definition debug_strings :: "string list \<Rightarrow> string" where
  "debug_strings ss = ''['' @ join '', '' (map debug_string ss) @ '']''"

subsection \<open>Ids\<close>

text \<open>The tree is walked with each sibling set's \<open>seen\<close> ids.\<close>

fun sibling_notes :: "task option \<Rightarrow> task_id list \<Rightarrow> task list \<Rightarrow> remark list" where
  "sibling_notes up seen [] = []"
| "sibling_notes up seen (Task f cs # ts) =
     (case up of
        Some p \<Rightarrow>
          if \<not> extends (t_id f) (id_of p)
          then [Error (''Task '' @ show_task_id (t_id f) @ '' must extend parent Task '' @
                  show_task_id (id_of p) @ '' by exactly one segment'')]
          else []
      | None \<Rightarrow> []) @
     (if t_id f \<in> set seen
      then [Error (''Duplicate sibling task id: Task '' @ show_task_id (t_id f) @
              (case up of Some p \<Rightarrow> '' under Task '' @ show_task_id (id_of p) | None \<Rightarrow> []))]
      else []) @
     sibling_notes (Some (Task f cs)) [] cs @
     sibling_notes up (t_id f # seen) ts"

definition validate_sibling_uniqueness :: "task list \<Rightarrow> remark list" where
  "validate_sibling_uniqueness ts = sibling_notes None [] ts"

subsection \<open>Claims and final parents\<close>

definition validate_assignee_nonempty :: "task list \<Rightarrow> remark list" where
  "validate_assignee_nonempty ts =
     concat (map (\<lambda>t. case t_assignee (row t) of
         Some assignee \<Rightarrow>
           if trim assignee = []
           then [Warning (''Task '' @ show_task_id (id_of t) @ '' has an empty **Assignee:** value'')]
           else []
       | None \<Rightarrow> []) (collect_plan_tasks ts))"

definition coherence_is_terminal :: "string \<Rightarrow> state_machine \<Rightarrow> bool" where
  "coherence_is_terminal raw m \<longleftrightarrow> holds_of m terminal (ps_state (parse_task_state raw m))"

fun check_descendants :: "task \<Rightarrow> state_machine \<Rightarrow> task \<Rightarrow> remark list" where
  "check_descendants ancestor m (Task f cs) =
     concat (map (\<lambda>child.
       (if \<not> coherence_is_terminal (state_text child) m
        then [Error (''Task '' @ show_task_id (id_of ancestor) @ '' is in terminal state '' @
                quoted (state_text ancestor) @ '' but descendant Task '' @ show_task_id (id_of child) @
                '' ('' @ quoted (t_title (row child)) @ '') is in non-terminal state '' @
                quoted (state_text child))]
        else []) @ check_descendants ancestor m child) cs)"

definition validate_terminal_tree_coherence :: "task list \<Rightarrow> machine_set \<Rightarrow> remark list" where
  "validate_terminal_tree_coherence ts ms =
     concat (map (\<lambda>t. let m = for_task ms (id_of t) in
         if coherence_is_terminal (state_text t) m then check_descendants t m t else [])
       (collect_plan_tasks ts))"

subsection \<open>Priors in final states\<close>

definition build_task_index :: "task list \<Rightarrow> task_id \<Rightarrow> task option" where
  "build_task_index ts = task_index (collect_plan_tasks ts)"

definition prior_satisfied :: "(task_id \<Rightarrow> task option) \<Rightarrow> machine_set \<Rightarrow> task_id \<Rightarrow> bool" where
  "prior_satisfied index ms i =
     (case index i of
        None \<Rightarrow> False
      | Some dep \<Rightarrow>
          let m = for_task ms i; s = ps_state (parse_task_state (state_text dep) m)
          in \<not> is_cancellation m s \<and> holds_of m terminal s)"

definition prior_order_notes ::
  "(task_id \<Rightarrow> task option) \<Rightarrow> machine_set \<Rightarrow> task \<Rightarrow> remark list" where
  "prior_order_notes index ms t =
     (let m = for_task ms (id_of t); s = ps_state (parse_task_state (state_text t) m) in
      if is_cancellation m s \<or> \<not> holds_of m terminal s then []
      else
        let unmet = List.map_filter (\<lambda>dep. case index dep of
                Some d \<Rightarrow>
                  if \<not> prior_satisfied index ms dep
                  then Some (''Task '' @ show_task_id dep @ '' ('' @
                    ps_state (parse_task_state (state_text d) (for_task ms dep)) @ '')'')
                  else None
              | None \<Rightarrow> None) (t_prior (row t))
        in if unmet = [] then []
           else [Warning (title_case_kind (kind_of t) @ '' '' @ show_task_id (id_of t) @ '' is '' @ quoted s @
             '' but its prerequisites are unsatisfied: '' @ join '', '' unmet @
             ''. The plan contradicts its own **Prior:** dependencies.'')])"

definition validate_prior_order_coherence ::
  "task list \<Rightarrow> (task_id \<Rightarrow> task option) \<Rightarrow> machine_set \<Rightarrow> remark list" where
  "validate_prior_order_coherence ts index ms =
     concat (map (prior_order_notes index ms) (collect_plan_tasks ts))"

definition cancelled_prior_notes ::
  "(task_id \<Rightarrow> task option) \<Rightarrow> machine_set \<Rightarrow> task \<Rightarrow> remark list" where
  "cancelled_prior_notes index ms t =
     (let m = for_task ms (id_of t); s = ps_state (parse_task_state (state_text t) m) in
      if holds_of m terminal s then []
      else
        let cancelled = List.map_filter (\<lambda>dep. Option.bind (index dep) (\<lambda>d.
                let pm = for_task ms dep; ps = ps_state (parse_task_state (state_text d) pm)
                in if is_cancellation pm ps
                   then Some (''Task '' @ show_task_id dep @ '' ('' @ ps @ '')'') else None))
              (t_prior (row t));
            (what, them) = (if length cancelled = 1 then (''a cancelled prior'', ''it'')
                            else (''cancelled priors'', ''them''));
            name = title_case_kind (kind_of t) @ '' '' @ show_task_id (id_of t)
        in if cancelled = [] then []
           else [Warning (name @ '' waits on '' @ join '', '' cancelled @ '', '' @ what @
             '' that can never satisfy it: re-point its **Prior:** (and any **Consumes:** naming '' @ them @
             '') at a completed step, or cancel '' @ name @ ''.'')])"

definition validate_cancelled_priors ::
  "task list \<Rightarrow> (task_id \<Rightarrow> task option) \<Rightarrow> machine_set \<Rightarrow> remark list" where
  "validate_cancelled_priors ts index ms =
     concat (map (cancelled_prior_notes index ms) (collect_plan_tasks ts))"

subsection \<open>States\<close>

definition validate_task_state_instance :: "string \<Rightarrow> string \<Rightarrow> state_machine \<Rightarrow> remark list" where
  "validate_task_state_instance subject raw m =
     (let p = parse_task_state raw m in
      if \<not> is_valid_state m (ps_state p)
      then [Error (subject @ '' has invalid state '' @ quoted raw @ ''. Allowed: ['' @
              join '', '' (map fst (states m)) @ '']'')]
      else case ps_visit p of
        None \<Rightarrow> []
      | Some visit \<Rightarrow>
          if visit \<le> 1
          then [Error (subject @ '' has invalid counted state '' @ quoted raw @
                  ''. Visit suffix '' @ quoted ''-1'' @ '' is not allowed; omit the suffix for the first visit.'')]
          else (case Option.bind (state_of m (ps_state p)) visits of
            None \<Rightarrow> [Error (subject @ '' has invalid counted state '' @ quoted raw @ ''. State '' @
                      quoted (ps_state p) @ '' does not declare '' @ quoted ''visits'' @ ''.'')]
          | Some limit \<Rightarrow>
              if visit > limit
              then [Error (subject @ '' has invalid counted state '' @ quoted raw @ ''. Visit '' @
                      show_nat (unat visit) @ '' exceeds the declared limit '' @ show_nat (unat limit) @
                      '' for state '' @ quoted (ps_state p) @ ''.'')]
              else []))"

definition validate_task_state_against_profile ::
  "string \<Rightarrow> string \<Rightarrow> string \<Rightarrow> u8 \<Rightarrow> state_machine \<Rightarrow> remark list" where
  "validate_task_state_against_profile subject raw kind lvl m =
     (case profile_for_node m kind lvl of
        None \<Rightarrow> []
      | Some p \<Rightarrow>
          let s = ps_state (parse_task_state raw m) in
          if \<not> is_valid_state m s then []
          else if s \<notin> set (p_allowed p)
          then [Error (subject @ '' has state '' @ quoted s @
                  '' which is not allowed by its resolved profile. Profile allows: ['' @
                  join '', '' (p_allowed p) @ '']'')]
          else [])"

definition state_notes :: "machine_set \<Rightarrow> task \<Rightarrow> remark list" where
  "state_notes ms t =
     (let m = for_task ms (id_of t);
          subject = title_case_kind (kind_of t) @ '' '' @ show_task_id (id_of t)
      in validate_task_state_instance subject (state_text t) m @
         validate_task_state_against_profile subject (state_text t) (kind_of t) (profile_level t) m)"

definition validate_state_consistency :: "task list \<Rightarrow> machine_set \<Rightarrow> remark list" where
  "validate_state_consistency ts ms = concat (map (state_notes ms) (collect_plan_tasks ts))"

subsection \<open>The node policy and the plan's structure\<close>

record plan_structure =
  max_levels :: u8
  node_kinds :: "string list"

definition accepts_kind :: "plan_structure \<Rightarrow> string \<Rightarrow> bool" where
  "accepts_kind st kind = list_ex (\<lambda>k. eq_ignore_ascii_case k kind) (node_kinds st)"

definition override_notes :: "plan_structure \<Rightarrow> nat \<Rightarrow> node_override \<Rightarrow> remark list" where
  "override_notes st idx ov =
     (let subject = ''node_policy.overrides['' @ show_nat idx @ ''].match'' in
      (case node_type (match_of ov) of
         Some kind \<Rightarrow>
           if \<not> accepts_kind st kind
           then [Error (subject @ ''.type references node kind '' @ quoted kind @
                   '', which the plan structure does not declare''),
                 Help (subject @ ''.type '' @ quoted kind @ '': the plan structure declares nodeKinds '' @
                   debug_strings (node_kinds st) @ ''.'')]
           else []
       | None \<Rightarrow> []) @
      (case level (match_of ov) of
         Some lvl \<Rightarrow>
           if lvl = 0 \<or> lvl > max_levels st
           then [Error (subject @ ''.level is '' @ show_nat (unat lvl) @
                   '', which is outside the levels this plan structure allows''),
                 Help (subject @ ''.level: levels must be in 1..='' @ show_nat (unat (max_levels st)) @
                   '' for this plan structure.'')]
           else []
       | None \<Rightarrow> []))"

definition validate_node_policy_against_structure :: "state_machine \<Rightarrow> plan_structure \<Rightarrow> remark list" where
  "validate_node_policy_against_structure m st =
     (case policy m of
        None \<Rightarrow> []
      | Some p \<Rightarrow>
          concat (map (\<lambda>(kind, _).
            if \<not> accepts_kind st kind
            then [Error (''node_policy.by_type references node kind '' @ quoted kind @
                    '', which the plan structure does not declare''),
                  Help (''node_policy.by_type '' @ quoted kind @ '': the plan structure declares nodeKinds '' @
                    debug_strings (node_kinds st) @ ''.'')]
            else []) (by_type p)) @
          concat (map (\<lambda>(idx, ov). override_notes st idx ov) (enumerate 0 (overrides p))))"

end
