(* ===== verification/Plan_Laws.thy ===== *)
theory Plan_Laws
  imports Plan_Checks
begin

text \<open>
  What a tree without sibling remarks is: every task below another carries its id as a proper
  prefix with no gap between, and where the top-level ids are of one length every id names one
  task.
\<close>

subsection \<open>The tasks of a tree\<close>

abbreviation descendants :: "task \<Rightarrow> task list" where
  "descendants t \<equiv> collect_plan_tasks (children t)"

lemma collect_cons: "collect_plan_tasks (t # ts) = t # descendants t @ collect_plan_tasks ts"
  by (cases t) simp

lemma in_collect: "d \<in> set (collect_plan_tasks ts) \<longleftrightarrow> (\<exists>t\<in>set ts. d = t \<or> d \<in> set (descendants t))"
  by (induction ts) (auto simp: collect_cons)

lemma descendant_cases:
  assumes "d \<in> set (descendants t)"
  obtains c where "c \<in> set (children t)" and "d = c \<or> d \<in> set (descendants c)"
  using assms in_collect [of d "children t"] by blast

lemma child_below: "c \<in> set (children t) \<Longrightarrow> insert c (set (descendants c)) \<subseteq> set (descendants t)"
  using in_collect [of _ "children t"] by blast

lemma tree_induct [case_names task]:
  assumes "\<And>t. (\<And>c. c \<in> set (children t) \<Longrightarrow> P c) \<Longrightarrow> P t"
  shows "P t"
  using assms by (induction t) (metis task.sel(2))

lemma descendants_trans:
  "c \<in> set (descendants b) \<Longrightarrow> b \<in> set (descendants a) \<Longrightarrow> c \<in> set (descendants a)"
proof (induction a rule: tree_induct)
  case (task t)
  then show ?case by (metis in_collect)
qed

lemma collect_descendants:
  "b \<in> set (collect_plan_tasks ts) \<Longrightarrow> c \<in> set (descendants b) \<Longrightarrow> c \<in> set (collect_plan_tasks ts)"
  by (metis in_collect descendants_trans)

subsection \<open>Trees without sibling remarks\<close>

lemma sibling_notes_cons:
  "sibling_notes up seen (t # ts) = [] \<longleftrightarrow>
   (\<forall>p. up = Some p \<longrightarrow> extends (id_of t) (id_of p)) \<and> id_of t \<notin> set seen \<and>
   sibling_notes (Some t) [] (children t) = [] \<and> sibling_notes up (id_of t # seen) ts = []"
  by (cases t) (auto split: option.splits if_splits)

lemma sibling_notes_none:
  "sibling_notes up seen ts = [] \<longleftrightarrow>
   (\<forall>t\<in>set ts. (\<forall>p. up = Some p \<longrightarrow> extends (id_of t) (id_of p)) \<and> id_of t \<notin> set seen \<and>
      sibling_notes (Some t) [] (children t) = []) \<and> distinct (map id_of ts)"
  by (induction ts arbitrary: seen) (auto simp: sibling_notes_cons image_iff)

definition well_numbered :: "task \<Rightarrow> bool" where
  "well_numbered t \<longleftrightarrow> sibling_notes (Some t) [] (children t) = []"

lemma well_numbered_iff:
  "well_numbered t \<longleftrightarrow>
   (\<forall>c\<in>set (children t). extends (id_of c) (id_of t) \<and> well_numbered c) \<and> distinct (map id_of (children t))"
  by (auto simp: well_numbered_def sibling_notes_none [of "Some t"])

lemma no_sibling_remarks:
  "validate_sibling_uniqueness ts = [] \<longleftrightarrow> (\<forall>t\<in>set ts. well_numbered t) \<and> distinct (map id_of ts)"
  by (auto simp: validate_sibling_uniqueness_def sibling_notes_none [of None] well_numbered_def)

lemma well_numbered_descendant:
  "well_numbered t \<Longrightarrow> d \<in> set (descendants t) \<Longrightarrow> well_numbered d"
proof (induction t rule: tree_induct)
  case (task t)
  then show ?case by (metis in_collect well_numbered_iff)
qed

lemma well_numbered_member:
  assumes "validate_sibling_uniqueness ts = []" and "t \<in> set (collect_plan_tasks ts)"
  shows "well_numbered t"
proof -
  obtain u where "u \<in> set ts" and "t = u \<or> t \<in> set (descendants u)"
    using assms(2) in_collect by blast
  then show ?thesis using assms(1) well_numbered_descendant no_sibling_remarks by blast
qed

lemma extendsD: "extends i j \<Longrightarrow> length i = Suc (length j) \<and> take (length j) i = j"
  by (simp add: extends_def)

text \<open>Below \<open>t\<close> an id carries the id of \<open>t\<close>, and every prefix between the two names a task
  below \<open>t\<close>.\<close>

lemma id_below:
  assumes "well_numbered t" and "d \<in> set (descendants t)"
  shows "length (id_of t) < length (id_of d) \<and> take (length (id_of t)) (id_of d) = id_of t \<and>
    (\<forall>k. length (id_of t) < k \<and> k \<le> length (id_of d) \<longrightarrow>
       take k (id_of d) \<in> id_of ` set (descendants t))"
  using assms
proof (induction t rule: tree_induct)
  case (task t)
  from task.prems(2) obtain c where c: "c \<in> set (children t)" and d: "d = c \<or> d \<in> set (descendants c)"
    by (rule descendant_cases)
  from task.prems(1) c have w: "well_numbered c" and "extends (id_of c) (id_of t)"
    by (simp_all add: well_numbered_iff [of t])
  then have len: "length (id_of c) = Suc (length (id_of t))" and pre: "take (length (id_of t)) (id_of c) = id_of t"
    by (auto dest: extendsD)
  have sub: "insert c (set (descendants c)) \<subseteq> set (descendants t)" using c by (rule child_below)
  show ?case
  proof (cases "d = c")
    case True
    have "k = length (id_of c)" if "length (id_of t) < k" "k \<le> length (id_of c)" for k using that len by simp
    then show ?thesis using True sub len pre by auto
  next
    case False
    with d have "d \<in> set (descendants c)" by simp
    then have IH: "length (id_of c) < length (id_of d)" "take (length (id_of c)) (id_of d) = id_of c"
      "\<And>k. length (id_of c) < k \<Longrightarrow> k \<le> length (id_of d) \<Longrightarrow> take k (id_of d) \<in> id_of ` set (descendants c)"
      using task.IH [OF c w] by auto
    have "take (length (id_of t)) (id_of d) = take (length (id_of t)) (take (length (id_of c)) (id_of d))"
      using len by simp
    then have "take (length (id_of t)) (id_of d) = id_of t" using IH(2) pre by simp
    moreover have "take k (id_of d) \<in> id_of ` set (descendants t)"
      if k: "length (id_of t) < k" "k \<le> length (id_of d)" for k
    proof (cases "k = length (id_of c)")
      case True
      then show ?thesis using IH(2) sub by auto
    next
      case False
      with k len have "length (id_of c) < k" by simp
      then show ?thesis using IH(3) k sub by blast
    qed
    ultimately show ?thesis using IH(1) len by auto
  qed
qed

lemma distinct_siblings:
  assumes "\<forall>t\<in>set ts. well_numbered t \<and> length (id_of t) = n \<and> distinct (map id_of (descendants t))"
    and "distinct (map id_of ts)"
  shows "distinct (map id_of (collect_plan_tasks ts)) \<and>
    (\<forall>d\<in>set (collect_plan_tasks ts). take n (id_of d) \<in> id_of ` set ts)"
  using assms
proof (induction ts)
  case (Cons t ts)
  from Cons have IH: "distinct (map id_of (collect_plan_tasks ts))"
    "\<And>d. d \<in> set (collect_plan_tasks ts) \<Longrightarrow> take n (id_of d) \<in> id_of ` set ts" by auto
  have t: "well_numbered t" "length (id_of t) = n" "distinct (map id_of (descendants t))"
    and new: "id_of t \<notin> id_of ` set ts" using Cons.prems by auto
  have below: "n < length (id_of d) \<and> take n (id_of d) = id_of t" if "d \<in> set (descendants t)" for d
    using id_below [OF t(1) that] t(2) by simp
  have "id_of t \<notin> id_of ` set (descendants t)" using below t(2) by fastforce
  moreover have "id_of d \<noteq> id_of e" if "d \<in> insert t (set (descendants t))" "e \<in> set (collect_plan_tasks ts)" for d e
    using that below [of d] t(2) IH(2) [of e] new by (metis insert_iff order_refl take_all)
  ultimately have "distinct (map id_of (collect_plan_tasks (t # ts)))"
    using IH(1) t(3) by (auto simp: collect_cons image_iff)
  moreover have "take n (id_of d) \<in> id_of ` set (t # ts)" if "d \<in> set (collect_plan_tasks (t # ts))" for d
    using that IH(2) below t(2) by (auto simp: collect_cons)
  ultimately show ?case by blast
qed simp

lemma distinct_below: "well_numbered t \<Longrightarrow> distinct (map id_of (descendants t))"
proof (induction t rule: tree_induct)
  case (task t)
  then have w: "\<forall>c\<in>set (children t). extends (id_of c) (id_of t) \<and> well_numbered c"
    and d: "distinct (map id_of (children t))"
    by (simp_all add: well_numbered_iff [of t])
  have "\<forall>c\<in>set (children t). well_numbered c \<and> length (id_of c) = Suc (length (id_of t)) \<and>
      distinct (map id_of (descendants c))"
    using w task.IH by (simp add: extendsD)
  from distinct_siblings [OF this d] show ?case by (rule conjunct1)
qed

subsection \<open>Looking a task up\<close>

lemma index_known: "i \<in> id_of ` set ts \<Longrightarrow> \<exists>a. task_index ts i = Some a \<and> a \<in> set ts \<and> id_of a = i"
proof -
  assume "i \<in> id_of ` set ts"
  then have "task_index ts i \<noteq> None"
    by (auto simp: task_index_def map_of_eq_None_iff image_image)
  then obtain a where a: "task_index ts i = Some a" by auto
  then have "(i, a) \<in> set (rev (map (\<lambda>t. (id_of t, t)) ts))" unfolding task_index_def by (rule map_of_SomeD)
  then show ?thesis using a by auto
qed

lemma index_unknown: "i \<notin> id_of ` set ts \<Longrightarrow> task_index ts i = None"
  by (auto simp: task_index_def map_of_eq_None_iff)

lemma index_of_task:
  assumes "distinct (map id_of ts)" and "t \<in> set ts"
  shows "task_index ts (id_of t) = Some t"
  using assms index_known [of "id_of t" ts] by (auto simp: distinct_map inj_on_def)

end
