(* ===== verification/Ready_Claims.thy ===== *)
theory Ready_Claims
  imports Plan_Laws Moves_Claims
begin

text \<open>
  What the ready set promises over a tree validation accepts: ids name one task each, a task is
  never work beside a task below it, a supervisor and its subtree take turns, and a plan
  whose waits run in no circle always has work or a named reason why not.
\<close>

subsection \<open>Ids name one task\<close>

text \<open>
  In a tree that raises no sibling remark and whose top-level ids have one length, every id
  names exactly one task, looking it up gives that task, and a task below another carries the
  other's id as a proper prefix.
\<close>

theorem validated_ids_name_one_task:
  assumes "validate_sibling_uniqueness ts = []" and "\<forall>t\<in>set ts. length (id_of t) = n"
  shows "distinct (map id_of (collect_plan_tasks ts)) \<and>
    (\<forall>t\<in>set (collect_plan_tasks ts). build_task_index ts (id_of t) = Some t \<and>
      (\<forall>d\<in>set (descendants t). length (id_of t) < length (id_of d) \<and>
         take (length (id_of t)) (id_of d) = id_of t))"
proof -
  have w: "\<forall>t\<in>set ts. well_numbered t" and d: "distinct (map id_of ts)"
    using assms(1) by (simp_all add: no_sibling_remarks)
  have "\<forall>t\<in>set ts. well_numbered t \<and> length (id_of t) = n \<and> distinct (map id_of (descendants t))"
    using w assms(2) distinct_below by blast
  then have all: "distinct (map id_of (collect_plan_tasks ts))" using d by (rule distinct_siblings [THEN conjunct1])
  show ?thesis
    using all index_of_task [OF all] id_below [OF well_numbered_member [OF assms(1)]]
    by (simp add: build_task_index_def)
qed

definition leaf :: "task_id \<Rightarrow> string \<Rightarrow> task_id list \<Rightarrow> task" where
  "leaf i s priors = Task \<lparr>t_id = i, t_profile_depth_offset = 0, t_kind = ''task'', t_title = [],
     t_state = s, t_prior = priors, t_prior_kinds = map (\<lambda>_. None) priors, t_provides = [],
     t_consumes = [], t_assignee = None\<rparr> []"

definition tree :: "task_id \<Rightarrow> string \<Rightarrow> task_id list \<Rightarrow> task list \<Rightarrow> task" where
  "tree i s priors cs = Task (row (leaf i s priors)) cs"

lemma leaf_simps [simp]:
  "id_of (leaf i s ps) = i" "state_text (leaf i s ps) = s" "t_prior (row (leaf i s ps)) = ps"
  "children (leaf i s ps) = []" "id_of (tree i s ps cs) = i" "state_text (tree i s ps cs) = s"
  "t_prior (row (tree i s ps cs)) = ps" "children (tree i s ps cs) = cs"
  by (simp_all add: leaf_def tree_def)

definition small_plan :: "task list" where
  "small_plan = [tree [Number 1] ''todo'' [] [leaf [Number 1, Number 1] ''done'' [], leaf [Number 1, Number 2] ''todo'' []],
     leaf [Number 2] ''todo'' [[Number 1]]]"

lemma validated_ids_name_one_task_witness:
  "validate_sibling_uniqueness small_plan = [] \<and> distinct (map id_of (collect_plan_tasks small_plan))"
proof -
  have v: "validate_sibling_uniqueness small_plan = []" by code_simp
  have "\<forall>t\<in>set small_plan. length (id_of t) = 1" by (simp add: small_plan_def)
  from validated_ids_name_one_task [OF v this] v show ?thesis by blast
qed

subsection \<open>The walk to the holder\<close>

text \<open>Where every id between \<open>a\<close> and \<open>i\<close> is known, the walk up from \<open>i\<close> comes to a holder no later
  than \<open>a\<close>.\<close>

lemma holder_found:
  assumes "index a = Some t" and "holds t" and "take (length a) i = a" and "a \<noteq> []"
    and "\<And>k. length a < k \<Longrightarrow> k \<le> length i \<Longrightarrow> index (take k i) \<noteq> None"
    and "length a \<le> k" and "k \<le> length i"
  shows "holder index holds (Some (take k i)) \<noteq> None"
  using assms(6,7)
proof (induction k rule: dec_induct)
  case base
  then show ?case using assms(1-3) by simp
next
  case (step k)
  from step.hyps step.prems assms(5) have "index (take (Suc k) i) \<noteq> None" by simp
  then obtain b where b: "index (take (Suc k) i) = Some b" by blast
  have "0 < k" using step.hyps assms(4) by (cases k) auto
  then have "parent (take (Suc k) i) = Some (take k i)"
    using step.prems by (simp add: parent_def min_def)
  then show ?case using b step.IH step.prems by simp
qed

lemma held_beneath:
  assumes "validate_sibling_uniqueness (rh_tasks r) = []" and "\<forall>t\<in>set (rh_tasks r). length (id_of t) = n"
    and "0 < n" and "t \<in> set (all_tasks r)" and "d \<in> set (descendants t)"
    and "holds_beneath Y ms (rh_metadata r) in_flight t"
  shows "\<exists>i s. supervision_verdict Y d (task_index (all_tasks r)) ms (rh_metadata r) in_flight = HeldBy i s"
proof -
  let ?index = "task_index (all_tasks r)"
  note ids = validated_ids_name_one_task [OF assms(1,2)]
  have w: "well_numbered t" using assms(1,4) by (rule well_numbered_member)
  note below = id_below [OF w assms(5)]
  have sub: "set (descendants t) \<subseteq> set (all_tasks r)" using assms(4) collect_descendants by blast
  have t: "?index (id_of t) = Some t" using ids assms(4) by (simp add: build_task_index_def)
  have known: "?index (take k (id_of d)) \<noteq> None" if "length (id_of t) < k" "k \<le> length (id_of d)" for k
  proof -
    have "take k (id_of d) \<in> id_of ` set (all_tasks r)" using below that sub by blast
    then show ?thesis using index_known by blast
  qed
  obtain u where u: "u \<in> set (rh_tasks r)" and tu: "t = u \<or> t \<in> set (descendants u)"
    using assms(4) in_collect by blast
  have "well_numbered u" "length (id_of u) = n" using u assms(1,2) by (auto simp: no_sibling_remarks)
  then have pos: "id_of t \<noteq> []" using tu id_below [of u t] assms(3) by auto
  let ?k = "length (id_of d) - 1"
  have len: "length (id_of t) \<le> ?k" "?k \<le> length (id_of d)" "\<not> length (id_of d) \<le> 1"
    using below pos by (cases "id_of t"; auto)+
  have "holder ?index (holds_beneath Y ms (rh_metadata r) in_flight) (Some (take ?k (id_of d))) \<noteq> None"
    using below known
    by (intro holder_found [where a = "id_of t" and t = t] t assms(6) pos len(1,2)) auto
  moreover have "parent (id_of d) = Some (take ?k (id_of d))" using len(3) by (simp add: parent_def)
  ultimately show ?thesis by (auto simp: supervision_verdict_def)
qed

subsection \<open>A parent and its descendants take turns\<close>

lemma any_open_iff:
  "any_open_descendant ms t \<longleftrightarrow>
   (\<exists>d\<in>set (descendants t). \<not> is_terminal_state (state_text d) (for_task ms (id_of d)))"
proof (induction t rule: tree_induct)
  case (task t)
  have "any_open_descendant ms t \<longleftrightarrow> (\<exists>c\<in>set (children t).
      \<not> is_terminal_state (state_text c) (for_task ms (id_of c)) \<or> any_open_descendant ms c)"
    by (cases t) (auto simp: list_ex_iff)
  also have "\<dots> \<longleftrightarrow> (\<exists>c\<in>set (children t). \<exists>d\<in>insert c (set (descendants c)).
      \<not> is_terminal_state (state_text d) (for_task ms (id_of d)))"
    using task by auto
  also have "\<dots> \<longleftrightarrow> (\<exists>d\<in>set (descendants t). \<not> is_terminal_state (state_text d) (for_task ms (id_of d)))"
    unfolding Bex_def in_collect [of _ "children t"] by blast
  finally show ?case .
qed

lemma any_in_flight_iff:
  "any_descendant_in_flight p t \<longleftrightarrow> (\<exists>d\<in>set (descendants t). p d)"
proof (induction t rule: tree_induct)
  case (task t)
  have "any_descendant_in_flight p t \<longleftrightarrow> (\<exists>c\<in>set (children t). p c \<or> any_descendant_in_flight p c)"
    by (cases t) (auto simp: list_ex_iff)
  also have "\<dots> \<longleftrightarrow> (\<exists>c\<in>set (children t). \<exists>d\<in>insert c (set (descendants c)). p d)"
    using task by auto
  also have "\<dots> \<longleftrightarrow> (\<exists>d\<in>set (descendants t). p d)"
    unfolding Bex_def in_collect [of _ "children t"] by blast
  finally show ?case .
qed

lemma ready_open: "is_ready Y r ms view mode t \<Longrightarrow> \<not> is_terminal_state (state_text t) (for_task ms (id_of t))"
  by (simp add: is_ready_def Let_def)

lemma ready_verdict:
  assumes "is_ready Y r ms view mode t"
  obtains "supervision_verdict Y t (task_index (all_tasks r)) ms (rh_metadata r) (is_in_flight (spawned_ids view)) = SupervisorReady"
  | "supervision_verdict Y t (task_index (all_tasks r)) ms (rh_metadata r) (is_in_flight (spawned_ids view)) = Unsupervised"
    "descendants_are_terminal t ms"
  using assms
  by (auto simp: is_ready_def supervision_verdict_for_def Let_def split: subtree_verdict.splits)

lemma supervisor_ready_holds:
  assumes "supervision_verdict Y t index ms md in_flight = SupervisorReady"
  shows "holds_beneath Y ms md in_flight t \<and> \<not> any_descendant_in_flight in_flight t"
  using assms
  by (auto simp: supervision_verdict_def holds_beneath_def supervision_holds_subtree_def
      supervision_phase_of_def split: option.splits if_splits supervision_phase.splits)

lemma supervising_busy_waits:
  assumes "task_is_supervising t (for_task ms (id_of t))" and "any_descendant_in_flight in_flight t"
  shows "supervision_verdict Y t index ms md in_flight \<noteq> SupervisorReady \<and>
    supervision_verdict Y t index ms md in_flight \<noteq> Unsupervised"
  using assms by (auto simp: supervision_verdict_def split: option.splits)

text \<open>
  C25: A task is never ready beside a task below it; below a task whose block holds its subtree, or
  a supervising task someone works on, nothing is ready; and a supervising task is not ready
  while anything below it is worked on.
\<close>

theorem ready_beside_no_descendant:
  fixes mode :: ready_set_view
  assumes "validate_sibling_uniqueness (rh_tasks r) = []" and "\<forall>t\<in>set (rh_tasks r). length (id_of t) = n"
    and "0 < n" and "t \<in> set (all_tasks r)" and "d \<in> set (descendants t)"
  shows "(t \<in> set (find_ready_tasks_in_view Y r ms view mode) \<longrightarrow>
       d \<notin> set (find_ready_tasks_in_view Y r ms view mode)) \<and>
    (supervision_holds_subtree Y t (for_task ms (id_of t)) (rh_metadata r) \<longrightarrow>
       d \<notin> set (find_ready_tasks_in_view Y r ms view mode)) \<and>
    (task_is_supervising t (for_task ms (id_of t)) \<longrightarrow>
       (is_in_flight (spawned_ids view) t \<longrightarrow> d \<notin> set (find_ready_tasks_in_view Y r ms view mode)) \<and>
       (is_in_flight (spawned_ids view) d \<longrightarrow> t \<notin> set (find_ready_tasks_in_view Y r ms view mode)))"
proof -
  have held: "\<not> is_ready Y r ms view mode d" if "holds_beneath Y ms (rh_metadata r) (is_in_flight (spawned_ids view)) t"
    using held_beneath [OF assms that] by (auto elim: ready_verdict)
  have own: "\<not> is_ready Y r ms view mode d" if "is_ready Y r ms view mode t"
    using that
  proof (cases rule: ready_verdict)
    case 1
    then show ?thesis using supervisor_ready_holds held by blast
  next
    case 2
    then have "is_terminal_state (state_text d) (for_task ms (id_of d))"
      using assms(5) by (auto simp: descendants_are_terminal_def any_open_iff)
    then show ?thesis using ready_open by blast
  qed
  have busy: "\<not> is_ready Y r ms view mode t"
    if "task_is_supervising t (for_task ms (id_of t))" "is_in_flight (spawned_ids view) d"
  proof -
    have "any_descendant_in_flight (is_in_flight (spawned_ids view)) t"
      using that(2) assms(5) by (auto simp: any_in_flight_iff)
    from supervising_busy_waits [OF that(1) this] show ?thesis by (auto elim: ready_verdict)
  qed
  show ?thesis
    using held own busy
    by (auto simp: find_ready_tasks_in_view_def holds_beneath_def Let_def)
qed

definition watch_machine :: state_machine where
  "watch_machine = review_machine\<lparr>states := (''watch'', plain_state\<lparr>execute_on_raw := Some ''descendant-transition''\<rparr>) #
     states review_machine, transitions := edge ''watch'' ''watch'' # edge ''watch'' ''done'' # transitions review_machine\<rparr>"

definition watch_set :: machine_set where
  "watch_set = \<lparr>default_machine = watch_machine, per_rhei = []\<rparr>"

definition watched_child :: task where "watched_child = leaf [Number 1, Number 1] ''todo'' []"

definition watcher :: task where "watcher = tree [Number 1] ''watch'' [] [watched_child]"

definition watch_plan :: "(yaml_value \<times> yaml_value) list rhei" where
  "watch_plan = \<lparr>rh_tasks = [watcher], rh_metadata = None\<rparr>"

definition quiet :: outlook where
  "quiet = \<lparr>spawned_ids = {}, read_at = 0, poll_bound_spent = (\<lambda>_ _ _. False), inputs_found = (\<lambda>_ _ _. True),
     rfc3339_secs = (\<lambda>_. None), resolved_agents = (\<lambda>_ _ _. Some [])\<rparr>"

lemma ready_beside_no_descendant_witness:
  "watcher \<in> set (find_ready_tasks_in_view sample_yaml watch_plan watch_set quiet RunnableNow) \<and>
   watched_child \<notin> set (find_ready_tasks_in_view sample_yaml watch_plan watch_set quiet RunnableNow)"
proof -
  have v: "validate_sibling_uniqueness (rh_tasks watch_plan) = []" by code_simp
  have n: "\<forall>t\<in>set (rh_tasks watch_plan). length (id_of t) = 1" by (simp add: watch_plan_def watcher_def)
  have m: "watcher \<in> set (all_tasks watch_plan)" by (simp add: watch_plan_def collect_cons)
  have d: "watched_child \<in> set (descendants watcher)" by (simp add: watcher_def collect_cons)
  have "is_ready sample_yaml watch_plan watch_set quiet RunnableNow watcher" by code_simp
  with m have "watcher \<in> set (find_ready_tasks_in_view sample_yaml watch_plan watch_set quiet RunnableNow)"
    by (simp add: find_ready_tasks_in_view_def)
  then show ?thesis
    using ready_beside_no_descendant [OF v n _ m d, of sample_yaml watch_set quiet RunnableNow] by simp
qed

subsection \<open>An open plan has work, or a reason\<close>

text \<open>What a task waits for: the open tasks below it, and the open tasks its priors name.\<close>

definition is_open :: "machine_set \<Rightarrow> task \<Rightarrow> bool" where
  "is_open ms t \<longleftrightarrow> \<not> is_terminal_state (state_text t) (for_task ms (id_of t))"

definition waits :: "task list \<Rightarrow> machine_set \<Rightarrow> (task \<times> task) set" where
  "waits ts ms = {(u, t). t \<in> set (collect_plan_tasks ts) \<and> u \<in> set (collect_plan_tasks ts) \<and> is_open ms u \<and>
     (u \<in> set (descendants t) \<or> id_of u \<in> set (t_prior (row t)))}"

text \<open>The reasons a task that waits for nothing open is not work.\<close>

definition held_back :: "('m, 'y) yaml \<Rightarrow> 'm rhei \<Rightarrow> machine_set \<Rightarrow> outlook \<Rightarrow> task \<Rightarrow> bool" where
  "held_back Y r ms view t \<longleftrightarrow>
     (let m = for_task ms (id_of t); s = normalized_state_name (state_text t) m in
      (\<exists>i h. supervision_verdict_for Y t (task_index (all_tasks r)) ms (rh_metadata r) (spawned_ids view) = HeldBy i h) \<or>
      supervision_verdict_for Y t (task_index (all_tasks r)) ms (rh_metadata r) (spawned_ids view) = SupervisorWaiting \<or>
      holds_of m gating s \<or>
      pending_poll_deadline Y view r m t s (pending_since view) \<noteq> None \<or>
      \<not> state_inputs_exist view m t s \<or>
      (\<exists>dep\<in>set (t_prior (row t)). task_index (all_tasks r) dep = None \<or>
        (\<exists>p. task_index (all_tasks r) dep = Some p \<and>
           is_cancellation (for_task ms dep) (normalized_state_name (state_text p) (for_task ms dep)))))"

lemma state_map_index:
  "plan_state_map ts ms i =
   map_option (\<lambda>t. normalized_state_name (state_text t) (for_task ms (id_of t))) (task_index ts i)"
proof -
  have "map_of (map (\<lambda>t. (id_of t, g t)) xs) i = map_option g (map_of (map (\<lambda>t. (id_of t, t)) xs) i)"
    for g :: "task \<Rightarrow> string" and xs by (induction xs) auto
  then show ?thesis by (simp add: plan_state_map_def task_index_def rev_map)
qed

lemma normalized_again:
  "normalized_state_name (normalized_state_name s m) m = normalized_state_name s m"
  by (simp add: normalized_state_name_def parse_again)

lemma dependency_of_normalized:
  "dependency_is_satisfied (normalized_state_name s m) m \<longleftrightarrow>
   \<not> is_cancellation m (normalized_state_name s m) \<and> is_terminal_state s m"
  by (simp add: dependency_is_satisfied_def is_terminal_state_def normalized_again)

lemma ready_unless_held_back:
  assumes "is_open ms t" and "descendants_are_terminal t ms" and "\<not> held_back Y r ms view t"
    and "\<forall>u\<in>set (all_tasks r). id_of u \<in> set (t_prior (row t)) \<longrightarrow> \<not> is_open ms u"
  shows "is_ready Y r ms view mode t"
proof -
  have "all_priors_done ms (plan_state_map (all_tasks r) ms) t"
    unfolding all_priors_done_def list_all_iff
  proof
    fix dep assume dep: "dep \<in> set (t_prior (row t))"
    then obtain p where p: "task_index (all_tasks r) dep = Some p"
      and nc: "\<not> is_cancellation (for_task ms dep) (normalized_state_name (state_text p) (for_task ms dep))"
      using assms(3) by (auto simp: held_back_def Let_def)
    then have mem: "p \<in> set (all_tasks r)" "id_of p = dep"
      by (auto simp: task_index_def dest!: map_of_SomeD)
    then have "is_terminal_state (state_text p) (for_task ms dep)"
      using assms(4) dep by (auto simp: is_open_def)
    then show "case plan_state_map (all_tasks r) ms dep of None \<Rightarrow> False
        | Some s \<Rightarrow> dependency_is_satisfied s (for_task ms dep)"
      using p nc mem by (simp add: state_map_index dependency_of_normalized)
  qed
  then show ?thesis
    using assms(1-3)
    by (auto simp: is_ready_def held_back_def is_open_def Let_def split: subtree_verdict.splits)
qed

text \<open>
  Where nothing in a plan waits, through its subtree and its priors, for itself, an unfinished
  plan always holds an open task whose subtree is finished and which is ready, or is held back by
  a named reason: supervision, a gate, a poll's deadline, a missing input, a prior that is
  missing or cancelled.
\<close>

theorem unfinished_plan_has_work:
  assumes "acyclic (waits (rh_tasks r) ms)" and "u \<in> set (all_tasks r)" and "is_open ms u"
  shows "\<exists>t\<in>set (all_tasks r). is_open ms t \<and> descendants_are_terminal t ms \<and>
    (t \<in> set (find_ready_tasks Y r ms view) \<or> held_back Y r ms view t)"
proof -
  let ?W = "waits (rh_tasks r) ms"
  have "?W \<subseteq> set (all_tasks r) \<times> set (all_tasks r)" by (auto simp: waits_def)
  then have "finite ?W" by (rule finite_subset) simp
  then have "wf ?W" using assms(1) by (rule finite_acyclic_wf)
  then obtain t where t: "t \<in> {t \<in> set (all_tasks r). is_open ms t}"
    and least: "\<And>v. (v, t) \<in> ?W \<Longrightarrow> v \<notin> {t \<in> set (all_tasks r). is_open ms t}"
    using assms(2,3) by (auto elim!: wfE_min [where x = u and Q = "{t \<in> set (all_tasks r). is_open ms t}"])
  have mem: "t \<in> set (all_tasks r)" and o: "is_open ms t" using t by auto
  have "\<not> is_open ms v" if "v \<in> set (descendants t)" for v
    using that least mem collect_descendants [OF mem that] by (auto simp: waits_def)
  then have closed: "descendants_are_terminal t ms"
    by (auto simp: descendants_are_terminal_def any_open_iff is_open_def)
  have "\<forall>v\<in>set (all_tasks r). id_of v \<in> set (t_prior (row t)) \<longrightarrow> \<not> is_open ms v"
    using least mem by (auto simp: waits_def)
  then have "\<not> held_back Y r ms view t \<Longrightarrow> is_ready Y r ms view RunnableNow t"
    using o closed by (intro ready_unless_held_back) auto
  then have "t \<in> set (find_ready_tasks Y r ms view) \<or> held_back Y r ms view t"
    using mem by (auto simp: find_ready_tasks_def find_ready_tasks_in_view_def)
  then show ?thesis using mem o closed by blast
qed

end
