(* ===== verification/Supervision_Claims.thy ===== *)
theory Supervision_Claims
  imports Ready_Claims
begin

text \<open>
  The supervision block written is the block read: a hold, a release and a delivered checkpoint
  come back as they were recorded, other tasks' blocks stay, and a delivered checkpoint stops
  everything below the supervisor it is owed to.
\<close>

text \<open>The entry a write finds; the mapping of all entries as a reader sees it.\<close>

definition found_entry :: "('m, 'y) yaml \<Rightarrow> 'm option \<Rightarrow> task_id \<Rightarrow> 'm" where
  "found_entry Y existing i =
     (let whole = (case existing of Some w \<Rightarrow> w | None \<Rightarrow> ym_new Y) in
      child_mapping Y (child_mapping Y (child_mapping Y whole (yaml_key Y ''metadata'')) (yaml_key Y ''tasks''))
        (task_id_yaml_key Y i))"

definition task_entries :: "('m, 'y) yaml \<Rightarrow> 'm option \<Rightarrow> 'm option" where
  "task_entries Y existing =
     Option.bind existing (\<lambda>root.
     Option.bind (ym_get Y root (yaml_key Y ''metadata'')) (\<lambda>v.
     Option.bind (y_as_mapping Y v) (\<lambda>sect.
     Option.bind (ym_get Y sect (yaml_key Y ''tasks'')) (y_as_mapping Y))))"

text \<open>A write to one task's entry leaves another's, where the mappings on the way carry no tag: behind
  a tag a reader sees a mapping the writer replaces.\<close>

definition plain_sections :: "('m, 'y) yaml \<Rightarrow> 'm option \<Rightarrow> bool" where
  "plain_sections Y existing \<longleftrightarrow>
     (\<forall>whole v. existing = Some whole \<longrightarrow> ym_get Y whole (yaml_key Y ''metadata'') = Some v \<longrightarrow>
        y_as_mapping Y v = y_pattern Y v \<and>
        (\<forall>sect w. y_pattern Y v = Some sect \<longrightarrow> ym_get Y sect (yaml_key Y ''tasks'') = Some w \<longrightarrow>
           y_as_mapping Y w = y_pattern Y w))"

lemma parse_phase_as_str [simp]: "parse_phase (phase_as_str p) = Some p"
proof -
  have "parse_phase (phase_as_str Held) = Some Held" "parse_phase (phase_as_str Released) = Some Released"
    by code_simp+
  then show ?thesis by (cases p) simp_all
qed

context yaml_laws
begin

lemma yaml_key_simps [simp]:
  "yaml_key Y a = yaml_key Y b \<longleftrightarrow> a = b"
  "y_as_str Y (yaml_key Y s) = Some s"
  "y_text Y (yaml_key Y s) = Some s"
  by (simp_all add: yaml_key_def)

lemma entry_written: "task_metadata_map Y (Some (in_task_entry Y i f existing)) i = Some (f (found_entry Y existing i))"
  by (simp add: task_metadata_map_def in_task_entry_def found_entry_def get_in_mapping)

lemma block_written:
  "supervision_map Y (Some (in_task_entry Y i (in_mapping Y (yaml_key Y ''supervision'') f) existing)) i =
   Some (f (child_mapping Y (found_entry Y existing i) (yaml_key Y ''supervision'')))"
  by (simp add: supervision_map_def entry_written get_in_mapping)

lemma hold_reads_back:
  "recorded_supervision_phase Y (Some (record_supervision_hold Y existing i cp)) i = Some Held"
  by (simp add: recorded_supervision_phase_def record_supervision_hold_def block_written hold_block_def
      Let_def get_insert get_remove)

lemma checkpoint_reads_back: "read_checkpoint Y (checkpoint_yaml Y cp) = Some cp"
  by (cases cp) (simp add: read_checkpoint_def checkpoint_yaml_def get_insert Let_def)

lemma checkpoints_after_hold:
  "supervision_checkpoints Y (Some (record_supervision_hold Y existing i cp)) i =
   (case cp of Some c \<Rightarrow> supervision_checkpoints Y existing i @ [c] | None \<Rightarrow> [])"
proof -
  have "recorded_checkpoints Y (Some (in_task_entry Y i (in_mapping Y (yaml_key Y ''supervision'') (hold_block Y entries)) existing)) i =
      (if entries = [] then None else Some entries)" for entries
    by (simp add: recorded_checkpoints_def block_written hold_block_def Let_def get_insert get_remove)
  then show ?thesis
    by (cases cp) (auto simp: supervision_checkpoints_def record_supervision_hold_def checkpoint_reads_back
        map_filter_def split: option.splits)
qed

lemma release_reads_back:
  "recorded_supervision_phase Y (Some (record_supervision_release Y existing i)) i = Some Released"
  "supervision_checkpoints Y (Some (record_supervision_release Y existing i)) i = []"
  by (simp_all add: recorded_supervision_phase_def supervision_checkpoints_def recorded_checkpoints_def
      record_supervision_release_def block_written release_block_def get_insert get_remove)

lemma metadata_map_entries:
  "task_metadata_map Y existing j =
   Option.bind (task_entries Y existing) (\<lambda>tasks. Option.bind (ym_get Y tasks (task_id_yaml_key Y j)) (y_as_mapping Y))"
  by (simp add: task_metadata_map_def task_entries_def bind_assoc)

lemma found_tasks:
  assumes "plain_sections Y existing"
  shows "child_mapping Y (child_mapping Y (case existing of Some w \<Rightarrow> w | None \<Rightarrow> ym_new Y) (yaml_key Y ''metadata'')) (yaml_key Y ''tasks'') =
    (case task_entries Y existing of Some tasks \<Rightarrow> tasks | None \<Rightarrow> ym_new Y)"
proof (cases existing)
  case None
  then show ?thesis by (simp add: task_entries_def)
next
  case (Some whole)
  show ?thesis
  proof (cases "ym_get Y whole (yaml_key Y ''metadata'')")
    case None
    then show ?thesis using Some by (simp add: task_entries_def child_mapping_def)
  next
    case (Some v)
    have v: "y_as_mapping Y v = y_pattern Y v" and w: "\<And>sect w. y_pattern Y v = Some sect \<Longrightarrow>
        ym_get Y sect (yaml_key Y ''tasks'') = Some w \<Longrightarrow> y_as_mapping Y w = y_pattern Y w"
      using assms \<open>existing = Some whole\<close> Some by (auto simp: plain_sections_def)
    have m: "child_mapping Y whole (yaml_key Y ''metadata'') = (case y_pattern Y v of Some c \<Rightarrow> c | None \<Rightarrow> ym_new Y)"
      using Some by (simp add: child_mapping_def)
    have e: "task_entries Y existing =
        Option.bind (y_pattern Y v) (\<lambda>sect. Option.bind (ym_get Y sect (yaml_key Y ''tasks'')) (y_as_mapping Y))"
      using Some \<open>existing = Some whole\<close> v by (simp add: task_entries_def)
    show ?thesis
    proof (cases "y_pattern Y v")
      case None
      then show ?thesis using m e \<open>existing = Some whole\<close> by simp
    next
      case sect: (Some sect)
      then show ?thesis using m e w \<open>existing = Some whole\<close>
        by (cases "ym_get Y sect (yaml_key Y ''tasks'')") (simp_all add: child_mapping_def)
    qed
  qed
qed

lemma other_entry_stays:
  assumes "plain_sections Y existing" and "task_id_yaml_key Y j \<noteq> task_id_yaml_key Y i"
  shows "task_metadata_map Y (Some (in_task_entry Y i f existing)) j = task_metadata_map Y existing j"
proof -
  have "task_entries Y (Some (in_task_entry Y i f existing)) =
      Some (in_mapping Y (task_id_yaml_key Y i) f (case task_entries Y existing of Some tasks \<Rightarrow> tasks | None \<Rightarrow> ym_new Y))"
    using found_tasks [OF assms(1)] by (simp add: task_entries_def in_task_entry_def get_in_mapping)
  then show ?thesis
    using assms(2) by (cases "task_entries Y existing") (simp_all add: metadata_map_entries get_in_mapping)
qed

lemma enter_child_other:
  assumes "enter_child Y key f m = Some m'" and "l \<noteq> key"
  shows "ym_get Y m' l = ym_get Y m l"
  using assms by (auto simp: enter_child_def get_insert split: option.splits)

lemma enter_child_at:
  assumes "enter_child Y key f m = Some m'" and "ym_get Y m key = Some v" and "y_as_mapping Y v = y_pattern Y v"
  shows "(\<exists>c c'. y_as_mapping Y v = Some c \<and> f c = Some c' \<and> Option.bind (ym_get Y m' key) (y_as_mapping Y) = Some c') \<or>
    y_as_mapping Y v = None \<and> m' = m"
  using assms by (auto simp: enter_child_def get_insert split: option.splits)

lemma clear_other_entry:
  assumes "plain_sections Y existing" and "task_id_yaml_key Y j \<noteq> task_id_yaml_key Y i"
    and "clear_supervision_for_task Y existing i = Some md"
  shows "task_metadata_map Y (Some md) j = task_metadata_map Y existing j"
proof -
  from assms(3) obtain whole where e: "existing = Some whole" by (cases existing) (auto simp: clear_supervision_for_task_def)
  define into_tasks where "into_tasks = enter_child Y (task_id_yaml_key Y i) (\<lambda>entry. Some (ym_remove Y entry (yaml_key Y ''supervision'')))"
  have md: "enter_child Y (yaml_key Y ''metadata'') (enter_child Y (yaml_key Y ''tasks'') into_tasks) whole = Some md"
    using assms(3) by (simp add: e clear_supervision_for_task_def into_tasks_def)
  then obtain v where v: "ym_get Y whole (yaml_key Y ''metadata'') = Some v" by (auto simp: enter_child_def split: option.splits)
  have pv: "y_as_mapping Y v = y_pattern Y v" using assms(1) e v by (auto simp: plain_sections_def)
  from enter_child_at [OF md v pv] show ?thesis
  proof (elim disjE exE conjE)
    fix sect sect' assume s: "y_as_mapping Y v = Some sect" "enter_child Y (yaml_key Y ''tasks'') into_tasks sect = Some sect'"
      "Option.bind (ym_get Y md (yaml_key Y ''metadata'')) (y_as_mapping Y) = Some sect'"
    then obtain w where w: "ym_get Y sect (yaml_key Y ''tasks'') = Some w" by (auto simp: enter_child_def split: option.splits)
    have pw: "y_as_mapping Y w = y_pattern Y w" using assms(1) e v s(1) pv w unfolding plain_sections_def by metis
    have out: "task_entries Y (Some md) = Option.bind (ym_get Y sect' (yaml_key Y ''tasks'')) (y_as_mapping Y)"
      using s(3) by (auto simp: task_entries_def bind_eq_Some_conv)
    have "task_entries Y existing = y_as_mapping Y w" using e v s(1) w by (simp add: task_entries_def)
    moreover from enter_child_at [OF s(2) w pw]
    have "Option.bind (ym_get Y sect' (yaml_key Y ''tasks'')) (y_as_mapping Y) = y_as_mapping Y w \<or>
      (\<exists>c c'. y_as_mapping Y w = Some c \<and> into_tasks c = Some c' \<and>
        Option.bind (ym_get Y sect' (yaml_key Y ''tasks'')) (y_as_mapping Y) = Some c')"
      using w by auto
    ultimately show ?thesis
      using out assms(2) unfolding metadata_map_entries into_tasks_def
      by (elim disjE exE conjE) (simp_all add: enter_child_other)
  qed (simp add: e)
qed

lemma supervision_of_entry:
  assumes "task_metadata_map Y a j = task_metadata_map Y b j"
  shows "recorded_supervision_phase Y a j = recorded_supervision_phase Y b j"
    and "supervision_checkpoints Y a j = supervision_checkpoints Y b j"
  using assms
  by (simp_all add: recorded_supervision_phase_def supervision_checkpoints_def recorded_checkpoints_def supervision_map_def)

lemma plain_in_entry: "plain_sections Y (Some (in_task_entry Y i f existing))"
  by (auto simp: plain_sections_def in_task_entry_def get_in_mapping)

lemma plain_after_clear:
  assumes "plain_sections Y existing" and "clear_supervision_for_task Y existing i = Some md"
  shows "plain_sections Y (Some md)"
proof -
  from assms(2) obtain whole where e: "existing = Some whole" by (cases existing) (auto simp: clear_supervision_for_task_def)
  show ?thesis
    using assms unfolding e clear_supervision_for_task_def plain_sections_def
    by (auto simp: enter_child_def get_insert split: option.splits if_splits)
qed

text \<open>The moving task's own block leaves the other entries as they are.\<close>

lemma own_block_other_entry:
  assumes "plain_sections Y existing" and "task_id_yaml_key Y j \<noteq> task_id_yaml_key Y (sm_key mv)"
  shows "task_metadata_map Y (or_else (own_block Y existing mv) existing) j = task_metadata_map Y existing j"
proof -
  let ?i = "sm_key mv"
  have hold: "task_metadata_map Y (Some (record_supervision_hold Y md ?i cp)) j = task_metadata_map Y md j"
    if "plain_sections Y md" for md cp
    unfolding record_supervision_hold_def Let_def using that assms(2) by (rule other_entry_stays)
  have release: "task_metadata_map Y (Some (record_supervision_release Y existing ?i)) j = task_metadata_map Y existing j"
    unfolding record_supervision_release_def using assms by (rule other_entry_stays)
  note clear = clear_other_entry [OF assms] plain_after_clear [OF assms(1)]
  have plain: "plain_sections Y (Some (record_supervision_hold Y md ?i cp))" "plain_sections Y (Some (record_supervision_release Y existing ?i))" for md cp
    unfolding record_supervision_hold_def record_supervision_release_def Let_def by (rule plain_in_entry)+
  show ?thesis
    unfolding own_block_def Let_def
    by (auto simp: or_else_def hold release clear plain assms(1) split: option.splits)
qed

end

text \<open>An id whose text reads back as it: its names are not empty, hold no dot and are no numbers.\<close>

definition readable_id :: "task_id \<Rightarrow> bool" where
  "readable_id i \<longleftrightarrow> i \<noteq> [] \<and>
     (\<forall>s. Named s \<in> set i \<longrightarrow> s \<noteq> [] \<and> CHR ''.'' \<notin> set s \<and> parse_u32 s = None)"

lemma readable_segments:
  assumes "readable_id i"
  shows "parse_segments (map show_segment i) = Some i" and "\<forall>p\<in>set (map show_segment i). CHR ''.'' \<notin> set p"
proof -
  have segment: "show_segment x \<noteq> [] \<and> CHR ''.'' \<notin> set (show_segment x) \<and>
      (case parse_u32 (show_segment x) of Some n \<Rightarrow> Number n | None \<Rightarrow> Named (show_segment x)) = x"
    if "x \<in> set i" for x
  proof (cases x)
    case (Number n)
    have "unat n < 2 ^ 32" using unsigned_less [of n] by simp
    moreover have "CHR ''.'' \<notin> set (show_nat (unat n))" using show_nat_digits by (fastforce simp: is_ascii_digit_def)
    ultimately show ?thesis using Number parse_u32_show [of "unat n"] by (simp add: show_segment_def)
  next
    case (Named s)
    then show ?thesis using assms that by (simp add: readable_id_def show_segment_def)
  qed
  show "\<forall>p\<in>set (map show_segment i). CHR ''.'' \<notin> set p" using segment by simp
  have "parse_segments (map show_segment xs) = Some xs" if "set xs \<subseteq> set i" for xs
    using that by (induction xs) (simp_all add: segment)
  then show "parse_segments (map show_segment i) = Some i" by simp
qed

lemma readable_id_reads_back:
  assumes "readable_id i"
  shows "parse_task_id (show_task_id i) = i"
proof -
  have "split_on (CHR ''.'') (show_task_id i) = map show_segment i"
    using readable_segments(2) [OF assms] assms
    by (simp add: show_task_id_def split_on_join readable_id_def)
  moreover from this have "show_task_id i \<noteq> []"
    using readable_segments(1) [OF assms] assms by (auto simp: readable_id_def)
  ultimately show ?thesis
    using readable_segments(1) [OF assms] by (simp add: parse_task_id_def)
qed

lemma supervisor_local_part:
  "show_task_id (id_of t) = p @ moved \<Longrightarrow> show_task_id (id_of supervisor) = p @ part \<Longrightarrow>
   supervisor_local_id supervisor moved t = part"
  by (simp add: supervisor_local_id_def strip_suffix_def Let_def)

lemma move_checkpoint_Some:
  "move_checkpoint mv = Some (supervisor, cp) \<Longrightarrow> sm_owner mv = Some supervisor \<and>
   cp = \<lparr>cp_task = sm_local mv, cp_from = sm_from mv, cp_to = sm_to mv, cp_visit = max (sm_to_visit mv) 1\<rparr>"
  by (auto simp: move_checkpoint_def bind_eq_Some_conv split: if_splits)

text \<open>
  C32: A move that is news leaves its supervisor holding. In the id space of the metadata, where the
  prefix of the plan's ids is exchanged for that of the metadata's keys, let \<open>t\<close> be the
  supervisor's task, its id one that reads back and its entry another than the mover's. Then the
  block of \<open>t\<close> reads held, its checkpoints are the ones it had and then this move, exactly; and in
  the plan with that metadata nothing below \<open>t\<close> is ready, until its next visit releases it.
\<close>

theorem checkpoint_stops_the_subtree:
  assumes "yaml_laws Y" and "plain_sections Y existing"
    and "move_checkpoint mv = Some (supervisor, cp)"
    and "show_task_id (id_of (sm_task mv)) = p @ sm_local mv" and "show_task_id (id_of supervisor) = p @ part"
    and "t \<in> set (all_tasks r)" and "show_task_id (id_of t) = sm_prefix mv @ part" and "readable_id (id_of t)"
    and "task_id_yaml_key Y (id_of t) \<noteq> task_id_yaml_key Y (sm_key mv)"
    and "validate_sibling_uniqueness (rh_tasks r) = []" and "\<forall>u\<in>set (rh_tasks r). length (id_of u) = n"
    and "0 < n" and "rh_metadata r = apply_supervision_transition Y existing mv"
  shows "sm_owner mv = Some supervisor \<and>
    recorded_supervision_phase Y (rh_metadata r) (id_of t) = Some Held \<and>
    supervision_checkpoints Y (rh_metadata r) (id_of t) = supervision_checkpoints Y existing (id_of t) @
      [\<lparr>cp_task = sm_local mv, cp_from = sm_from mv, cp_to = sm_to mv, cp_visit = max (sm_to_visit mv) 1\<rparr>] \<and>
    (\<forall>d\<in>set (descendants t). d \<notin> set (find_ready_tasks_in_view Y r ms view mode))"
proof -
  note laws = assms(1)
  let ?after = "or_else (own_block Y existing mv) existing"
  have "parse_task_id (sm_prefix mv @ supervisor_local_id supervisor (sm_local mv) (sm_task mv)) = id_of t"
    using readable_id_reads_back [OF assms(8)] by (simp add: supervisor_local_part [OF assms(4,5)] assms(7))
  then have md: "rh_metadata r = Some (record_supervision_hold Y ?after (id_of t) (Some cp))"
    using assms(3,13) by (simp add: apply_supervision_transition_def Let_def)
  have phase: "recorded_supervision_phase Y (rh_metadata r) (id_of t) = Some Held"
    unfolding md by (rule yaml_laws.hold_reads_back [OF laws])
  moreover have "supervision_checkpoints Y (rh_metadata r) (id_of t) = supervision_checkpoints Y existing (id_of t) @ [cp]"
    using yaml_laws.checkpoints_after_hold [OF laws]
      yaml_laws.supervision_of_entry(2) [OF laws yaml_laws.own_block_other_entry [OF laws assms(2,9)]]
    unfolding md by simp
  moreover have "\<not> is_ready Y r ms view mode d" if "d \<in> set (descendants t)" for d
  proof -
    have "holds_beneath Y ms (rh_metadata r) (is_in_flight (spawned_ids view)) t"
      using phase by (simp add: holds_beneath_def supervision_holds_subtree_def Let_def)
    from held_beneath [OF assms(10,11,12,6) that this] show ?thesis by (auto elim: ready_verdict)
  qed
  ultimately show ?thesis using move_checkpoint_Some [OF assms(3)]
    by (auto simp: find_ready_tasks_in_view_def)
qed

definition news :: supervised_move where
  "news = \<lparr>sm_machine = watch_machine, sm_task = watched_child, sm_owner = Some watcher, sm_key = [Number 1, Number 1],
     sm_prefix = [], sm_local = ''1.1'', sm_from = ''todo'', sm_to = ''done'', sm_to_visit = 1,
     sm_operation_supervisor = None\<rparr>"

definition after_news :: "(yaml_value \<times> yaml_value) list rhei" where
  "after_news = \<lparr>rh_tasks = [tree [Number 1] ''watch'' [] [leaf [Number 1, Number 1] ''done'' [], leaf [Number 1, Number 2] ''todo'' []]],
     rh_metadata = apply_supervision_transition sample_yaml None news\<rparr>"

lemma checkpoint_stops_the_subtree_witness:
  "supervision_checkpoints sample_yaml (rh_metadata after_news) [Number 1] =
     [\<lparr>cp_task = ''1.1'', cp_from = ''todo'', cp_to = ''done'', cp_visit = 1\<rparr>] \<and>
   leaf [Number 1, Number 2] ''todo'' [] \<notin> set (find_ready_tasks_in_view sample_yaml after_news watch_set quiet RunnableNow)"
proof -
  let ?cp = "\<lparr>cp_task = ''1.1'', cp_from = ''todo'', cp_to = ''done'', cp_visit = 1\<rparr>"
  let ?t = "tree [Number 1] ''watch'' [] [leaf [Number 1, Number 1] ''done'' [], leaf [Number 1, Number 2] ''todo'' []]"
  have plain: "plain_sections sample_yaml None" by (simp add: plain_sections_def)
  have cp: "move_checkpoint news = Some (watcher, ?cp)" by code_simp
  have moved: "show_task_id (id_of (sm_task news)) = [] @ sm_local news"
    and name: "show_task_id (id_of watcher) = [] @ ''1''" by code_simp+
  have spelled: "show_task_id (id_of ?t) = sm_prefix news @ ''1''" by code_simp
  have readable: "readable_id (id_of ?t)" by (simp add: readable_id_def)
  have ne: "task_id_yaml_key sample_yaml (id_of ?t) \<noteq> task_id_yaml_key sample_yaml (sm_key news)"
    by (simp add: task_id_yaml_key_def as_number_def as_single_def yaml_key_def sample_yaml_def news_def)
  have "validate_sibling_uniqueness [?t] = []" by code_simp
  then have v: "validate_sibling_uniqueness (rh_tasks after_news) = []" by (simp only: after_news_def rhei.simps)
  have n: "\<forall>t\<in>set (rh_tasks after_news). length (id_of t) = 1" by (simp add: after_news_def)
  have t: "?t \<in> set (all_tasks after_news)" by (simp add: after_news_def collect_cons)
  have i: "id_of ?t = [Number 1]" by simp
  have m: "rh_metadata after_news = apply_supervision_transition sample_yaml None news" by (simp add: after_news_def)
  have d: "leaf [Number 1, Number 2] ''todo'' [] \<in> set (descendants ?t)" by (simp add: collect_cons)
  have none: "supervision_checkpoints sample_yaml None [Number 1] = []"
    by (simp add: supervision_checkpoints_def recorded_checkpoints_def supervision_map_def task_metadata_map_def)
  note stops = checkpoint_stops_the_subtree [OF sy.yaml_laws_axioms plain cp moved name t spelled readable ne v n zero_less_one m, of watch_set quiet RunnableNow]
  then have "supervision_checkpoints sample_yaml (rh_metadata after_news) [Number 1] = [] @ [?cp]"
    using i none by (simp add: news_def)
  moreover have "leaf [Number 1, Number 2] ''todo'' [] \<notin> set (find_ready_tasks_in_view sample_yaml after_news watch_set quiet RunnableNow)"
    by (rule stops [THEN conjunct2, THEN conjunct2, THEN conjunct2, THEN bspec, OF d])
  ultimately show ?thesis unfolding append_Nil by (rule conjI)
qed

end
