(* ===== verification/Cycles.thy ===== *)
theory Cycles
  imports Plan_Checks "HOL-Library.AList"
begin

text \<open>
  The check for circular priors (\<open>validator_links.rs\<close>): Kahn's algorithm, and the cycles in
  what it could not drain. A \<open>HashMap\<close> is the list of its entries in the order it happens to be
  iterated; the order of \<open>indegree\<close> is an argument. A count that would fall below zero is a
  panic: the result is then \<open>None\<close>.
\<close>

type_synonym index_entries = "(task_id \<times> task) list"

type_synonym counts = "(task_id \<times> nat) list"

subsection \<open>Kahn's algorithm\<close>

definition prior_edges :: "index_entries \<Rightarrow> (task_id \<times> task_id) list" where
  "prior_edges entries = concat (map (\<lambda>(_, t). map (\<lambda>dep. (dep, id_of t)) (t_prior (row t))) entries)"

definition dependents_of :: "index_entries \<Rightarrow> task_id \<Rightarrow> task_id list" where
  "dependents_of entries n = map snd (filter (\<lambda>(dep, t). dep = n) (prior_edges entries))"

definition graph_nodes :: "index_entries \<Rightarrow> task_id set" where
  "graph_nodes entries = set (map fst entries) \<union> fst ` set (prior_edges entries) \<union> snd ` set (prior_edges entries)"

definition indegrees :: "index_entries \<Rightarrow> task_id list \<Rightarrow> counts" where
  "indegrees entries order = map (\<lambda>n. (n, length (filter (\<lambda>(_, t). t = n) (prior_edges entries)))) order"

fun drain :: "task_id list \<Rightarrow> counts \<Rightarrow> task_id list \<Rightarrow> (counts \<times> task_id list) option" where
  "drain [] d q = Some (d, q)"
| "drain (m # ms) d q =
     (case map_of d m of
        None \<Rightarrow> drain ms d q
      | Some 0 \<Rightarrow> None
      | Some (Suc k) \<Rightarrow> drain ms (AList.update m k d) (if k = 0 then q @ [m] else q))"

lemma sum_update:
  fixes k v :: nat
  shows "map_of d m = Some v \<Longrightarrow> sum_list (map snd (AList.update m k d)) + v = sum_list (map snd d) + k"
  by (induction d) (auto split: if_splits)

lemma drain_measure:
  "drain ms d q = Some (d', q') \<Longrightarrow>
   2 * sum_list (map snd d') + length q' \<le> 2 * sum_list (map snd d) + length q"
proof (induction ms arbitrary: d q)
  case (Cons m ms)
  show ?case
  proof (cases "map_of d m")
    case None
    with Cons show ?thesis by simp
  next
    case (Some v)
    with Cons.prems obtain k where v: "v = Suc k" by (cases v) auto
    from Cons.IH [of "AList.update m k d" "if k = 0 then q @ [m] else q"] Cons.prems Some v
    show ?thesis using sum_update [OF Some, of k] by (auto split: if_splits)
  qed
qed simp

function kahn :: "index_entries \<Rightarrow> counts \<Rightarrow> task_id list \<Rightarrow> counts option" where
  "kahn entries d [] = Some d"
| "kahn entries d (n # q) =
     (case drain (dependents_of entries n) d q of None \<Rightarrow> None | Some (d', q') \<Rightarrow> kahn entries d' q')"
  by pat_completeness auto
termination
  by (relation "measure (\<lambda>(_, d, q). 2 * sum_list (map snd d) + length q)")
    (auto dest!: drain_measure)

subsection \<open>Reaching\<close>

definition edges_at :: "(task_id \<times> task_id list) list \<Rightarrow> task_id \<Rightarrow> task_id list" where
  "edges_at edges n = (case map_of edges n of Some ns \<Rightarrow> ns | None \<Rightarrow> [])"

fun push_unseen :: "task_id list \<Rightarrow> task_id list \<Rightarrow> task_id list \<Rightarrow> task_id list \<times> task_id list" where
  "push_unseen [] seen stack = (seen, stack)"
| "push_unseen (n # ns) seen stack =
     (if n \<in> set seen then push_unseen ns seen stack else push_unseen ns (n # seen) (n # stack))"

definition edge_targets :: "(task_id \<times> task_id list) list \<Rightarrow> task_id set" where
  "edge_targets edges = set (concat (map snd edges))"

lemma edges_at_targets: "set (edges_at edges n) \<subseteq> edge_targets edges"
  by (cases "map_of edges n") (force simp: edges_at_def edge_targets_def dest: map_of_SomeD)+

lemma push_unseen_measure:
  "set ns \<subseteq> U \<Longrightarrow> finite U \<Longrightarrow> push_unseen ns seen stack = (seen', stack') \<Longrightarrow>
   card (U - set seen') + length stack' = card (U - set seen) + length stack"
proof (induction ns arbitrary: seen stack)
  case (Cons n ns)
  show ?case
  proof (cases "n \<in> set seen")
    case True
    with Cons show ?thesis by simp
  next
    case False
    then have n: "n \<in> U - set seen" using Cons.prems(1) by simp
    have "U - set (n # seen) = (U - set seen) - {n}" by auto
    then have "Suc (card (U - set (n # seen))) = card (U - set seen)"
      using card_Suc_Diff1 [of "U - set seen" n] n Cons.prems(2) by simp
    then show ?thesis using Cons.IH [of "n # seen" "n # stack"] Cons.prems False by simp
  qed
qed simp

function walk_edges :: "(task_id \<times> task_id list) list \<Rightarrow> task_id list \<Rightarrow> task_id list \<Rightarrow> task_id list" where
  "walk_edges edges seen [] = seen"
| "walk_edges edges seen (n # stack) =
     (let (seen', stack') = push_unseen (edges_at edges n) seen stack in walk_edges edges seen' stack')"
  by pat_completeness auto
termination
proof (relation "measure (\<lambda>(edges, seen, stack). card (edge_targets edges - set seen) + length stack)")
  fix edges seen n stack x seen' stack'
  assume "x = push_unseen (edges_at edges n) seen stack" and "(seen', stack') = x"
  then have "card (edge_targets edges - set seen') + length stack' =
      card (edge_targets edges - set seen) + length stack"
    by (intro push_unseen_measure [OF edges_at_targets]) (auto simp: edge_targets_def)
  then show "((edges, seen', stack'), edges, seen, n # stack)
      \<in> measure (\<lambda>(edges, seen, stack). card (edge_targets edges - set seen) + length stack)"
    by simp
qed auto

definition reachable_from :: "task_id \<Rightarrow> (task_id \<times> task_id list) list \<Rightarrow> task_id list" where
  "reachable_from start edges = walk_edges edges [start] [start]"

subsection \<open>The cycles\<close>

definition dependents_map :: "index_entries \<Rightarrow> task_id list \<Rightarrow> (task_id \<times> task_id list) list" where
  "dependents_map entries residue = map (\<lambda>t. (t, dependents_of entries t)) residue"

definition priors_map :: "index_entries \<Rightarrow> task_id list \<Rightarrow> (task_id \<times> task_id list) list" where
  "priors_map entries residue =
     (let pairs = concat (map (\<lambda>t. map (\<lambda>dependent. (dependent, t)) (dependents_of entries t)) residue)
      in map (\<lambda>dependent. (dependent, map snd (filter (\<lambda>(k, _). k = dependent) pairs))) (remdups (map fst pairs)))"

fun cycle_names ::
  "(task_id \<times> task_id list) list \<Rightarrow> (task_id \<times> task_id list) list \<Rightarrow> task_id list \<Rightarrow> task_id list \<Rightarrow> string list list" where
  "cycle_names dependents priors settled [] = []"
| "cycle_names dependents priors settled (t # residue) =
     (if t \<in> set settled then cycle_names dependents priors settled residue
      else
        let forward = reachable_from t dependents;
            backward = reachable_from t priors;
            members = filter (\<lambda>m. m \<in> set backward) forward;
            names = map show_task_id members;
            own_prior = (t \<in> set (edges_at dependents t));
            rest = cycle_names dependents priors (members @ settled) residue
        in if length names > 1 \<or> own_prior then sort names # rest else rest)"

definition cycles_in_residue :: "index_entries \<Rightarrow> task_id list \<Rightarrow> string list list" where
  "cycles_in_residue entries unsorted =
     (let residue = sort_key show_task_id unsorted
      in cycle_names (dependents_map entries residue) (priors_map entries residue) [] residue)"

definition circular_dependencies :: "index_entries \<Rightarrow> task_id list \<Rightarrow> string list list option" where
  "circular_dependencies entries order =
     (let d = indegrees entries order in
      map_option (\<lambda>drained. cycles_in_residue entries (map fst (filter (\<lambda>(_, k). k > 0) drained)))
        (kahn entries d (map fst (filter (\<lambda>(_, k). k = 0) d))))"

definition validate_circular_dependencies :: "index_entries \<Rightarrow> task_id list \<Rightarrow> remark list option" where
  "validate_circular_dependencies entries order =
     map_option (map (\<lambda>names. Error (''Circular dependency detected among tasks: '' @ debug_strings names)))
       (circular_dependencies entries order)"

end
