(* ===== verification/Dependencies.thy ===== *)
theory Dependencies
  imports Cycles
begin

text \<open>
  Priors and exports against the task index (\<open>validator_dependencies.rs\<close>): what a reference that
  does not resolve is told, how each consumed export relates to its producer, and which missing
  priors a repair may not add because they would close a cycle. \<open>retired\<close> are the keys of the
  retirement record. Text is ASCII, so a character is a byte.
\<close>

subsection \<open>The nearest id\<close>

text \<open>One row of the table: \<open>previous\<close> starts at the column left of the first character.\<close>

fun fill_row :: "char \<Rightarrow> string \<Rightarrow> nat list \<Rightarrow> nat \<Rightarrow> nat list" where
  "fill_row c (d # ds) (p # q # previous) left =
     (let substitution = p + (if c \<noteq> d then 1 else 0);
          v = min (min substitution (q + 1)) (left + 1)
      in v # fill_row c ds (q # previous) v)"
| "fill_row c _ _ left = []"

fun fill_rows :: "nat \<Rightarrow> string \<Rightarrow> string \<Rightarrow> nat list \<Rightarrow> nat list" where
  "fill_rows i [] b previous = previous"
| "fill_rows i (c # a) b previous = fill_rows (i + 1) a b ((i + 1) # fill_row c b previous (i + 1))"

definition edit_distance :: "string \<Rightarrow> string \<Rightarrow> nat" where
  "edit_distance a b = fill_rows 0 a b [0..<length b + 1] ! length b"

fun first_minimum :: "(nat \<times> string) list \<Rightarrow> (nat \<times> string) option" where
  "first_minimum [] = None"
| "first_minimum (x # xs) =
     (case first_minimum xs of None \<Rightarrow> Some x | Some y \<Rightarrow> if fst x \<le> fst y then Some x else Some y)"

definition nearest_rhei_id :: "string \<Rightarrow> string list \<Rightarrow> string option" where
  "nearest_rhei_id candidate rhei_ids =
     (let len = length candidate in
      if len < 3 then None
      else
        let budget = max (min 2 ((len + 2) div 3)) 1
        in map_option snd (first_minimum
             (filter (\<lambda>(distance, _). distance \<le> budget)
               (map (\<lambda>i. (edit_distance candidate i, i)) rhei_ids))))"

definition project_rhei_ids :: "task list \<Rightarrow> string list" where
  "project_rhei_ids ts =
     remdups_adj (sort (List.map_filter (\<lambda>t. case id_of t of Named name # _ \<Rightarrow> Some name | _ \<Rightarrow> None) ts))"

definition nearest_resolving_id ::
  "task_id \<Rightarrow> task_id \<Rightarrow> string \<Rightarrow> (task_id \<Rightarrow> task option) \<Rightarrow> string list \<Rightarrow> task_id option" where
  "nearest_resolving_id citing dep candidate index rhei_ids =
     Option.bind (nearest_rhei_id candidate rhei_ids) (\<lambda>nearest.
       let corrected = dep[0 := Named nearest]
       in if corrected \<noteq> citing \<and> index corrected \<noteq> None then Some corrected else None)"

definition missing_prior_hint ::
  "task_id \<Rightarrow> task_id \<Rightarrow> (task_id \<Rightarrow> task option) \<Rightarrow> string list \<Rightarrow> string \<times> string option" where
  "missing_prior_hint citing dep index rhei_ids =
     (case dep of
        Named candidate # _ \<Rightarrow>
          if candidate \<in> set rhei_ids then ([], None)
          else (case citing of
            Named citing_rhei # _ \<Rightarrow>
              ('': no rhei named '' @ quoted candidate @ '' in this project, and rhei '' @ quoted citing_rhei @
                 '' has no ticket '' @ quoted (show_task_id dep),
               Some (''Task '' @ show_task_id citing @ '' **Prior:** '' @ quoted (show_task_id dep) @
                 '': this project'' @ [CHR 0x27] @ ''s rheis are '' @ join '', '' rhei_ids @ ''.'' @
                 (case nearest_resolving_id citing dep candidate index rhei_ids of
                    Some corrected \<Rightarrow> '' Did you mean '' @ quoted (show_task_id corrected) @ ''?''
                  | None \<Rightarrow> [])))
          | _ \<Rightarrow> ([], None))
      | _ \<Rightarrow> ([], None))"

definition retired_dependency_help :: string where
  "retired_dependency_help =
     ''that ticket was removed with `rhei remove` and its id is retired; drop the reference or re-point it at a live ticket''"

definition declared_node_kinds_help :: "plan_structure \<Rightarrow> string" where
  "declared_node_kinds_help st = ''this plan structure declares nodeKinds '' @ debug_strings (node_kinds st) @ ''.''"

subsection \<open>Exports\<close>

datatype export_kind =
    ExistingDirectPrior
  | MissingDirectPrior
  | MissingProducer
  | UndeclaredExport
  | SelfConsumption
  | AncestorConsumption
  | ProposedCycle

record export_relationship =
  er_consumer :: task_id
  er_consumer_kind :: string
  er_producer :: task_id
  er_producer_kind :: "string option"
  er_export :: string
  er_kind :: export_kind

definition classify_export ::
  "task \<Rightarrow> task_id list \<Rightarrow> (task_id \<Rightarrow> task option) \<Rightarrow> consumed_export \<Rightarrow> export_relationship" where
  "classify_export t ancestors index consumed =
     (let producer = ce_task consumed;
          kind = (if producer = id_of t then SelfConsumption
                  else if producer \<in> set ancestors then AncestorConsumption
                  else case index producer of
                    None \<Rightarrow> MissingProducer
                  | Some p \<Rightarrow>
                      if ce_name consumed \<notin> set (t_provides (row p)) then UndeclaredExport
                      else if producer \<in> set (t_prior (row t)) then ExistingDirectPrior
                      else MissingDirectPrior)
      in \<lparr>er_consumer = id_of t, er_consumer_kind = kind_of t, er_producer = producer,
          er_producer_kind = map_option kind_of (index producer), er_export = ce_name consumed, er_kind = kind\<rparr>)"

definition classify_export_relationships_for_task ::
  "task \<Rightarrow> task_id list \<Rightarrow> (task_id \<Rightarrow> task option) \<Rightarrow> export_relationship list" where
  "classify_export_relationships_for_task t ancestors index =
     map (classify_export t ancestors index) (t_consumes (row t))"

fun classify_tree :: "(task_id \<Rightarrow> task option) \<Rightarrow> task_id list \<Rightarrow> task list \<Rightarrow> export_relationship list" where
  "classify_tree index ancestors [] = []"
| "classify_tree index ancestors (Task f cs # ts) =
     classify_export_relationships_for_task (Task f cs) ancestors index @
     classify_tree index (ancestors @ [t_id f]) cs @ classify_tree index ancestors ts"

type_synonym prior_graph = "(task_id \<times> task_id list) list"

definition priors_in :: "prior_graph \<Rightarrow> task_id \<Rightarrow> task_id list" where
  "priors_in g n = (case map_of g n of Some ps \<Rightarrow> ps | None \<Rightarrow> [])"

definition propose :: "export_relationship \<Rightarrow> prior_graph \<Rightarrow> prior_graph" where
  "propose r g =
     (let ps = priors_in g (er_consumer r) in
      AList.update (er_consumer r) (if er_producer r \<in> set ps then ps else ps @ [er_producer r]) g)"

definition missing_ones :: "export_relationship list \<Rightarrow> export_relationship list" where
  "missing_ones rs = filter (\<lambda>r. er_kind r = MissingDirectPrior) rs"

definition proposed_graph :: "index_entries \<Rightarrow> export_relationship list \<Rightarrow> prior_graph" where
  "proposed_graph entries rs =
     fold propose (missing_ones rs) (map (\<lambda>(i, t). (i, t_prior (row t))) entries)"

text \<open>The top of the stack is the head of the list.\<close>

function reaches :: "prior_graph \<Rightarrow> task_id \<Rightarrow> task_id \<Rightarrow> task_id list \<Rightarrow> task_id list \<Rightarrow> bool" where
  "reaches g consumer producer seen [] = False"
| "reaches g consumer producer seen (n # pending) =
     (if n = consumer then True
      else if n \<in> set seen then reaches g consumer producer seen pending
      else reaches g consumer producer (n # seen)
             (rev (filter (\<lambda>p. \<not> (n = consumer \<and> p = producer)) (priors_in g n)) @ pending))"
  by pat_completeness auto
termination
proof (relation "measures [\<lambda>(g, _, _, seen, _). card (fst ` set g - set seen), \<lambda>(_, _, _, _, pending). length pending]")
  fix g :: prior_graph and consumer producer n :: task_id and seen pending
  assume "n \<notin> set seen"
  show "((g, consumer, producer, n # seen, rev (filter (\<lambda>p. \<not> (n = consumer \<and> p = producer)) (priors_in g n)) @ pending),
      g, consumer, producer, seen, n # pending)
    \<in> measures [\<lambda>(g, _, _, seen, _). card (fst ` set g - set seen), \<lambda>(_, _, _, _, pending). length pending]"
  proof (cases "n \<in> fst ` set g")
    case True
    have "fst ` set g - set (n # seen) = (fst ` set g - set seen) - {n}" by auto
    then have "card (fst ` set g - set (n # seen)) < card (fst ` set g - set seen)"
      using True \<open>n \<notin> set seen\<close> card_Diff1_less [of "fst ` set g - set seen" n] by simp
    then show ?thesis by simp
  next
    case False
    then have "priors_in g n = []" by (simp add: priors_in_def map_of_eq_None_iff [symmetric] del: map_of_eq_None_iff)
    moreover have "fst ` set g - set (n # seen) = fst ` set g - set seen" using False by auto
    ultimately show ?thesis by simp
  qed
qed auto

definition mark_one :: "prior_graph \<Rightarrow> export_relationship \<Rightarrow> export_relationship" where
  "mark_one g r =
     (if er_kind r = MissingDirectPrior \<and> reaches g (er_consumer r) (er_producer r) [] [er_producer r]
      then r\<lparr>er_kind := ProposedCycle\<rparr> else r)"

definition mark_proposed_export_cycles :: "index_entries \<Rightarrow> export_relationship list \<Rightarrow> export_relationship list" where
  "mark_proposed_export_cycles entries rs = map (mark_one (proposed_graph entries rs)) rs"

definition classify_export_relationships :: "task list \<Rightarrow> index_entries \<Rightarrow> export_relationship list" where
  "classify_export_relationships ts entries =
     mark_proposed_export_cycles entries (classify_tree (map_of entries) [] ts)"

subsection \<open>The integrity of priors and exports\<close>

definition prior_remark ::
  "task \<Rightarrow> (task_id \<Rightarrow> task option) \<Rightarrow> string list \<Rightarrow> (string \<Rightarrow> bool) \<Rightarrow> plan_structure \<Rightarrow>
   task_id \<Rightarrow> string option \<Rightarrow> remark list" where
  "prior_remark t index rhei_ids retired st dep kind =
     (let me = ''Task '' @ show_task_id (id_of t); other = show_task_id dep;
          unresolved =
            (if retired other
             then [Help retired_dependency_help,
                   Error (me @ '' depends on retired Task '' @ other @ '' (metadata.retiredTickets)'')]
             else
               let (tail, guidance) = missing_prior_hint (id_of t) dep index rhei_ids
               in (case guidance of Some g \<Rightarrow> [Help g] | None \<Rightarrow> []) @
                  [Error (me @ '' depends on missing Task '' @ other @ tail)])
      in case (index dep, kind) of
           (Some there, Some k) \<Rightarrow>
             if \<not> eq_ignore_ascii_case (kind_of there) k
             then (if accepts_kind st k then [] else [Help (declared_node_kinds_help st)]) @
               [Error (me @ '' **Prior:** kind keyword '' @ quoted k @ '' does not match Task '' @ other @
                  '': that node is declared '' @ quoted (title_case_kind (kind_of there)) @
                  (if accepts_kind st k then [] else '' ('' @ quoted k @ '' is not a declared node kind)'') @
                  ''. Use the node'' @ [CHR 0x27] @ ''s kind or the bare id'')]
             else []
         | (None, Some k) \<Rightarrow>
             if \<not> accepts_kind st k
             then [Help (declared_node_kinds_help st),
                   Error (me @ '' has an unresolvable **Prior:** reference: '' @ quoted k @
                     '' is not a declared node kind and no Task '' @ other @
                     '' exists. If the reference is a task title, use the task'' @ [CHR 0x27] @
                     ''s id instead (`**Prior:** 1`, `**Prior:** auth.2`)'')]
             else unresolved
         | (None, None) \<Rightarrow> unresolved
         | (Some _, None) \<Rightarrow> [])"

fun prior_remarks ::
  "task \<Rightarrow> task_id list \<Rightarrow> (task_id \<Rightarrow> task option) \<Rightarrow> string list \<Rightarrow> (string \<Rightarrow> bool) \<Rightarrow> plan_structure \<Rightarrow>
   task_id list \<Rightarrow> string option list \<Rightarrow> task_id list \<Rightarrow> remark list" where
  "prior_remarks t ancestors index rhei_ids retired st seen kinds [] = []"
| "prior_remarks t ancestors index rhei_ids retired st seen kinds (dep # deps) =
     (let me = ''Task '' @ show_task_id (id_of t); other = show_task_id dep;
          kind = (case kinds of [] \<Rightarrow> None | k # _ \<Rightarrow> k)
      in (if dep \<in> set seen
          then [Error (me @ '' lists Task '' @ other @ '' more than once in **Prior:**; drop the duplicate'')]
          else []) @
         prior_remark t index rhei_ids retired st dep kind @
         (if dep \<in> set ancestors
          then [Error (me @ '' cannot list ancestor Task '' @ other @
                  '' as **Prior:**; parent/child structure already defines containment. Make the dependent work a top-level sibling if it must wait for Task '' @
                  other @ ''.'')]
          else []) @
         prior_remarks t ancestors index rhei_ids retired st (dep # seen) (drop 1 kinds) deps)"

text \<open>\<open>str::replace\<close>, for a pattern that is not empty.\<close>

function replace_all :: "string \<Rightarrow> string \<Rightarrow> string \<Rightarrow> string" where
  "replace_all p r [] = []"
| "replace_all p r (c # s) =
     (case strip_prefix p (c # s) of
        Some rest \<Rightarrow> if p = [] then c # s else r @ replace_all p r rest
      | None \<Rightarrow> c # replace_all p r s)"
  by pat_completeness auto
termination
proof (relation "measure (\<lambda>(_, _, s). length s)")
  fix p r s rest :: string and c
  assume "strip_prefix p (c # s) = Some rest" and "p \<noteq> []"
  then have "c # s = p @ rest" and "0 < length p" by (simp_all add: strip_prefix_Some)
  then have "Suc (length s) = length p + length rest" by (metis length_Cons length_append)
  then show "((p, r, rest), p, r, c # s) \<in> measure (\<lambda>(_, _, s). length s)"
    using \<open>0 < length p\<close> by simp
qed simp_all

text \<open>A \<open>ProposedCycle\<close> only arises from the marking, so the check of one task never sees it.\<close>

definition export_remark ::
  "task \<Rightarrow> (task_id \<Rightarrow> task option) \<Rightarrow> string list \<Rightarrow> (string \<Rightarrow> bool) \<Rightarrow> export_relationship \<Rightarrow> remark list" where
  "export_remark t index rhei_ids retired r =
     (let me = ''Task '' @ show_task_id (id_of t); other = show_task_id (er_producer r);
          consumes = me @ '' consumes export '' @ quoted (er_export r) @ '' from '';
          must_list = Error (consumes @ ''Task '' @ other @ '' and must list Task '' @ other @ '' directly in **Prior:**'')
      in case er_kind r of
           SelfConsumption \<Rightarrow> [Error (me @ '' cannot consume its own export '' @ quoted (er_export r))]
         | AncestorConsumption \<Rightarrow>
             [Error (me @ '' cannot consume export '' @ quoted (er_export r) @ '' from ancestor Task '' @ other)]
         | MissingProducer \<Rightarrow>
             if er_producer r \<in> set (t_prior (row t)) then []
             else if retired other
             then [Help retired_dependency_help,
                   Error (consumes @ ''retired producer Task '' @ other @ '' (metadata.retiredTickets)'')]
             else
               let (tail, guidance) = missing_prior_hint (id_of t) (er_producer r) index rhei_ids
               in (case guidance of Some g \<Rightarrow> [Help (replace_all ''**Prior:**'' ''**Consumes:**'' g)] | None \<Rightarrow> []) @
                  [Error (consumes @ ''missing producer Task '' @ other @ tail)]
         | UndeclaredExport \<Rightarrow>
             let available = (case index (er_producer r) of Some p \<Rightarrow> sort (t_provides (row p)) | None \<Rightarrow> [])
             in [Error (consumes @ ''Task '' @ other @
                   '', but that task does not declare it in **Provides:**. Available exports: '' @
                   (if available = [] then ''(none)'' else join '', '' available))] @
                (if er_producer r \<notin> set (t_prior (row t)) then [must_list] else [])
         | MissingDirectPrior \<Rightarrow> [must_list]
         | ExistingDirectPrior \<Rightarrow> []
         | ProposedCycle \<Rightarrow> [])"

fun integrity_remarks ::
  "(task_id \<Rightarrow> task option) \<Rightarrow> string list \<Rightarrow> (string \<Rightarrow> bool) \<Rightarrow> plan_structure \<Rightarrow> task_id list \<Rightarrow> task list \<Rightarrow>
   remark list" where
  "integrity_remarks index rhei_ids retired st ancestors [] = []"
| "integrity_remarks index rhei_ids retired st ancestors (Task f cs # ts) =
     prior_remarks (Task f cs) ancestors index rhei_ids retired st [] (t_prior_kinds f) (t_prior f) @
     concat (map (export_remark (Task f cs) index rhei_ids retired)
       (classify_export_relationships_for_task (Task f cs) ancestors index)) @
     integrity_remarks index rhei_ids retired st (ancestors @ [t_id f]) cs @
     integrity_remarks index rhei_ids retired st ancestors ts"

definition validate_dependency_integrity ::
  "task list \<Rightarrow> (task_id \<Rightarrow> task option) \<Rightarrow> (string \<Rightarrow> bool) \<Rightarrow> plan_structure \<Rightarrow> remark list" where
  "validate_dependency_integrity ts index retired st =
     integrity_remarks index (project_rhei_ids ts) retired st [] ts"

end
