(* ===== verification/Suggestions.thy ===== *)
theory Suggestions
  imports Dependencies
begin

text \<open>
  The table behind "did you mean" against what it stands for: \<open>edits a b n\<close> says \<open>n\<close> edits of
  one character (insert, delete, replace) make \<open>b\<close> of \<open>a\<close>.
\<close>

inductive edits :: "string \<Rightarrow> string \<Rightarrow> nat \<Rightarrow> bool" where
  nothing: "edits [] [] 0"
| keep: "edits a b n \<Longrightarrow> edits (x # a) (x # b) n"
| replace_one: "edits a b n \<Longrightarrow> edits (x # a) (y # b) (Suc n)"
| delete: "edits a b n \<Longrightarrow> edits (x # a) b (Suc n)"
| insert_one: "edits a b n \<Longrightarrow> edits a (y # b) (Suc n)"

text \<open>The recursion the rows tabulate, over reversed prefixes.\<close>

fun lev :: "string \<Rightarrow> string \<Rightarrow> nat" where
  "lev [] b = length b"
| "lev (x # a) [] = Suc (length a)"
| "lev (x # a) (y # b) =
     min (min (lev a b + (if x \<noteq> y then 1 else 0)) (lev a (y # b) + 1)) (lev (x # a) b + 1)"

lemma lev_insert: "lev a (y # b) \<le> Suc (lev a b)"
  by (cases a) auto

lemma lev_delete: "lev (x # a) b \<le> Suc (lev a b)"
  by (cases b; cases a) auto

lemma lev_lower: "edits a b n \<Longrightarrow> lev a b \<le> n"
proof (induction rule: edits.induct)
  case (delete a b n x)
  then show ?case using lev_delete [of x a b] by simp
next
  case (insert_one a b n y)
  then show ?case using lev_insert [of a y b] by simp
qed auto

lemma edits_insert_all: "edits [] b (length b)"
  by (induction b) (auto intro: edits.intros)

lemma edits_delete_all: "edits a [] (length a)"
  by (induction a) (auto intro: edits.intros)

lemma lev_edits: "edits a b (lev a b)"
proof (induction a b rule: lev.induct)
  case (1 b)
  then show ?case by (simp add: edits_insert_all)
next
  case (2 x a)
  then show ?case using edits_delete_all [of "x # a"] by simp
next
  case (3 x a y b)
  have sub: "edits (x # a) (y # b) (lev a b + (if x \<noteq> y then 1 else 0))"
    using 3(1) by (auto intro: edits.intros)
  have del: "edits (x # a) (y # b) (lev a (y # b) + 1)" using 3(2) by (auto intro: edits.intros)
  have ins: "edits (x # a) (y # b) (lev (x # a) b + 1)" using 3(3) by (auto intro: edits.intros)
  show ?case using sub del ins by (auto simp: min_def)
qed

lemma edits_snoc:
  "edits a b n \<Longrightarrow> edits (a @ [x]) (b @ [x]) n \<and> edits (a @ [x]) (b @ [y]) (Suc n) \<and>
   edits (a @ [x]) b (Suc n) \<and> edits a (b @ [y]) (Suc n)"
  by (induction rule: edits.induct) (auto intro: edits.intros)

lemma edits_rev: "edits a b n \<Longrightarrow> edits (rev a) (rev b) n"
  by (induction rule: edits.induct) (auto intro: edits.nothing dest: edits_snoc)

lemma lev_rev: "lev (rev a) (rev b) = lev a b"
proof -
  have le: "lev (rev a) (rev b) \<le> lev a b" for a b using lev_edits [of a b] edits_rev lev_lower by blast
  from le [of a b] le [of "rev a" "rev b"] show ?thesis by simp
qed

text \<open>A row holds, at column \<open>j\<close>, the distance from the prefix read so far to the first \<open>j\<close>
  characters of \<open>b\<close>.\<close>

definition row_of :: "string \<Rightarrow> string \<Rightarrow> nat list" where
  "row_of p b = map (\<lambda>j. lev p (rev (take j b))) [0..<length b + 1]"

lemma row_from:
  "map (\<lambda>j. lev p (rev (take j ds) @ q)) [0..<length ds + 1] =
   lev p q # (case ds of [] \<Rightarrow> [] | d # ds' \<Rightarrow> map (\<lambda>j. lev p (rev (take j ds') @ d # q)) [0..<length ds' + 1])"
proof (cases ds)
  case (Cons d ds')
  have "[0..<Suc n] = 0 # map Suc [0..<n]" for n by (simp add: map_Suc_upt upt_conv_Cons del: upt_Suc)
  from this [of "length ds"] show ?thesis using Cons by (simp del: upt_Suc)
qed simp

lemma fill_row_exact:
  "fill_row c ds (map (\<lambda>j. lev p (rev (take j ds) @ q)) [0..<length ds + 1]) (lev (c # p) q) =
   tl (map (\<lambda>j. lev (c # p) (rev (take j ds) @ q)) [0..<length ds + 1])"
proof (induction ds arbitrary: q)
  case (Cons d ds)
  have step: "lev (c # p) (d # q) =
      min (min (lev p q + (if c \<noteq> d then 1 else 0)) (lev p (d # q) + 1)) (lev (c # p) q + 1)" by simp
  show ?case
    unfolding row_from [of p "d # ds" q] row_from [of "c # p" "d # ds" q]
    using Cons [of "d # q"]
    by (simp only: list.case list.sel row_from [of p ds "d # q"] row_from [of "c # p" ds "d # q"]
        fill_row.simps Let_def step [symmetric])
qed simp

lemma fill_row_row: "(length p + 1) # fill_row c b (row_of p b) (length p + 1) = row_of (c # p) b"
proof -
  have hd: "row_of (c # p) b = lev (c # p) [] # tl (row_of (c # p) b)"
    by (simp add: row_of_def upt_conv_Cons del: upt_Suc)
  have "fill_row c b (row_of p b) (lev (c # p) []) = tl (row_of (c # p) b)"
    using fill_row_exact [of c b p "[]"] by (simp add: row_of_def)
  then show ?thesis using hd by simp
qed

lemma fill_rows_row: "length p = i \<Longrightarrow> fill_rows i a b (row_of p b) = row_of (rev a @ p) b"
proof (induction a arbitrary: i p)
  case (Cons c a)
  have "fill_rows i (c # a) b (row_of p b) = fill_rows (i + 1) a b (row_of (c # p) b)"
    using fill_row_row [of p c b] Cons.prems by (simp only: fill_rows.simps)
  also have "\<dots> = row_of (rev a @ c # p) b" using Cons.prems by (intro Cons.IH) simp
  finally show ?case by simp
qed simp

lemma edit_distance_lev: "edit_distance a b = lev a b"
proof -
  have "[0..<length b + 1] = row_of [] b" by (auto simp: row_of_def intro!: nth_equalityI)
  then have "edit_distance a b = row_of (rev a) b ! length b"
    using fill_rows_row [of "[]" 0 a b] by (simp add: edit_distance_def del: upt_Suc)
  also have "\<dots> = lev (rev a) (rev b)" by (simp add: row_of_def nth_append)
  finally show ?thesis by (simp add: lev_rev)
qed

lemma first_minimum_none: "first_minimum xs = None \<longleftrightarrow> xs = []"
  by (cases xs) (auto split: option.splits)

lemma first_minimum_least:
  "first_minimum xs = Some x \<Longrightarrow> x \<in> set xs \<and> (\<forall>y\<in>set xs. fst x \<le> fst y)"
proof (induction xs arbitrary: x)
  case (Cons z xs)
  show ?case
  proof (cases "first_minimum xs")
    case None
    with Cons.prems show ?thesis by (simp add: first_minimum_none)
  next
    case (Some y)
    with Cons.IH [OF this] Cons.prems show ?thesis by (fastforce split: if_splits)
  qed
qed simp

text \<open>
  C30: The id an unresolved prior is said to mean is a nearest one: it is an id of the project, the
  least number of one-character edits that makes it of what was written is within the budget
  of two, and no other id of the project is nearer. The table computes that least number.
\<close>

theorem suggestion_is_nearest:
  assumes "nearest_rhei_id candidate rhei_ids = Some i"
  shows "i \<in> set rhei_ids \<and> 3 \<le> length candidate \<and> edit_distance candidate i \<le> 2 \<and>
    edits candidate i (edit_distance candidate i) \<and>
    (\<forall>j\<in>set rhei_ids. \<forall>n. edits candidate j n \<longrightarrow> edit_distance candidate i \<le> n)"
proof -
  let ?budget = "max (min 2 ((length candidate + 2) div 3)) 1"
  from assms obtain d where len: "3 \<le> length candidate"
    and first: "first_minimum (filter (\<lambda>(distance, _). distance \<le> ?budget)
      (map (\<lambda>i. (edit_distance candidate i, i)) rhei_ids)) = Some (d, i)"
    by (auto simp: nearest_rhei_id_def Let_def not_less split: if_splits)
  from first_minimum_least [OF first]
  have i: "i \<in> set rhei_ids" "d = edit_distance candidate i" "d \<le> ?budget"
    and least: "\<And>j. j \<in> set rhei_ids \<Longrightarrow> edit_distance candidate j \<le> ?budget \<Longrightarrow> d \<le> edit_distance candidate j"
    by auto
  have "d \<le> n" if "j \<in> set rhei_ids" "edits candidate j n" for j n
  proof -
    have "edit_distance candidate j \<le> n" using that(2) lev_lower by (simp add: edit_distance_lev)
    then show ?thesis using least [OF that(1)] i(3) by linarith
  qed
  then show ?thesis using i len lev_edits [of candidate i] by (auto simp: edit_distance_lev)
qed

lemma suggestion_is_nearest_witness:
  "nearest_rhei_id ''atuh'' [''billing'', ''auth'', ''audit''] = Some ''auth'' \<and> edit_distance ''atuh'' ''auth'' \<le> 2"
proof -
  have n: "nearest_rhei_id ''atuh'' [''billing'', ''auth'', ''audit''] = Some ''auth''" by code_simp
  from suggestion_is_nearest [OF this] n show ?thesis by blast
qed

end
