(* ===== verification/Cycles_Laws.thy ===== *)
theory Cycles_Laws
  imports Cycles
begin

text \<open>
  Why the check is exact. The depth-first walk finds what its edges reach; Kahn's algorithm never
  counts below zero and never drains a task on a cycle; and in what is left, the tasks a task
  reaches both ways are its cycle.
\<close>

subsection \<open>The walk\<close>

definition step :: "(task_id \<times> task_id list) list \<Rightarrow> task_id rel" where
  "step edges = {(a, b). b \<in> set (edges_at edges a)}"

lemma push_unseen_effect:
  "push_unseen ns seen stack = (seen', stack') \<Longrightarrow>
   set seen' = set seen \<union> set ns \<and> set stack' = set stack \<union> (set ns - set seen) \<and>
   (distinct seen \<longrightarrow> distinct seen')"
proof (induction ns arbitrary: seen stack)
  case (Cons n ns)
  show ?case
  proof (cases "n \<in> set seen")
    case True
    with Cons show ?thesis by auto
  next
    case False
    from Cons.IH [of "n # seen" "n # stack"] Cons.prems False
    have "set seen' = set (n # seen) \<union> set ns" "set stack' = set (n # stack) \<union> (set ns - set (n # seen))"
      "distinct (n # seen) \<longrightarrow> distinct seen'" by auto
    then show ?thesis using False by auto
  qed
qed auto

text \<open>Every task seen and off the stack has had its successors seen.\<close>

definition walked :: "(task_id \<times> task_id list) list \<Rightarrow> task_id list \<Rightarrow> task_id list \<Rightarrow> bool" where
  "walked edges seen stack \<longleftrightarrow>
     set stack \<subseteq> set seen \<and> (\<forall>a b. a \<in> set seen \<longrightarrow> a \<notin> set stack \<longrightarrow> (a, b) \<in> step edges \<longrightarrow> b \<in> set seen)"

lemma walked_push:
  assumes "walked edges seen (n # stack)" and "push_unseen (edges_at edges n) seen stack = (seen', stack')"
  shows "walked edges seen' stack'"
proof -
  note push = push_unseen_effect [OF assms(2)]
  have sub: "set stack \<subseteq> set seen" and old: "\<And>a b. a \<in> set seen \<Longrightarrow> a \<notin> set (n # stack) \<Longrightarrow> (a, b) \<in> step edges \<Longrightarrow> b \<in> set seen"
    using assms(1) by (auto simp: walked_def)
  have "b \<in> set seen'" if "a \<in> set seen'" "a \<notin> set stack'" "(a, b) \<in> step edges" for a b
  proof (cases "a = n")
    case True
    then show ?thesis using that(3) push by (simp add: step_def)
  next
    case False
    have "a \<in> set seen" "a \<notin> set stack" using that(1,2) push by auto
    then show ?thesis using old [of a b] False that(3) push by auto
  qed
  moreover have "set stack' \<subseteq> set seen'" using sub push by auto
  ultimately show ?thesis unfolding walked_def by blast
qed

lemma walk_edges_exact:
  assumes "walked edges seen stack" and "distinct seen"
  shows "set (walk_edges edges seen stack) = (step edges)\<^sup>* `` set seen \<and> distinct (walk_edges edges seen stack)"
  using assms
proof (induction edges seen stack rule: walk_edges.induct)
  case (1 edges seen)
  have "x \<in> set seen" if "(a, x) \<in> (step edges)\<^sup>*" "a \<in> set seen" for a x
    using that
  proof (induction rule: rtrancl_induct)
    case (step y z)
    then show ?case using 1 by (auto simp: walked_def)
  qed
  then show ?case using 1 by auto
next
  case (2 edges seen n stack)
  obtain seen' stack' where push: "push_unseen (edges_at edges n) seen stack = (seen', stack')" by fastforce
  have w: "walked edges seen' stack'" using 2(2) push by (rule walked_push)
  note eff = push_unseen_effect [OF push]
  have IH: "set (walk_edges edges seen' stack') = (step edges)\<^sup>* `` set seen'" "distinct (walk_edges edges seen' stack')"
    using 2(1) [OF push [symmetric] refl w] eff 2(3) by auto
  have n: "n \<in> set seen" using 2(2) by (simp add: walked_def)
  have "(step edges)\<^sup>* `` set seen' \<subseteq> (step edges)\<^sup>* `` set seen"
  proof
    fix x assume "x \<in> (step edges)\<^sup>* `` set seen'"
    then obtain a where a: "a \<in> set seen'" "(a, x) \<in> (step edges)\<^sup>*" by auto
    then show "x \<in> (step edges)\<^sup>* `` set seen"
    proof (cases "a \<in> set seen")
      case False
      then have "(n, a) \<in> step edges" using a(1) eff by (simp add: step_def)
      then have "(n, x) \<in> (step edges)\<^sup>*" using a(2) by (rule converse_rtrancl_into_rtrancl)
      then show ?thesis using n by blast
    qed blast
  qed
  moreover have "(step edges)\<^sup>* `` set seen \<subseteq> (step edges)\<^sup>* `` set seen'" using eff by auto
  ultimately show ?case using IH push by simp
qed

lemma reachable_from_exact:
  "set (reachable_from s edges) = {m. (s, m) \<in> (step edges)\<^sup>*}" "distinct (reachable_from s edges)"
  using walk_edges_exact [of edges "[s]" "[s]"]
  by (auto simp: reachable_from_def walked_def)

subsection \<open>Draining\<close>

lemma drain_effect:
  assumes "\<And>m v. map_of d m = Some v \<Longrightarrow> count_list ms m \<le> v"
  shows "\<exists>d' new. drain ms d q = Some (d', q @ new) \<and> map fst d' = map fst d \<and>
    (\<forall>m. map_of d' m = map_option (\<lambda>v. v - count_list ms m) (map_of d m)) \<and>
    distinct new \<and> set new = {m \<in> set ms. map_of d m = Some (count_list ms m)}"
  using assms
proof (induction ms arbitrary: d q)
  case Nil
  then show ?case by (auto simp: option.map_ident)
next
  case (Cons m ms)
  show ?case
  proof (cases "map_of d m")
    case None
    have "count_list ms x \<le> v" if "map_of d x = Some v" for x v
      using Cons.prems [OF that] by (simp split: if_splits)
    from Cons.IH [OF this, where q = q] obtain d' new where IH: "drain ms d q = Some (d', q @ new)" "map fst d' = map fst d"
      "\<And>x. map_of d' x = map_option (\<lambda>v. v - count_list ms x) (map_of d x)"
      "distinct new" "set new = {x \<in> set ms. map_of d x = Some (count_list ms x)}" by blast
    have "x \<in> set new \<longleftrightarrow> x \<in> set (m # ms) \<and> map_of d x = Some (count_list (m # ms) x)" for x
      using None by (cases "x = m") (auto simp add: IH(5))
    then have "set new = {x \<in> set (m # ms). map_of d x = Some (count_list (m # ms) x)}" by blast
    moreover have "map_of d' x = map_option (\<lambda>v. v - count_list (m # ms) x) (map_of d x)" for x
      using IH(3) [of x] None by auto
    moreover have "drain (m # ms) d q = Some (d', q @ new)" using IH(1) None by simp
    ultimately show ?thesis using IH(2,4) by blast
  next
    case (Some v)
    then obtain k where v: "v = Suc k" using Cons.prems [OF Some] by (cases v) auto
    let ?d = "AList.update m k d" and ?q = "if k = 0 then q @ [m] else q"
    have upd: "map_of ?d = (map_of d)(m \<mapsto> k)" by (rule update_conv')
    have "count_list ms x \<le> w" if "map_of ?d x = Some w" for x w
      using that Cons.prems [of x] Cons.prems [OF Some] v upd by (auto split: if_splits)
    from Cons.IH [OF this, where q = ?q] obtain d' new where IH: "drain ms ?d ?q = Some (d', ?q @ new)"
      "map fst d' = map fst ?d" "\<And>x. map_of d' x = map_option (\<lambda>v. v - count_list ms x) (map_of ?d x)"
      "distinct new" "set new = {x \<in> set ms. map_of ?d x = Some (count_list ms x)}" by blast
    let ?new = "(if k = 0 then [m] else []) @ new"
    have keys: "map fst ?d = map fst d"
      using Some by (simp add: update_keys) (metis domI dom_map_of_conv_image_fst)
    have out: "k = 0 \<Longrightarrow> m \<notin> set ms" using Cons.prems [OF Some] v by (simp add: count_list_0_iff)
    have "drain (m # ms) d q = Some (d', q @ ?new)" using Some v IH(1) by (cases "k = 0") simp_all
    moreover have "map_of d' x = map_option (\<lambda>v. v - count_list (m # ms) x) (map_of d x)" for x
      using IH(3) [of x] upd Some v by auto
    moreover have "distinct ?new" using IH(4,5) out by auto
    moreover have "x \<in> set ?new \<longleftrightarrow> x \<in> set (m # ms) \<and> map_of d x = Some (count_list (m # ms) x)" for x
    proof (cases "x = m")
      case True
      show ?thesis
      proof (cases "k = 0")
        case zero: True
        then have "count_list ms m = 0" using out by (simp add: count_notin)
        then show ?thesis using True Some v zero by simp
      next
        case False
        have "m \<in> set new \<longleftrightarrow> m \<in> set ms \<and> k = count_list ms m" by (simp add: IH(5) upd)
        also have "\<dots> \<longleftrightarrow> k = count_list ms m" using False count_notin by fastforce
        finally show ?thesis using True Some v False by auto
      qed
    next
      case False
      then show ?thesis by (simp add: IH(5) upd)
    qed
    then have "set ?new = {x \<in> set (m # ms). map_of d x = Some (count_list (m # ms) x)}" by blast
    moreover have "map fst d' = map fst d" using IH(2) keys by simp
    moreover note \<open>set ?new = _\<close>
    ultimately show ?thesis by blast
  qed
qed

subsection \<open>Kahn's algorithm\<close>

definition edge_rel :: "index_entries \<Rightarrow> task_id rel" where
  "edge_rel entries = set (prior_edges entries)"

definition cyclic :: "index_entries \<Rightarrow> task_id set" where
  "cyclic entries = {n. (n, n) \<in> (edge_rel entries)\<^sup>+}"

lemma cyclic_pred:
  assumes "m \<in> cyclic entries"
  shows "\<exists>p\<in>cyclic entries. (p, m) \<in> edge_rel entries"
proof -
  from assms obtain p where p: "(m, p) \<in> (edge_rel entries)\<^sup>*" "(p, m) \<in> edge_rel entries"
    by (auto simp: cyclic_def dest: tranclD2)
  then have "(p, p) \<in> (edge_rel entries)\<^sup>+" by (metis rtrancl_into_trancl2)
  then show ?thesis using p by (auto simp: cyclic_def)
qed

definition into :: "index_entries \<Rightarrow> task_id set \<Rightarrow> task_id \<Rightarrow> nat" where
  "into entries P m = length (filter (\<lambda>(a, b). b = m \<and> a \<notin> P) (prior_edges entries))"

lemma filter_split:
  "n \<notin> P \<Longrightarrow> length (filter (\<lambda>(a, b). b = m \<and> a \<notin> insert n P) es) + count_list (map snd (filter (\<lambda>(a, b). a = n) es)) m =
    length (filter (\<lambda>(a, b). b = m \<and> a \<notin> P) es)"
  by (induction es) auto

lemma into_insert:
  "n \<notin> P \<Longrightarrow> into entries (insert n P) m + count_list (dependents_of entries n) m = into entries P m"
  unfolding into_def dependents_of_def by (rule filter_split)

lemma into_pos: "0 < into entries P m \<longleftrightarrow> (\<exists>a. (a, m) \<in> edge_rel entries \<and> a \<notin> P)"
  by (auto simp: into_def edge_rel_def filter_empty_conv)

text \<open>\<open>P\<close> are the tasks popped so far: none is on a cycle, and a count is the edges still
  coming in from the others.\<close>

definition drained :: "index_entries \<Rightarrow> task_id set \<Rightarrow> counts \<Rightarrow> task_id list \<Rightarrow> bool" where
  "drained entries P d q \<longleftrightarrow>
     (\<forall>m v. map_of d m = Some v \<longrightarrow> v = into entries P m) \<and>
     distinct q \<and> set q \<inter> P = {} \<and> (\<forall>x\<in>set q \<union> P. into entries P x = 0) \<and> P \<inter> cyclic entries = {}"

lemma drained_pop:
  assumes "drained entries P d (n # q)"
  shows "\<exists>d' q'. drain (dependents_of entries n) d q = Some (d', q') \<and> map fst d' = map fst d \<and>
    drained entries (insert n P) d' q'"
proof -
  let ?ms = "dependents_of entries n" and ?P = "insert n P"
  have d: "\<And>m v. map_of d m = Some v \<Longrightarrow> v = into entries P m" and n: "n \<notin> P"
    and zero: "\<And>x. x \<in> set (n # q) \<union> P \<Longrightarrow> into entries P x = 0" and dist: "distinct (n # q)" "set q \<inter> P = {}"
    and C: "P \<inter> cyclic entries = {}"
    using assms by (auto simp: drained_def)
  have le: "count_list ?ms m \<le> into entries P m" for m using into_insert [OF n, of entries m] by simp
  have "count_list ?ms m \<le> v" if "map_of d m = Some v" for m v using d [OF that] le [of m] by simp
  from drain_effect [OF this, where q = q] obtain d' new where D: "drain ?ms d q = Some (d', q @ new)"
    "map fst d' = map fst d" "\<And>m. map_of d' m = map_option (\<lambda>v. v - count_list ?ms m) (map_of d m)"
    "distinct new" "set new = {m \<in> set ?ms. map_of d m = Some (count_list ?ms m)}" by blast
  have new: "into entries ?P m = 0 \<and> m \<notin> set (n # q) \<union> P" if "m \<in> set new" for m
  proof -
    from that D(5) have m: "m \<in> set ?ms" "into entries P m = count_list ?ms m" using d [of m] by auto
    then have "into entries P m \<noteq> 0" by (simp add: count_list_0_iff)
    then show ?thesis using zero [of m] into_insert [OF n, of entries m] m(2) by auto
  qed
  have "n \<notin> cyclic entries"
  proof
    assume "n \<in> cyclic entries"
    from cyclic_pred [OF this] have "0 < into entries P n" using C by (auto simp: into_pos)
    then show False using zero [of n] by simp
  qed
  moreover have "into entries ?P x = 0" if "x \<in> set (n # q) \<union> P" for x
    using zero [OF that] into_insert [OF n, of entries x] by simp
  moreover have "v = into entries ?P m" if "map_of d' m = Some v" for m v
    using that D(3) [of m] d [of m] into_insert [OF n, of entries m] by auto
  ultimately have "drained entries ?P d' (q @ new)"
    using new dist D(4) C by (auto simp: drained_def)
  then show ?thesis using D(1,2) by blast
qed

lemma kahn_drains:
  "drained entries P d q \<Longrightarrow> \<exists>d' P'. kahn entries d q = Some d' \<and> map fst d' = map fst d \<and> drained entries P' d' []"
proof (induction entries d q arbitrary: P rule: kahn.induct)
  case (1 entries d)
  then show ?case by auto
next
  case (2 entries d n q)
  from drained_pop [OF 2(2)] obtain d' q' where step: "drain (dependents_of entries n) d q = Some (d', q')"
    "map fst d' = map fst d" "drained entries (insert n P) d' q'" by blast
  from 2(1) [OF step(1) refl step(3)] step show ?case by auto
qed

text \<open>The keys of \<open>indegree\<close>, in whatever order they come.\<close>

definition lists_nodes :: "index_entries \<Rightarrow> task_id list \<Rightarrow> bool" where
  "lists_nodes entries order \<longleftrightarrow> distinct order \<and> set order = graph_nodes entries"

lemma map_of_indegrees:
  "map_of (indegrees entries order) m = (if m \<in> set order then Some (into entries {} m) else None)"
  by (induction order) (auto simp: indegrees_def into_def case_prod_unfold)

lemma edge_nodes: "(a, b) \<in> edge_rel entries \<Longrightarrow> a \<in> graph_nodes entries \<and> b \<in> graph_nodes entries"
  by (force simp: edge_rel_def graph_nodes_def)

lemma cyclic_nodes: "cyclic entries \<subseteq> graph_nodes entries"
  using cyclic_pred edge_nodes by blast

lemma residue_keeps_cycles:
  assumes "lists_nodes entries order"
  shows "\<exists>residue. circular_dependencies entries order = Some (cycles_in_residue entries residue) \<and>
    distinct residue \<and> set residue \<subseteq> graph_nodes entries \<and> cyclic entries \<subseteq> set residue"
proof -
  let ?d = "indegrees entries order" and ?q = "map fst (filter (\<lambda>(_, k). k = 0) (indegrees entries order))"
  have keys: "map fst ?d = order" by (simp add: indegrees_def o_def)
  have dist: "distinct order" and nodes: "set order = graph_nodes entries"
    using assms by (auto simp: lists_nodes_def)
  have q: "?q = filter (\<lambda>n. into entries {} n = 0) order"
    by (induction order) (auto simp: indegrees_def into_def case_prod_unfold)
  have "drained entries {} ?d ?q"
    using dist by (auto simp: drained_def map_of_indegrees q split: if_splits)
  from kahn_drains [OF this] obtain d' P where k: "kahn entries ?d ?q = Some d'" "map fst d' = order"
    "drained entries P d' []" using keys by auto
  let ?residue = "map fst (filter (\<lambda>(_, k). k > 0) d')"
  have "m \<in> set ?residue" if "m \<in> cyclic entries" for m
  proof -
    have "m \<in> set (map fst d')" using that cyclic_nodes nodes k(2) by auto
    then obtain v where v: "(m, v) \<in> set d'" by auto
    then have "map_of d' m = Some v" using k(2) dist by (simp add: map_of_eq_Some_iff)
    moreover have "0 < into entries P m"
      using cyclic_pred [OF that] k(3) by (auto simp: into_pos drained_def)
    ultimately have "0 < v" using k(3) by (auto simp: drained_def)
    then show ?thesis using v by force
  qed
  moreover have "distinct ?residue" using dist k(2) by (metis distinct_map_filter)
  moreover have "set ?residue \<subseteq> graph_nodes entries" using k(2) nodes by force
  moreover have "circular_dependencies entries order = Some (cycles_in_residue entries ?residue)"
    using k(1) by (simp add: circular_dependencies_def)
  ultimately show ?thesis by blast
qed

end
