(* ===== verification/Cycles_Claims.thy ===== *)
theory Cycles_Claims
  imports Cycles_Laws Ready_Claims
begin

text \<open>
  The report of circular priors is exact, and what that leaves open: a plan whose priors name
  leaves is free of circular waits once the check passes, a plan whose priors name parents
  is not.
\<close>

subsection \<open>Reaching both ways\<close>

definition cycle_of :: "index_entries \<Rightarrow> task_id \<Rightarrow> task_id set" where
  "cycle_of entries t = {m. (t, m) \<in> (edge_rel entries)\<^sup>* \<and> (m, t) \<in> (edge_rel entries)\<^sup>*}"

lemma cycle_of_refl [simp]: "t \<in> cycle_of entries t"
  by (simp add: cycle_of_def)

lemma cycle_of_eq: "m \<in> cycle_of entries t \<Longrightarrow> cycle_of entries m = cycle_of entries t"
  by (auto simp: cycle_of_def intro: rtrancl_trans)

lemma cycle_of_cyclic:
  assumes "t \<in> cyclic entries" and "m \<in> cycle_of entries t"
  shows "m \<in> cyclic entries"
  using assms by (auto simp: cyclic_def cycle_of_def intro: rtrancl_trancl_trancl trancl_rtrancl_trancl)

lemma cycle_of_other:
  assumes "m \<in> cycle_of entries t" and "m \<noteq> t"
  shows "t \<in> cyclic entries"
  using assms by (auto simp: cyclic_def cycle_of_def rtrancl_eq_or_trancl intro: trancl_trans)

lemma dependents_iff: "b \<in> set (dependents_of entries a) \<longleftrightarrow> (a, b) \<in> edge_rel entries"
  by (force simp: dependents_of_def edge_rel_def)

lemma dependents_step:
  "step (dependents_map entries residue) = {(a, b). a \<in> set residue \<and> (a, b) \<in> edge_rel entries}"
proof -
  have "map_of (map (\<lambda>t. (t, dependents_of entries t)) residue) a =
      (if a \<in> set residue then Some (dependents_of entries a) else None)" for a
    by (induction residue) auto
  then show ?thesis by (auto simp: step_def edges_at_def dependents_map_def dependents_iff split: if_splits)
qed

lemma priors_step:
  "step (priors_map entries residue) = (step (dependents_map entries residue))\<inverse>"
proof -
  have look: "map_of (map (\<lambda>k. (k, f k)) ks) a = (if a \<in> set ks then Some (f a) else None)"
    for f :: "task_id \<Rightarrow> task_id list" and ks a by (induction ks) auto
  have "b \<in> set (edges_at (priors_map entries residue) a) \<longleftrightarrow> b \<in> set residue \<and> a \<in> set (dependents_of entries b)" for a b
    by (force simp: edges_at_def priors_map_def Let_def look)
  then show ?thesis by (auto simp: step_def dependents_step [unfolded step_def] dependents_iff)
qed

text \<open>A path between two tasks of one cycle stays on cycles, so leaving out edges that start
  outside the residue changes nothing.\<close>

lemma path_in_residue:
  assumes "cyclic entries \<subseteq> set residue" and "t \<in> cyclic entries"
    and "(t, m) \<in> (edge_rel entries)\<^sup>*" and "(m, t) \<in> (edge_rel entries)\<^sup>*"
  shows "(t, m) \<in> (step (dependents_map entries residue))\<^sup>*"
  using assms(3,4)
proof (induction rule: rtrancl_induct)
  case (step y z)
  have home: "(y, t) \<in> (edge_rel entries)\<^sup>*" using step.hyps(2) step.prems by (rule converse_rtrancl_into_rtrancl)
  then have "y \<in> cycle_of entries t" using step.hyps(1) by (simp add: cycle_of_def)
  then have "y \<in> set residue" using cycle_of_cyclic [OF assms(2)] assms(1) by blast
  then have "(y, z) \<in> step (dependents_map entries residue)" using step.hyps(2) by (simp add: dependents_step)
  with step.IH [OF home] show ?case by (rule rtrancl_into_rtrancl)
qed simp

lemma members_are_the_cycle:
  assumes "cyclic entries \<subseteq> set residue"
  shows "set (filter (\<lambda>m. m \<in> set (reachable_from t (priors_map entries residue)))
      (reachable_from t (dependents_map entries residue))) = cycle_of entries t"
proof -
  let ?G = "step (dependents_map entries residue)"
  have sub: "?G\<^sup>* \<subseteq> (edge_rel entries)\<^sup>*" by (rule rtrancl_mono) (auto simp: dependents_step)
  have "(t, m) \<in> ?G\<^sup>* \<and> (m, t) \<in> ?G\<^sup>* \<longleftrightarrow> m \<in> cycle_of entries t" for m
  proof
    assume m: "m \<in> cycle_of entries t"
    show "(t, m) \<in> ?G\<^sup>* \<and> (m, t) \<in> ?G\<^sup>*"
    proof (cases "m = t")
      case False
      then have t: "t \<in> cyclic entries" using m cycle_of_other by blast
      then have "m \<in> cyclic entries" using m cycle_of_cyclic by blast
      then show ?thesis using m t path_in_residue [OF assms] by (auto simp: cycle_of_def)
    qed simp
  qed (use sub in \<open>auto simp: cycle_of_def\<close>)
  then show ?thesis by (auto simp: reachable_from_exact priors_step rtrancl_converse)
qed

subsection \<open>Naming each cycle once\<close>

definition names_of :: "task_id set \<Rightarrow> string list" where
  "names_of ids = sorted_list_of_set (show_task_id ` ids)"

lemma sort_names:
  assumes "distinct ms" and "inj_on show_task_id (set ms)"
  shows "sort (map show_task_id ms) = names_of (set ms)"
proof -
  have "distinct (map show_task_id ms)" using assms by (simp add: distinct_map)
  then have "sort (map show_task_id ms) = sorted_list_of_set (set (map show_task_id ms))"
    by (simp only: sorted_list_of_set_sort_remdups distinct_remdups_id)
  then show ?thesis by (simp add: names_of_def)
qed

lemma hd_names_of:
  assumes "finite ids" and "t \<in> ids" and "\<And>m. m \<in> ids \<Longrightarrow> show_task_id t \<le> show_task_id m"
  shows "hd (names_of ids) = show_task_id t"
proof -
  have "names_of ids \<noteq> []" using assms(1,2) by (auto simp: names_of_def)
  then have "hd (names_of ids) = Min (show_task_id ` ids)"
    using assms(1,2) by (simp add: names_of_def sorted_list_of_set_nonempty)
  also have "\<dots> = show_task_id t" using assms by (intro Min_eqI) auto
  finally show ?thesis .
qed

lemma cycle_of_finite:
  assumes "finite (graph_nodes entries)"
  shows "finite (cycle_of entries t)"
proof -
  have "cycle_of entries t \<subseteq> insert t (graph_nodes entries)"
    by (auto simp: cycle_of_def elim: rtranclE dest: edge_nodes)
  from finite_subset [OF this] show ?thesis using assms by simp
qed

lemma on_cycle_iff:
  assumes "set members = cycle_of entries t" and "distinct members" and "t \<in> set residue"
  shows "length members > 1 \<or> t \<in> set (edges_at (dependents_map entries residue) t) \<longleftrightarrow> t \<in> cyclic entries"
proof -
  have own: "t \<in> set (edges_at (dependents_map entries residue) t) \<longleftrightarrow> (t, t) \<in> edge_rel entries"
    using assms(3) dependents_step [of entries residue] by (auto simp: step_def)
  have size: "length members > 1 \<longleftrightarrow> (\<exists>m\<in>cycle_of entries t. m \<noteq> t)"
  proof
    assume "length members > 1"
    then have "\<not> set members \<subseteq> {t}"
      using card_mono [of "{t}" "set members"] assms(2) by (auto simp: distinct_card)
    then show "\<exists>m\<in>cycle_of entries t. m \<noteq> t" using assms(1) by blast
  next
    assume "\<exists>m\<in>cycle_of entries t. m \<noteq> t"
    then obtain m where m: "m \<noteq> t" "{t, m} \<subseteq> set members" using assms(1) by auto
    then have "card {t, m} \<le> card (set members)" by (intro card_mono) auto
    then show "length members > 1" using m(1) assms(2) by (simp add: distinct_card)
  qed
  have "t \<in> cyclic entries \<longleftrightarrow> (t, t) \<in> edge_rel entries \<or> (\<exists>m\<in>cycle_of entries t. m \<noteq> t)"
  proof
    assume "t \<in> cyclic entries"
    then obtain m where "(t, m) \<in> edge_rel entries" "(m, t) \<in> (edge_rel entries)\<^sup>*"
      by (auto simp: cyclic_def dest: tranclD)
    then show "(t, t) \<in> edge_rel entries \<or> (\<exists>m\<in>cycle_of entries t. m \<noteq> t)"
      by (cases "m = t") (auto simp: cycle_of_def)
  qed (auto simp: cyclic_def dest: cycle_of_other [unfolded cyclic_def])
  then show ?thesis using own size by blast
qed

text \<open>The tasks still to come are in the order of their names; those before them are settled,
  and what is settled is whole cycles.\<close>

lemma cycle_names_exact:
  assumes "cyclic entries \<subseteq> set residue" and "inj_on show_task_id (set residue)" and "finite (graph_nodes entries)"
    and "set residue - set ts \<subseteq> set settled" and "set ts \<subseteq> set residue"
    and "\<And>x. x \<in> set settled \<Longrightarrow> cycle_of entries x \<subseteq> set settled"
    and "sorted_wrt (\<lambda>a b. show_task_id a < show_task_id b) ts"
  shows "set (cycle_names (dependents_map entries residue) (priors_map entries residue) settled ts) =
      {names_of (cycle_of entries t) |t. t \<in> set ts - set settled \<and> t \<in> cyclic entries} \<and>
    sorted_wrt (\<lambda>a b. hd a < hd b) (cycle_names (dependents_map entries residue) (priors_map entries residue) settled ts) \<and>
    (\<forall>names\<in>set (cycle_names (dependents_map entries residue) (priors_map entries residue) settled ts).
       \<exists>t\<in>set ts - set settled. hd names = show_task_id t)"
  using assms(4-7)
proof (induction ts arbitrary: settled)
  case (Cons t ts)
  let ?run = "cycle_names (dependents_map entries residue) (priors_map entries residue)"
  have later: "sorted_wrt (\<lambda>a b. show_task_id a < show_task_id b) ts" and less: "\<And>x. x \<in> set ts \<Longrightarrow> show_task_id t < show_task_id x"
    using Cons.prems(4) by auto
  show ?case
  proof (cases "t \<in> set settled")
    case True
    have "set residue - set ts \<subseteq> set settled" using Cons.prems(1) True by auto
    from Cons.IH [OF this _ Cons.prems(3) later] Cons.prems(2) True show ?thesis by auto
  next
    case False
    define members where "members = filter (\<lambda>m. m \<in> set (reachable_from t (priors_map entries residue)))
      (reachable_from t (dependents_map entries residue))"
    have mem: "set members = cycle_of entries t" "distinct members"
      unfolding members_def by (rule members_are_the_cycle [OF assms(1)], simp add: reachable_from_exact)
    have whole: "cycle_of entries x \<subseteq> set (members @ settled)" if "x \<in> set (members @ settled)" for x
      using that Cons.prems(3) [of x] mem(1) cycle_of_eq [of x entries t] by auto
    have left: "set residue - set ts \<subseteq> set (members @ settled)" using Cons.prems(1) mem(1) by auto
    note IH = Cons.IH [OF left _ whole later]
    have sub: "set ts \<subseteq> set residue" and t: "t \<in> set residue" using Cons.prems(2) by auto
    let ?rest = "?run (members @ settled) ts"
    have rest: "set ?rest = {names_of (cycle_of entries u) |u. u \<in> set ts - set (members @ settled) \<and> u \<in> cyclic entries}"
      "sorted_wrt (\<lambda>a b. hd a < hd b) ?rest"
      "\<And>names. names \<in> set ?rest \<Longrightarrow> \<exists>u\<in>set ts - set (members @ settled). hd names = show_task_id u"
      using IH sub by blast+
    have fresh: "cycle_of entries t \<subseteq> insert t (set ts)" if "t \<in> cyclic entries"
    proof
      fix x assume x: "x \<in> cycle_of entries t"
      then have "x \<in> set residue" using cycle_of_cyclic [OF that] assms(1) by blast
      moreover have "x \<notin> set settled"
        using False Cons.prems(3) [of x] cycle_of_eq [OF x] cycle_of_refl [of t entries] by blast
      ultimately show "x \<in> insert t (set ts)" using Cons.prems(1) by auto
    qed
    have on_cycle: "length members > 1 \<or> t \<in> set (edges_at (dependents_map entries residue) t) \<longleftrightarrow> t \<in> cyclic entries"
      using mem t by (rule on_cycle_iff)
    have run: "?run settled (t # ts) = (if t \<in> cyclic entries then sort (map show_task_id members) # ?rest else ?rest)"
      using False on_cycle by (simp add: members_def [symmetric] Let_def)
    show ?thesis
    proof (cases "t \<in> cyclic entries")
      case True
      have "inj_on show_task_id (set members)"
        using assms(2) mem(1) fresh [OF True] sub t by (auto intro: inj_on_subset)
      then have names: "sort (map show_task_id members) = names_of (cycle_of entries t)"
        using sort_names [OF mem(2)] mem(1) by simp
      have h: "hd (names_of (cycle_of entries t)) = show_task_id t"
        using fresh [OF True] less by (intro hd_names_of cycle_of_finite [OF assms(3)]) (auto intro: less_imp_le)
      have eq: "?run settled (t # ts) = names_of (cycle_of entries t) # ?rest" using run True names by simp
      have same: "names_of (cycle_of entries u) = names_of (cycle_of entries t)" if "u \<in> set members" for u
        using that cycle_of_eq mem(1) by simp
      have "{names_of (cycle_of entries u) |u. u \<in> set (t # ts) - set settled \<and> u \<in> cyclic entries} =
          insert (names_of (cycle_of entries t)) (set ?rest)"
        unfolding rest(1) using True False same by auto
      moreover have "hd (names_of (cycle_of entries t)) < hd names" if "names \<in> set ?rest" for names
        using rest(3) [OF that] h less by auto
      moreover have "\<exists>u\<in>set (t # ts) - set settled. hd names = show_task_id u" if "names \<in> set ?rest" for names
        using rest(3) [OF that] by auto
      ultimately show ?thesis using rest(2) h False unfolding eq by auto
    next
      case notc: False
      have "cycle_of entries t = {t}" using cycle_of_other notc by fastforce
      then have "set members = {t}" using mem(1) by simp
      then have "{names_of (cycle_of entries u) |u. u \<in> set (t # ts) - set settled \<and> u \<in> cyclic entries} = set ?rest"
        unfolding rest(1) using notc by auto
      moreover have "\<exists>u\<in>set (t # ts) - set settled. hd names = show_task_id u" if "names \<in> set ?rest" for names
        using rest(3) [OF that] by auto
      ultimately show ?thesis using run notc rest(2) by simp
    qed
  qed
qed simp

lemma same_sorted:
  fixes f :: "'a \<Rightarrow> 'b :: linorder"
  assumes "sorted_wrt (\<lambda>a b. f a < f b) xs" and "sorted_wrt (\<lambda>a b. f a < f b) ys" and "set xs = set ys"
  shows "xs = ys"
  using assms
proof (induction xs arbitrary: ys)
  case (Cons x xs)
  then obtain y ys' where ys: "ys = y # ys'" by (cases ys) auto
  have "x = y"
  proof (rule ccontr)
    assume "x \<noteq> y"
    then have "x \<in> set ys'" "y \<in> set xs" using Cons.prems(3) ys by auto
    then have "f y < f x" "f x < f y" using Cons.prems(1,2) ys by auto
    then show False by simp
  qed
  moreover have "x \<notin> set xs" "y \<notin> set ys'" using Cons.prems(1,2) ys by auto
  moreover have "insert x (set xs) = insert y (set ys')" using Cons.prems(3) ys by simp
  ultimately have "set xs = set ys'" by (metis insert_ident)
  then show ?case using Cons.IH [of ys'] Cons.prems(1,2) ys \<open>x = y\<close> by simp
qed simp

lemma graph_nodes_finite [simp]: "finite (graph_nodes entries)"
  by (simp add: graph_nodes_def)

lemma circular_dependencies_exact:
  assumes "lists_nodes entries order" and "inj_on show_task_id (graph_nodes entries)"
  shows "\<exists>cs. circular_dependencies entries order = Some cs \<and>
    set cs = {names_of (cycle_of entries t) |t. t \<in> cyclic entries} \<and> sorted_wrt (\<lambda>a b. hd a < hd b) cs"
proof -
  from residue_keeps_cycles [OF assms(1)] obtain unsorted where
    u: "circular_dependencies entries order = Some (cycles_in_residue entries unsorted)"
    "distinct unsorted" "set unsorted \<subseteq> graph_nodes entries" "cyclic entries \<subseteq> set unsorted" by blast
  define residue where "residue = sort_key show_task_id unsorted"
  have r: "set residue = set unsorted" "distinct residue" using u(2) by (simp_all add: residue_def)
  have inj: "inj_on show_task_id (set residue)" using assms(2) u(3) r(1) by (metis inj_on_subset)
  then have "distinct (map show_task_id residue)" using r(2) by (simp add: distinct_map)
  moreover have "sorted (map show_task_id residue)" by (simp add: residue_def)
  ultimately have "sorted_wrt (<) (map show_task_id residue)" by (simp add: strict_sorted_iff)
  then have strict: "sorted_wrt (\<lambda>a b. show_task_id a < show_task_id b) residue" by (simp add: sorted_wrt_map)
  have c: "cyclic entries \<subseteq> set residue" using u(4) r(1) by simp
  have "{names_of (cycle_of entries t) |t. t \<in> set residue - set [] \<and> t \<in> cyclic entries} =
      {names_of (cycle_of entries t) |t. t \<in> cyclic entries}" using c by auto
  then show ?thesis
    using cycle_names_exact [OF c inj graph_nodes_finite _ subset_refl _ strict, of "[]"] u(1)
    by (simp add: cycles_in_residue_def residue_def [symmetric] Let_def)
qed

text \<open>
  C26: The circular check never panics and names exactly the cycles of the priors, each once: the
  tasks that reach one another through priors, their names sorted, the errors in the order of
  the name each lists first. The order in which the hash maps are iterated changes nothing.
\<close>

theorem circular_priors_are_exact:
  assumes "lists_nodes entries order" and "inj_on show_task_id (graph_nodes entries)"
  shows "(\<exists>cs. circular_dependencies entries order = Some cs \<and>
      set cs = {names_of (cycle_of entries t) |t. t \<in> cyclic entries} \<and> sorted_wrt (\<lambda>a b. hd a < hd b) cs) \<and>
    (\<forall>entries' order'. set entries' = set entries \<longrightarrow> lists_nodes entries' order' \<longrightarrow>
       circular_dependencies entries' order' = circular_dependencies entries order)"
proof (intro conjI allI impI)
  from circular_dependencies_exact [OF assms]
  show exact: "\<exists>cs. circular_dependencies entries order = Some cs \<and>
      set cs = {names_of (cycle_of entries t) |t. t \<in> cyclic entries} \<and> sorted_wrt (\<lambda>a b. hd a < hd b) cs" .
  fix entries' order' assume same: "set entries' = set entries" and o: "lists_nodes entries' order'"
  have e: "edge_rel entries' = edge_rel entries" using same by (auto simp: edge_rel_def prior_edges_def)
  then have g: "graph_nodes entries' = graph_nodes entries"
    using same by (simp add: graph_nodes_def edge_rel_def)
  have c: "cyclic entries' = cyclic entries" "cycle_of entries' = cycle_of entries"
    using e by (auto simp: cyclic_def cycle_of_def)
  from circular_dependencies_exact [OF o] assms(2) g c exact
  show "circular_dependencies entries' order' = circular_dependencies entries order"
    by (auto intro!: same_sorted [of hd])
qed

definition ring_of_two :: index_entries where
  "ring_of_two = map (\<lambda>t. (id_of t, t)) [leaf [Number 1] ''todo'' [[Number 2]], leaf [Number 2] ''todo'' [[Number 1]],
     leaf [Number 3] ''todo'' [[Number 1]]]"

lemma circular_priors_are_exact_witness:
  "circular_dependencies ring_of_two [[Number 3], [Number 1], [Number 2]] = Some [[''1'', ''2'']] \<and>
   circular_dependencies ring_of_two [[Number 2], [Number 1], [Number 3]] = Some [[''1'', ''2'']]"
proof -
  have nodes: "graph_nodes ring_of_two = {[Number 1], [Number 2], [Number 3]}"
    by (auto simp: graph_nodes_def ring_of_two_def prior_edges_def)
  have o: "lists_nodes ring_of_two [[Number 3], [Number 1], [Number 2]]"
    "lists_nodes ring_of_two [[Number 2], [Number 1], [Number 3]]"
    by (auto simp: lists_nodes_def nodes)
  have "map show_task_id [[Number 1], [Number 2], [Number 3]] = [''1'', ''2'', ''3'']" by code_simp
  then have i: "inj_on show_task_id (graph_nodes ring_of_two)" by (simp add: nodes)
  have "circular_dependencies ring_of_two [[Number 3], [Number 1], [Number 2]] = Some [[''1'', ''2'']]" by code_simp
  then show ?thesis using circular_priors_are_exact [OF o(1) i] o(2) by auto
qed

subsection \<open>What the check leaves open\<close>

definition lists_index :: "index_entries \<Rightarrow> task list \<Rightarrow> bool" where
  "lists_index entries ts \<longleftrightarrow> (\<forall>i t. (i, t) \<in> set entries \<longleftrightarrow> build_task_index ts i = Some t)"

definition priors_name_leaves :: "task list \<Rightarrow> bool" where
  "priors_name_leaves ts \<longleftrightarrow>
     (\<forall>t\<in>set (collect_plan_tasks ts). \<forall>u\<in>set (collect_plan_tasks ts).
        id_of u \<in> set (t_prior (row t)) \<longrightarrow> children u = [])"

text \<open>What a task can wait for in some states of the others: any task below it, any its priors name.\<close>

definition leans :: "task list \<Rightarrow> (task \<times> task) set" where
  "leans ts = {(u, t). t \<in> set (collect_plan_tasks ts) \<and> u \<in> set (collect_plan_tasks ts) \<and>
     (u \<in> set (descendants t) \<or> id_of u \<in> set (t_prior (row t)))}"

lemma waits_lean: "waits ts ms \<subseteq> leans ts"
  by (auto simp: waits_def leans_def)

lemma no_parent_in_a_ring:
  assumes "validate_sibling_uniqueness ts = []" and "priors_name_leaves ts"
  shows "(t, t) \<in> (leans ts)\<^sup>+ \<Longrightarrow> children t = []"
proof (induction t rule: measure_induct_rule [of "\<lambda>t. length (id_of t)"])
  case (less t)
  from tranclD [OF less.prems] obtain v where v: "(t, v) \<in> leans ts" "(v, t) \<in> (leans ts)\<^sup>*" by blast
  then have ring: "(v, v) \<in> (leans ts)\<^sup>+" by (meson rtrancl_into_trancl1)
  have mem: "t \<in> set (collect_plan_tasks ts)" "v \<in> set (collect_plan_tasks ts)" using v(1) by (auto simp: leans_def)
  from v(1) consider "t \<in> set (descendants v)" | "id_of t \<in> set (t_prior (row v))" by (auto simp: leans_def)
  then show ?case
  proof cases
    case 1
    then have "length (id_of v) < length (id_of t)"
      using id_below [OF well_numbered_member [OF assms(1) mem(2)]] by blast
    then have "children v = []" using less.IH ring by blast
    then show ?thesis using 1 by simp
  next
    case 2
    then show ?thesis using assms(2) mem by (simp add: priors_name_leaves_def)
  qed
qed

lemma ring_of_priors:
  assumes "validate_sibling_uniqueness ts = []" and "\<forall>t\<in>set ts. length (id_of t) = n"
    and "priors_name_leaves ts" and "lists_index entries ts"
    and "(x, y) \<in> (leans ts)\<^sup>+" and "(y, x) \<in> (leans ts)\<^sup>*"
  shows "(id_of x, id_of y) \<in> (edge_rel entries)\<^sup>+"
proof -
  have edge: "(id_of u, id_of t) \<in> edge_rel entries" if w: "(u, t) \<in> leans ts" and r: "(t, u) \<in> (leans ts)\<^sup>*" for u t
  proof -
    have "children t = []" using w r no_parent_in_a_ring [OF assms(1,3), of t] by (meson rtrancl_into_trancl1)
    then have "id_of u \<in> set (t_prior (row t))" and t: "t \<in> set (collect_plan_tasks ts)" using w by (auto simp: leans_def)
    moreover have "(id_of t, t) \<in> set entries"
      using validated_ids_name_one_task [OF assms(1,2)] t assms(4) by (simp add: lists_index_def)
    ultimately show ?thesis by (force simp: edge_rel_def prior_edges_def)
  qed
  show ?thesis using assms(5,6)
  proof (induction rule: trancl_induct)
    case (base y)
    then show ?case using edge by blast
  next
    case (step y z)
    then have "(z, y) \<in> (leans ts)\<^sup>*" "(y, x) \<in> (leans ts)\<^sup>*"
      by (meson rtrancl_trans trancl_into_rtrancl, meson converse_rtrancl_into_rtrancl)
    then show ?case using step.IH edge [OF step.hyps(2)] by (meson trancl_into_trancl)
  qed
qed

lemma acyclic_leans:
  assumes "validate_sibling_uniqueness ts = []" and "\<forall>t\<in>set ts. length (id_of t) = n"
    and "priors_name_leaves ts" and "lists_index entries ts"
    and "lists_nodes entries order" and "inj_on show_task_id (graph_nodes entries)"
    and "circular_dependencies entries order = Some []"
  shows "acyclic (leans ts)"
proof -
  have "{names_of (cycle_of entries t) |t. t \<in> cyclic entries} = {}"
    using circular_dependencies_exact [OF assms(5,6)] assms(7) by auto
  then have "(x, x) \<notin> (edge_rel entries)\<^sup>+" for x by (auto simp: cyclic_def)
  then show ?thesis using ring_of_priors [OF assms(1-4)] unfolding acyclic_def by blast
qed

text \<open>
  C27: In a plan whose ids validation accepts, whose priors name leaves and whose circular check
  finds nothing, unfinished work is never stuck on itself: there is an open task with a
  finished subtree that is ready, or is held back by supervision, a gate, a poll's deadline, a
  missing input, or a prior that is missing or cancelled.
\<close>

theorem validated_plan_has_work:
  assumes "validate_sibling_uniqueness (rh_tasks r) = []" and "\<forall>t\<in>set (rh_tasks r). length (id_of t) = n"
    and "priors_name_leaves (rh_tasks r)" and "lists_index entries (rh_tasks r)"
    and "lists_nodes entries order" and "inj_on show_task_id (graph_nodes entries)"
    and "circular_dependencies entries order = Some []"
    and "u \<in> set (all_tasks r)" and "is_open ms u"
  shows "\<exists>t\<in>set (all_tasks r). is_open ms t \<and> descendants_are_terminal t ms \<and>
    (t \<in> set (find_ready_tasks Y r ms view) \<or> held_back Y r ms view t)"
  using acyclic_subset [OF acyclic_leans [OF assms(1-7)] waits_lean] assms(8,9)
  by (rule unfinished_plan_has_work)

text \<open>Two tasks, the second waiting on the first, whatever state the first is in.\<close>

definition chain_plan :: "string \<Rightarrow> (yaml_value \<times> yaml_value) list rhei" where
  "chain_plan s = \<lparr>rh_tasks = [leaf [Number 1] s [], leaf [Number 2] ''todo'' [[Number 1]]], rh_metadata = None\<rparr>"

definition chain_entries :: "string \<Rightarrow> index_entries" where
  "chain_entries s = map (\<lambda>t. (id_of t, t)) (rh_tasks (chain_plan s))"

lemma chain_tasks [simp]: "all_tasks (chain_plan s) = [leaf [Number 1] s [], leaf [Number 2] ''todo'' [[Number 1]]]"
  by (simp add: chain_plan_def collect_cons)

lemma chain_valid:
  "validate_sibling_uniqueness (rh_tasks (chain_plan s)) = []"
  "\<forall>t\<in>set (rh_tasks (chain_plan s)). length (id_of t) = 1"
  "priors_name_leaves (rh_tasks (chain_plan s))"
  "lists_index (chain_entries s) (rh_tasks (chain_plan s))"
  "lists_nodes (chain_entries s) [[Number 1], [Number 2]]"
  "inj_on show_task_id (graph_nodes (chain_entries s))"
  "circular_dependencies (chain_entries s) [[Number 1], [Number 2]] = Some []"
proof -
  show "validate_sibling_uniqueness (rh_tasks (chain_plan s)) = []" by code_simp
  show "\<forall>t\<in>set (rh_tasks (chain_plan s)). length (id_of t) = 1" by (simp add: chain_plan_def)
  show "priors_name_leaves (rh_tasks (chain_plan s))" by (simp add: priors_name_leaves_def)
  show "lists_index (chain_entries s) (rh_tasks (chain_plan s))"
    by (auto simp: lists_index_def build_task_index_def task_index_def chain_entries_def chain_plan_def collect_cons split: if_splits)
  have g: "graph_nodes (chain_entries s) = {[Number 1], [Number 2]}"
    by (auto simp: graph_nodes_def chain_entries_def chain_plan_def prior_edges_def)
  show "lists_nodes (chain_entries s) [[Number 1], [Number 2]]" by (auto simp: lists_nodes_def g)
  have "map show_task_id [[Number 1], [Number 2]] = [''1'', ''2'']" by code_simp
  then show "inj_on show_task_id (graph_nodes (chain_entries s))" by (simp add: g)
  show "circular_dependencies (chain_entries s) [[Number 1], [Number 2]] = Some []" by code_simp
qed

lemma validated_plan_has_work_witness:
  "\<exists>t\<in>set (all_tasks (chain_plan ''todo'')). is_open watch_set t \<and> descendants_are_terminal t watch_set \<and>
    (t \<in> set (find_ready_tasks sample_yaml (chain_plan ''todo'') watch_set quiet) \<or>
     held_back sample_yaml (chain_plan ''todo'') watch_set quiet t)"
proof -
  have u: "leaf [Number 1] ''todo'' [] \<in> set (all_tasks (chain_plan ''todo''))" by simp
  have "is_open watch_set (leaf [Number 1] ''todo'' [])" by code_simp
  from validated_plan_has_work [OF chain_valid u this] show ?thesis .
qed

end
