(* ===== verification/Dependencies_Claims.thy ===== *)
theory Dependencies_Claims
  imports Suggestions Cycles_Claims
begin

text \<open>
  The missing priors a repair may add close no cycle, and the deadlock validation does not see:
  two parents whose children wait for each other's parent.
\<close>

subsection \<open>The search behind the marking\<close>

definition waits_for :: "prior_graph \<Rightarrow> task_id rel" where
  "waits_for g = {(n, p). p \<in> set (priors_in g n)}"

lemma reaches_exact:
  assumes "consumer \<notin> set seen"
    and "waits_for g `` set seen \<subseteq> set seen \<union> set pending"
  shows "reaches g consumer producer seen pending \<longleftrightarrow>
    (\<exists>n\<in>set seen \<union> set pending. (n, consumer) \<in> (waits_for g)\<^sup>*)"
  using assms
proof (induction g consumer producer seen pending rule: reaches.induct)
  case (1 g consumer producer seen)
  have "b \<in> set seen" if "(a, b) \<in> (waits_for g)\<^sup>*" "a \<in> set seen" for a b
    using that by (induction rule: rtrancl_induct) (use 1(2) in auto)
  then show ?case using 1(1) by auto
next
  case (2 g consumer producer seen n pending)
  show ?case
  proof (cases "n = consumer")
    case True
    then show ?thesis by auto
  next
    case nc: False
    show ?thesis
    proof (cases "n \<in> set seen")
      case True
      have "waits_for g `` set seen \<subseteq> set seen \<union> set pending" using 2(4) True by auto
      from 2(1) [OF nc True 2(3) this] show ?thesis using nc True by auto
    next
      case False
      let ?pending = "rev (filter (\<lambda>p. \<not> (n = consumer \<and> p = producer)) (priors_in g n)) @ pending"
      have p: "set ?pending = {p. (n, p) \<in> waits_for g} \<union> set pending" using nc by (auto simp: waits_for_def)
      have "waits_for g `` set (n # seen) \<subseteq> set (n # seen) \<union> set ?pending"
        unfolding p using 2(4) by auto
      from 2(2) [OF nc False _ this] 2(3) nc have IH: "reaches g consumer producer (n # seen) ?pending \<longleftrightarrow>
          (\<exists>m\<in>set (n # seen) \<union> set ?pending. (m, consumer) \<in> (waits_for g)\<^sup>*)" by simp
      have "(\<exists>m\<in>set (n # seen) \<union> set ?pending. (m, consumer) \<in> (waits_for g)\<^sup>*) \<longleftrightarrow>
          (\<exists>m\<in>set seen \<union> set (n # pending). (m, consumer) \<in> (waits_for g)\<^sup>*)"
        unfolding p by (force intro: converse_rtrancl_into_rtrancl)
      then show ?thesis using IH nc False by simp
    qed
  qed
qed

lemma marked_iff: "reaches g c p [] [p] \<longleftrightarrow> (p, c) \<in> (waits_for g)\<^sup>*"
  using reaches_exact [of c "[]" g "[p]" p] by simp

lemma waits_for_propose: "waits_for (propose r g) = insert (er_consumer r, er_producer r) (waits_for g)"
  by (auto simp: waits_for_def priors_in_def propose_def Let_def update_conv' split: option.splits if_splits)

lemma waits_for_proposed:
  "waits_for (fold propose rs g) = waits_for g \<union> (\<lambda>r. (er_consumer r, er_producer r)) ` set rs"
  by (induction rs arbitrary: g) (auto simp: waits_for_propose)

lemma edge_iff: "(p, n) \<in> edge_rel entries \<longleftrightarrow> (\<exists>(i, t)\<in>set entries. p \<in> set (t_prior (row t)) \<and> n = id_of t)"
  by (auto simp: edge_rel_def prior_edges_def)

lemma waits_for_entries:
  assumes "distinct (map fst entries)" and "\<forall>(i, t)\<in>set entries. i = id_of t"
  shows "waits_for (map (\<lambda>(i, t). (i, t_prior (row t))) entries) = (edge_rel entries)\<inverse>"
proof -
  have look: "map_of (map (\<lambda>(i, t). (i, t_prior (row t))) entries) n = map_option (\<lambda>t. t_prior (row t)) (map_of entries n)" for n
    by (induction entries) auto
  have known: "map_of entries n = Some t \<longleftrightarrow> (n, t) \<in> set entries" for n t
    using assms(1) by (rule map_of_eq_Some_iff)
  have "(n, p) \<in> waits_for (map (\<lambda>(i, t). (i, t_prior (row t))) entries) \<longleftrightarrow>
      (\<exists>t. map_of entries n = Some t \<and> p \<in> set (t_prior (row t)))" for n p
    by (cases "map_of entries n") (simp_all add: waits_for_def priors_in_def look)
  moreover have "(p, n) \<in> edge_rel entries \<longleftrightarrow> (\<exists>t. (n, t) \<in> set entries \<and> p \<in> set (t_prior (row t)))" for n p
  proof
    assume "(p, n) \<in> edge_rel entries"
    then obtain i t where "(i, t) \<in> set entries" "p \<in> set (t_prior (row t))" "n = id_of t"
      unfolding edge_iff by blast
    moreover have "i = id_of t" using calculation(1) assms(2) by fast
    ultimately show "\<exists>t. (n, t) \<in> set entries \<and> p \<in> set (t_prior (row t))" by blast
  next
    assume "\<exists>t. (n, t) \<in> set entries \<and> p \<in> set (t_prior (row t))"
    then obtain t where "(n, t) \<in> set entries" "p \<in> set (t_prior (row t))" by blast
    moreover have "n = id_of t" using calculation(1) assms(2) by fast
    ultimately show "(p, n) \<in> edge_rel entries" unfolding edge_iff by blast
  qed
  ultimately show ?thesis unfolding known by auto
qed

definition repairs :: "index_entries \<Rightarrow> export_relationship list \<Rightarrow> task_id rel" where
  "repairs entries rs =
     {(er_producer r, er_consumer r) |r. r \<in> set (mark_proposed_export_cycles entries rs) \<and> er_kind r = MissingDirectPrior}"

lemma repair_not_on_a_ring:
  assumes "distinct (map fst entries)" and "\<forall>(i, t)\<in>set entries. i = id_of t" and "(p, c) \<in> repairs entries rs"
  shows "(c, p) \<notin> (edge_rel entries \<union> repairs entries rs)\<^sup>*"
proof -
  let ?g = "proposed_graph entries rs"
  have g: "(waits_for ?g)\<inverse> = edge_rel entries \<union> (\<lambda>r. (er_producer r, er_consumer r)) ` set (missing_ones rs)"
    by (auto simp: proposed_graph_def waits_for_proposed waits_for_entries [OF assms(1,2)])
  have "repairs entries rs \<subseteq> (\<lambda>r. (er_producer r, er_consumer r)) ` set (missing_ones rs)"
    by (auto simp: repairs_def mark_proposed_export_cycles_def mark_one_def missing_ones_def split: if_splits)
  then have sub: "(edge_rel entries \<union> repairs entries rs)\<^sup>* \<subseteq> ((waits_for ?g)\<inverse>)\<^sup>*"
    unfolding g by (intro rtrancl_mono) blast
  have "(p, c) \<notin> (waits_for ?g)\<^sup>*"
    using assms(3) marked_iff [of ?g c p]
    by (auto simp: repairs_def mark_proposed_export_cycles_def mark_one_def split: if_splits)
  then show ?thesis using sub by (auto simp: rtrancl_converse)
qed

lemma no_cycle_iff:
  assumes "lists_nodes entries order" and "inj_on show_task_id (graph_nodes entries)"
  shows "circular_dependencies entries order = Some [] \<longleftrightarrow> acyclic (edge_rel entries)"
  using circular_dependencies_exact [OF assms] by (auto simp: cyclic_def acyclic_def)

text \<open>
  C29: Where the circular check finds nothing, it still finds nothing once any of the missing priors
  the analysis leaves as repairs have been added, all of them at once included: only the ones
  that would close a cycle are marked as such.
\<close>

theorem repairs_close_no_cycle:
  assumes "lists_nodes entries order" and "inj_on show_task_id (graph_nodes entries)"
    and "circular_dependencies entries order = Some []"
    and "distinct (map fst entries)" and "\<forall>(i, t)\<in>set entries. i = id_of t"
    and "lists_nodes entries' order'" and "inj_on show_task_id (graph_nodes entries')"
    and "edge_rel entries' \<subseteq> edge_rel entries \<union> repairs entries rs"
  shows "circular_dependencies entries' order' = Some []"
proof -
  let ?G = "edge_rel entries \<union> repairs entries rs"
  have ac: "acyclic (edge_rel entries)" using assms(3) no_cycle_iff [OF assms(1,2)] by simp
  have "(x, y) \<in> (edge_rel entries)\<^sup>+" if "(x, y) \<in> ?G\<^sup>+" "(y, x) \<in> ?G\<^sup>*" for x y
    using that
  proof (induction rule: trancl_induct)
    case (base y)
    then show ?case using repair_not_on_a_ring [OF assms(4,5)] by blast
  next
    case (step y z)
    have zy: "(z, y) \<in> ?G\<^sup>*" and yx: "(y, x) \<in> ?G\<^sup>*"
      using step.hyps step.prems by (meson rtrancl_trans trancl_into_rtrancl, meson converse_rtrancl_into_rtrancl)
    have "(y, z) \<in> edge_rel entries" using step.hyps(2) repair_not_on_a_ring [OF assms(4,5)] zy by blast
    then show ?case using step.IH [OF yx] by (rule trancl_into_trancl [rotated])
  qed
  then have "acyclic ?G" using ac by (auto simp: acyclic_def)
  then have "acyclic (edge_rel entries')" using assms(8) by (rule acyclic_subset)
  then show ?thesis using no_cycle_iff [OF assms(6,7)] by simp
qed

definition exporting :: "task_id \<Rightarrow> task_id list \<Rightarrow> string list \<Rightarrow> consumed_export list \<Rightarrow> task" where
  "exporting i priors provides consumes =
     Task ((row (leaf i ''todo'' priors))\<lparr>t_provides := provides, t_consumes := consumes\<rparr>) []"

definition from_task :: "u32 \<Rightarrow> string \<Rightarrow> consumed_export" where
  "from_task n name = \<lparr>ce_task = [Number n], ce_name = name\<rparr>"

text \<open>Tasks 1 and 2 consume from each other, task 3 from task 1; no prior is written.\<close>

definition consuming :: "task_id list \<Rightarrow> task list" where
  "consuming priors = [exporting [Number 1] [] [''api''] [from_task 2 ''ui''],
     exporting [Number 2] [] [''ui''] [from_task 1 ''api''], exporting [Number 3] priors [] [from_task 1 ''api'']]"

definition entries_of :: "task list \<Rightarrow> index_entries" where
  "entries_of ts = map (\<lambda>t. (id_of t, t)) ts"

lemma repairs_close_no_cycle_witness:
  "map er_kind (classify_export_relationships (consuming []) (entries_of (consuming []))) =
     [ProposedCycle, ProposedCycle, MissingDirectPrior] \<and>
   circular_dependencies (entries_of (consuming [[Number 1]])) [[Number 1], [Number 2], [Number 3]] = Some []"
proof -
  let ?E = "entries_of (consuming [])" and ?E' = "entries_of (consuming [[Number 1]])"
  let ?order = "[[Number 1], [Number 2], [Number 3]]" and ?rs = "classify_tree (map_of (entries_of (consuming []))) [] (consuming [])"
  have kinds: "map er_kind (classify_export_relationships (consuming []) ?E) = [ProposedCycle, ProposedCycle, MissingDirectPrior]"
    by code_simp
  have third: "map (\<lambda>r. (er_consumer r, er_producer r)) (mark_proposed_export_cycles ?E ?rs) =
      [([Number 1], [Number 2]), ([Number 2], [Number 1]), ([Number 3], [Number 1])]"
    "map er_kind (mark_proposed_export_cycles ?E ?rs) = [ProposedCycle, ProposedCycle, MissingDirectPrior]"
    by code_simp+
  have e: "edge_rel ?E = {}" "edge_rel ?E' = {([Number 1], [Number 3])}"
    by (auto simp: edge_rel_def prior_edges_def entries_of_def consuming_def exporting_def leaf_def)
  have keys: "map fst ?E = ?order" "map fst ?E' = ?order"
    by (simp_all add: entries_of_def consuming_def exporting_def leaf_def)
  have g: "graph_nodes ?E = set ?order" "graph_nodes ?E' = set ?order"
    using e by (auto simp: graph_nodes_def keys edge_rel_def)
  have o: "lists_nodes ?E ?order" "lists_nodes ?E' ?order" by (auto simp: lists_nodes_def g)
  have "map show_task_id ?order = [''1'', ''2'', ''3'']" by code_simp
  then have i: "inj_on show_task_id (graph_nodes ?E)" "inj_on show_task_id (graph_nodes ?E')" by (simp_all add: g)
  have c: "circular_dependencies ?E ?order = Some []" by code_simp
  obtain r where "r \<in> set (mark_proposed_export_cycles ?E ?rs)" "er_consumer r = [Number 3]" "er_producer r = [Number 1]"
    "er_kind r = MissingDirectPrior"
    using third by (auto simp: map_eq_Cons_conv) blast
  then have sub: "edge_rel ?E' \<subseteq> edge_rel ?E \<union> repairs ?E ?rs" using e by (force simp: repairs_def)
  have k: "distinct (map fst ?E)" "\<forall>(i, t)\<in>set ?E. i = id_of t" by (simp add: keys, simp add: entries_of_def)
  from repairs_close_no_cycle [OF o(1) i(1) c k o(2) i(2) sub] kinds show ?thesis by blast
qed

subsection \<open>Two parents whose children wait for the other parent\<close>

definition crossed :: "task list" where
  "crossed = [tree [Number 1] ''todo'' [] [leaf [Number 1, Number 1] ''todo'' [[Number 2]]],
     tree [Number 2] ''todo'' [] [leaf [Number 2, Number 1] ''todo'' [[Number 1]]]]"

definition crossed_plan :: "(yaml_value \<times> yaml_value) list rhei" where
  "crossed_plan = \<lparr>rh_tasks = crossed, rh_metadata = None\<rparr>"

definition one_kind :: plan_structure where
  "one_kind = \<lparr>max_levels = 2, node_kinds = [''task'']\<rparr>"

text \<open>Every check of ids, priors, exports and cycles passes, and no task is ever ready: a parent waits
  for its child, the child for the other parent.\<close>

lemma crossed_members [simp]: "all_tasks crossed_plan =
  [tree [Number 1] ''todo'' [] [leaf [Number 1, Number 1] ''todo'' [[Number 2]]], leaf [Number 1, Number 1] ''todo'' [[Number 2]],
   tree [Number 2] ''todo'' [] [leaf [Number 2, Number 1] ''todo'' [[Number 1]]], leaf [Number 2, Number 1] ''todo'' [[Number 1]]]"
  by (simp add: crossed_plan_def crossed_def collect_cons)

lemma no_work_when_parent:
  assumes "\<not> task_is_supervising t (for_task ms (id_of t))" and "\<not> descendants_are_terminal t ms"
  shows "\<not> is_ready Y r ms view mode t"
  using assms
  by (auto simp: is_ready_def supervision_verdict_for_def supervision_verdict_def Let_def split: option.splits)

lemma no_work_when_blocked:
  "\<not> all_priors_done ms (plan_state_map (all_tasks r) ms) t \<Longrightarrow> \<not> is_ready Y r ms view mode t"
  by (simp add: is_ready_def Let_def)

theorem crossed_parents_deadlock:
  "validate_sibling_uniqueness crossed = [] \<and>
   validate_dependency_integrity crossed (build_task_index crossed) (\<lambda>_. False) one_kind = [] \<and>
   circular_dependencies (entries_of (collect_plan_tasks crossed))
     [[Number 1], [Number 1, Number 1], [Number 2], [Number 2, Number 1]] = Some [] \<and>
   (\<forall>t\<in>set (all_tasks crossed_plan). is_open watch_set t) \<and>
   (\<forall>view. find_ready_tasks sample_yaml crossed_plan watch_set view = [])"
proof (intro conjI)
  show "validate_sibling_uniqueness crossed = []"
    "validate_dependency_integrity crossed (build_task_index crossed) (\<lambda>_. False) one_kind = []"
    "circular_dependencies (entries_of (collect_plan_tasks crossed))
       [[Number 1], [Number 1, Number 1], [Number 2], [Number 2, Number 1]] = Some []"
    by code_simp+
  have opened: "list_all (is_open watch_set) (all_tasks crossed_plan)" by code_simp
  then show "\<forall>t\<in>set (all_tasks crossed_plan). is_open watch_set t" by (simp add: list_all_iff)
  have parents: "list_all (\<lambda>t. children t \<noteq> [] \<longrightarrow> \<not> task_is_supervising t (for_task watch_set (id_of t)) \<and>
      \<not> descendants_are_terminal t watch_set) (all_tasks crossed_plan)" by code_simp
  have leaves: "list_all (\<lambda>t. children t = [] \<longrightarrow>
      \<not> all_priors_done watch_set (plan_state_map (all_tasks crossed_plan) watch_set) t) (all_tasks crossed_plan)" by code_simp
  have "\<not> is_ready sample_yaml crossed_plan watch_set view RunnableNow t" if "t \<in> set (all_tasks crossed_plan)" for view t
    using that parents leaves no_work_when_parent no_work_when_blocked unfolding list_all_iff by blast
  then show "\<forall>view. find_ready_tasks sample_yaml crossed_plan watch_set view = []"
    by (simp add: find_ready_tasks_def find_ready_tasks_in_view_def filter_empty_conv del: crossed_members)
qed

end
