(* ===== verification/Load_Checks.thy ===== *)
theory Load_Checks
  imports Stranded Selection
begin

text \<open>
  What a machine is refused for when it loads, beside its dead ends (\<open>state_machine_profiles.rs\<close>,
  \<open>state_machine_runtime_validation.rs\<close>, \<open>callback_bound.rs\<close>, \<open>validation_helpers.rs\<close>): durations,
  callback bounds, poll blocks, supervising states, visits, and the profiles with the policy that
  binds nodes to them. A refusal is the first one the source's loops come to.
\<close>

definition refuse_when :: "bool \<Rightarrow> string \<Rightarrow> load_result" where
  "refuse_when bad message = (if bad then Err (Invalid message) else Ok ())"

definition for_every :: "('a \<Rightarrow> load_result) \<Rightarrow> 'a list \<Rightarrow> load_result" where
  "for_every check xs = try_fold (\<lambda>x _. check x) xs ()"

subsection \<open>Durations\<close>

fun duration_loop :: "string \<Rightarrow> string \<Rightarrow> u64 \<Rightarrow> bool \<Rightarrow> u64 option" where
  "duration_loop [] current so_far found = (if current \<noteq> [] \<or> \<not> found then None else Some so_far)"
| "duration_loop (c # s) current so_far found =
     (if is_ascii_digit c then duration_loop s (current @ [c]) so_far found
      else
        Option.bind (parse_below (2 ^ 64) current) (\<lambda>k.
        let n = of_nat k :: u64;
            unit_secs = (if c = CHR ''h'' then checked_mul n 3600
                         else if c = CHR ''m'' then checked_mul n 60
                         else if c = CHR ''s'' then Some n else None)
        in Option.bind unit_secs (\<lambda>secs.
           Option.bind (checked_add so_far secs) (\<lambda>sum'. duration_loop s [] sum' True))))"

definition parse_duration_secs :: "string \<Rightarrow> u64 option" where
  "parse_duration_secs s = (if trim s = [] then None else duration_loop (trim s) [] 0 False)"

subsection \<open>Callback bounds\<close>

definition check_callback_bound :: "string \<Rightarrow> string \<Rightarrow> load_result" where
  "check_callback_bound place bound =
     (case parse_duration_secs bound of
        Some secs \<Rightarrow>
          refuse_when (secs = 0) (place @ '' has '' @ quoted ''callback_timeout'' @ '' value '' @ quoted bound @
            '', but a callback bound must be greater than zero (omit it to leave callbacks unbounded)'')
      | None \<Rightarrow> Err (Invalid (place @ '' has invalid '' @ quoted ''callback_timeout'' @ '' value '' @ quoted bound @
            '' (expected format like '' @ quoted ''30s'' @ '', '' @ quoted ''5m'' @ '', '' @ quoted ''1h'' @ '', '' @
            quoted ''2h30m'' @ '')'')))"

definition validate_callback_bounds :: "state_machine \<Rightarrow> load_result" where
  "validate_callback_bounds m =
     tryb (case m_callback_timeout m of Some bound \<Rightarrow> check_callback_bound ''the machine'' bound | None \<Rightarrow> Ok ()) (\<lambda>_.
     for_every (\<lambda>rule. case r_callback_timeout rule of
         Some bound \<Rightarrow> check_callback_bound (''the edge '' @ quoted (r_from rule @ '' -> '' @ r_to rule)) bound
       | None \<Rightarrow> Ok ()) (transitions m))"

definition callback_bound :: "state_machine \<Rightarrow> transition_rule \<Rightarrow> (u64 \<times> string) option" where
  "callback_bound m rule =
     Option.bind (case r_callback_timeout rule of Some b \<Rightarrow> Some b | None \<Rightarrow> m_callback_timeout m) (\<lambda>authored.
     Option.bind (parse_duration_secs authored) (\<lambda>secs. if secs > 0 then Some (secs, authored) else None))"

subsection \<open>Poll blocks, supervising states, visits\<close>

definition has_self_loop :: "state_machine \<Rightarrow> string \<Rightarrow> bool" where
  "has_self_loop m name = list_ex (\<lambda>rule. r_from rule = name \<and> r_to rule = name) (transitions m)"

definition check_poll :: "state_machine \<Rightarrow> string \<times> state_def \<Rightarrow> load_result" where
  "check_poll m entry =
     (case entry of (name, d) \<Rightarrow>
        case poll d of
          None \<Rightarrow> Ok ()
        | Some p \<Rightarrow>
            let me = ''state '' @ quoted name in
            tryb (refuse_when (parse_duration_secs (interval p) = None)
              (me @ '' has poll.interval '' @ quoted (interval p) @
               '' that is not a valid duration (expected e.g. '' @ quoted ''30s'' @ '', '' @ quoted ''5m'' @ '', '' @
               quoted ''1h'' @ '')'')) (\<lambda>_.
            tryb (refuse_when (max_attempts p < 1)
              (me @ '' has poll.max_attempts '' @ show_nat (unat (max_attempts p)) @ '' (must be >= 1)'')) (\<lambda>_.
            tryb (refuse_when (case waiting_on p of Some label \<Rightarrow> trim label = [] | None \<Rightarrow> False)
              (me @ '' has an empty poll.waiting_on; name the person or role the poll waits on (e.g. '' @
               quoted ''author'' @ ''), or omit the field'')) (\<lambda>_.
            tryb (refuse_when (terminal d)
              (me @ '' is final and cannot declare '' @ quoted ''poll'' @ '' (terminal states have no work to execute)'')) (\<lambda>_.
            tryb (refuse_when (gating d)
              (me @ '' is gating and cannot declare '' @ quoted ''poll'' @
               '' (gating states require human action; polling executes autonomously)'')) (\<lambda>_.
            tryb (refuse_when (visits d \<noteq> None)
              (me @ '' declares both '' @ quoted ''poll'' @ '' and '' @ quoted ''visits'' @
               ''; poll.max_attempts replaces the visits cap'')) (\<lambda>_.
            tryb (refuse_when (inherits_snapshot d)
              (me @ '' declares both '' @ quoted ''poll'' @ '' and '' @ quoted ''snapshot.inherit'' @
               ''; polling states cannot inherit snapshots in v1'')) (\<lambda>_.
            refuse_when (\<not> has_self_loop m name)
              (me @ '' declares '' @ quoted ''poll'' @ '' but has no self-loop transition; add a transition with from: '' @
               name @ '' and to: '' @ name @ '' so the retry branch is reachable'')))))))))"

definition validate_poll_configuration :: "state_machine \<Rightarrow> load_result" where
  "validate_poll_configuration m = for_every (check_poll m) (states m)"

definition trim_waiting_on :: "state_def \<Rightarrow> state_def" where
  "trim_waiting_on d =
     (case poll d of
        None \<Rightarrow> d
      | Some p \<Rightarrow>
          (case waiting_on p of
             None \<Rightarrow> d
           | Some label \<Rightarrow>
               d\<lparr>poll := Some (p\<lparr>waiting_on := (if trim label = [] then None else Some (trim label))\<rparr>)\<rparr>))"

definition normalize_poll_waiting_on :: "state_machine \<Rightarrow> state_machine" where
  "normalize_poll_waiting_on m = m\<lparr>states := map (\<lambda>(name, d). (name, trim_waiting_on d)) (states m)\<rparr>"

definition execute_on_values :: "string list" where
  "execute_on_values = [''child-terminal'', ''child-transition'', ''descendant-terminal'', ''descendant-transition'']"

definition is_agent_bearing :: "state_def \<Rightarrow> bool" where
  "is_agent_bearing d \<longleftrightarrow> agent d \<noteq> None \<or> target d \<noteq> None \<or> model d \<noteq> None \<or> all_targets d \<noteq> [] \<or> all_models d \<noteq> []"

definition check_execute_on :: "state_machine \<Rightarrow> string \<times> state_def \<Rightarrow> load_result" where
  "check_execute_on m entry =
     (case entry of (name, d) \<Rightarrow>
        case execute_on_raw d of
          None \<Rightarrow> Ok ()
        | Some raw \<Rightarrow>
            let me = ''state '' @ quoted name; it = quoted ''execute_on'' in
            tryb (refuse_when (parse_execute_on raw = None)
              (me @ '' has execute_on '' @ quoted raw @ '' (expected one of '' @ join '', '' execute_on_values @ '')'')) (\<lambda>_.
            tryb (refuse_when (terminal d)
              (me @ '' is final and cannot declare '' @ it @ '' (terminal states have no work to execute)'')) (\<lambda>_.
            tryb (refuse_when (gating d)
              (me @ '' is gating and cannot declare '' @ it @
               '' (gating states require human action; a supervisor executes autonomously)'')) (\<lambda>_.
            tryb (refuse_when (program_declared d)
              (me @ '' declares both '' @ quoted ''program'' @ '' and '' @ it @
               ''; a supervisor is a continued agent session, not a program'')) (\<lambda>_.
            tryb (refuse_when (poll d \<noteq> None)
              (me @ '' declares both '' @ quoted ''poll'' @ '' and '' @ it @
               ''; a state has one trigger: `poll:` (time) or `execute_on:` (its subtree)'')) (\<lambda>_.
            tryb (refuse_when (all_targets d \<noteq> [] \<or> all_models d \<noteq> [])
              (me @ '' combines '' @ it @ '' with '' @ quoted ''all_targets'' @ '' or '' @ quoted ''all_models'' @
               ''; a supervisor is one continued session, not a fanout'')) (\<lambda>_.
            tryb (refuse_when (\<not> is_agent_bearing d)
              (me @ '' declares '' @ it @ '' but is not agent-bearing; give it an '' @ quoted ''agent'' @ '', '' @
               quoted ''target'' @ '', or '' @ quoted ''model'')) (\<lambda>_.
            refuse_when (\<not> has_self_loop m name)
              (me @ '' declares '' @ it @ '' but has no self-loop transition; add a transition with from: '' @
               name @ '' and to: '' @ name @ '' so the release branch is reachable'')))))))))"

definition validate_execute_on_configuration :: "state_machine \<Rightarrow> load_result" where
  "validate_execute_on_configuration m = for_every (check_execute_on m) (states m)"

definition check_visits :: "string \<times> state_def \<Rightarrow> load_result" where
  "check_visits entry =
     (case entry of (name, d) \<Rightarrow>
        refuse_when (visits d = Some 0)
          (''state '' @ quoted name @ '' declares '' @ quoted ''visits: 0'' @ '' but visits must be at least 1''))"

subsection \<open>Profiles and the node policy\<close>

text \<open>A YAML integer is asked whether it is a \<open>u64\<close>, a float whether it is a whole number of at least
  zero; the cast of a float saturates.\<close>

definition schema_major_version :: "state_machine \<Rightarrow> nat option" where
  "schema_major_version m =
     (case m_version m of
        Integer i \<Rightarrow> if 0 \<le> i \<and> i < 2 ^ 64 then Some (nat i) else if 2 ^ 64 \<le> i then Some (2 ^ 64 - 1) else None
      | Float (Some q) \<Rightarrow>
          if q = of_int \<lfloor>q\<rfloor> \<and> 0 \<le> q then Some (nat (min \<lfloor>q\<rfloor> (2 ^ 64 - 1))) else None
      | Float None \<Rightarrow> None
      | Text v \<Rightarrow> parse_below (2 ^ 64) (hd (split_on (CHR ''.'') v))
      | Other \<Rightarrow> None)"

definition check_allowed ::
  "state_machine \<Rightarrow> string \<Rightarrow> string \<Rightarrow> string set \<Rightarrow> load_error + string set" where
  "check_allowed m profile_name entry seen =
     (let trimmed = trim entry; me = ''profile '' @ quoted profile_name in
      tryb (refuse_when (trimmed = []) (me @ '' contains an empty entry in '' @ quoted ''allowed'')) (\<lambda>_.
      tryb (refuse_when (trimmed \<in> seen)
        (me @ '' contains duplicate '' @ quoted ''allowed'' @ '' entry '' @ quoted trimmed)) (\<lambda>_.
      tryb (refuse_when (\<not> is_valid_state m trimmed)
        (me @ '' lists unknown state '' @ quoted trimmed @ '' in '' @ quoted ''allowed'')) (\<lambda>_.
      Ok (insert trimmed seen)))))"

definition check_profile :: "state_machine \<Rightarrow> string \<times> profile \<Rightarrow> load_result" where
  "check_profile m entry =
     (case entry of (name, p) \<Rightarrow>
        let me = ''profile '' @ quoted name; allowed = set (p_allowed p) in
        tryb (refuse_when (trim name = []) (quoted ''profiles'' @ '' contains an entry with an empty name'')) (\<lambda>_.
        tryb (refuse_when (trim (p_initial p) = []) (me @ '' declares an empty '' @ quoted ''initial'')) (\<lambda>_.
        tryb (refuse_when (\<not> is_valid_state m (p_initial p))
          (me @ '' has '' @ quoted (''initial: '' @ p_initial p) @ '' but no such state is defined'')) (\<lambda>_.
        tryb (refuse_when (p_allowed p = []) (me @ '' declares an empty '' @ quoted ''allowed'' @ '' list'')) (\<lambda>_.
        tryb (try_fold (check_allowed m name) (p_allowed p) {}) (\<lambda>_.
        tryb (refuse_when (p_initial p \<notin> allowed)
          (me @ '' '' @ quoted (''initial: '' @ p_initial p) @ '' is not in its own '' @ quoted ''allowed'' @ '' list'')) (\<lambda>_.
        tryb (refuse_when (\<not> list_ex (holds_of m terminal) (p_allowed p))
          (me @ '' must allow at least one final state'')) (\<lambda>_.
        for_every (\<lambda>s. if holds_of m terminal s then Ok ()
          else refuse_when (\<not> state_can_reach_final m s (Some allowed) AnyFinal)
            (profile_dead_end_message m name s allowed)) (p_allowed p)))))))))"

definition check_by_type ::
  "(string \<times> profile) list \<Rightarrow> string \<times> string \<Rightarrow> string set \<Rightarrow> load_error + string set" where
  "check_by_type ps entry seen =
     (case entry of (kind, profile_name) \<Rightarrow>
        let trimmed = trim kind; me = quoted ''node_policy.by_type'' in
        tryb (refuse_when (trimmed = []) (me @ '' contains an empty node-kind key'')) (\<lambda>_.
        tryb (refuse_when (eq_ignore_ascii_case trimmed ''panta'' \<or> eq_ignore_ascii_case trimmed ''rhei'')
          (me @ '' must not declare the reserved kind '' @ quoted trimmed)) (\<lambda>_.
        tryb (refuse_when (map to_ascii_lowercase trimmed \<in> seen)
          (me @ '' contains duplicate kind '' @ quoted trimmed @ '' (kind matching is case-insensitive)'')) (\<lambda>_.
        tryb (refuse_when (map_of ps profile_name = None)
          (quoted (''node_policy.by_type.'' @ trimmed) @ '' references undefined profile '' @ quoted profile_name)) (\<lambda>_.
        Ok (insert (map to_ascii_lowercase trimmed) seen))))))"

definition check_override :: "(string \<times> profile) list \<Rightarrow> nat \<times> node_override \<Rightarrow> load_result" where
  "check_override ps entry =
     (case entry of (idx, ov) \<Rightarrow>
        let me = ''node_policy.overrides['' @ show_nat idx @ '']'' in
        tryb (case node_type (match_of ov) of
            None \<Rightarrow> Ok ()
          | Some kind \<Rightarrow>
              tryb (refuse_when (trim kind = [])
                (quoted (me @ ''.match.type'') @ '' must be a non-empty node kind'')) (\<lambda>_.
              refuse_when (eq_ignore_ascii_case kind ''panta'' \<or> eq_ignore_ascii_case kind ''rhei'')
                (quoted (me @ ''.match.type'') @ '' must not be '' @ quoted kind @ ''; it is a reserved kind''))) (\<lambda>_.
        tryb (refuse_when (level (match_of ov) = Some 0)
          (quoted (me @ ''.match.level'') @ '' must be at least 1; the root node is bound via '' @ quoted ''node_policy.root'')) (\<lambda>_.
        refuse_when (map_of ps (o_profile ov) = None)
          (quoted me @ '' references undefined profile '' @ quoted (o_profile ov)))))"

definition check_policy :: "state_machine \<Rightarrow> (string \<times> profile) list \<Rightarrow> node_policy \<Rightarrow> load_result" where
  "check_policy m ps p =
     tryb (refuse_when (ps = []) (quoted ''profiles'' @ '' must declare at least one profile'')) (\<lambda>_.
     tryb (for_every (check_profile m) ps) (\<lambda>_.
     tryb (refuse_when (map_of ps (np_root p) = None)
       (quoted ''node_policy.root'' @ '' references undefined profile '' @ quoted (np_root p))) (\<lambda>_.
     tryb (refuse_when (map_of ps (np_default p) = None)
       (quoted ''node_policy.default'' @ '' references undefined profile '' @ quoted (np_default p))) (\<lambda>_.
     tryb (try_fold (check_by_type ps) (by_type p) {}) (\<lambda>_.
     tryb (for_every (check_override ps) (enumerate 0 (overrides p))) (\<lambda>_.
     for_every (\<lambda>(name, d). refuse_when (initial d)
       (''state '' @ quoted name @ '' declares '' @ quoted ''initial: true'' @ '', but the machine uses '' @
        quoted ''profiles'' @ '' '' @ em_dash @ '' the initial state is a property of each profile'')) (states m)))))))"

definition validate_profiles_and_node_policy :: "state_machine \<Rightarrow> load_result" where
  "validate_profiles_and_node_policy m =
     (case (profiles m, policy m) of
        (None, None) \<Rightarrow>
          refuse_when (case schema_major_version m of Some major \<Rightarrow> major \<ge> 3 | None \<Rightarrow> False)
            (''state machine schema version 3 requires '' @ quoted ''profiles'' @ '' and '' @ quoted ''node_policy'' @ '' blocks'')
      | (Some _, None) \<Rightarrow>
          Err (Invalid (''state machine declares '' @ quoted ''profiles'' @ '' but no '' @ quoted ''node_policy'' @ '' block''))
      | (None, Some _) \<Rightarrow>
          Err (Invalid (''state machine declares '' @ quoted ''node_policy'' @ '' but no '' @ quoted ''profiles'' @ '' block''))
      | (Some ps, Some p) \<Rightarrow> check_policy m ps p)"

text \<open>The checks above in the order \<open>validate\<close> makes them, with the ones of \<open>Stranded\<close>; \<open>others\<close> stands
  for the checks of templates, snapshots, tooling, metrics and programs that come in between.\<close>

definition validate_machine :: "(state_machine \<Rightarrow> load_result) \<Rightarrow> state_machine \<Rightarrow> load_error + state_machine" where
  "validate_machine others m =
     tryb (validate_cancellation_and_sources m) (\<lambda>_.
     tryb (for_every check_visits (states m)) (\<lambda>_.
     tryb (validate_callback_bounds m) (\<lambda>_.
     tryb (others m) (\<lambda>_.
     tryb (validate_poll_configuration m) (\<lambda>_.
     let m = normalize_poll_waiting_on m in
     tryb (validate_execute_on_configuration m) (\<lambda>_.
     tryb (validate_profiles_and_node_policy m) (\<lambda>_.
     tryb (validate_terminal_state_present m) (\<lambda>_.
     tryb (validate_final_exits m) (\<lambda>_.
     tryb (validate_every_state_can_be_left m) (\<lambda>_. Ok m))))))))))"

end
