(* ===== verification/Load_Claims.thy ===== *)
theory Load_Claims
  imports Load_Checks Moves_Claims
begin

text \<open>
  What a machine that loads guarantees the code that reads it afterwards: every node has a
  profile, the profile starts in one of its states and gets to a final one without leaving
  itself, and the visit budgets are ones the engine can keep.
\<close>

lemma refuse_when_Ok [res_simps]: "refuse_when bad msg = Inr u \<longleftrightarrow> \<not> bad"
  by (simp add: refuse_when_def)

lemma try_fold_unit: "try_fold (\<lambda>x _. check x) xs () = Inr u \<longleftrightarrow> (\<forall>x\<in>set xs. check x = Inr ())"
  by (induction xs) (auto simp: res_simps)

lemma for_every_Ok [res_simps]: "for_every check xs = Inr u \<longleftrightarrow> (\<forall>x\<in>set xs. check x = Inr ())"
  by (simp add: for_every_def try_fold_unit)

lemma by_type_checked:
  "try_fold (check_by_type ps) entries seen = Inr seen' \<Longrightarrow> (k, name) \<in> set entries \<Longrightarrow> map_of ps name \<noteq> None"
  by (induction entries arbitrary: seen) (auto simp: res_simps check_by_type_def Let_def)

definition sound_profile :: "state_machine \<Rightarrow> profile \<Rightarrow> bool" where
  "sound_profile m p \<longleftrightarrow>
     p_initial p \<in> set (p_allowed p) \<and> is_valid_state m (p_initial p) \<and>
     (\<forall>s\<in>set (p_allowed p). \<exists>f. leads m (Some (set (p_allowed p))) s f \<and> state_is_terminal m f)"

lemma checked_profile:
  assumes "check_profile m (name, p) = Inr u"
  shows "sound_profile m p"
proof -
  have final: "\<And>s. s \<in> set (p_allowed p) \<Longrightarrow>
      holds_of m terminal s \<or> state_can_reach_final m s (Some (set (p_allowed p))) AnyFinal"
    and rest: "p_initial p \<in> set (p_allowed p)" "is_valid_state m (p_initial p)"
    using assms by (auto simp: check_profile_def res_simps Let_def split: if_splits)
  have "\<exists>f. leads m (Some (set (p_allowed p))) s f \<and> state_is_terminal m f" if "s \<in> set (p_allowed p)" for s
    using final [OF that]
    by (auto simp: state_can_reach_final_iff arrives_at_def state_is_terminal_def leads_def)
  then show ?thesis using rest by (simp add: sound_profile_def)
qed

lemma checked_policy:
  assumes "check_policy m ps p = Inr u"
  shows "map_of ps (np_root p) \<noteq> None \<and> map_of ps (resolved_name p kind lvl) \<noteq> None \<and>
    (\<forall>name q. map_of ps name = Some q \<longrightarrow> sound_profile m q)"
proof -
  note checks = assms [unfolded check_policy_def, simplified res_simps]
  have root: "map_of ps (np_root p) \<noteq> None" and default: "map_of ps (np_default p) \<noteq> None"
    and profiles: "\<And>q. q \<in> set ps \<Longrightarrow> check_profile m q = Inr ()"
    and overrides: "\<And>q. q \<in> set (enumerate 0 (overrides p)) \<Longrightarrow> check_override ps q = Inr ()"
    using checks by blast+
  obtain seen where types: "try_fold (check_by_type ps) (by_type p) {} = Inr seen" using checks by blast
  have over: "map_of ps (o_profile ov) \<noteq> None" if ov: "ov \<in> set (overrides p)" for ov
  proof -
    from ov obtain k where "k < length (overrides p)" "overrides p ! k = ov" by (auto simp: in_set_conv_nth)
    then have "(k, ov) \<in> set (enumerate 0 (overrides p))" by (simp add: in_set_enumerate_eq)
    from overrides [OF this] show ?thesis by (auto simp: check_override_def res_simps Let_def)
  qed
  have "map_of ps (resolved_name p kind lvl) \<noteq> None"
    using over default by_type_checked [OF types]
    by (auto simp: resolved_name_def split: option.splits dest!: find_Some_props)
  moreover have "\<forall>name q. map_of ps name = Some q \<longrightarrow> sound_profile m q"
    using profiles checked_profile by (blast dest: map_of_SomeD)
  ultimately show ?thesis using root by blast
qed

subsection \<open>The budgets of a machine that loads\<close>

lemma normalized_state_of: "state_of (normalize_poll_waiting_on m) s = map_option trim_waiting_on (state_of m s)"
proof -
  have "map_of (map (\<lambda>(name, d). (name, trim_waiting_on d)) xs) s = map_option trim_waiting_on (map_of xs s)" for xs
    by (induction xs) auto
  then show ?thesis by (simp add: normalize_poll_waiting_on_def)
qed

lemma trim_keeps: "visits (trim_waiting_on d) = visits d" "poll (trim_waiting_on d) = None \<longleftrightarrow> poll d = None"
  by (auto simp: trim_waiting_on_def split: option.splits)

lemma budgets_of_loaded:
  assumes "for_every check_visits (states m) = Inr u" and "validate_poll_configuration m = Inr v"
  shows "budgets_ok (normalize_poll_waiting_on m)"
  unfolding budgets_ok_def
proof (intro allI impI)
  fix s limit assume "state_visit_limit (normalize_poll_waiting_on m) s = Some limit"
  then obtain d n where d: "state_of m s = Some d" and n: "visits d = Some n" and limit: "limit = ucast n"
    by (auto simp: state_visit_limit_def normalized_state_of trim_keeps bind_eq_Some_conv)
  then have mem: "(s, d) \<in> set (states m)" by (simp add: map_of_SomeD)
  then have "visits d \<noteq> Some 0" using assms(1) by (fastforce simp: res_simps check_visits_def)
  then have "n \<noteq> 0" using n by simp
  then have "0 < unat n" by (simp add: unat_gt_0)
  moreover have "unat limit = unat n"
    using unsigned_less [where 'a = nat, of n] by (simp add: limit unsigned_ucast_eq take_bit_nat_eq_self)
  ultimately have "1 \<le> limit" by (simp add: word_le_nat_alt)
  moreover have "poll d = None"
    using assms(2) mem n by (force simp: validate_poll_configuration_def res_simps check_poll_def Let_def split: option.splits)
  ultimately show "1 \<le> limit \<and> poll_of (normalize_poll_waiting_on m) s = None"
    using d by (simp add: poll_of_def normalized_state_of trim_keeps)
qed

text \<open>
  C31: In a machine that loads and declares profiles, every node of every kind and level has one,
  the root too; each profile starts in a declared state of its own, and from each of its states a
  chain of counted edges that never leaves the profile ends in a final state. No visit budget is
  zero or sits on a polling state, so the budgets are ones the engine keeps.
\<close>

theorem loaded_machine_types_its_nodes:
  assumes "validate_machine others m = Ok m'" and "profiles m \<noteq> None"
  shows "(\<forall>kind lvl. \<exists>p. profile_for_node m' kind lvl = Some p \<and> sound_profile m' p) \<and>
    (\<exists>p. root_profile m' = Some p \<and> sound_profile m' p) \<and> budgets_ok m'"
proof -
  note checks = assms(1) [unfolded validate_machine_def Let_def, simplified res_simps]
  have m': "m' = normalize_poll_waiting_on m" and vis: "\<exists>u. for_every check_visits (states m) = Inr u"
    and pol: "validate_poll_configuration m = Inr ()"
    and prof: "validate_profiles_and_node_policy m' = Inr ()"
    using checks by (auto simp: for_every_Ok)
  have same: "profiles m' = profiles m" "policy m' = policy m" by (simp_all add: m' normalize_poll_waiting_on_def)
  then obtain ps p where pp: "profiles m' = Some ps" "policy m' = Some p" and c: "check_policy m' ps p = Inr ()"
    using assms(2) prof by (auto simp: validate_profiles_and_node_policy_def split: option.splits)
  have "\<exists>q. profile_for_node m' kind lvl = Some q \<and> sound_profile m' q" for kind lvl
    using checked_policy [OF c, of kind lvl] pp by (auto simp: profile_for_node_def)
  moreover have "\<exists>q. root_profile m' = Some q \<and> sound_profile m' q"
    using checked_policy [OF c, of "[]" 0] pp by (auto simp: root_profile_def)
  moreover have "budgets_ok m'" using budgets_of_loaded vis pol unfolding m' by blast
  ultimately show ?thesis by blast
qed

definition typed_machine :: state_machine where
  "typed_machine = review_machine\<lparr>
     states := [(''todo'', plain_state), (''doing'', plain_state\<lparr>visits := Some 2\<rparr>), (''done'', plain_state\<lparr>terminal := True\<rparr>)],
     transitions := [edge ''todo'' ''doing'', edge ''doing'' ''doing'', edge ''doing'' ''done''],
     profiles := Some [(''work'', \<lparr>p_initial = ''todo'', p_allowed = [''todo'', ''doing'', ''done''], p_transition_limit = None\<rparr>)],
     policy := Some \<lparr>np_root = ''work'', np_default = ''work'', by_type = [(''bug'', ''work'')], overrides = []\<rparr>\<rparr>"

lemma loaded_machine_types_its_nodes_witness:
  "validate_machine (\<lambda>_. Ok ()) typed_machine = Ok typed_machine \<and>
   (\<exists>p. profile_for_node typed_machine ''Bug'' 1 = Some p \<and> sound_profile typed_machine p)"
proof -
  have v: "validate_machine (\<lambda>_. Ok ()) typed_machine = Ok typed_machine" by code_simp
  have "profiles typed_machine \<noteq> None" by (simp add: typed_machine_def)
  from loaded_machine_types_its_nodes [OF v this] v show ?thesis by blast
qed

end
