(* ===== verification/Waits.thy ===== *)
theory Waits
  imports Plan_Laws
begin

text \<open>
  What the pass loop asks before it decides a run is finished (\<open>run_pass_remaining_work.rs\<close>, with
  the readers of \<open>provider_limits.rs\<close> over a whole plan): how many tasks are final, when the next
  deadline falls due, and whether everything left waits on a person, a clock or a provider. The
  judgement walks subtrees and priors; \<open>memo\<close> holds the verdicts reached so far and \<open>stack\<close> the
  tasks of the present walk, which a walk leaves as it found it. A scope is the set of rhei ids
  the run is narrowed to.
\<close>

type_synonym rhei_scope = "string set option"

definition task_in_rhei_scope :: "rhei_scope \<Rightarrow> string \<Rightarrow> bool" where
  "task_in_rhei_scope scope i =
     (case scope of None \<Rightarrow> True | Some ids \<Rightarrow> takeWhile (\<lambda>c. c \<noteq> CHR ''.'') i \<in> ids)"

definition scope_label :: "rhei_scope \<Rightarrow> string" where
  "scope_label scope = (case scope of Some ids \<Rightarrow> join '', '' (sorted_list_of_set ids) | None \<Rightarrow> ''whole project'')"

subsection \<open>Counting\<close>

definition total_task_count :: "'m rhei \<Rightarrow> nat" where
  "total_task_count r = length (all_tasks r)"

definition terminal_task_count :: "'m rhei \<Rightarrow> machine_set \<Rightarrow> nat" where
  "terminal_task_count r ms =
     length (filter (\<lambda>t. is_terminal_state (state_text t) (for_task ms (id_of t))) (all_tasks r))"

definition format_task_label :: "task \<Rightarrow> string" where
  "format_task_label t = ''Task '' @ show_task_id (id_of t) @ '': '' @ t_title (row t)"

definition newly_discovered_tasks :: "string set \<Rightarrow> task list \<Rightarrow> string list" where
  "newly_discovered_tasks before after =
     map format_task_label (filter (\<lambda>t. show_task_id (id_of t) \<notin> before) after)"

definition scoped_unfinished_task_exists :: "'m rhei \<Rightarrow> machine_set \<Rightarrow> rhei_scope \<Rightarrow> bool" where
  "scoped_unfinished_task_exists r ms scope =
     list_ex (\<lambda>t. task_in_rhei_scope scope (show_task_id (id_of t)) \<and>
       \<not> is_terminal_state (state_text t) (for_task ms (id_of t))) (all_tasks r)"

definition waiting_on_person :: "state_def \<Rightarrow> string option" where
  "waiting_on_person d = Option.bind (poll d) waiting_on"

text \<open>What one candidate of a narrowed run waits on: a claim answers nothing, then the prior, then
  the person.\<close>

definition waiting_line ::
  "'m rhei \<Rightarrow> machine_set \<Rightarrow> rhei_scope \<Rightarrow> task \<Rightarrow> string option" where
  "waiting_line r ms scope t =
     (if t_assignee (row t) \<noteq> None then None
      else
        let m = for_task ms (id_of t); s = normalized_state_name (state_text t) m in
        map_option (\<lambda>on. ''Task '' @ show_task_id (id_of t) @ '' waiting on '' @ on)
          (case first_blocking_prior t (plan_state_map (all_tasks r) ms) ms (task_in_rhei_scope scope) of
             Some blocker \<Rightarrow> Some blocker
           | None \<Rightarrow> Option.bind (state_of m s) waiting_on_person))"

definition no_advancement_summary :: "'m rhei \<Rightarrow> machine_set \<Rightarrow> rhei_scope \<Rightarrow> string" where
  "no_advancement_summary r ms scope =
     (if scope = None then ''No tasks could be advanced.''
      else
        let blocked = List.map_filter (waiting_line r ms scope)
              (filter (\<lambda>t. \<not> is_terminal_state (state_text t) (for_task ms (id_of t)))
                (filter (\<lambda>t. task_in_rhei_scope scope (show_task_id (id_of t)))
                  (filter (\<lambda>t. descendants_are_terminal t ms) (all_tasks r))));
            detail = (if blocked = [] then []
              else '': '' @ join '', '' (take 3 blocked) @
                (if length blocked > 3 then '' (+'' @ show_nat (length blocked - 3) @ '' more)'' else []))
        in ''No tasks could be advanced in the --rhei scope ('' @ scope_label scope @ '')'' @ detail @ ''.'')"

subsection \<open>Deadlines\<close>

definition least :: "u64 list \<Rightarrow> u64 option" where
  "least ns = (case ns of [] \<Rightarrow> None | n # ns \<Rightarrow> Some (fold min ns n))"

definition greatest :: "u64 list \<Rightarrow> u64 option" where
  "greatest ns = (case ns of [] \<Rightarrow> None | n # ns \<Rightarrow> Some (fold max ns n))"

definition task_provider_limit :: "('m, 'y) yaml \<Rightarrow> 'm rhei \<Rightarrow> machine_set \<Rightarrow> task \<Rightarrow> provider_limit option" where
  "task_provider_limit Y r ms t =
     provider_limit_for_task_state Y (rh_metadata r) (id_of t)
       (normalized_state_name (state_text t) (for_task ms (id_of t)))"

definition provider_deadline_for_identity ::
  "('m, 'y) yaml \<Rightarrow> outlook \<Rightarrow> 'm rhei \<Rightarrow> machine_set \<Rightarrow> provider_identity \<Rightarrow> u64 option" where
  "provider_deadline_for_identity Y view r ms identity =
     greatest (List.map_filter (\<lambda>t.
       Option.bind (task_provider_limit Y r ms t) (\<lambda>limit.
       if pl_identity limit = identity then deadline_epoch (rfc3339_secs view) limit else None))
     (all_tasks r))"

definition active_provider_deadline_for_identity ::
  "('m, 'y) yaml \<Rightarrow> outlook \<Rightarrow> 'm rhei \<Rightarrow> machine_set \<Rightarrow> provider_identity \<Rightarrow> u64 \<Rightarrow> u64 option" where
  "active_provider_deadline_for_identity Y view r ms identity now =
     Option.bind (provider_deadline_for_identity Y view r ms identity)
       (\<lambda>deadline. if deadline > now then Some deadline else None)"

definition resolved_provider_eligibility_deadline ::
  "('m, 'y) yaml \<Rightarrow> outlook \<Rightarrow> 'm rhei \<Rightarrow> machine_set \<Rightarrow> provider_identity option \<Rightarrow> u64 \<Rightarrow> u64 option" where
  "resolved_provider_eligibility_deadline Y view r ms resolved now =
     Option.bind resolved (\<lambda>identity.
       map_option (\<lambda>deadline. max deadline now) (provider_deadline_for_identity Y view r ms identity))"

definition has_pending_provider_wait ::
  "('m, 'y) yaml \<Rightarrow> outlook \<Rightarrow> 'm rhei \<Rightarrow> machine_set \<Rightarrow> bool" where
  "has_pending_provider_wait Y view r ms =
     list_ex (\<lambda>t. \<not> is_terminal_state (state_text t) (for_task ms (id_of t)) \<and>
       Option.bind (task_provider_limit Y r ms t) (deadline_epoch (rfc3339_secs view)) \<noteq> None) (all_tasks r)"

definition earliest_pending_poll_deadline ::
  "('m, 'y) yaml \<Rightarrow> outlook \<Rightarrow> 'm rhei \<Rightarrow> machine_set \<Rightarrow> rhei_scope \<Rightarrow> u64 option" where
  "earliest_pending_poll_deadline Y view r ms scope =
     least (List.map_filter (\<lambda>t.
         let m = for_task ms (id_of t); s = normalized_state_name (state_text t) m
         in pending_poll_deadline Y view r m t s (pending_since view))
       (filter (\<lambda>t. task_in_rhei_scope scope (show_task_id (id_of t))) (all_tasks r)))"

definition deadline_alone_would_release ::
  "('m, 'y) yaml \<Rightarrow> task \<Rightarrow> 'm rhei \<Rightarrow> machine_set \<Rightarrow> (task_id \<Rightarrow> string option) \<Rightarrow> bool" where
  "deadline_alone_would_release Y t r ms state_map \<longleftrightarrow>
     t_assignee (row t) = None \<and> descendants_are_terminal t ms \<and>
     held_by_supervisor Y t r ms = None \<and> all_priors_done ms state_map t"

definition task_agent_deadline ::
  "('m, 'y) yaml \<Rightarrow> outlook \<Rightarrow> 'm rhei \<Rightarrow> machine_set \<Rightarrow> u64 \<Rightarrow> task \<Rightarrow> u64 option" where
  "task_agent_deadline Y view r ms since t =
     (let m = for_task ms (id_of t); s = normalized_state_name (state_text t) m in
      Option.bind (state_of m s) (\<lambda>d.
      if terminal d \<or> gating d then None
      else
        let by_poll = pending_poll_deadline Y view r m t s since;
            agents = (if program_declared d then Some [] else resolved_agents view m t s)
        in Option.bind agents (\<lambda>resolved.
             let by_provider = greatest (List.map_filter
                   (\<lambda>agent. resolved_provider_eligibility_deadline Y view r ms agent (read_at view)) resolved);
                 by_provider = (if by_poll \<noteq> None \<or> \<not> poll_bound_spent view m t s then by_provider else None)
             in (case (by_poll, by_provider) of
                   (Some p, Some q) \<Rightarrow> Some (max p q)
                 | (Some p, None) \<Rightarrow> Some p
                 | (None, q) \<Rightarrow> q))))"

definition agent_deadline_since ::
  "('m, 'y) yaml \<Rightarrow> outlook \<Rightarrow> 'm rhei \<Rightarrow> machine_set \<Rightarrow> rhei_scope \<Rightarrow> u64 \<Rightarrow> u64 option" where
  "agent_deadline_since Y view r ms scope since =
     least (List.map_filter (task_agent_deadline Y view r ms since)
       (filter (\<lambda>t. deadline_alone_would_release Y t r ms (plan_state_map (all_tasks r) ms))
         (filter (\<lambda>t. task_in_rhei_scope scope (show_task_id (id_of t))) (all_tasks r))))"

definition earliest_pending_agent_deadline ::
  "('m, 'y) yaml \<Rightarrow> outlook \<Rightarrow> 'm rhei \<Rightarrow> machine_set \<Rightarrow> rhei_scope \<Rightarrow> u64 option" where
  "earliest_pending_agent_deadline Y view r ms scope =
     agent_deadline_since Y view r ms scope (pending_since view)"

subsection \<open>Deliberate waits\<close>

definition own_gate_pending :: "task \<Rightarrow> machine_set \<Rightarrow> bool" where
  "own_gate_pending t ms =
     (let m = for_task ms (id_of t) in
      holds_of m (\<lambda>d. gating d \<and> \<not> terminal d) (normalized_state_name (state_text t) m))"

definition has_pending_human_gate :: "'m rhei \<Rightarrow> machine_set \<Rightarrow> bool" where
  "has_pending_human_gate r ms = list_ex (\<lambda>t. own_gate_pending t ms) (all_tasks r)"

definition provider_parked :: "('m, 'y) yaml \<Rightarrow> outlook \<Rightarrow> 'm rhei \<Rightarrow> machine_set \<Rightarrow> task \<Rightarrow> bool" where
  "provider_parked Y view r ms t =
     (case Option.bind (task_provider_limit Y r ms t) (deadline_epoch (rfc3339_secs view)) of
        Some deadline \<Rightarrow> deadline > read_at view
      | None \<Rightarrow> False)"

text \<open>What a ticket answers before another ticket is asked, and whom it asks next: every open
  descendant, or the unsatisfied priors the plan holds until one waits.\<close>

datatype own_answer = Settled bool | AllOf "task list" | AnyOf "task list"

definition unsatisfied_priors :: "'m rhei \<Rightarrow> machine_set \<Rightarrow> task \<Rightarrow> task list" where
  "unsatisfied_priors r ms t =
     List.map_filter (\<lambda>dep. case plan_state_map (all_tasks r) ms dep of
         None \<Rightarrow> None
       | Some s \<Rightarrow>
           if dependency_is_satisfied s (for_task ms dep) then None
           else find (\<lambda>u. id_of u = dep) (all_tasks r))
       (t_prior (row t))"

definition own_answer ::
  "('m, 'y) yaml \<Rightarrow> outlook \<Rightarrow> 'm rhei \<Rightarrow> machine_set \<Rightarrow> task \<Rightarrow> own_answer" where
  "own_answer Y view r ms t =
     (let m = for_task ms (id_of t);
          s = normalized_state_name (state_text t) m;
          gate = own_gate_pending t ms;
          claimed = t_assignee (row t) \<noteq> None;
          opened = open_descendant_tasks ms t
      in if (case held_by_supervisor Y t r ms of Some hold \<Rightarrow> sh_awaiting_human hold | None \<Rightarrow> False) then Settled True
         else if task_is_supervising t m \<and> gate then Settled True
         else if task_is_supervising t m \<and> claimed then Settled False
         else if opened \<noteq> [] then AllOf opened
         else if gate then Settled True
         else if claimed then Settled False
         else if pending_poll_deadline Y view r m t s (pending_since view) \<noteq> None then Settled True
         else if provider_parked Y view r ms t then Settled True
         else AnyOf (unsatisfied_priors r ms t))"

type_synonym verdicts = "task_id \<Rightarrow> bool option"

lemma collect_concat: "collect_plan_tasks ts = concat (map (\<lambda>t. t # descendants t) ts)"
  by (induction ts) (simp_all add: collect_cons)

lemma open_descendants_filter:
  "open_descendant_tasks ms t =
   filter (\<lambda>u. \<not> is_terminal_state (state_text u) (for_task ms (id_of u))) (descendants t)"
proof (induction t rule: tree_induct)
  case (task t)
  obtain f cs where t: "t = Task f cs" by (cases t)
  have "map (open_descendant_tasks ms) cs = map (\<lambda>c. filter
      (\<lambda>u. \<not> is_terminal_state (state_text u) (for_task ms (id_of u))) (descendants c)) cs"
    using task by (simp add: t)
  then show ?case unfolding t task.sel collect_concat [of cs]
    by (simp add: filter_concat o_def cong: map_cong) (rule arg_cong [where f = concat], simp)
qed

lemma all_of_below:
  assumes "own_answer Y view r ms t = AllOf us"
  shows "set us \<subseteq> set (descendants t)"
  using assms by (auto simp: own_answer_def Let_def open_descendants_filter split: if_splits option.splits)

lemma unsatisfied_priors_named:
  "u \<in> set (unsatisfied_priors r ms t) \<Longrightarrow> u \<in> set (all_tasks r) \<and> id_of u \<in> set (t_prior (row t))"
  by (auto simp: unsatisfied_priors_def in_map_filter dest: find_Some_props split: option.splits if_splits)

lemma any_of_named:
  assumes "own_answer Y view r ms t = AnyOf us"
  shows "us = unsatisfied_priors r ms t"
  using assms by (auto simp: own_answer_def Let_def split: if_splits option.splits)

text \<open>The tickets a walk can still put on the stack.\<close>

definition ids_left :: "'m rhei \<Rightarrow> task list \<Rightarrow> task_id set \<Rightarrow> task_id set" where
  "ids_left r ts stack = id_of ` set (collect_plan_tasks (ts @ rh_tasks r)) - stack"

lemma ids_left_finite [simp]: "finite (ids_left r ts stack)"
  by (simp add: ids_left_def)

lemma top_in_collect: "u \<in> set ts \<Longrightarrow> u \<in> set (collect_plan_tasks (ts @ vs))"
  using in_collect [of u "ts @ vs"] by auto

lemma ids_left_mono:
  assumes "\<And>u. u \<in> set ts \<Longrightarrow> u \<in> set (collect_plan_tasks (vs @ rh_tasks r))"
  shows "ids_left r ts stack \<subseteq> ids_left r vs stack"
proof -
  have "u \<in> set (collect_plan_tasks (vs @ rh_tasks r))" if "u \<in> set (collect_plan_tasks (ts @ rh_tasks r))" for u
  proof -
    from that obtain t where t: "t \<in> set ts \<union> set (rh_tasks r)" "u = t \<or> u \<in> set (descendants t)"
      using in_collect [of u "ts @ rh_tasks r"] by (metis set_append)
    then have "t \<in> set (collect_plan_tasks (vs @ rh_tasks r))"
      using assms in_collect [of t "vs @ rh_tasks r"] by (metis Un_iff set_append)
    then show ?thesis using t(2) collect_descendants by blast
  qed
  then show ?thesis by (auto simp: ids_left_def)
qed

lemma ids_left_step:
  assumes "id_of t \<notin> stack"
    and "own_answer Y view r ms t = AllOf us \<or> own_answer Y view r ms t = AnyOf us"
  shows "card (ids_left r us (insert (id_of t) stack)) < card (ids_left r [t] stack)"
proof -
  have "ids_left r us stack \<subseteq> ids_left r [t] stack"
  proof (rule ids_left_mono)
    fix u assume "u \<in> set us"
    then have "u \<in> set (descendants t) \<or> u \<in> set (all_tasks r)"
      using assms(2) all_of_below unsatisfied_priors_named any_of_named by blast
    then show "u \<in> set (collect_plan_tasks ([t] @ rh_tasks r))" by (auto simp: collect_cons)
  qed
  moreover have "id_of t \<in> ids_left r [t] stack" using assms(1) by (simp add: ids_left_def collect_cons)
  ultimately have "ids_left r us (insert (id_of t) stack) \<subset> ids_left r [t] stack" by (auto simp: ids_left_def)
  then show ?thesis by (rule psubset_card_mono [rotated]) simp
qed

lemma ids_left_head: "card (ids_left r [t] stack) \<le> card (ids_left r (t # ts) stack)"
  by (rule card_mono [OF ids_left_finite], rule ids_left_mono) (simp add: collect_cons)

lemma ids_left_tail: "card (ids_left r ts stack) \<le> card (ids_left r (t # ts) stack)"
  by (rule card_mono [OF ids_left_finite], rule ids_left_mono) (simp add: collect_cons top_in_collect)

function
  judge :: "('m, 'y) yaml \<Rightarrow> outlook \<Rightarrow> 'm rhei \<Rightarrow> machine_set \<Rightarrow> task_id set \<Rightarrow> verdicts \<Rightarrow> task \<Rightarrow> bool option \<times> verdicts" and
  all_wait :: "('m, 'y) yaml \<Rightarrow> outlook \<Rightarrow> 'm rhei \<Rightarrow> machine_set \<Rightarrow> task_id set \<Rightarrow> verdicts \<Rightarrow> task list \<Rightarrow> bool \<times> verdicts" and
  any_waits :: "('m, 'y) yaml \<Rightarrow> outlook \<Rightarrow> 'm rhei \<Rightarrow> machine_set \<Rightarrow> task_id set \<Rightarrow> verdicts \<Rightarrow> task list \<Rightarrow> bool \<times> verdicts"
where
  "judge Y view r ms stack memo t =
     (case memo (id_of t) of
        Some answer \<Rightarrow> (Some answer, memo)
      | None \<Rightarrow>
          if id_of t \<in> stack then (None, memo)
          else
            let (answer, memo') =
              (case own_answer Y view r ms t of
                 Settled b \<Rightarrow> (b, memo)
               | AllOf us \<Rightarrow> all_wait Y view r ms (insert (id_of t) stack) memo us
               | AnyOf us \<Rightarrow> any_waits Y view r ms (insert (id_of t) stack) memo us)
            in (Some answer, memo'(id_of t \<mapsto> answer)))"
| "all_wait Y view r ms stack memo [] = (True, memo)"
| "all_wait Y view r ms stack memo (t # ts) =
     (case judge Y view r ms stack memo t of
        (answer, memo') \<Rightarrow>
          if answer = Some False then (False, memo') else all_wait Y view r ms stack memo' ts)"
| "any_waits Y view r ms stack memo [] = (False, memo)"
| "any_waits Y view r ms stack memo (t # ts) =
     (case judge Y view r ms stack memo t of
        (answer, memo') \<Rightarrow>
          if answer = Some True then (True, memo') else any_waits Y view r ms stack memo' ts)"
  by pat_completeness auto
termination
  by (relation "measures
      [\<lambda>x. case x of
         Inl (Y, view, r, ms, stack, memo, t) \<Rightarrow> card (ids_left r [t] stack)
       | Inr (Inl (Y, view, r, ms, stack, memo, ts)) \<Rightarrow> card (ids_left r ts stack)
       | Inr (Inr (Y, view, r, ms, stack, memo, ts)) \<Rightarrow> card (ids_left r ts stack),
       \<lambda>x. case x of Inl _ \<Rightarrow> 0
       | Inr (Inl (Y, view, r, ms, stack, memo, ts)) \<Rightarrow> Suc (length ts)
       | Inr (Inr (Y, view, r, ms, stack, memo, ts)) \<Rightarrow> Suc (length ts)]")
    (auto simp: le_neq_implies_less ids_left_head ids_left_tail intro: ids_left_step [OF _ disjI1] ids_left_step [OF _ disjI2])

definition remaining_work_is_only_gating_or_poll_blocked ::
  "('m, 'y) yaml \<Rightarrow> 'm rhei \<Rightarrow> machine_set \<Rightarrow> rhei_scope \<Rightarrow> outlook \<Rightarrow> bool" where
  "remaining_work_is_only_gating_or_poll_blocked Y r ms scope view =
     fst (all_wait Y view r ms {} Map.empty
       (filter (\<lambda>t. \<not> is_terminal_state (state_text t) (for_task ms (id_of t)))
         (filter (\<lambda>t. task_in_rhei_scope scope (show_task_id (id_of t))) (all_tasks r))))"

definition should_wait_for_human_gate ::
  "('m, 'y) yaml \<Rightarrow> 'm rhei \<Rightarrow> machine_set \<Rightarrow> rhei_scope \<Rightarrow> outlook \<Rightarrow> bool" where
  "should_wait_for_human_gate Y r ms scope view \<longleftrightarrow>
     has_pending_human_gate r ms \<and> remaining_work_is_only_gating_or_poll_blocked Y r ms scope view"

end
