(* ===== verification/Waits_Claims.thy ===== *)
theory Waits_Claims
  imports Waits Cycles_Claims
begin

text \<open>
  The judgement that ends a run is exact over a plan validation accepts: it finds every unfinished
  task waiting exactly when each one's wait bottoms out at a gate, a clock or a provider, whatever
  order the tasks come in and however the verdicts are remembered. Over a plan with a ring of
  waits, which validation does not see, the answer depends on where the walk begins.
\<close>

subsection \<open>What a deliberate wait is\<close>

inductive waits_deliberately :: "('m, 'y) yaml \<Rightarrow> outlook \<Rightarrow> 'm rhei \<Rightarrow> machine_set \<Rightarrow> task \<Rightarrow> bool"
  for Y view r ms where
  own: "own_answer Y view r ms t = Settled True \<Longrightarrow> waits_deliberately Y view r ms t"
| subtree: "own_answer Y view r ms t = AllOf us \<Longrightarrow> \<forall>u\<in>set us. waits_deliberately Y view r ms u \<Longrightarrow>
    waits_deliberately Y view r ms t"
| prior: "own_answer Y view r ms t = AnyOf us \<Longrightarrow> u \<in> set us \<Longrightarrow> waits_deliberately Y view r ms u \<Longrightarrow>
    waits_deliberately Y view r ms t"

inductive_simps waits_deliberately_iff: "waits_deliberately Y view r ms t"

lemma waits_by_answer:
  "own_answer Y view r ms t = Settled b \<Longrightarrow> waits_deliberately Y view r ms t \<longleftrightarrow> b"
  "own_answer Y view r ms t = AllOf us \<Longrightarrow>
     waits_deliberately Y view r ms t \<longleftrightarrow> (\<forall>u\<in>set us. waits_deliberately Y view r ms u)"
  "own_answer Y view r ms t = AnyOf us \<Longrightarrow>
     waits_deliberately Y view r ms t \<longleftrightarrow> (\<exists>u\<in>set us. waits_deliberately Y view r ms u)"
  by (simp_all add: waits_deliberately_iff [of Y view r ms t] Bex_def)

lemma asked_leans:
  assumes "own_answer Y view r ms t = AllOf us \<or> own_answer Y view r ms t = AnyOf us"
    and "t \<in> set (all_tasks r)" and "u \<in> set us"
  shows "u \<in> set (all_tasks r) \<and> (u, t) \<in> leans (rh_tasks r)"
  using assms(1)
proof
  assume "own_answer Y view r ms t = AllOf us"
  then have "u \<in> set (descendants t)" by (rule subsetD [OF all_of_below assms(3)])
  moreover from this have "u \<in> set (all_tasks r)" by (rule collect_descendants [OF assms(2)])
  ultimately show ?thesis using assms(2) by (simp add: leans_def)
next
  assume "own_answer Y view r ms t = AnyOf us"
  then have "us = unsatisfied_priors r ms t" by (rule any_of_named)
  then have "u \<in> set (unsatisfied_priors r ms t)" using assms(3) by simp
  from unsatisfied_priors_named [OF this] show ?thesis using assms(2) by (simp add: leans_def)
qed

subsection \<open>The judgement is exact\<close>

definition true_verdicts :: "('m, 'y) yaml \<Rightarrow> outlook \<Rightarrow> 'm rhei \<Rightarrow> machine_set \<Rightarrow> verdicts \<Rightarrow> bool" where
  "true_verdicts Y view r ms memo \<longleftrightarrow>
     (\<forall>t\<in>set (all_tasks r). \<forall>b. memo (id_of t) = Some b \<longrightarrow> b = waits_deliberately Y view r ms t)"

definition walked_from :: "'m rhei \<Rightarrow> task_id set \<Rightarrow> task \<Rightarrow> bool" where
  "walked_from r stack t \<longleftrightarrow> (\<forall>s\<in>set (all_tasks r). id_of s \<in> stack \<longrightarrow> (t, s) \<in> (leans (rh_tasks r))\<^sup>+)"

lemma walked_next:
  assumes "walked_from r stack t" and "(u, t) \<in> leans (rh_tasks r)"
    and "distinct (map id_of (all_tasks r))" and "t \<in> set (all_tasks r)"
  shows "walked_from r (insert (id_of t) stack) u"
  unfolding walked_from_def
proof (intro ballI impI)
  fix s assume s: "s \<in> set (all_tasks r)" "id_of s \<in> insert (id_of t) stack"
  show "(u, s) \<in> (leans (rh_tasks r))\<^sup>+"
  proof (cases "id_of s = id_of t")
    case True
    then have "s = t" using assms(3,4) s(1) by (auto simp: distinct_map inj_on_def)
    then show ?thesis using assms(2) by blast
  next
    case False
    then show ?thesis using assms(1,2) s by (auto simp: walked_from_def intro: trancl_into_trancl2)
  qed
qed

definition ring_free :: "'m rhei \<Rightarrow> bool" where
  "ring_free r \<longleftrightarrow> acyclic (leans (rh_tasks r)) \<and> distinct (map id_of (all_tasks r))"

lemma true_verdicts_upd:
  assumes "true_verdicts Y view r ms memo" and "ring_free r" and "t \<in> set (all_tasks r)"
  shows "true_verdicts Y view r ms (memo(id_of t \<mapsto> waits_deliberately Y view r ms t))"
  using assms by (auto simp: true_verdicts_def ring_free_def distinct_map inj_on_def)

lemma not_walked_back:
  assumes "walked_from r stack t" and "ring_free r" and "t \<in> set (all_tasks r)"
  shows "id_of t \<notin> stack"
  using assms by (auto simp: walked_from_def ring_free_def acyclic_def)

lemma judge_exact:
  "ring_free r \<Longrightarrow> t \<in> set (all_tasks r) \<Longrightarrow> true_verdicts Y view r ms memo \<Longrightarrow> walked_from r stack t \<Longrightarrow>
   fst (judge Y view r ms stack memo t) = Some (waits_deliberately Y view r ms t) \<and>
   true_verdicts Y view r ms (snd (judge Y view r ms stack memo t))"
  "ring_free r \<Longrightarrow> set ts \<subseteq> set (all_tasks r) \<Longrightarrow> true_verdicts Y view r ms memo \<Longrightarrow>
   \<forall>t\<in>set ts. walked_from r stack t \<Longrightarrow>
   fst (all_wait Y view r ms stack memo ts) = (\<forall>t\<in>set ts. waits_deliberately Y view r ms t) \<and>
   true_verdicts Y view r ms (snd (all_wait Y view r ms stack memo ts))"
  "ring_free r \<Longrightarrow> set ts \<subseteq> set (all_tasks r) \<Longrightarrow> true_verdicts Y view r ms memo \<Longrightarrow>
   \<forall>t\<in>set ts. walked_from r stack t \<Longrightarrow>
   fst (any_waits Y view r ms stack memo ts) = (\<exists>t\<in>set ts. waits_deliberately Y view r ms t) \<and>
   true_verdicts Y view r ms (snd (any_waits Y view r ms stack memo ts))"
proof (induction Y view r ms stack memo t and Y view r ms stack memo ts and Y view r ms stack memo ts
    rule: judge_all_wait_any_waits.induct)
  case (1 Y view r ms stack memo t)
  show ?case
  proof (cases "memo (id_of t)")
    case (Some b)
    then show ?thesis using 1(4,5) by (auto simp: true_verdicts_def)
  next
    case None
    have out: "id_of t \<notin> stack" using 1(6,3,4) by (rule not_walked_back)
    have below: "set us \<subseteq> set (all_tasks r) \<and> (\<forall>u\<in>set us. walked_from r (insert (id_of t) stack) u)"
      if "own_answer Y view r ms t = AllOf us \<or> own_answer Y view r ms t = AnyOf us" for us
      using asked_leans [OF that 1(4)] walked_next [OF 1(6) _ _ 1(4)] 1(3) by (auto simp: ring_free_def)
    note upd = true_verdicts_upd [OF _ 1(3,4)]
    show ?thesis
    proof (cases "own_answer Y view r ms t")
      case (Settled b)
      then show ?thesis using None out upd [OF 1(5)] waits_by_answer(1) [OF Settled] by (simp del: fun_upd_apply)
    next
      case (AllOf us)
      from 1(1) [OF None out AllOf 1(3) _ 1(5)] below [of us] AllOf
      have w: "fst (all_wait Y view r ms (insert (id_of t) stack) memo us) = waits_deliberately Y view r ms t"
        "true_verdicts Y view r ms (snd (all_wait Y view r ms (insert (id_of t) stack) memo us))"
        by (simp_all add: waits_by_answer(2))
      then show ?thesis using None out AllOf w(1) upd [OF w(2)]
        by (simp add: split_beta del: fun_upd_apply)
    next
      case (AnyOf us)
      from 1(2) [OF None out AnyOf 1(3) _ 1(5)] below [of us] AnyOf
      have w: "fst (any_waits Y view r ms (insert (id_of t) stack) memo us) = waits_deliberately Y view r ms t"
        "true_verdicts Y view r ms (snd (any_waits Y view r ms (insert (id_of t) stack) memo us))"
        by (simp_all add: waits_by_answer(3))
      then show ?thesis using None out AnyOf w(1) upd [OF w(2)]
        by (simp add: split_beta del: fun_upd_apply)
    qed
  qed
next
  case (3 Y view r ms stack memo t ts)
  obtain a memo' where j: "judge Y view r ms stack memo t = (a, memo')" by force
  from 3 j show ?case by (auto split: prod.splits)
next
  case (5 Y view r ms stack memo t ts)
  obtain a memo' where j: "judge Y view r ms stack memo t = (a, memo')" by force
  from 5 j show ?case by (auto split: prod.splits)
qed (simp_all del: judge.simps)

lemma holder_mono:
  "holder index h i = Some a \<Longrightarrow> (\<And>x. h x \<Longrightarrow> h' x) \<Longrightarrow> holder index h' i \<noteq> None"
  by (induction index h i rule: holder.induct) (auto split: option.splits if_splits)

lemma ready_not_held:
  assumes "is_ready Y r ms view mode t"
  shows "held_by_supervisor Y t r ms = None"
proof (rule ccontr)
  let ?holds = "\<lambda>spawned. holds_beneath Y ms (rh_metadata r) (is_in_flight spawned)"
  assume "held_by_supervisor Y t r ms \<noteq> None"
  then obtain a where "holder (task_index (all_tasks r)) (?holds {}) (parent (id_of t)) = Some a"
    by (auto simp: held_by_supervisor_def supervision_verdict_for_def supervision_verdict_def split: option.splits
        subtree_verdict.splits supervision_phase.splits if_splits)
  moreover have "?holds {} x \<Longrightarrow> ?holds (spawned_ids view) x" for x
    by (auto simp: holds_beneath_def Let_def is_in_flight_def)
  ultimately have "holder (task_index (all_tasks r)) (?holds (spawned_ids view)) (parent (id_of t)) \<noteq> None"
    by (rule holder_mono)
  then show False
    using assms by (auto simp: is_ready_def supervision_verdict_for_def supervision_verdict_def Let_def)
qed

lemma no_unsatisfied_priors:
  assumes "all_priors_done ms (plan_state_map (all_tasks r) ms) t"
  shows "unsatisfied_priors r ms t = []"
  using assms
  by (auto simp: all_priors_done_def unsatisfied_priors_def map_filter_def filter_empty_conv list_all_iff
      split: option.splits)

lemma ready_waits_for_nothing:
  assumes "is_ready Y r ms view RunnableNow t" and "t_assignee (row t) = None"
    and "\<not> task_is_supervising t (for_task ms (id_of t))" and "\<not> provider_parked Y view r ms t"
  shows "own_answer Y view r ms t = AnyOf []"
proof -
  have "descendants_are_terminal t ms"
    using assms(1,3) by (auto simp: is_ready_def supervision_verdict_for_def supervision_verdict_def Let_def split: option.splits)
  then have "open_descendant_tasks ms t = []"
    by (auto simp: descendants_are_terminal_def any_open_iff open_descendants_filter filter_empty_conv)
  moreover have "\<not> own_gate_pending t ms"
    using assms(1) by (auto simp: is_ready_def own_gate_pending_def holds_of_def Let_def split: option.splits)
  moreover have "pending_poll_deadline Y view r (for_task ms (id_of t)) t
      (normalized_state_name (state_text t) (for_task ms (id_of t))) (pending_since view) = None"
    and "unsatisfied_priors r ms t = []"
    using assms(1) by (auto simp: is_ready_def Let_def no_unsatisfied_priors)
  ultimately show ?thesis using ready_not_held [OF assms(1)] assms(2-4) by (simp add: own_answer_def Let_def)
qed

text \<open>
  C28: In a plan whose ids validation accepts, whose priors name leaves and whose circular check finds
  nothing, the pass loop's judgement is exact: all that is left in scope waits deliberately, by the
  judgement, exactly when each unfinished task's wait leads through its open subtree and its
  unsatisfied priors to gates, clocks and providers, so neither the order of the tasks nor what the
  judgement remembers of them tells; and then nothing in scope that a run could start is left, but
  for a supervisor or a task a provider has parked. A prior that names a parent is outside this:
  validation allows it, and with one the order can decide the judgement.
\<close>

theorem deliberate_wait_is_exact:
  assumes "validate_sibling_uniqueness (rh_tasks r) = []" and "\<forall>t\<in>set (rh_tasks r). length (id_of t) = n"
    and "priors_name_leaves (rh_tasks r)" and "lists_index entries (rh_tasks r)"
    and "lists_nodes entries order" and "inj_on show_task_id (graph_nodes entries)"
    and "circular_dependencies entries order = Some []"
  shows "(remaining_work_is_only_gating_or_poll_blocked Y r ms scope view \<longleftrightarrow>
      (\<forall>t\<in>set (all_tasks r). task_in_rhei_scope scope (show_task_id (id_of t)) \<and> is_open ms t \<longrightarrow>
         waits_deliberately Y view r ms t)) \<and>
    (remaining_work_is_only_gating_or_poll_blocked Y r ms scope view \<longrightarrow>
      (\<forall>t\<in>set (find_runnable_tasks_with_options Y r ms view refused).
         task_in_rhei_scope scope (show_task_id (id_of t)) \<longrightarrow>
         task_is_supervising t (for_task ms (id_of t)) \<or> provider_parked Y view r ms t))"
proof -
  have free: "ring_free r"
    using acyclic_leans [OF assms] validated_ids_name_one_task [OF assms(1,2)] by (simp add: ring_free_def)
  have exact: "remaining_work_is_only_gating_or_poll_blocked Y r ms scope view \<longleftrightarrow>
      (\<forall>t\<in>set (all_tasks r). task_in_rhei_scope scope (show_task_id (id_of t)) \<and> is_open ms t \<longrightarrow>
         waits_deliberately Y view r ms t)"
    unfolding remaining_work_is_only_gating_or_poll_blocked_def
    by (subst judge_exact(2) [THEN conjunct1])
      (auto simp: free true_verdicts_def walked_from_def is_open_def)
  have "task_is_supervising t (for_task ms (id_of t)) \<or> provider_parked Y view r ms t"
    if "\<forall>t\<in>set (all_tasks r). task_in_rhei_scope scope (show_task_id (id_of t)) \<and> is_open ms t \<longrightarrow>
         waits_deliberately Y view r ms t"
      and "t \<in> set (find_runnable_tasks_with_options Y r ms view refused)"
      and "task_in_rhei_scope scope (show_task_id (id_of t))" for t
  proof (rule ccontr)
    assume "\<not> ?thesis"
    moreover from that(2) have t: "t \<in> set (all_tasks r)" "is_ready Y r ms view RunnableNow t" "t_assignee (row t) = None"
      by (auto simp: find_runnable_tasks_with_options_def find_ready_tasks_in_view_def)
    ultimately have "own_answer Y view r ms t = AnyOf []" by (blast intro: ready_waits_for_nothing)
    then have "\<not> waits_deliberately Y view r ms t" by (simp add: waits_by_answer)
    moreover have "is_open ms t" using t(2) by (simp add: is_ready_def is_open_def Let_def)
    ultimately show False using that(1,3) t(1) by blast
  qed
  then show ?thesis using exact by blast
qed

definition gate_machine :: state_machine where
  "gate_machine = review_machine\<lparr>states := (''ask'', plain_state\<lparr>gating := True\<rparr>) # states review_machine,
     transitions := edge ''todo'' ''ask'' # edge ''ask'' ''doing'' # transitions review_machine\<rparr>"

definition gate_set :: machine_set where
  "gate_set = \<lparr>default_machine = gate_machine, per_rhei = []\<rparr>"

lemma deliberate_wait_is_exact_witness:
  "remaining_work_is_only_gating_or_poll_blocked sample_yaml (chain_plan ''ask'') gate_set None quiet \<and>
   waits_deliberately sample_yaml quiet (chain_plan ''ask'') gate_set (leaf [Number 2] ''todo'' [[Number 1]]) \<and>
   \<not> remaining_work_is_only_gating_or_poll_blocked sample_yaml (chain_plan ''todo'') gate_set None quiet"
proof -
  have r: "remaining_work_is_only_gating_or_poll_blocked sample_yaml (chain_plan ''ask'') gate_set None quiet"
    "\<not> remaining_work_is_only_gating_or_poll_blocked sample_yaml (chain_plan ''todo'') gate_set None quiet"
    by code_simp+
  have "is_open gate_set (leaf [Number 2] ''todo'' [[Number 1]])" by code_simp
  then show ?thesis
    using deliberate_wait_is_exact [OF chain_valid [of "''ask''"], of sample_yaml gate_set None quiet] r
    by (simp add: task_in_rhei_scope_def)
qed

subsection \<open>A ring of waits\<close>

text \<open>Task 1 waits for its children, child 1.1 for task 3, task 3 for task 1; child 1.2 sits at a
  gate. Validation finds no circular prior. The walk that enters the ring at 1.1 counts it as waiting
  while it is on the stack, and remembers that.\<close>

definition ring_entry :: task where "ring_entry = leaf [Number 2] ''todo'' [[Number 1, Number 1]]"

definition ring_parent :: task where
  "ring_parent = tree [Number 1] ''todo'' [] [leaf [Number 1, Number 1] ''todo'' [[Number 3]], leaf [Number 1, Number 2] ''ask'' []]"

definition ring_back :: task where "ring_back = leaf [Number 3] ''todo'' [[Number 1]]"

definition ring_plan :: "task list \<Rightarrow> (yaml_value \<times> yaml_value) list rhei" where
  "ring_plan ts = \<lparr>rh_tasks = ts, rh_metadata = None\<rparr>"

theorem judgement_depends_on_order:
  "validate_sibling_uniqueness [ring_entry, ring_parent, ring_back] = [] \<and>
   circular_dependencies (map (\<lambda>t. (id_of t, t)) (collect_plan_tasks [ring_entry, ring_parent, ring_back]))
     [[Number 1], [Number 1, Number 1], [Number 1, Number 2], [Number 2], [Number 3]] = Some [] \<and>
   remaining_work_is_only_gating_or_poll_blocked sample_yaml (ring_plan [ring_entry, ring_parent, ring_back]) gate_set None quiet \<and>
   \<not> remaining_work_is_only_gating_or_poll_blocked sample_yaml (ring_plan [ring_parent, ring_entry, ring_back]) gate_set None quiet"
  by code_simp

end
