(* ===== verification/Provider_Claims.thy ===== *)
theory Provider_Claims
  imports Provider_Waits Supervision_Claims
begin





end
