(* ===== verification/Text_Lines.thy ===== *)
theory Text_Lines
  imports Prelude
begin

text \<open>
  The readers of text Rust's standard library gives, on the ASCII range: \<open>str::split_inclusive\<close> of
  a newline, \<open>str::lines\<close>, \<open>str::split_whitespace\<close> and \<open>str::split_once\<close>. The laws relate a text
  to its lines: what was written line by line is read line by line.
\<close>

abbreviation newline_char :: char where
  "newline_char \<equiv> CHR 0x0A"

abbreviation return_char :: char where
  "return_char \<equiv> CHR 0x0D"

fun split_inclusive :: "string \<Rightarrow> string list" where
  "split_inclusive [] = []"
| "split_inclusive (c # s) =
     (if c = newline_char then [c] # split_inclusive s
      else (case split_inclusive s of [] \<Rightarrow> [[c]] | l # ls \<Rightarrow> (c # l) # ls))"

definition line_of :: "string \<Rightarrow> string" where
  "line_of l =
     (if l = [] \<or> last l \<noteq> newline_char then l
      else let l' = butlast l in if l' \<noteq> [] \<and> last l' = return_char then butlast l' else l')"

definition lines :: "string \<Rightarrow> string list" where
  "lines s = map line_of (split_inclusive s)"

fun fields_from :: "string \<Rightarrow> string \<Rightarrow> string list" where
  "fields_from w [] = (if w = [] then [] else [w])"
| "fields_from w (c # s) =
     (if is_whitespace c then (if w = [] then [] else [w]) @ fields_from [] s else fields_from (w @ [c]) s)"

definition split_whitespace :: "string \<Rightarrow> string list" where
  "split_whitespace s = fields_from [] s"

fun split_once :: "char \<Rightarrow> string \<Rightarrow> (string \<times> string) option" where
  "split_once c [] = None"
| "split_once c (x # s) = (if x = c then Some ([], s) else map_option (\<lambda>(a, b). (x # a, b)) (split_once c s))"

definition ends_with :: "string \<Rightarrow> string \<Rightarrow> bool" where
  "ends_with s p = starts_with (rev s) (rev p)"

subsection \<open>Lines\<close>

lemma split_inclusive_line:
  assumes "newline_char \<notin> set l"
  shows "split_inclusive (l @ newline_char # s) = (l @ [newline_char]) # split_inclusive s"
  using assms by (induction l) auto

lemma split_inclusive_last:
  "newline_char \<notin> set l \<Longrightarrow> split_inclusive l = (if l = [] then [] else [l])"
  by (induction l) auto

lemma concat_split_inclusive: "concat (split_inclusive s) = s"
  by (induction s) (auto split: list.splits)

definition whole_line :: "string \<Rightarrow> bool" where
  "whole_line l \<longleftrightarrow> (\<exists>w. l = w @ [newline_char] \<and> newline_char \<notin> set w)"

lemma split_inclusive_whole: "\<forall>l\<in>set ls. whole_line l \<Longrightarrow> split_inclusive (concat ls) = ls"
  by (induction ls) (auto simp: whole_line_def split_inclusive_line)

lemma line_of_whole:
  "newline_char \<notin> set w \<Longrightarrow> line_of (w @ [newline_char]) = (if w \<noteq> [] \<and> last w = return_char then butlast w else w)"
  by (simp add: line_of_def)

lemma split_inclusive_parts:
  "l \<in> set (split_inclusive s) \<Longrightarrow> l \<noteq> [] \<and> newline_char \<notin> set (butlast l)"
proof (induction s arbitrary: l)
  case (Cons c s)
  then show ?case by (cases "split_inclusive s") (auto split: if_splits)
qed simp

lemma split_inclusive_cases:
  assumes "l \<in> set (split_inclusive s)"
  shows "whole_line l \<or> newline_char \<notin> set l"
proof (cases "last l = newline_char")
  case True
  then have "l = butlast l @ [newline_char]"
    using split_inclusive_parts [OF assms] by (metis append_butlast_last_id)
  then show ?thesis using split_inclusive_parts [OF assms] by (auto simp: whole_line_def)
next
  case False
  then show ?thesis
    using split_inclusive_parts [OF assms]
    by (metis append_butlast_last_id in_set_conv_nth list.set_intros(1) rotate1.simps(2) set_ConsD set_rotate1)
qed

lemma line_of_no_newline:
  assumes "whole_line l \<or> newline_char \<notin> set l"
  shows "newline_char \<notin> set (line_of l)"
  using assms
proof
  assume "whole_line l"
  then show ?thesis by (auto simp: whole_line_def line_of_whole dest: in_set_butlastD split: if_splits)
next
  assume "newline_char \<notin> set l"
  then show ?thesis by (metis last_in_set line_of_def)
qed

lemma lines_no_newline: "l \<in> set (lines s) \<Longrightarrow> newline_char \<notin> set l"
  using line_of_no_newline split_inclusive_cases by (fastforce simp: lines_def)

subsection \<open>Fields\<close>

lemma fields_from_word:
  "\<forall>c\<in>set v. \<not> is_whitespace c \<Longrightarrow> fields_from w (v @ s) = fields_from (w @ v) s"
  by (induction v arbitrary: w) auto

lemma fields_from_append_space:
  "is_whitespace c \<Longrightarrow> fields_from w (s @ c # t) = fields_from w s @ fields_from [] t"
  by (induction w s rule: fields_from.induct) auto

lemma fields_from_end: "is_whitespace c \<Longrightarrow> fields_from w (s @ [c]) = fields_from w s"
  using fields_from_append_space [of c w s "[]"] by simp

definition is_field :: "string \<Rightarrow> bool" where
  "is_field w \<longleftrightarrow> w \<noteq> [] \<and> (\<forall>c\<in>set w. \<not> is_whitespace c)"

lemma space_is_whitespace [simp]: "is_whitespace CHR '' ''" "is_whitespace newline_char" "is_whitespace return_char"
  by (simp_all add: is_whitespace_def)

lemma split_whitespace_word:
  "is_field w \<Longrightarrow> split_whitespace w = [w]"
  using fields_from_word [of w "[]" "[]"] by (simp add: split_whitespace_def is_field_def)

lemma split_whitespace_Cons:
  "is_field w \<Longrightarrow> is_whitespace c \<Longrightarrow> split_whitespace (w @ c # s) = w # split_whitespace s"
  using fields_from_append_space [of c "[]" w s] split_whitespace_word [of w] by (simp add: split_whitespace_def)

lemma split_whitespace_end: "is_whitespace c \<Longrightarrow> split_whitespace (s @ [c]) = split_whitespace s"
  by (simp add: split_whitespace_def fields_from_end)

lemma split_whitespace_butlast:
  "l \<noteq> [] \<Longrightarrow> is_whitespace (last l) \<Longrightarrow> split_whitespace (butlast l) = split_whitespace l"
  by (metis append_butlast_last_id split_whitespace_end)

lemma split_whitespace_line_of: "split_whitespace (line_of l) = split_whitespace l"
proof (cases "l = [] \<or> last l \<noteq> newline_char")
  case False
  then have "split_whitespace (butlast l) = split_whitespace l"
    by (intro split_whitespace_butlast) auto
  moreover have "split_whitespace (butlast (butlast l)) = split_whitespace (butlast l)"
    if "butlast l \<noteq> []" and "last (butlast l) = return_char"
    using that by (intro split_whitespace_butlast) auto
  ultimately show ?thesis using False by (auto simp: line_of_def Let_def)
qed (auto simp: line_of_def)

lemma fields_from_fields:
  "\<forall>c\<in>set w. \<not> is_whitespace c \<Longrightarrow> \<forall>v\<in>set (fields_from w s). is_field v"
proof (induction w s rule: fields_from.induct)
  case (1 w)
  then show ?case by (simp add: is_field_def)
next
  case (2 w c s)
  then show ?case by (cases "is_whitespace c"; cases "w = []") (simp_all add: is_field_def)
qed

lemma split_whitespace_fields: "v \<in> set (split_whitespace s) \<Longrightarrow> is_field v"
  using fields_from_fields [of "[]" s] by (simp add: split_whitespace_def)

lemma split_once_append: "c \<notin> set a \<Longrightarrow> split_once c (a @ c # b) = Some (a, b)"
  by (induction a) auto

lemma split_once_Some: "split_once c s = Some (a, b) \<Longrightarrow> s = a @ c # b \<and> c \<notin> set a"
  by (induction s arbitrary: a) (auto split: if_splits)

subsection \<open>Joined lines\<close>

definition clean_lines :: "string list \<Rightarrow> bool" where
  "clean_lines ls \<longleftrightarrow> (\<forall>l\<in>set ls. newline_char \<notin> set l \<and> return_char \<notin> set l)"

lemma clean_lines_simps [simp]:
  "clean_lines []" "clean_lines (l # ls) \<longleftrightarrow> newline_char \<notin> set l \<and> return_char \<notin> set l \<and> clean_lines ls"
  "clean_lines (ls @ ms) \<longleftrightarrow> clean_lines ls \<and> clean_lines ms"
  by (auto simp: clean_lines_def)

lemma line_of_clean:
  assumes "newline_char \<notin> set l" and "return_char \<notin> set l"
  shows "line_of (l @ [newline_char]) = l" and "line_of l = l"
proof -
  have "l \<noteq> [] \<Longrightarrow> last l \<noteq> newline_char \<and> last l \<noteq> return_char" using assms last_in_set [of l] by metis
  then show "line_of (l @ [newline_char]) = l" and "line_of l = l"
    by (auto simp: line_of_def Let_def)
qed

lemma lines_line:
  assumes "newline_char \<notin> set l" and "return_char \<notin> set l"
  shows "lines (l @ newline_char # s) = l # lines s"
  using assms by (simp add: lines_def split_inclusive_line line_of_clean)

lemma lines_last:
  assumes "newline_char \<notin> set l" and "return_char \<notin> set l"
  shows "lines l = (if l = [] then [] else [l])"
  using assms by (simp add: lines_def split_inclusive_last line_of_clean)

lemma lines_joined_newline:
  "clean_lines ls \<Longrightarrow> ls \<noteq> [] \<Longrightarrow> lines (join [newline_char] ls @ [newline_char]) = ls"
  by (induction ls rule: induct_list012) (simp_all add: lines_line lines_last)

lemma lines_joined:
  "clean_lines ls \<Longrightarrow> lines (join [newline_char] ls) = (if ls \<noteq> [] \<and> last ls = [] then butlast ls else ls)"
  by (induction ls rule: induct_list012) (simp_all add: lines_line lines_last)

lemma split_inclusive_chars: "l \<in> set (split_inclusive s) \<Longrightarrow> set l \<subseteq> set s"
  by (metis Sup_upper concat_split_inclusive image_eqI set_concat)

lemma line_of_chars: "set (line_of l) \<subseteq> set l"
  by (auto simp: line_of_def Let_def dest: in_set_butlastD split: if_splits)

lemma clean_lines_lines: "return_char \<notin> set s \<Longrightarrow> clean_lines (lines s)"
  using split_inclusive_chars line_of_chars lines_no_newline [of _ s]
  by (fastforce simp: clean_lines_def lines_def)

lemma join_append_line:
  "join [newline_char] (ls @ [l]) = (if ls = [] then l else join [newline_char] ls @ newline_char # l)"
  by (induction ls rule: induct_list012) simp_all

lemma ends_with_snoc [simp]: "ends_with (s @ [c]) [d] \<longleftrightarrow> c = d" "\<not> ends_with [] [d]"
  by (auto simp: ends_with_def starts_with_def)

lemma ends_with_last: "ends_with s [c] \<longleftrightarrow> s \<noteq> [] \<and> last s = c"
  by (cases s rule: rev_cases) auto

text \<open>A text without carriage returns is its lines joined again.\<close>

lemma joined_lines:
  assumes "return_char \<notin> set s"
  shows "join [newline_char] (lines s) @ (if ends_with s [newline_char] then [newline_char] else []) = s"
  using assms
proof (induction "length s" arbitrary: s rule: less_induct)
  case less
  show ?case
  proof (cases "newline_char \<in> set s")
    case False
    then have "\<not> ends_with s [newline_char]" by (metis ends_with_last last_in_set)
    then show ?thesis using False less.prems by (simp add: lines_last)
  next
    case True
    then obtain l t where s: "s = l @ newline_char # t" "newline_char \<notin> set l" by (meson split_list_first)
    have l: "lines s = l # lines t" using s less.prems by (simp add: lines_line)
    have t: "join [newline_char] (lines t) @ (if ends_with t [newline_char] then [newline_char] else []) = t"
      using less.hyps [of t] less.prems s by simp
    have e: "ends_with s [newline_char] \<longleftrightarrow> t = [] \<or> ends_with t [newline_char]"
      by (auto simp: s ends_with_last)
    show ?thesis
    proof (cases "t = []")
      case True
      then show ?thesis using s l e by (simp add: lines_def)
    next
      case False
      then have "lines t \<noteq> []" by (cases t) (auto simp: lines_def split: list.splits)
      then obtain m ms where "lines t = m # ms" by (cases "lines t") auto
      then show ?thesis using False s l e t by simp
    qed
  qed
qed

end
