(* ===== verification/Transition_History.thy ===== *)
theory Transition_History
  imports Text_Lines Libs
begin

text \<open>
  The central ledger of moves, \<open>runtime/state-transitions.log\<close>: its rows, the adjacent pair a forced
  move leaves, and the one reader every consumer shares (\<open>transition_history.rs\<close>); the row a move
  appends, pruning, and the entry number a log is named by (\<open>transition_ledger.rs\<close>,
  \<open>agent_log_files.rs\<close>, \<open>run_completion_condition.rs\<close>). The codecs the reader calls are parameters:
  \<open>URL_SAFE_NO_PAD\<close> of \<open>base64\<close>, \<open>serde_json::to_vec\<close> of a \<open>Value\<close> and the derived
  \<open>Deserialize\<close>, \<open>Uuid::parse_str\<close> (its version and canonical text) and the RFC 3339 reader of
  \<open>time\<close> (whether the offset is UTC).
\<close>

record force_audit =
  fa_confirmation :: string
  fa_from :: string
  fa_os_user :: string
  fa_reason :: string
  fa_recovery_id :: string
  fa_result_sha256 :: "string option"
  fa_schema_version :: u8
  fa_task_id :: string
  fa_timestamp :: string
  fa_to :: string

record movement =
  mv_task_id :: string
  mv_from :: string
  mv_to :: string
  mv_audit :: "force_audit option"

record force_lib =
  fl_b64 :: "u8 list \<Rightarrow> string"
  fl_unb64 :: "string \<Rightarrow> string + u8 list"
  fl_to_vec :: "json \<Rightarrow> u8 list"
  fl_from_slice :: "u8 list \<Rightarrow> string + force_audit"
  fl_uuid :: "string \<Rightarrow> string + nat \<times> string"
  fl_rfc3339 :: "string \<Rightarrow> string + bool"

subsection \<open>A forced move's pair\<close>

definition corrupt_history :: "string \<Rightarrow> string" where
  "corrupt_history reason = ''corrupt forced transition history: '' @ reason"

fun sorted_json :: "json \<Rightarrow> json" where
  "sorted_json (Obj kvs) =
     Obj (foldl (\<lambda>m (k, v). bm_insert k v m) [] (map (\<lambda>(k, v). (k, sorted_json v)) kvs))"
| "sorted_json (Arr vs) = Arr (map sorted_json vs)"
| "sorted_json v = v"

text \<open>What the derived \<open>Serialize\<close> gives: the fields in the order they are declared, \<open>result_sha256\<close>
  only where there is one.\<close>

definition audit_value :: "force_audit \<Rightarrow> json" where
  "audit_value a = Obj (
     [(''confirmation'', Str (fa_confirmation a)), (''from'', Str (fa_from a)), (''os_user'', Str (fa_os_user a)),
      (''reason'', Str (fa_reason a)), (''recovery_id'', Str (fa_recovery_id a))] @
     (case fa_result_sha256 a of Some d \<Rightarrow> [(''result_sha256'', Str d)] | None \<Rightarrow> []) @
     [(''schema_version'', Number (ucast (fa_schema_version a))), (''task_id'', Str (fa_task_id a)),
      (''timestamp'', Str (fa_timestamp a)), (''to'', Str (fa_to a))])"

definition canonical_json :: "force_lib \<Rightarrow> force_audit \<Rightarrow> u8 list" where
  "canonical_json F a = fl_to_vec F (sorted_json (audit_value a))"

definition decode_payload :: "force_lib \<Rightarrow> string \<Rightarrow> string + u8 list" where
  "decode_payload F s = tryb (fl_unb64 F s) (\<lambda>bytes.
     if fl_b64 F bytes \<noteq> s then Inl (corrupt_history ''noncanonical base64url'') else Inr bytes)"

definition moved_row :: "string \<Rightarrow> string \<Rightarrow> string \<Rightarrow> string" where
  "moved_row i from to = i @ '' '' @ from @ ''@'' @ to @ [newline_char]"

definition force_pair :: "force_lib \<Rightarrow> force_audit \<Rightarrow> string \<times> string" where
  "force_pair F a =
     (fa_task_id a @ '' !force-v1 '' @ fl_b64 F (canonical_json F a) @ [newline_char],
      fa_task_id a @ '' '' @ fa_from a @ ''@'' @ fa_to a @ [newline_char])"

definition is_digest :: "string \<Rightarrow> bool" where
  "is_digest s \<longleftrightarrow> length s = 64 \<and> list_all (\<lambda>c. c \<in> set ''0123456789abcdef'') s"

definition is_token :: "string \<Rightarrow> bool" where
  "is_token s \<longleftrightarrow> s \<noteq> [] \<and> \<not> starts_with s ''!'' \<and> \<not> list_ex (\<lambda>c. is_whitespace c \<or> c = CHR ''@'') s"

definition from_payload :: "force_lib \<Rightarrow> string \<Rightarrow> string + force_audit" where
  "from_payload F payload =
     tryb (decode_payload F payload) (\<lambda>raw.
     tryb (fl_from_slice F raw) (\<lambda>value.
     tryb (fl_uuid F (fa_recovery_id value)) (\<lambda>(uuid_version, canonical).
     tryb (fl_rfc3339 F (fa_timestamp value)) (\<lambda>utc.
       if canonical_json F value \<noteq> raw
          \<or> fa_schema_version value \<noteq> 1
          \<or> fa_confirmation value \<noteq> ''typed-hop-v1''
          \<or> trim (fa_reason value) = []
          \<or> trim (fa_os_user value) = []
          \<or> uuid_version \<noteq> 7
          \<or> canonical \<noteq> fa_recovery_id value
          \<or> \<not> ends_with (fa_timestamp value) ''Z''
          \<or> \<not> utc
          \<or> \<not> is_token (fa_task_id value)
          \<or> \<not> is_token (fa_from value)
          \<or> \<not> is_token (fa_to value)
          \<or> (case fa_result_sha256 value of Some d \<Rightarrow> \<not> is_digest d | None \<Rightarrow> False)
       then Inl (corrupt_history ''invalid force-v1 payload'')
       else Inr value))))"

subsection \<open>The reader\<close>

text \<open>A row of the plain form, read from its fields: nothing where it says no move.\<close>

definition plain_movement :: "string list \<Rightarrow> movement option" where
  "plain_movement row_fields =
     (if starts_with (row_fields ! 1) ''!'' then None
      else case split_once CHR ''@'' (row_fields ! 1) of
             Some (from, to) \<Rightarrow>
               if from \<noteq> [] \<and> to \<noteq> []
               then Some \<lparr>mv_task_id = row_fields ! 0, mv_from = from, mv_to = to, mv_audit = None\<rparr> else None
           | None \<Rightarrow> None)"

definition forced_movement :: "force_audit \<Rightarrow> movement" where
  "forced_movement a =
     \<lparr>mv_task_id = fa_task_id a, mv_from = fa_from a, mv_to = fa_to a, mv_audit = Some a\<rparr>"

fun parse_rows :: "force_lib \<Rightarrow> string set \<Rightarrow> string list \<Rightarrow> string + movement list" where
  "parse_rows F ids [] = Inr []"
| "parse_rows F ids (line # rest) =
     (let row_fields = split_whitespace line in
      if length row_fields < 2 then parse_rows F ids rest
      else if row_fields ! 1 = ''!force-v1'' then
        (if length row_fields \<noteq> 3 then Inl (corrupt_history ''invalid metadata row'')
         else tryb (from_payload F (row_fields ! 2)) (\<lambda>a.
           case rest of
             [] \<Rightarrow> Inl (corrupt_history ''non-adjacent, contradictory or duplicate force pair'')
           | moved # rest' \<Rightarrow>
               if line \<noteq> fst (force_pair F a) \<or> row_fields ! 0 \<noteq> fa_task_id a \<or> moved \<noteq> snd (force_pair F a) \<or> fa_recovery_id a \<in> ids
               then Inl (corrupt_history ''non-adjacent, contradictory or duplicate force pair'')
               else tryb (parse_rows F (insert (fa_recovery_id a) ids) rest') (\<lambda>ms. Inr (forced_movement a # ms))))
      else tryb (parse_rows F ids rest) (\<lambda>ms.
        Inr (case plain_movement row_fields of Some m \<Rightarrow> m # ms | None \<Rightarrow> ms)))"

definition parse_history :: "force_lib \<Rightarrow> string \<Rightarrow> string + movement list" where
  "parse_history F raw = parse_rows F {} (split_inclusive raw)"

subsection \<open>Readers over the ledger\<close>

text \<open>A ledger file is its text, nothing where there is none.\<close>

definition ledger_line_is_kept :: "string set \<Rightarrow> string \<Rightarrow> bool" where
  "ledger_line_is_kept ids line \<longleftrightarrow>
     (case split_whitespace line of [] \<Rightarrow> [] | w # _ \<Rightarrow> w) \<notin> ids"

definition prune_ledger :: "force_lib \<Rightarrow> string set \<Rightarrow> string option \<Rightarrow> string + bool \<times> string option" where
  "prune_ledger F ids file =
     (case file of
        None \<Rightarrow> Inr (False, None)
      | Some raw \<Rightarrow>
          tryb (parse_history F raw) (\<lambda>_.
          let kept = filter (ledger_line_is_kept ids) (lines raw)
          in if length kept = length (lines raw) then Inr (False, Some raw)
             else if kept = [] then Inr (True, None)
             else Inr (True, Some (join [newline_char] kept @ [newline_char]))))"

definition append_move :: "string \<Rightarrow> string \<Rightarrow> string \<Rightarrow> string option \<Rightarrow> string" where
  "append_move i from to file = (case file of Some raw \<Rightarrow> raw | None \<Rightarrow> []) @ moved_row i from to"

text \<open>\<open>first\<close> is the first state the task left and \<open>arrivals\<close> how often it came to the state, over the
  ledgers in the order they are read; a missing ledger is passed over, a broken one stops the spawn.\<close>

fun entries_counted ::
  "force_lib \<Rightarrow> string \<Rightarrow> string \<Rightarrow> string option list \<Rightarrow> string option \<times> u64 \<Rightarrow> string + string option \<times> u64" where
  "entries_counted F i s [] acc = Inr acc"
| "entries_counted F i s (None # files) acc = entries_counted F i s files acc"
| "entries_counted F i s (Some raw # files) acc =
     tryb (parse_history F raw) (\<lambda>ms.
     entries_counted F i s files
       (foldl (\<lambda>(first, arrivals) m.
            (case first of None \<Rightarrow> Some (mv_from m) | Some f \<Rightarrow> Some f,
             arrivals + (if mv_to m = s then 1 else 0)))
          acc (filter (\<lambda>m. mv_task_id m = i) ms)))"

definition ticket_entry_number ::
  "force_lib \<Rightarrow> string \<Rightarrow> string \<Rightarrow> string option list \<Rightarrow> string + u64" where
  "ticket_entry_number F i s files =
     tryb (entries_counted F i s files (None, 0)) (\<lambda>(first, arrivals).
     Inr (max (arrivals + (if (case first of None \<Rightarrow> True | Some from \<Rightarrow> from = s) then 1 else 0)) 1))"

definition movements_or_none :: "force_lib \<Rightarrow> string \<Rightarrow> movement list" where
  "movements_or_none F raw = (case parse_history F raw of Inr ms \<Rightarrow> ms | Inl _ \<Rightarrow> [])"

fun ledger_first_departures_of :: "movement list \<Rightarrow> (string, string) bmap \<Rightarrow> (string, string) bmap" where
  "ledger_first_departures_of [] first = first"
| "ledger_first_departures_of (m # ms) first =
     ledger_first_departures_of ms
       (if bm_contains first (mv_task_id m) then first else bm_insert (mv_task_id m) (mv_from m) first)"

definition ledger_first_departures :: "force_lib \<Rightarrow> string option \<Rightarrow> (string, string) bmap" where
  "ledger_first_departures F file =
     (case file of None \<Rightarrow> [] | Some raw \<Rightarrow> ledger_first_departures_of (movements_or_none F raw) [])"

end
