(* ===== verification/Reset.thy ===== *)
theory Reset
  imports Transition_History Provider_Waits Waits "HOL-Library.Product_Lexorder"
begin

text \<open>
  What \<open>rhei reset\<close> puts back: the runtime keys it clears out of the frontmatter
  (\<open>metadata.rs\<close>, \<open>metadata_rewrite.rs\<close>, \<open>subtree_supervision.rs\<close>) and the state each task was
  authored in, recovered from the ledger of moves (\<open>reset_authored_states.rs\<close>). The paths of the
  loaded plan and what the file system holds at an execution root are arguments.
\<close>

subsection \<open>The register of rhei's own keys\<close>

record rhei_written_key =
  rk_name :: string
  rk_cleared_by_reset :: bool

definition rhei_written_keys :: "rhei_written_key list" where
  "rhei_written_keys =
     [\<lparr>rk_name = ''stateVisits'', rk_cleared_by_reset = True\<rparr>,
      \<lparr>rk_name = ''pollNextAttemptAt'', rk_cleared_by_reset = False\<rparr>,
      \<lparr>rk_name = ''providerLimits'', rk_cleared_by_reset = True\<rparr>,
      \<lparr>rk_name = ''supervision'', rk_cleared_by_reset = True\<rparr>,
      \<lparr>rk_name = ''budgetTicketId'', rk_cleared_by_reset = False\<rparr>]"

definition is_rhei_written_key :: "string \<Rightarrow> bool" where
  "is_rhei_written_key name \<longleftrightarrow> list_ex (\<lambda>k. rk_name k = name) rhei_written_keys"

definition keys_cleared_by_reset :: "string list" where
  "keys_cleared_by_reset = map rk_name (filter rk_cleared_by_reset rhei_written_keys)"

text \<open>The author's part of a task's metadata, over the frontmatter converted to JSON.\<close>

definition author_task_metadata :: "json \<Rightarrow> string \<Rightarrow> json option" where
  "author_task_metadata frontmatter i =
     Option.bind (json_get frontmatter ''metadata'') (\<lambda>m.
     Option.bind (json_get m ''tasks'') (\<lambda>tasks.
     Option.bind (json_get tasks i) (\<lambda>stored.
       case stored of
         Obj kvs \<Rightarrow>
           (let author = filter (\<lambda>(key, _). \<not> is_rhei_written_key key) kvs
            in if author = [] then None else Some (Obj author))
       | _ \<Rightarrow> None)))"

subsection \<open>Clearing runtime metadata\<close>

definition clear_rhei_written_key :: "('m, 'y) yaml \<Rightarrow> 'm option \<Rightarrow> string \<Rightarrow> 'm option" where
  "clear_rhei_written_key Y existing key =
     map_option (change_child Y (yaml_key Y ''metadata'') (change_child Y (yaml_key Y ''tasks'')
       (ym_map_values Y (\<lambda>v. case y_pattern Y v of
            Some entry \<Rightarrow> y_mapping Y (ym_remove Y entry (yaml_key Y key)) | None \<Rightarrow> v)))) existing"

definition clear_runtime_task_metadata :: "('m, 'y) yaml \<Rightarrow> 'm option \<Rightarrow> 'm option" where
  "clear_runtime_task_metadata Y existing =
     map_option (drop_empty_task_metadata Y) (foldl (clear_rhei_written_key Y) existing keys_cleared_by_reset)"

definition set_poll_next_attempt_metadata ::
  "('m, 'y) yaml \<Rightarrow> 'm option \<Rightarrow> task_id \<Rightarrow> string \<Rightarrow> u64 \<Rightarrow> u64 \<Rightarrow> 'm" where
  "set_poll_next_attempt_metadata Y existing i s next_attempt_at next_attempt_count =
     in_task_entry Y i (\<lambda>entry.
       in_mapping Y (yaml_key Y ''stateVisits'')
         (\<lambda>visits. ym_insert Y visits (yaml_key Y s) (y_number Y (max next_attempt_count 1)))
       (in_mapping Y (yaml_key Y ''pollNextAttemptAt'')
         (\<lambda>polls. ym_insert Y polls (yaml_key Y s) (y_number Y next_attempt_at)) entry)) existing"

subsection \<open>Where a task was authored\<close>

record state_move =
  sv_task_id :: string
  sv_from :: string
  sv_to :: string

record route =
  rt_execution_root :: "string list"
  rt_task_file :: "string list"
  rt_local_id :: string

record authored_states =
  au_by_file :: "(string list, (string, string) bmap) bmap"
  au_moves :: "state_move list"
  au_stranded :: "(string \<times> string) list"
  au_undeclared :: "(string \<times> string \<times> string) list"

text \<open>What the file system says of an execution root (its ledger where it is readable, and whether it
  holds a \<open>runtime\<close> directory) and of a task's body.\<close>

record evidence =
  ev_ledger :: "string list \<Rightarrow> string option"
  ev_ran :: "string list \<Rightarrow> bool"
  ev_content :: "task \<Rightarrow> string"

definition contains :: "string \<Rightarrow> string \<Rightarrow> bool" where
  "contains s p \<longleftrightarrow> list_ex (\<lambda>n. starts_with (drop n s) p) [0..<Suc (length s)]"

definition reset_destination :: "string option \<Rightarrow> string \<Rightarrow> state_machine \<Rightarrow> string" where
  "reset_destination recorded current m =
     (case recorded of Some s \<Rightarrow> if state_of m s \<noteq> None then s else current | None \<Rightarrow> current)"

definition shows_run_trace :: "evidence \<Rightarrow> task \<Rightarrow> string \<Rightarrow> bool" where
  "shows_run_trace ev t normalized_state \<longleftrightarrow>
     t_assignee (row t) \<noteq> None \<or> state_text t \<noteq> normalized_state \<or> contains (ev_content ev t) ''> **Result:**''"

definition initial_state_name :: "state_machine \<Rightarrow> string + string" where
  "initial_state_name m =
     (case map fst (filter (\<lambda>(_, d). initial d) (states m)) of
        [] \<Rightarrow> Inl ''state machine does not declare an initial state''
      | [s] \<Rightarrow> Inr s
      | _ \<Rightarrow> Inl ''state machine declares multiple legacy initial states'')"

definition initial_state_for_node :: "state_machine \<Rightarrow> string \<Rightarrow> u8 \<Rightarrow> string + string" where
  "initial_state_for_node m kind lvl =
     (case profile_for_node m kind lvl of Some p \<Rightarrow> Inr (p_initial p) | None \<Rightarrow> initial_state_name m)"

text \<open>The turns of the loop over the tasks in scope: a recorded state the machine no longer declares, the
  task's position, and the line to be written.\<close>

definition note_undeclared ::
  "state_machine \<Rightarrow> string \<Rightarrow> string \<Rightarrow> string option \<Rightarrow> authored_states \<Rightarrow> authored_states" where
  "note_undeclared m i current recorded result =
     (case recorded of
        Some s \<Rightarrow> if state_of m s = None
          then result\<lparr>au_undeclared := au_undeclared result @ [(i, current, s)]\<rparr> else result
      | None \<Rightarrow> result)"

definition note_position ::
  "string \<Rightarrow> string \<Rightarrow> string \<Rightarrow> bool \<Rightarrow> (string + string) \<Rightarrow> authored_states \<Rightarrow> authored_states" where
  "note_position i current goes_to no_history_of_a_run initial_state result =
     (if goes_to \<noteq> current
      then result\<lparr>au_moves := au_moves result @ [\<lparr>sv_task_id = i, sv_from = current, sv_to = goes_to\<rparr>]\<rparr>
      else if no_history_of_a_run \<and> (case initial_state of Inr s \<Rightarrow> s \<noteq> current | Inl _ \<Rightarrow> False)
      then result\<lparr>au_stranded := au_stranded result @ [(i, current)]\<rparr>
      else result)"

definition write_line :: "route \<Rightarrow> string \<Rightarrow> authored_states \<Rightarrow> authored_states" where
  "write_line path goes_to result =
     result\<lparr>au_by_file := bm_insert (rt_task_file path)
         (bm_insert (rt_local_id path) goes_to
           (case bm_get (au_by_file result) (rt_task_file path) of Some m \<Rightarrow> m | None \<Rightarrow> []))
         (au_by_file result)\<rparr>"

definition authored_step ::
  "force_lib \<Rightarrow> evidence \<Rightarrow> (string \<Rightarrow> route) \<Rightarrow> machine_set \<Rightarrow> authored_states \<Rightarrow> task \<Rightarrow> authored_states" where
  "authored_step F ev task_route ms result t =
     (let i = show_task_id (id_of t);
          path = task_route i;
          ledger = ledger_first_departures F (ev_ledger ev (rt_execution_root path));
          ran_here = ev_ran ev (rt_execution_root path);
          m = for_task ms (id_of t);
          current = normalized_state_name (state_text t) m;
          recorded = bm_get ledger i;
          goes_to = reset_destination recorded current m
      in write_line path goes_to
           (note_position i current goes_to (ledger = [] \<and> (ran_here \<or> shows_run_trace ev t current))
              (initial_state_for_node m (t_kind (row t)) (profile_level t))
             (note_undeclared m i current recorded result)))"

definition reset_scope_tasks :: "'m rhei \<Rightarrow> rhei_scope \<Rightarrow> task list" where
  "reset_scope_tasks r scope =
     collect_plan_tasks (filter (\<lambda>t. task_in_rhei_scope scope (show_task_id (id_of t))) (rh_tasks r))"

definition collect_authored_states ::
  "force_lib \<Rightarrow> evidence \<Rightarrow> (string \<Rightarrow> route) \<Rightarrow> 'm rhei \<Rightarrow> rhei_scope \<Rightarrow> machine_set \<Rightarrow> authored_states" where
  "collect_authored_states F ev task_route r scope ms =
     (let result = foldl (authored_step F ev task_route ms)
            \<lparr>au_by_file = [], au_moves = [], au_stranded = [], au_undeclared = []\<rparr> (reset_scope_tasks r scope)
      in result\<lparr>au_moves := sort_key sv_task_id (au_moves result), au_stranded := sort (au_stranded result),
           au_undeclared := sort (au_undeclared result)\<rparr>)"

subsection \<open>A visit before this one\<close>

text \<open>Over the movements of the task in the ledgers of the artifact root and of the run, where they can
  be read: a departure from the state settles it, and so does a second arrival.\<close>

fun visited_before :: "state_machine \<Rightarrow> string \<Rightarrow> nat \<Rightarrow> movement list \<Rightarrow> bool" where
  "visited_before m s entries [] = False"
| "visited_before m s entries (mv # mvs) =
     (if normalized_state_name (mv_from mv) m = s then True
      else if normalized_state_name (mv_to mv) m = s
      then (if entries + 1 > 1 then True else visited_before m s (entries + 1) mvs)
      else visited_before m s entries mvs)"

definition has_prior_state_visit ::
  "force_lib \<Rightarrow> string option list \<Rightarrow> task_id \<Rightarrow> state_machine \<Rightarrow> string \<Rightarrow> bool" where
  "has_prior_state_visit F files i m s =
     visited_before m s 0 (filter (\<lambda>mv. mv_task_id mv = show_task_id i)
       (concat (map (\<lambda>file. case file of Some raw \<Rightarrow> movements_or_none F raw | None \<Rightarrow> []) files)))"

end
