(* ===== verification/History_Claims.thy ===== *)
theory History_Claims
  imports Transition_History Line_Codec
begin

text \<open>
  The ledger of moves is read as it was written: every row appended and every pair of a forced
  move comes back as one movement, in order; and pruning takes away exactly the movements of the
  tasks it names.
\<close>

subsection \<open>A pair and its fields\<close>

text \<open>What the reader asks of a forced move's account.\<close>

definition audit_ok :: "force_lib \<Rightarrow> force_audit \<Rightarrow> bool" where
  "audit_ok F a \<longleftrightarrow>
     fl_uuid F (fa_recovery_id a) = Inr (7, fa_recovery_id a) \<and> fl_rfc3339 F (fa_timestamp a) = Inr True \<and>
     fa_schema_version a = 1 \<and> fa_confirmation a = ''typed-hop-v1'' \<and>
     trim (fa_reason a) \<noteq> [] \<and> trim (fa_os_user a) \<noteq> [] \<and> ends_with (fa_timestamp a) ''Z'' \<and>
     is_token (fa_task_id a) \<and> is_token (fa_from a) \<and> is_token (fa_to a) \<and>
     (\<forall>d. fa_result_sha256 a = Some d \<longrightarrow> is_digest d)"

lemma from_payload_Ok:
  "from_payload F p = Inr a \<longleftrightarrow>
     fl_unb64 F p = Inr (canonical_json F a) \<and> fl_b64 F (canonical_json F a) = p \<and>
     fl_from_slice F (canonical_json F a) = Inr a \<and> audit_ok F a"
proof
  assume "from_payload F p = Inr a"
  then show "fl_unb64 F p = Inr (canonical_json F a) \<and> fl_b64 F (canonical_json F a) = p \<and>
      fl_from_slice F (canonical_json F a) = Inr a \<and> audit_ok F a"
    by (auto simp: from_payload_def decode_payload_def audit_ok_def res_simps split: if_splits option.splits)
next
  assume "fl_unb64 F p = Inr (canonical_json F a) \<and> fl_b64 F (canonical_json F a) = p \<and>
      fl_from_slice F (canonical_json F a) = Inr a \<and> audit_ok F a"
  then show "from_payload F p = Inr a"
    by (cases "fa_result_sha256 a") (simp_all add: from_payload_def decode_payload_def audit_ok_def)
qed

lemma token_field: "is_token s \<Longrightarrow> is_field s \<and> CHR ''@'' \<notin> set s \<and> \<not> starts_with s ''!''"
  by (auto simp: is_token_def is_field_def list_ex_iff)

lemma hop_field: "is_token a \<Longrightarrow> is_field b \<Longrightarrow> is_field (a @ CHR ''@'' # b)"
  by (auto simp: is_token_def is_field_def list_ex_iff is_whitespace_def)

lemma hop_row_fields:
  assumes "is_field i" and "is_token a" and "is_field b"
  shows "split_whitespace (i @ '' '' @ a @ ''@'' @ b @ [newline_char]) = [i, a @ CHR ''@'' # b]"
  using split_whitespace_Cons [OF assms(1), of "CHR '' ''" "(a @ CHR ''@'' # b) @ [newline_char]"]
    split_whitespace_word [OF hop_field [OF assms(2,3)]]
    split_whitespace_end [of newline_char "a @ CHR ''@'' # b"] by simp

lemma meta_row_fields:
  assumes "is_field i" and "is_field p"
  shows "split_whitespace (i @ '' !force-v1 '' @ p @ [newline_char]) = [i, ''!force-v1'', p]"
proof -
  have v: "is_field ''!force-v1''" by (simp add: is_field_def is_whitespace_def)
  have "split_whitespace (i @ CHR '' '' # ''!force-v1'' @ CHR '' '' # p @ [newline_char]) = [i, ''!force-v1'', p]"
    by (simp add: split_whitespace_Cons [OF assms(1)] split_whitespace_Cons [OF v, simplified] split_whitespace_end
        split_whitespace_word [OF assms(2)])
  then show ?thesis by simp
qed

lemma not_forced_hop: "is_token a \<Longrightarrow> a @ CHR ''@'' # b \<noteq> ''!force-v1'' \<and> \<not> starts_with (a @ CHR ''@'' # b) ''!''"
  by (cases a) (auto simp: is_token_def starts_with_def)

subsection \<open>What was written is read\<close>

locale force_laws =
  fixes F :: force_lib
  assumes unb64_b64 [simp]: "fl_unb64 F (fl_b64 F b) = Inr b"
    and b64_alphabet: "c \<in> set (fl_b64 F b) \<Longrightarrow> is_ascii_alphanumeric c \<or> c = CHR ''-'' \<or> c = CHR ''_''"
    and b64_something: "b \<noteq> [] \<Longrightarrow> fl_b64 F b \<noteq> []"
    and to_vec_something: "fl_to_vec F v \<noteq> []"
    and audit_reads_back: "fl_from_slice F (fl_to_vec F (audit_value a)) = Inr a"

text \<open>The fields are declared in ascending order, so sorting them changes nothing.\<close>

lemma sorted_audit: "sorted_json (audit_value a) = audit_value a"
  by (cases "fa_result_sha256 a") (simp_all add: audit_value_def)

datatype ledger_entry = Moved string string string | Forced force_audit

primrec entry_text :: "force_lib \<Rightarrow> ledger_entry \<Rightarrow> string list" where
  "entry_text F (Moved i from to) = [moved_row i from to]"
| "entry_text F (Forced a) = [fst (force_pair F a), snd (force_pair F a)]"

primrec entry_movement :: "ledger_entry \<Rightarrow> movement" where
  "entry_movement (Moved i from to) = \<lparr>mv_task_id = i, mv_from = from, mv_to = to, mv_audit = None\<rparr>"
| "entry_movement (Forced a) = forced_movement a"

primrec entry_ok :: "force_lib \<Rightarrow> ledger_entry \<Rightarrow> bool" where
  "entry_ok F (Moved i from to) = (is_field i \<and> is_token from \<and> is_field to)"
| "entry_ok F (Forced a) = audit_ok F a"

definition recovery_ids :: "ledger_entry list \<Rightarrow> string list" where
  "recovery_ids es = concat (map (\<lambda>e. case e of Forced a \<Rightarrow> [fa_recovery_id a] | Moved _ _ _ \<Rightarrow> []) es)"

lemma plain_row_read:
  assumes "is_field i" and "is_token a" and "is_field b"
  shows "parse_rows F ids (moved_row i a b # rest) =
    tryb (parse_rows F ids rest) (\<lambda>ms. Inr (\<lparr>mv_task_id = i, mv_from = a, mv_to = b, mv_audit = None\<rparr> # ms))"
proof -
  have row: "split_whitespace (moved_row i a b) = [i, a @ CHR ''@'' # b]"
    using hop_row_fields [OF assms] by (simp add: moved_row_def)
  have "a \<noteq> []" "b \<noteq> []" using assms(2,3) by (auto simp: is_token_def is_field_def)
  moreover have "split_once CHR ''@'' (a @ CHR ''@'' # b) = Some (a, b)"
    using token_field [OF assms(2)] by (intro split_once_append) simp
  ultimately have "plain_movement [i, a @ CHR ''@'' # b] =
      Some \<lparr>mv_task_id = i, mv_from = a, mv_to = b, mv_audit = None\<rparr>"
    using not_forced_hop [OF assms(2), of b] by (simp add: plain_movement_def)
  then show ?thesis using not_forced_hop [OF assms(2), of b] by (simp add: row)
qed

text \<open>Whatever text the reader takes, a plain move it returns is one that could have been appended.\<close>

lemma plain_movement_ok:
  assumes "plain_movement (split_whitespace line) = Some m" and "2 \<le> length (split_whitespace line)"
  shows "is_field (mv_task_id m) \<and> is_token (mv_from m) \<and> is_field (mv_to m)"
proof -
  obtain i hop rest where row: "split_whitespace line = i # hop # rest"
    using assms(2) by (cases "split_whitespace line" rule: remdups_adj.cases) auto
  then have "is_field i" "is_field hop" using split_whitespace_fields [of _ line] by auto
  moreover obtain a b where "hop = a @ CHR ''@'' # b" "CHR ''@'' \<notin> set a" "a \<noteq> []" "b \<noteq> []" "\<not> starts_with hop ''!''"
      and "m = \<lparr>mv_task_id = i, mv_from = a, mv_to = b, mv_audit = None\<rparr>"
    using assms(1) by (auto simp: row plain_movement_def dest!: split_once_Some split: option.splits if_splits)
  ultimately show ?thesis by (auto simp: is_field_def is_token_def list_ex_iff starts_with_iff)
qed

lemma plain_reads_ok:
  "parse_rows F ids ls = Inr ms \<Longrightarrow> m \<in> set ms \<Longrightarrow> mv_audit m = None \<Longrightarrow>
   is_field (mv_task_id m) \<and> is_token (mv_from m) \<and> is_field (mv_to m)"
proof (induction "length ls" arbitrary: ids ls ms rule: less_induct)
  case less
  show ?case
  proof (cases ls)
    case Nil
    then show ?thesis using less.prems by simp
  next
    case (Cons line rest)
    let ?row = "split_whitespace line"
    note step = less.hyps [OF _ _ _ less.prems(3)]
    consider (short) "length ?row < 2" | (forced) "2 \<le> length ?row" "?row ! 1 = ''!force-v1''"
      | (plain) "2 \<le> length ?row" "?row ! 1 \<noteq> ''!force-v1''" by fastforce
    then show ?thesis
    proof cases
      case short
      then show ?thesis using less.prems step [of rest ids ms] by (simp add: Cons)
    next
      case forced
      then obtain a moved rest' ms' where "rest = moved # rest'" "parse_rows F (insert (fa_recovery_id a) ids) rest' = Inr ms'"
          "ms = forced_movement a # ms'"
        using less.prems(1) by (cases rest) (auto simp: Cons Let_def res_simps split: if_splits)
      then show ?thesis
        using less.prems(2,3) step [of rest' "insert (fa_recovery_id a) ids" ms']
        by (auto simp: Cons forced_movement_def)
    next
      case plain
      then obtain ms' where ms': "parse_rows F ids rest = Inr ms'"
          "ms = (case plain_movement ?row of Some m \<Rightarrow> m # ms' | None \<Rightarrow> ms')"
        using less.prems(1) by (auto simp: Cons Let_def res_simps)
      then have "plain_movement ?row = Some m \<or> m \<in> set ms'"
        using less.prems(2) by (auto split: option.splits)
      then show ?thesis
        using plain_movement_ok [OF _ plain(1), of m] step [of rest ids ms'] ms'(1) by (auto simp: Cons)
    qed
  qed
qed

lemma no_newline: "is_field w \<Longrightarrow> newline_char \<notin> set w"
  by (auto simp: is_field_def)

context force_laws
begin

lemma b64_field:
  assumes "b \<noteq> []"
  shows "is_field (fl_b64 F b)"
proof -
  have "\<not> is_whitespace c" if "c \<in> set (fl_b64 F b)" for c
    using b64_alphabet [OF that]
    by (auto simp: is_whitespace_def is_ascii_alphanumeric_def is_ascii_digit_def is_ascii_alphabetic_def)
  then show ?thesis using b64_something [OF assms] by (simp add: is_field_def)
qed

lemma payload_reads_back:
  assumes "audit_ok F a"
  shows "from_payload F (fl_b64 F (canonical_json F a)) = Inr a"
  using assms audit_reads_back by (simp add: from_payload_Ok canonical_json_def sorted_audit)

lemma pair_read:
  assumes "audit_ok F a" and "fa_recovery_id a \<notin> ids"
  shows "parse_rows F ids (fst (force_pair F a) # snd (force_pair F a) # rest) =
    tryb (parse_rows F (insert (fa_recovery_id a) ids) rest) (\<lambda>ms. Inr (forced_movement a # ms))"
proof -
  have "is_field (fa_task_id a)" using assms(1) token_field by (simp add: audit_ok_def)
  moreover have "is_field (fl_b64 F (canonical_json F a))"
    by (rule b64_field) (simp add: canonical_json_def to_vec_something)
  ultimately have "split_whitespace (fst (force_pair F a)) = [fa_task_id a, ''!force-v1'', fl_b64 F (canonical_json F a)]"
    using meta_row_fields by (simp add: force_pair_def)
  then show ?thesis using payload_reads_back [OF assms(1)] assms(2) by simp
qed

lemma entries_read:
  "\<forall>e\<in>set es. entry_ok F e \<Longrightarrow> distinct (recovery_ids es) \<Longrightarrow> set (recovery_ids es) \<inter> ids = {} \<Longrightarrow>
   parse_rows F ids (concat (map (entry_text F) es)) = Inr (map entry_movement es)"
proof (induction es arbitrary: ids)
  case (Cons e es)
  then show ?case
    by (cases e) (simp_all add: recovery_ids_def plain_row_read pair_read del: parse_rows.simps)
qed simp


lemma entry_lines:
  assumes "entry_ok F e" and "l \<in> set (entry_text F e)"
  shows "whole_line l"
proof -
  show ?thesis
  proof (cases e)
    case (Moved i a b)
    then show ?thesis using assms(1,2) token_field no_newline
      by (intro whole_line_def [THEN iffD2] exI [of _ "i @ '' '' @ a @ ''@'' @ b"]) (auto simp: moved_row_def)
  next
    case (Forced a)
    have p: "newline_char \<notin> set (fl_b64 F (canonical_json F a))"
      by (rule no_newline, rule b64_field) (simp add: canonical_json_def to_vec_something)
    have t: "newline_char \<notin> set (fa_task_id a) \<union> set (fa_from a) \<union> set (fa_to a)"
      using assms(1) Forced token_field no_newline by (auto simp: audit_ok_def)
    show ?thesis using assms(2) Forced p t
      by (auto simp: force_pair_def whole_line_def
          intro: exI [of _ "fa_task_id a @ '' !force-v1 '' @ fl_b64 F (canonical_json F a)"]
            exI [of _ "fa_task_id a @ '' '' @ fa_from a @ ''@'' @ fa_to a"])
  qed
qed

lemma entries_parse:
  assumes "\<forall>e\<in>set es. entry_ok F e" and "distinct (recovery_ids es)"
  shows "parse_history F (concat (concat (map (entry_text F) es))) = Inr (map entry_movement es)"
proof -
  have "split_inclusive (concat (concat (map (entry_text F) es))) = concat (map (entry_text F) es)"
    using entry_lines assms(1) by (intro split_inclusive_whole) auto
  then show ?thesis using entries_read [OF assms, of "{}"] by (simp add: parse_history_def)
qed

end

text \<open>C35: What the ledger was given it gives back. Of a sequence of forced pairs and of appended moves
  whose id and names are single words, the one left without \<open>@\<close> or a leading \<open>!\<close>, read through the
  one reader, every entry comes back as one movement, in the order written. There is no other kind: a
  plain move the reader returns of any text has such an id and such names, so a move out of or into a
  state whose name holds a space never comes back as itself.\<close>

theorem written_history_reads_back:
  assumes "force_laws F" and "\<forall>e\<in>set es. entry_ok F e" and "distinct (recovery_ids es)"
  shows "parse_history F (concat (concat (map (entry_text F) es))) = Inr (map entry_movement es) \<and>
    (\<forall>raw ms m. parse_history F raw = Inr ms \<longrightarrow> m \<in> set ms \<longrightarrow> mv_audit m = None \<longrightarrow>
       entry_ok F (Moved (mv_task_id m) (mv_from m) (mv_to m)))"
  using force_laws.entries_parse [OF assms] plain_reads_ok [of F "{}"]
  by (simp add: parse_history_def)

subsection \<open>Pruning\<close>

definition relined :: "string \<Rightarrow> string" where
  "relined l = line_of l @ [newline_char]"

lemma relined_fields [simp]: "split_whitespace (relined l) = split_whitespace l"
  by (simp add: relined_def split_whitespace_end split_whitespace_line_of)

lemma relined_kept [simp]: "ledger_line_is_kept ids (line_of l) = ledger_line_is_kept ids l"
  by (simp add: ledger_line_is_kept_def split_whitespace_line_of)

lemma relined_row:
  assumes "is_field w"
  shows "relined (v @ w @ [newline_char]) = v @ w @ [newline_char]"
proof -
  have "w \<noteq> []" using assms by (simp add: is_field_def)
  moreover have "last w \<noteq> return_char" using assms \<open>w \<noteq> []\<close> last_in_set [of w] by (force simp: is_field_def)
  ultimately show ?thesis by (simp add: relined_def line_of_def butlast_append)
qed

lemma payload_pair:
  assumes "from_payload F p = Inr a" and "is_field p"
  shows "relined (fst (force_pair F a)) = fst (force_pair F a)" and "relined (snd (force_pair F a)) = snd (force_pair F a)"
    and "split_whitespace (snd (force_pair F a)) = [fa_task_id a, fa_from a @ CHR ''@'' # fa_to a]"
proof -
  have a: "is_token (fa_from a)" "is_field (fa_to a)" "is_field (fa_task_id a)" "fl_b64 F (canonical_json F a) = p"
    using assms(1) token_field by (auto simp: from_payload_Ok audit_ok_def)
  show "relined (fst (force_pair F a)) = fst (force_pair F a)"
    using relined_row [OF assms(2), of "fa_task_id a @ '' !force-v1 ''"] a(4) by (simp add: force_pair_def)
  show "relined (snd (force_pair F a)) = snd (force_pair F a)"
    using relined_row [OF hop_field [OF a(1,2)], of "fa_task_id a @ '' ''"] by (simp add: force_pair_def)
  show "split_whitespace (snd (force_pair F a)) = [fa_task_id a, fa_from a @ CHR ''@'' # fa_to a]"
    using hop_row_fields [OF a(3,1,2)] by (simp add: force_pair_def)
qed

lemma plain_movement_id: "plain_movement w = Some m \<Longrightarrow> mv_task_id m = w ! 0"
  by (auto simp: plain_movement_def split: if_splits option.splits)

lemma kept_by_first: "split_whitespace l = w # ws \<Longrightarrow> ledger_line_is_kept ids l \<longleftrightarrow> w \<notin> ids"
  by (simp add: ledger_line_is_kept_def)

text \<open>A pair the reader took is left whole or taken away whole.\<close>

lemma forced_row_cases:
  assumes "parse_rows F seen (line # rest) = Inr ms" and "2 \<le> length (split_whitespace line)"
    and "split_whitespace line ! 1 = ''!force-v1''"
  obtains a rest' ms' where "split_whitespace line = [fa_task_id a, ''!force-v1'', split_whitespace line ! 2]"
    and "from_payload F (split_whitespace line ! 2) = Inr a" and "is_field (split_whitespace line ! 2)"
    and "line = fst (force_pair F a)" and "rest = snd (force_pair F a) # rest'" and "fa_recovery_id a \<notin> seen"
    and "parse_rows F (insert (fa_recovery_id a) seen) rest' = Inr ms'" and "ms = forced_movement a # ms'"
proof -
  have len: "length (split_whitespace line) = 3" using assms by (simp add: Let_def split: if_splits)
  then obtain x y z where xyz: "split_whitespace line = [x, y, z]"
    by (auto simp: length_Suc_conv numeral_3_eq_3)
  have "is_field z" using split_whitespace_fields [of z line] xyz by simp
  moreover have "y = ''!force-v1''" using assms(3) xyz by simp
  ultimately show thesis
  proof (cases rest)
    case Nil
    then show thesis using assms(1) xyz \<open>y = _\<close> by (simp add: res_simps)
  next
    case (Cons moved rest')
    then obtain a ms' where "from_payload F z = Inr a" "x = fa_task_id a" "line = fst (force_pair F a)"
      "moved = snd (force_pair F a)" "fa_recovery_id a \<notin> seen"
      "parse_rows F (insert (fa_recovery_id a) seen) rest' = Inr ms'" "ms = forced_movement a # ms'"
      using assms(1) xyz \<open>y = _\<close> by (auto simp: res_simps split: if_splits)
    then show thesis using xyz \<open>y = _\<close> \<open>is_field z\<close> Cons by (intro that [of a rest' ms']) auto
  qed
qed

lemma pruned_rows:
  assumes f: "f = relined \<or> f = (\<lambda>l. l)"
  shows "parse_rows F seen ls = Inr ms \<Longrightarrow> seen' \<subseteq> seen \<Longrightarrow>
   parse_rows F seen' (map f (filter (ledger_line_is_kept ids) ls)) = Inr (filter (\<lambda>m. mv_task_id m \<notin> ids) ms)"
proof (induction "length ls" arbitrary: ls seen seen' ms rule: less_induct)
  case less
  show ?case
  proof (cases ls)
    case Nil
    then show ?thesis using less.prems by simp
  next
    case (Cons line rest)
    have rest: "length rest < length ls" by (simp add: Cons)
    have same: "split_whitespace (f line) = split_whitespace line" using f by auto
    let ?w = "split_whitespace line"
    consider "length ?w < 2" | "2 \<le> length ?w" "?w ! 1 = ''!force-v1''" | "2 \<le> length ?w" "?w ! 1 \<noteq> ''!force-v1''"
      by linarith
    then show ?thesis
    proof cases
      case 1
      then have "parse_rows F seen rest = Inr ms" using less.prems(1) by (simp add: Cons)
      from less.hyps [OF rest this less.prems(2)] 1 show ?thesis by (simp add: Cons same)
    next
      case 2
      from less.prems(1)[unfolded Cons] 2 obtain a rest' ms' where
        a: "?w = [fa_task_id a, ''!force-v1'', ?w ! 2]" "from_payload F (?w ! 2) = Inr a" "is_field (?w ! 2)"
          "line = fst (force_pair F a)" "rest = snd (force_pair F a) # rest'" "fa_recovery_id a \<notin> seen"
          "parse_rows F (insert (fa_recovery_id a) seen) rest' = Inr ms'" "ms = forced_movement a # ms'"
        by (rule forced_row_cases)
      have rest': "length rest' < length ls" by (simp add: Cons a(5))
      have pr: "f (fst (force_pair F a)) = fst (force_pair F a)" "f (snd (force_pair F a)) = snd (force_pair F a)"
        "split_whitespace (snd (force_pair F a)) = [fa_task_id a, fa_from a @ CHR ''@'' # fa_to a]"
        using payload_pair [OF a(2,3)] f by auto
      have w: "split_whitespace (fst (force_pair F a)) = [fa_task_id a, ''!force-v1'', ?w ! 2]" using a(1,4) by simp
      have kept: "ledger_line_is_kept ids (fst (force_pair F a)) \<longleftrightarrow> fa_task_id a \<notin> ids"
        "ledger_line_is_kept ids (snd (force_pair F a)) \<longleftrightarrow> fa_task_id a \<notin> ids"
        using kept_by_first w pr(3) by blast+
      have sub: "seen' \<subseteq> insert (fa_recovery_id a) seen"
        "insert (fa_recovery_id a) seen' \<subseteq> insert (fa_recovery_id a) seen"
        using less.prems(2) by blast+
      have fresh: "fa_recovery_id a \<notin> seen'" using a(6) less.prems(2) by blast
      show ?thesis
      proof (cases "fa_task_id a \<in> ids")
        case True
        then show ?thesis using less.hyps [OF rest' a(7) sub(1)] kept
          by (simp add: Cons a(4,5,8) forced_movement_def)
      next
        case False
        then have "map f (filter (ledger_line_is_kept ids) ls) =
            fst (force_pair F a) # snd (force_pair F a) # map f (filter (ledger_line_is_kept ids) rest')"
          using kept pr(1,2) by (simp add: Cons a(4,5))
        then show ?thesis using False fresh less.hyps [OF rest' a(7) sub(2)] a(2)
          by (simp add: w a(8) forced_movement_def)
      qed
    next
      case 3
      then obtain ms' where ms': "parse_rows F seen rest = Inr ms'"
        "ms = (case plain_movement ?w of Some m \<Rightarrow> m # ms' | None \<Rightarrow> ms')"
        using less.prems(1) by (auto simp: Cons res_simps)
      have "ledger_line_is_kept ids line \<longleftrightarrow> ?w ! 0 \<notin> ids"
        using 3(1) by (cases ?w) (auto simp: ledger_line_is_kept_def)
      then show ?thesis
        using less.hyps [OF rest ms'(1) less.prems(2)] 3
        by (auto simp: Cons ms'(2) same plain_movement_id split: option.splits)
    qed
  qed
qed

lemma kept_lines: "filter (ledger_line_is_kept ids) (lines raw) = map line_of (filter (ledger_line_is_kept ids) (split_inclusive raw))"
  by (simp add: lines_def filter_map o_def)

lemma length_lines [simp]: "length (lines raw) = length (split_inclusive raw)"
  by (simp add: lines_def)

lemma relined_join:
  "ls \<noteq> [] \<Longrightarrow> join [newline_char] (map line_of ls) @ [newline_char] = concat (map relined ls)"
  by (induction ls rule: induct_list012) (simp_all add: relined_def)

lemma pruned_file:
  assumes "prune_ledger F ids (Some raw) = Inr (changed, file)"
  shows "changed \<longleftrightarrow> (\<exists>line\<in>set (lines raw). \<not> ledger_line_is_kept ids line)"
    and "file = None \<longleftrightarrow> lines raw \<noteq> [] \<and> (\<forall>line\<in>set (lines raw). \<not> ledger_line_is_kept ids line)"
    and "\<not> changed \<longrightarrow> file = Some raw"
proof -
  let ?kept = "filter (ledger_line_is_kept ids) (lines raw)"
  have "length ?kept = length (lines raw) \<longleftrightarrow> (\<forall>line\<in>set (lines raw). ledger_line_is_kept ids line)"
    by (metis filter_id_conv length_filter_less order_less_irrefl)
  moreover have "?kept = [] \<longleftrightarrow> (\<forall>line\<in>set (lines raw). \<not> ledger_line_is_kept ids line)"
    by (simp add: filter_empty_conv)
  moreover have "(changed, file) = (if length ?kept = length (lines raw) then (False, Some raw)
      else if ?kept = [] then (True, None) else (True, Some (join [newline_char] ?kept @ [newline_char])))"
    using assms by (auto simp: prune_ledger_def res_simps Let_def simp del: length_lines split: if_splits)
  ultimately show "changed \<longleftrightarrow> (\<exists>line\<in>set (lines raw). \<not> ledger_line_is_kept ids line)"
    and "file = None \<longleftrightarrow> lines raw \<noteq> [] \<and> (\<forall>line\<in>set (lines raw). \<not> ledger_line_is_kept ids line)"
    and "\<not> changed \<longrightarrow> file = Some raw"
    by (cases "lines raw", auto split: if_splits)+
qed

text \<open>C36: Pruning takes away exactly the movements of the tasks it names: where it succeeds the ledger
  read well, and what is left reads as the movements of every other task, in their order, forced
  pairs whole. It changes the ledger exactly where a line names such a task first; the file is gone
  exactly where every line does, and an untouched one is the same bytes.\<close>

theorem pruning_removes_exactly:
  assumes "prune_ledger F ids (Some raw) = Inr (changed, file)"
  shows "\<exists>ms. parse_history F raw = Inr ms \<and>
    parse_history F (case file of Some raw' \<Rightarrow> raw' | None \<Rightarrow> []) = Inr (filter (\<lambda>m. mv_task_id m \<notin> ids) ms) \<and>
    (changed \<longleftrightarrow> (\<exists>line\<in>set (lines raw). \<not> ledger_line_is_kept ids line)) \<and>
    (file = None \<longleftrightarrow> lines raw \<noteq> [] \<and> (\<forall>line\<in>set (lines raw). \<not> ledger_line_is_kept ids line)) \<and>
    (\<not> changed \<longrightarrow> file = Some raw)"
proof -
  obtain ms where ms: "parse_history F raw = Inr ms"
    using assms by (auto simp: prune_ledger_def res_simps)
  let ?kept = "filter (ledger_line_is_kept ids) (split_inclusive raw)"
  have pruned: "parse_rows F {} (map relined ?kept) = Inr (filter (\<lambda>m. mv_task_id m \<notin> ids) ms)"
    using pruned_rows [of relined F "{}" _ ms "{}"] ms by (simp add: parse_history_def)
  have whole: "split_inclusive (concat (map relined ?kept)) = map relined ?kept"
    using split_inclusive_cases line_of_no_newline
    by (intro split_inclusive_whole) (auto simp: relined_def whole_line_def)
  have lines: "changed \<longleftrightarrow> (\<exists>line\<in>set (lines raw). \<not> ledger_line_is_kept ids line)"
    "file = None \<longleftrightarrow> lines raw \<noteq> [] \<and> (\<forall>line\<in>set (lines raw). \<not> ledger_line_is_kept ids line)"
    "\<not> changed \<longrightarrow> file = Some raw"
    using pruned_file [OF assms] by auto
  show ?thesis
  proof (cases "length ?kept = length (split_inclusive raw)")
    case True
    then have all: "?kept = split_inclusive raw" by (metis filter_id_conv length_filter_less order_less_irrefl)
    have "filter (\<lambda>m. mv_task_id m \<notin> ids) ms = ms"
      using pruned_rows [of "\<lambda>l. l" F "{}" "split_inclusive raw" ms "{}" ids] ms by (simp add: all parse_history_def)
    moreover have "file = Some raw"
      using assms ms True by (auto simp: prune_ledger_def kept_lines Let_def split: if_splits)
    ultimately show ?thesis using ms lines by simp
  next
    case False
    then have "parse_history F (case file of Some raw' \<Rightarrow> raw' | None \<Rightarrow> []) = Inr (filter (\<lambda>m. mv_task_id m \<notin> ids) ms)"
      using assms ms pruned whole
      by (auto simp: prune_ledger_def kept_lines relined_join parse_history_def Let_def split: if_splits)
    then show ?thesis using ms lines by blast
  qed
qed

subsection \<open>An instance of the codecs\<close>

definition letters_of :: "u8 \<Rightarrow> string" where
  "letters_of b = [char_of (65 + unat b div 16), char_of (65 + unat b mod 16)]"

fun bytes_of_letters :: "string \<Rightarrow> string + bytes" where
  "bytes_of_letters [] = Inr []"
| "bytes_of_letters [c] = Inl ''odd length''"
| "bytes_of_letters (c # d # s) =
     tryb (bytes_of_letters s) (\<lambda>bs. Inr (of_nat (16 * (of_char c - 65) + (of_char d - 65)) # bs))"

definition audit_of_json :: "json \<Rightarrow> force_audit option" where
  "audit_of_json j =
     (let str = (\<lambda>k. Option.bind (json_get j k) json_str) in
      Option.bind (str ''confirmation'') (\<lambda>confirmation. Option.bind (str ''from'') (\<lambda>from_state.
      Option.bind (str ''os_user'') (\<lambda>os_user. Option.bind (str ''reason'') (\<lambda>reason.
      Option.bind (str ''recovery_id'') (\<lambda>recovery_id. Option.bind (str ''task_id'') (\<lambda>the_task.
      Option.bind (str ''timestamp'') (\<lambda>the_time. Option.bind (str ''to'') (\<lambda>to_state.
      Option.bind (Option.bind (json_get j ''schema_version'') json_u64) (\<lambda>schema_version.
        Some \<lparr>fa_confirmation = confirmation, fa_from = from_state, fa_os_user = os_user, fa_reason = reason,
          fa_recovery_id = recovery_id, fa_result_sha256 = str ''result_sha256'',
          fa_schema_version = ucast schema_version, fa_task_id = the_task, fa_timestamp = the_time, fa_to = to_state\<rparr>))))))))))"

definition force_sample :: force_lib where
  "force_sample =
     \<lparr>fl_b64 = (\<lambda>b. concat (map letters_of b)), fl_unb64 = bytes_of_letters, fl_to_vec = put_json,
      fl_from_slice = (\<lambda>b. ok_or ''not an audit''
        (Option.bind (take_json (length b) b) (\<lambda>(j, rest). if rest = [] then audit_of_json j else None))),
      fl_uuid = (\<lambda>s. Inr (7, s)), fl_rfc3339 = (\<lambda>_. Inr True)\<rparr>"

lemma letters_in: "c \<in> set (letters_of b) \<Longrightarrow> 65 \<le> (of_char c :: nat) \<and> (of_char c :: nat) \<le> 80"
proof -
  have "unat b < 256" using unsigned_less [of b] by simp
  moreover assume "c \<in> set (letters_of b)"
  ultimately show ?thesis by (auto simp: letters_of_def of_char_of)
qed

lemma letters_back: "bytes_of_letters (letters_of b @ s) = tryb (bytes_of_letters s) (\<lambda>bs. Inr (b # bs))"
proof -
  have "unat b < 256" using unsigned_less [of b] by simp
  then have "(16 * (of_char (char_of (65 + unat b div 16) :: char) - 65) +
      (of_char (char_of (65 + unat b mod 16) :: char) - 65) :: nat) = unat b"
    by (simp add: of_char_of)
  then show ?thesis by (simp add: letters_of_def del: of_nat_add of_nat_mult)
qed

lemma u8_through_u64: "ucast (ucast (b :: u8) :: u64) = b"
  by (rule bit_word_eqI) (simp add: bit_simps)

lemma audit_json_back: "audit_of_json (audit_value a) = Some a"
  by (cases a; cases "fa_result_sha256 a") (simp_all add: audit_of_json_def audit_value_def Let_def u8_through_u64)

interpretation fl: force_laws force_sample
proof
  show "fl_unb64 force_sample (fl_b64 force_sample b) = Inr b" for b
    by (induction b) (simp_all add: force_sample_def letters_back)
  show "is_ascii_alphanumeric c \<or> c = CHR ''-'' \<or> c = CHR ''_''" if "c \<in> set (fl_b64 force_sample b)" for c b
    using that letters_in [of c] by (force simp: force_sample_def is_ascii_alphanumeric_def is_ascii_alphabetic_def)
  show "fl_b64 force_sample b \<noteq> []" if "b \<noteq> []" for b
    using that by (cases b) (simp_all add: force_sample_def letters_of_def)
  show "fl_to_vec force_sample v \<noteq> []" for v
    using put_json_head [of v] by (auto simp: force_sample_def)
  show "fl_from_slice force_sample (fl_to_vec force_sample (audit_value a)) = Inr a" for a
    using take_put_json [of "audit_value a" _ "[]"] by (simp add: force_sample_def audit_json_back)
qed

definition sample_force :: force_audit where
  "sample_force =
     \<lparr>fa_confirmation = ''typed-hop-v1'', fa_from = ''doing'', fa_os_user = ''ann'', fa_reason = ''stuck'',
      fa_recovery_id = ''r1'', fa_result_sha256 = None, fa_schema_version = 1, fa_task_id = ''2'',
      fa_timestamp = ''2026-01-01T00:00:00Z'', fa_to = ''done''\<rparr>"

definition sample_entries :: "ledger_entry list" where
  "sample_entries = [Moved ''1'' ''todo'' ''doing'', Forced sample_force, Moved ''1'' ''doing'' ''done'']"

lemma sample_entries_ok: "\<forall>e\<in>set sample_entries. entry_ok force_sample e" "distinct (recovery_ids sample_entries)"
  by (simp_all add: sample_entries_def recovery_ids_def sample_force_def audit_ok_def is_token_def is_field_def
      is_whitespace_def starts_with_def ends_with_def trim_def trim_start_def trim_end_def force_sample_def)

lemma written_history_reads_back_witness:
  "parse_history force_sample (concat (concat (map (entry_text force_sample) sample_entries))) =
     Inr (map entry_movement sample_entries)"
  by (rule written_history_reads_back [OF fl.force_laws_axioms sample_entries_ok, THEN conjunct1])

definition sample_rows :: string where
  "sample_rows = moved_row ''1'' ''todo'' ''done'' @ ''# a remark'' @ [newline_char] @ moved_row ''2'' ''todo'' ''doing''"

lemma pruning_removes_exactly_witness:
  "prune_ledger force_sample {''1''} (Some sample_rows) =
     Inr (True, Some (''# a remark'' @ [newline_char] @ moved_row ''2'' ''todo'' ''doing'')) \<and>
   parse_history force_sample (''# a remark'' @ [newline_char] @ moved_row ''2'' ''todo'' ''doing'') =
     Inr [\<lparr>mv_task_id = ''2'', mv_from = ''todo'', mv_to = ''doing'', mv_audit = None\<rparr>]"
proof -
  have p: "prune_ledger force_sample {''1''} (Some sample_rows) =
     Inr (True, Some (''# a remark'' @ [newline_char] @ moved_row ''2'' ''todo'' ''doing''))" by code_simp
  have "parse_history force_sample sample_rows =
     Inr [\<lparr>mv_task_id = ''1'', mv_from = ''todo'', mv_to = ''done'', mv_audit = None\<rparr>,
          \<lparr>mv_task_id = ''2'', mv_from = ''todo'', mv_to = ''doing'', mv_audit = None\<rparr>]" by code_simp
  then show ?thesis using p pruning_removes_exactly [OF p] by simp
qed

end
