(* ===== verification/Reset_Claims.thy ===== *)
theory Reset_Claims
  imports Reset History_Claims Supervision_Claims
begin

text \<open>
  A reset puts a plan back as it was authored: it clears exactly the runtime keys the register
  marks, and every task whose moves the ledger holds goes back to the state it first left. A
  state name with a space, which the plan language allows, is not read back from the ledger.
\<close>

subsection \<open>The runtime keys\<close>

definition entry_field :: "('m, 'y) yaml \<Rightarrow> 'm option \<Rightarrow> task_id \<Rightarrow> string \<Rightarrow> 'y option" where
  "entry_field Y md i key = Option.bind (task_metadata_map Y md i) (\<lambda>entry. ym_get Y entry (yaml_key Y key))"

text \<open>No task's entry carries a tag.\<close>

definition plain_entries :: "('m, 'y) yaml \<Rightarrow> 'm option \<Rightarrow> bool" where
  "plain_entries Y md \<longleftrightarrow> (\<forall>tasks k v. task_entries Y md = Some tasks \<longrightarrow> ym_get Y tasks k = Some v \<longrightarrow>
     y_as_mapping Y v = y_pattern Y v)"

text \<open>What stands under \<open>metadata\<close> beside the tasks.\<close>

definition section_field :: "('m, 'y) yaml \<Rightarrow> 'm option \<Rightarrow> 'y \<Rightarrow> 'y option" where
  "section_field Y md l =
     Option.bind md (\<lambda>whole. Option.bind (ym_get Y whole (yaml_key Y ''metadata'')) (\<lambda>v.
     Option.bind (y_as_mapping Y v) (\<lambda>sect. ym_get Y sect l)))"

definition cleared_entry :: "('m, 'y) yaml \<Rightarrow> string \<Rightarrow> 'y \<Rightarrow> 'y" where
  "cleared_entry Y key v =
     (case y_pattern Y v of Some entry \<Rightarrow> y_mapping Y (ym_remove Y entry (yaml_key Y key)) | None \<Rightarrow> v)"

context yaml_laws
begin

lemma get_change_child:
  "ym_get Y (change_child Y k f m) l =
   (if l = k then (case ym_get Y m k of Some v \<Rightarrow> Some (case y_pattern Y v of Some c \<Rightarrow> y_mapping Y (f c) | None \<Rightarrow> v) | None \<Rightarrow> None)
    else ym_get Y m l)"
  by (auto simp: change_child_def get_insert split: option.splits)

lemma entries_changed:
  assumes "plain_sections Y (Some whole)"
  shows "task_entries Y (Some (change_child Y (yaml_key Y ''metadata'') (change_child Y (yaml_key Y ''tasks'') f) whole)) =
    map_option f (task_entries Y (Some whole))"
proof (cases "ym_get Y whole (yaml_key Y ''metadata'')")
  case None
  then show ?thesis by (simp add: task_entries_def get_change_child)
next
  case (Some v)
  have v: "y_as_mapping Y v = y_pattern Y v" using assms Some by (simp add: plain_sections_def)
  show ?thesis
  proof (cases "y_pattern Y v")
    case None
    then show ?thesis using Some v by (simp add: task_entries_def get_change_child)
  next
    case sect: (Some sect)
    have "y_as_mapping Y w = y_pattern Y w" if "ym_get Y sect (yaml_key Y ''tasks'') = Some w" for w
      using assms Some sect that by (auto simp: plain_sections_def)
    then show ?thesis using Some sect v
      by (cases "ym_get Y sect (yaml_key Y ''tasks'')")
        (auto simp: task_entries_def get_change_child split: option.splits)
  qed
qed

lemma plain_changed:
  assumes "plain_sections Y (Some whole)"
  shows "plain_sections Y (Some (change_child Y (yaml_key Y ''metadata'') (change_child Y (yaml_key Y ''tasks'') f) whole))"
  using assms by (auto simp: plain_sections_def get_change_child split: option.splits if_splits)

lemma clear_key_entries:
  assumes "plain_sections Y md"
  shows "task_entries Y (clear_rhei_written_key Y md key) =
    map_option (ym_map_values Y (cleared_entry Y key)) (task_entries Y md)"
  and "plain_sections Y (clear_rhei_written_key Y md key)"
  using assms entries_changed plain_changed
  by (cases md; simp add: clear_rhei_written_key_def cleared_entry_def [abs_def] task_entries_def)+

lemma cleared_plain: "y_as_mapping Y v = y_pattern Y v \<Longrightarrow> y_as_mapping Y (cleared_entry Y key v) = y_pattern Y (cleared_entry Y key v)"
  by (auto simp: cleared_entry_def split: option.splits)

lemma clear_key_plain:
  assumes "plain_sections Y md" and "plain_entries Y md"
  shows "plain_entries Y (clear_rhei_written_key Y md key)"
  using assms(2) cleared_plain
  by (auto simp: plain_entries_def clear_key_entries [OF assms(1)] get_map_values)

lemma clear_key_field:
  assumes "plain_sections Y md" and "plain_entries Y md"
  shows "entry_field Y (clear_rhei_written_key Y md key) i k = (if k = key then None else entry_field Y md i k)"
proof (cases "task_entries Y md")
  case None
  then show ?thesis by (simp add: entry_field_def metadata_map_entries clear_key_entries [OF assms(1)])
next
  case (Some tasks)
  then show ?thesis
    using assms(2)
    by (cases "ym_get Y tasks (task_id_yaml_key Y i)")
      (auto simp: entry_field_def metadata_map_entries clear_key_entries [OF assms(1)] get_map_values
        plain_entries_def cleared_entry_def get_remove split: option.splits)
qed

lemma clear_keys:
  "plain_sections Y md \<Longrightarrow> plain_entries Y md \<Longrightarrow>
   plain_sections Y (foldl (clear_rhei_written_key Y) md keys) \<and>
   plain_entries Y (foldl (clear_rhei_written_key Y) md keys) \<and>
   entry_field Y (foldl (clear_rhei_written_key Y) md keys) i k = (if k \<in> set keys then None else entry_field Y md i k)"
  by (induction keys arbitrary: md) (auto simp: clear_key_plain clear_key_entries clear_key_field)

lemma clear_key_outside:
  "l \<noteq> yaml_key Y ''metadata'' \<Longrightarrow>
   Option.bind (clear_rhei_written_key Y md key) (\<lambda>whole. ym_get Y whole l) = Option.bind md (\<lambda>whole. ym_get Y whole l)"
  by (cases md) (simp_all add: clear_rhei_written_key_def get_change_child)

lemma clear_keys_outside:
  "l \<noteq> yaml_key Y ''metadata'' \<Longrightarrow>
   Option.bind (foldl (clear_rhei_written_key Y) md keys) (\<lambda>whole. ym_get Y whole l) = Option.bind md (\<lambda>whole. ym_get Y whole l)"
  by (induction keys arbitrary: md) (simp_all add: clear_key_outside)

lemma clear_keys_section:
  "plain_sections Y md \<Longrightarrow> l \<noteq> yaml_key Y ''tasks'' \<Longrightarrow>
   section_field Y (foldl (clear_rhei_written_key Y) md keys) l = section_field Y md l"
proof (induction keys arbitrary: md)
  case (Cons key keys)
  have "section_field Y (clear_rhei_written_key Y md key) l = section_field Y md l"
    using Cons.prems
    by (cases md) (auto simp: section_field_def clear_rhei_written_key_def get_change_child plain_sections_def split: option.splits)
  then show ?case using Cons clear_key_entries(2) by simp
qed simp

lemma drop_empty_entries_get:
  "ym_get Y (drop_empty_entries Y sect) k =
   (if k = yaml_key Y ''tasks''
    then (case Option.bind (ym_get Y sect k) (y_pattern Y) of
            None \<Rightarrow> ym_get Y sect k
          | Some tasks \<Rightarrow>
              let kept = ym_retain Y (\<lambda>_ v. \<not> is_empty_entry Y v) tasks
              in if ym_is_empty Y kept then None else Some (y_mapping Y kept))
    else ym_get Y sect k)"
  by (auto simp: drop_empty_entries_def Let_def get_insert get_remove split: option.splits)

lemma dropped_entries:
  assumes "plain_sections Y (Some whole)"
  shows "task_entries Y (Some (drop_empty_task_metadata Y whole)) =
    (case task_entries Y (Some whole) of
       None \<Rightarrow> None
     | Some tasks \<Rightarrow> let kept = ym_retain Y (\<lambda>_ v. \<not> is_empty_entry Y v) tasks in if ym_is_empty Y kept then None else Some kept)"
proof (cases "ym_get Y whole (yaml_key Y ''metadata'')")
  case None
  then show ?thesis by (simp add: task_entries_def drop_empty_task_metadata_def)
next
  case (Some v)
  have v: "y_as_mapping Y v = y_pattern Y v" using assms Some by (simp add: plain_sections_def)
  show ?thesis
  proof (cases "y_pattern Y v")
    case None
    then show ?thesis using Some v by (simp add: task_entries_def drop_empty_task_metadata_def)
  next
    case sect: (Some sect)
    have w: "y_as_mapping Y w = y_pattern Y w" if "ym_get Y sect (yaml_key Y ''tasks'') = Some w" for w
      using assms Some sect that by (auto simp: plain_sections_def)
    have gone: "task_entries Y (Some (drop_empty_task_metadata Y whole)) =
        Option.bind (ym_get Y (drop_empty_entries Y sect) (yaml_key Y ''tasks'')) (y_as_mapping Y)"
      using Some sect
      by (auto simp: task_entries_def drop_empty_task_metadata_def Let_def get_insert get_remove is_empty_iff)
    show ?thesis unfolding gone using Some sect v w
      by (cases "ym_get Y sect (yaml_key Y ''tasks'')")
        (auto simp: task_entries_def drop_empty_entries_get Let_def split: option.splits)
  qed
qed

lemma empty_entry_field:
  "y_as_mapping Y v = y_pattern Y v \<Longrightarrow> is_empty_entry Y v \<Longrightarrow> Option.bind (y_as_mapping Y v) (\<lambda>e. ym_get Y e l) = None"
  by (auto simp: is_empty_entry_def is_empty_iff split: option.splits)

lemma dropped_field:
  assumes "plain_sections Y (Some whole)" and "plain_entries Y (Some whole)"
  shows "entry_field Y (Some (drop_empty_task_metadata Y whole)) i k = entry_field Y (Some whole) i k"
proof (cases "task_entries Y (Some whole)")
  case None
  then show ?thesis by (simp add: entry_field_def metadata_map_entries dropped_entries [OF assms(1)])
next
  case (Some tasks)
  let ?i = "task_id_yaml_key Y i"
  let ?kept = "ym_retain Y (\<lambda>_ v. \<not> is_empty_entry Y v) tasks"
  have "Option.bind (Option.bind (ym_get Y ?kept ?i) (y_as_mapping Y)) (\<lambda>e. ym_get Y e (yaml_key Y k)) =
      Option.bind (Option.bind (ym_get Y tasks ?i) (y_as_mapping Y)) (\<lambda>e. ym_get Y e (yaml_key Y k))"
    using assms(2) Some empty_entry_field
    by (cases "ym_get Y tasks ?i") (auto simp: get_retain plain_entries_def)
  moreover have "ym_is_empty Y ?kept \<Longrightarrow> ym_get Y ?kept ?i = None" by (simp add: is_empty_iff)
  ultimately show ?thesis using Some
    by (auto simp: entry_field_def metadata_map_entries dropped_entries [OF assms(1)] Let_def)
qed

lemma dropped_section:
  assumes "plain_sections Y (Some whole)" and "l \<noteq> yaml_key Y ''tasks''"
  shows "section_field Y (Some (drop_empty_task_metadata Y whole)) l = section_field Y (Some whole) l"
proof (cases "Option.bind (ym_get Y whole (yaml_key Y ''metadata'')) (y_pattern Y)")
  case None
  then show ?thesis by (simp add: drop_empty_task_metadata_def)
next
  case (Some sect)
  then obtain v where v: "ym_get Y whole (yaml_key Y ''metadata'') = Some v" "y_pattern Y v = Some sect"
    by (auto simp: bind_eq_Some_conv)
  have "ym_get Y (drop_empty_entries Y sect) l = ym_get Y sect l"
    using assms(2) by (simp add: drop_empty_entries_get)
  moreover have "ym_is_empty Y (drop_empty_entries Y sect) \<Longrightarrow> ym_get Y (drop_empty_entries Y sect) l = None"
    by (simp add: is_empty_iff)
  ultimately show ?thesis
    using v as_mapping_pattern [OF v(2)]
    by (auto simp: section_field_def drop_empty_task_metadata_def Let_def get_insert get_remove)
qed

lemma dropped_not_empty:
  "ym_get Y (drop_empty_task_metadata Y whole) (yaml_key Y ''metadata'') = Some v \<Longrightarrow> \<not> is_empty_entry Y v"
  by (auto simp: drop_empty_task_metadata_def Let_def get_insert get_remove is_empty_entry_def
      split: option.splits if_splits)

lemma dropped_outside:
  "l \<noteq> yaml_key Y ''metadata'' \<Longrightarrow> ym_get Y (drop_empty_task_metadata Y whole) l = ym_get Y whole l"
  by (auto simp: drop_empty_task_metadata_def Let_def get_insert get_remove split: option.splits)

lemma runtime_keys_cleared:
  assumes "plain_sections Y md" and "plain_entries Y md"
    and "clear_runtime_task_metadata Y md = Some md'"
  shows "entry_field Y (Some md') i k =
      (if k \<in> {''stateVisits'', ''providerLimits'', ''supervision''} then None else entry_field Y md i k) \<and>
    (\<forall>tasks j v. task_entries Y (Some md') = Some tasks \<longrightarrow>
       \<not> ym_is_empty Y tasks \<and> (ym_get Y tasks j = Some v \<longrightarrow> \<not> is_empty_entry Y v)) \<and>
    (\<forall>v. ym_get Y md' (yaml_key Y ''metadata'') = Some v \<longrightarrow> \<not> is_empty_entry Y v) \<and>
    (\<forall>h. h \<noteq> yaml_key Y ''tasks'' \<longrightarrow> section_field Y (Some md') h = section_field Y md h) \<and>
    (l \<noteq> yaml_key Y ''metadata'' \<longrightarrow> ym_get Y md' l = Option.bind md (\<lambda>whole. ym_get Y whole l))"
proof -
  obtain whole where whole: "foldl (clear_rhei_written_key Y) md keys_cleared_by_reset = Some whole"
    and md': "md' = drop_empty_task_metadata Y whole"
    using assms(3) by (auto simp: clear_runtime_task_metadata_def)
  have keys: "set keys_cleared_by_reset = {''stateVisits'', ''providerLimits'', ''supervision''}" by code_simp
  from clear_keys [OF assms(1,2), of keys_cleared_by_reset i k]
  have plain: "plain_sections Y (Some whole)" "plain_entries Y (Some whole)"
    and field: "entry_field Y (Some whole) i k =
      (if k \<in> {''stateVisits'', ''providerLimits'', ''supervision''} then None else entry_field Y md i k)"
    by (simp_all add: whole keys)
  have left: "\<not> ym_is_empty Y tasks \<and> (ym_get Y tasks j = Some v \<longrightarrow> \<not> is_empty_entry Y v)"
    if "task_entries Y (Some md') = Some tasks" for tasks j v
    using that by (auto simp: md' dropped_entries [OF plain(1)] Let_def get_retain split: option.splits if_splits)
  have outside: "ym_get Y md' l = Option.bind md (\<lambda>whole. ym_get Y whole l)" if "l \<noteq> yaml_key Y ''metadata''"
    using clear_keys_outside [OF that, of md keys_cleared_by_reset] dropped_outside [OF that] by (simp add: md' whole)
  have beside: "section_field Y (Some md') h = section_field Y md h" if "h \<noteq> yaml_key Y ''tasks''" for h
    using clear_keys_section [OF assms(1) that, of keys_cleared_by_reset] dropped_section [OF plain(1) that]
    by (simp add: md' whole)
  show ?thesis using dropped_field [OF plain] field left outside beside dropped_not_empty by (simp add: md')
qed

end

text \<open>C34: A reset clears exactly the keys the register marks: whatever a task's frontmatter held, its
  counters, provider waits and supervision block are gone, every other field of every task reads as
  it did, what else stands under \<open>metadata\<close> stays, neither an emptied entry nor an empty \<open>tasks\<close> or \<open>metadata\<close>
  mapping is left behind, and nothing outside the metadata changes. No mapping on the way is tagged.\<close>

theorem reset_clears_runtime_keys:
  assumes "yaml_laws Y" and "plain_sections Y md" and "plain_entries Y md"
    and "clear_runtime_task_metadata Y md = Some md'"
  shows "entry_field Y (Some md') i k =
      (if k \<in> {''stateVisits'', ''providerLimits'', ''supervision''} then None else entry_field Y md i k) \<and>
    (\<forall>tasks j v. task_entries Y (Some md') = Some tasks \<longrightarrow>
       \<not> ym_is_empty Y tasks \<and> (ym_get Y tasks j = Some v \<longrightarrow> \<not> is_empty_entry Y v)) \<and>
    (\<forall>v. ym_get Y md' (yaml_key Y ''metadata'') = Some v \<longrightarrow> \<not> is_empty_entry Y v) \<and>
    (\<forall>h. h \<noteq> yaml_key Y ''tasks'' \<longrightarrow> section_field Y (Some md') h = section_field Y md h) \<and>
    (l \<noteq> yaml_key Y ''metadata'' \<longrightarrow> ym_get Y md' l = Option.bind md (\<lambda>whole. ym_get Y whole l))"
  by (rule yaml_laws.runtime_keys_cleared [OF assms])

definition ran_metadata :: "(yaml_value \<times> yaml_value) list" where
  "ran_metadata = [(YString ''metadata'', YMapping [(YString ''tasks'', YMapping
     [(YNumber 1, YMapping [(YString ''stateVisits'', YMapping [(YString ''doing'', YNumber 2)])]),
      (YNumber 2, YMapping [(YString ''owner'', YString ''ann''), (YString ''supervision'', YMapping [])])])]),
    (YString ''title'', YString ''plan'')]"

lemma reset_clears_runtime_keys_witness:
  "\<exists>md'. clear_runtime_task_metadata sample_yaml (Some ran_metadata) = Some md' \<and>
     entry_field sample_yaml (Some md') [segment.Number 2] ''owner'' = Some (YString ''ann'') \<and>
     entry_field sample_yaml (Some md') [segment.Number 1] ''stateVisits'' = None \<and>
     ym_get sample_yaml md' (YString ''title'') = Some (YString ''plan'')"
proof -
  have plain: "plain_sections sample_yaml (Some ran_metadata)" "plain_entries sample_yaml (Some ran_metadata)"
    by (simp_all add: plain_sections_def plain_entries_def sample_yaml_def)
  obtain md' where md': "clear_runtime_task_metadata sample_yaml (Some ran_metadata) = Some md'"
    by (cases "clear_runtime_task_metadata sample_yaml (Some ran_metadata)")
      (auto simp: clear_runtime_task_metadata_def clear_rhei_written_key_def keys_cleared_by_reset_def rhei_written_keys_def)
  have owner: "entry_field sample_yaml (Some ran_metadata) [segment.Number 2] ''owner'' = Some (YString ''ann'')"
    "ym_get sample_yaml ran_metadata (YString ''title'') = Some (YString ''plan'')"
    "YString ''title'' \<noteq> yaml_key sample_yaml ''metadata''"
    by code_simp+
  show ?thesis
    using reset_clears_runtime_keys [OF sy.yaml_laws_axioms plain md', of "[segment.Number 2]" "''owner''" "YString ''title''"]
      reset_clears_runtime_keys [OF sy.yaml_laws_axioms plain md', of "[segment.Number 1]" "''stateVisits''" "YString ''title''"]
      owner md' by simp
qed

subsection \<open>Clearing twice\<close>

text \<open>What the mappings leave as they are: a key that is not there removed, a value put where it stands, every
  entry kept, every value mapped to itself; and a value matched as a mapping is that mapping.\<close>

locale yaml_exact_laws = yaml_laws +
  assumes remove_absent: "ym_get Y m k = None \<Longrightarrow> ym_remove Y m k = m"
    and insert_same: "ym_get Y m k = Some v \<Longrightarrow> ym_insert Y m k v = m"
    and retain_all: "(\<And>k v. ym_get Y m k = Some v \<Longrightarrow> keep k v) \<Longrightarrow> ym_retain Y keep m = m"
    and map_values_same: "(\<And>k v. ym_get Y m k = Some v \<Longrightarrow> f v = v) \<Longrightarrow> ym_map_values Y f m = m"
    and pattern_exact: "y_pattern Y v = Some m \<Longrightarrow> y_mapping Y m = v"

text \<open>The mapping of all tasks' entries as a writer sees it, and metadata a clearing finds nothing in.\<close>

definition section_seen :: "('m, 'y) yaml \<Rightarrow> 'm \<Rightarrow> 'm option" where
  "section_seen Y whole = Option.bind (ym_get Y whole (yaml_key Y ''metadata'')) (y_pattern Y)"

definition tasks_seen :: "('m, 'y) yaml \<Rightarrow> 'm \<Rightarrow> 'm option" where
  "tasks_seen Y whole = Option.bind (section_seen Y whole) (\<lambda>sect. Option.bind (ym_get Y sect (yaml_key Y ''tasks'')) (y_pattern Y))"

definition lacks :: "('m, 'y) yaml \<Rightarrow> string list \<Rightarrow> 'm \<Rightarrow> bool" where
  "lacks Y keys tasks \<longleftrightarrow> (\<forall>k v e. ym_get Y tasks k = Some v \<longrightarrow> y_pattern Y v = Some e \<longrightarrow>
     (\<forall>key\<in>set keys. ym_get Y e (yaml_key Y key) = None))"

definition nothing_to_clear :: "('m, 'y) yaml \<Rightarrow> string list \<Rightarrow> 'm \<Rightarrow> bool" where
  "nothing_to_clear Y keys whole \<longleftrightarrow>
     (\<forall>sect. section_seen Y whole = Some sect \<longrightarrow> \<not> ym_is_empty Y sect) \<and>
     (\<forall>tasks. tasks_seen Y whole = Some tasks \<longrightarrow> \<not> ym_is_empty Y tasks \<and> lacks Y keys tasks \<and>
       (\<forall>k v. ym_get Y tasks k = Some v \<longrightarrow> \<not> is_empty_entry Y v))"

context yaml_exact_laws
begin

lemma change_child_same:
  assumes "\<And>c. Option.bind (ym_get Y m k) (y_pattern Y) = Some c \<Longrightarrow> f c = c"
  shows "change_child Y k f m = m"
proof (cases "Option.bind (ym_get Y m k) (y_pattern Y)")
  case (Some c)
  then obtain v where "ym_get Y m k = Some v" "y_pattern Y v = Some c" by (auto simp: bind_eq_Some_conv)
  then show ?thesis using assms [OF Some] Some insert_same by (simp add: change_child_def pattern_exact)
qed (simp add: change_child_def)

lemma nothing_cleared:
  assumes "nothing_to_clear Y keys whole" and "key \<in> set keys"
  shows "clear_rhei_written_key Y (Some whole) key = Some whole"
proof -
  have entry: "(case y_pattern Y v of Some e \<Rightarrow> y_mapping Y (ym_remove Y e (yaml_key Y key)) | None \<Rightarrow> v) = v"
    if "lacks Y keys tasks" "ym_get Y tasks k = Some v" for tasks k v
    using that assms(2) by (auto simp: lacks_def remove_absent pattern_exact split: option.splits)
  have "ym_map_values Y (\<lambda>v. case y_pattern Y v of
      Some e \<Rightarrow> y_mapping Y (ym_remove Y e (yaml_key Y key)) | None \<Rightarrow> v) tasks = tasks" if "lacks Y keys tasks" for tasks
    using entry [OF that] by (rule map_values_same)
  then have "change_child Y (yaml_key Y ''metadata'') (change_child Y (yaml_key Y ''tasks'') (ym_map_values Y (\<lambda>v. case y_pattern Y v of
      Some e \<Rightarrow> y_mapping Y (ym_remove Y e (yaml_key Y key)) | None \<Rightarrow> v))) whole = whole"
    using assms(1) by (intro change_child_same)
      (simp add: nothing_to_clear_def tasks_seen_def section_seen_def del: bind_assoc)
  then show ?thesis by (simp add: clear_rhei_written_key_def)
qed

lemma nothing_dropped:
  assumes "nothing_to_clear Y keys whole"
  shows "drop_empty_task_metadata Y whole = whole"
proof (cases "section_seen Y whole")
  case None
  then show ?thesis by (simp add: drop_empty_task_metadata_def section_seen_def)
next
  case (Some sect)
  have "drop_empty_entries Y sect = sect"
  proof (cases "Option.bind (ym_get Y sect (yaml_key Y ''tasks'')) (y_pattern Y)")
    case None
    then show ?thesis by (simp add: drop_empty_entries_def)
  next
    case tasks: (Some tasks)
    then have seen: "tasks_seen Y whole = Some tasks" using Some by (simp add: tasks_seen_def)
    then have "ym_retain Y (\<lambda>_ v. \<not> is_empty_entry Y v) tasks = tasks"
      using assms by (intro retain_all) (auto simp: nothing_to_clear_def)
    moreover obtain v where "ym_get Y sect (yaml_key Y ''tasks'') = Some v" "y_pattern Y v = Some tasks"
      using tasks by (auto simp: bind_eq_Some_conv)
    ultimately show ?thesis using assms seen
      by (simp add: drop_empty_entries_def Let_def nothing_to_clear_def insert_same pattern_exact)
  qed
  moreover obtain v where "ym_get Y whole (yaml_key Y ''metadata'') = Some v" "y_pattern Y v = Some sect"
    using Some by (auto simp: section_seen_def bind_eq_Some_conv)
  ultimately show ?thesis using assms Some
    by (simp add: drop_empty_task_metadata_def Let_def nothing_to_clear_def insert_same pattern_exact)
qed

lemma cleared_lacks:
  assumes "foldl (clear_rhei_written_key Y) (Some whole) keys = Some whole'" and "tasks_seen Y whole' = Some tasks"
  shows "lacks Y keys tasks"
  using assms
proof (induction keys arbitrary: whole' tasks rule: rev_induct)
  case (snoc key keys)
  obtain w where w: "foldl (clear_rhei_written_key Y) (Some whole) keys = Some w"
    using snoc.prems(1)
    by (cases "foldl (clear_rhei_written_key Y) (Some whole) keys") (simp_all add: clear_rhei_written_key_def [of _ None])
  then have "clear_rhei_written_key Y (Some w) key = Some whole'" using snoc.prems(1) by simp
  then obtain before where before: "tasks_seen Y w = Some before" and tasks: "tasks = ym_map_values Y (cleared_entry Y key) before"
    using snoc.prems(2)
    by (auto simp: clear_rhei_written_key_def tasks_seen_def section_seen_def get_change_child bind_eq_Some_conv cleared_entry_def [abs_def]
        split: option.splits)
  have before_lacks: "lacks Y keys before" by (rule snoc.IH [OF w before])
  have "ym_get Y e (yaml_key Y k') = None"
    if "ym_get Y tasks k = Some v" "y_pattern Y v = Some e" "k' \<in> set (keys @ [key])" for k v e k'
  proof -
    obtain v0 where v0: "ym_get Y before k = Some v0" "v = cleared_entry Y key v0"
      using \<open>ym_get Y tasks k = Some v\<close> by (auto simp: tasks get_map_values)
    with \<open>y_pattern Y v = Some e\<close> obtain e0 where "y_pattern Y v0 = Some e0" "e = ym_remove Y e0 (yaml_key Y key)"
      by (cases "y_pattern Y v0") (simp_all add: cleared_entry_def)
    then show ?thesis using before_lacks v0(1) that(3) by (auto simp: lacks_def get_remove)
  qed
  then show ?case by (simp add: lacks_def)
qed (simp add: lacks_def)

lemma dropped_tasks_seen:
  assumes "tasks_seen Y (drop_empty_task_metadata Y whole) = Some tasks"
  shows "\<not> ym_is_empty Y tasks \<and> (\<exists>base. tasks_seen Y whole = Some base \<and> tasks = ym_retain Y (\<lambda>_ v. \<not> is_empty_entry Y v) base)"
  using assms
  by (auto simp: tasks_seen_def section_seen_def drop_empty_task_metadata_def drop_empty_entries_get Let_def get_insert get_remove
      bind_eq_Some_conv split: option.splits if_splits)

lemma cleared_again:
  assumes "clear_runtime_task_metadata Y md = Some md'"
  shows "clear_runtime_task_metadata Y (Some md') = Some md'"
proof -
  obtain whole where whole: "foldl (clear_rhei_written_key Y) md keys_cleared_by_reset = Some whole"
    and md': "md' = drop_empty_task_metadata Y whole"
    using assms by (auto simp: clear_runtime_task_metadata_def)
  have none: "foldl (clear_rhei_written_key Y) None keys = None" for keys
    by (induction keys) (simp_all add: clear_rhei_written_key_def)
  then obtain start where start: "md = Some start" using whole by (cases md) auto
  have settled: "nothing_to_clear Y keys_cleared_by_reset md'"
    unfolding nothing_to_clear_def
  proof (intro conjI allI impI)
    show "\<not> ym_is_empty Y sect" if "section_seen Y md' = Some sect" for sect
      using that dropped_not_empty [of whole] by (auto simp: md' section_seen_def is_empty_entry_def bind_eq_Some_conv)
  next
    fix tasks assume seen: "tasks_seen Y md' = Some tasks"
    from dropped_tasks_seen [OF seen [unfolded md']] obtain base where base: "tasks_seen Y whole = Some base"
      and tasks: "\<not> ym_is_empty Y tasks" "tasks = ym_retain Y (\<lambda>_ v. \<not> is_empty_entry Y v) base" by blast
    show "\<not> ym_is_empty Y tasks" by (rule tasks(1))
    show "lacks Y keys_cleared_by_reset tasks"
      using cleared_lacks [OF whole [unfolded start] base]
      by (auto simp: lacks_def tasks(2) get_retain split: option.splits if_splits)
    show "\<not> is_empty_entry Y v" if "ym_get Y tasks k = Some v" for k v
      using that by (auto simp: tasks(2) get_retain split: option.splits if_splits)
  qed
  have once: "clear_rhei_written_key Y (Some md') key = Some md'" if "key \<in> set keys_cleared_by_reset" for key
    by (rule nothing_cleared [OF settled that])
  have "set keys \<subseteq> set keys_cleared_by_reset \<Longrightarrow> foldl (clear_rhei_written_key Y) (Some md') keys = Some md'" for keys
    by (induction keys) (simp_all add: once)
  then show ?thesis using nothing_dropped [OF settled] by (simp add: clear_runtime_task_metadata_def)
qed

end

text \<open>An instance that keeps its entries in place.\<close>

definition tidy_yaml :: "((yaml_value \<times> yaml_value) list, yaml_value) yaml" where
  "tidy_yaml = sample_yaml\<lparr>ym_insert := (\<lambda>m k v. if map_of m k = Some v then m else (k, v) # filter (\<lambda>p. fst p \<noteq> k) m),
     ym_retain := (\<lambda>keep m. filter (\<lambda>(k, v). case map_of m k of Some w \<Rightarrow> keep k w | None \<Rightarrow> False) m),
     ym_map_values := (\<lambda>f m. map (\<lambda>(k, v). (k, if map_option f (map_of m k) = map_of m k then v else f v)) m)\<rparr>"

lemma tidy_retain_get:
  "map_of (filter (\<lambda>(k, v). case map_of base k of Some w \<Rightarrow> keep k w | None \<Rightarrow> False) m) l =
   (case map_of base l of Some w \<Rightarrow> if keep l w then map_of m l else None | None \<Rightarrow> None)"
  by (induction m) (auto split: option.splits)

lemma tidy_map_get:
  "map_of (map (\<lambda>(k, v). (k, if map_option f (map_of base k) = map_of base k then v else f v)) m) l =
   (if map_option f (map_of base l) = map_of base l then map_of m l else map_option f (map_of m l))"
  by (induction m) auto

interpretation ty: yaml_exact_laws tidy_yaml
proof
  show "ym_get tidy_yaml (ym_map_values tidy_yaml f m) k = map_option f (ym_get tidy_yaml m k)" for f m k
    by (simp add: tidy_yaml_def sample_yaml_def tidy_map_get)
  show "ym_get tidy_yaml (ym_retain tidy_yaml keep m) k =
      (case ym_get tidy_yaml m k of Some v \<Rightarrow> if keep k v then Some v else None | None \<Rightarrow> None)" for keep m k
    by (auto simp: tidy_yaml_def sample_yaml_def tidy_retain_get split: option.splits)
  show "ym_retain tidy_yaml keep m = m" if "\<And>k v. ym_get tidy_yaml m k = Some v \<Longrightarrow> keep k v" for keep m
    using that by (auto simp: tidy_yaml_def sample_yaml_def filter_id_conv weak_map_of_SomeI split: option.splits dest!: iffD1 [OF map_of_eq_None_iff])
  show "ym_map_values tidy_yaml f m = m" if "\<And>k v. ym_get tidy_yaml m k = Some v \<Longrightarrow> f v = v" for f m
  proof -
    have "f w = w" if "map_of m k = Some w" for k w
      using that \<open>\<And>k v. ym_get tidy_yaml m k = Some v \<Longrightarrow> f v = v\<close> by (simp add: tidy_yaml_def sample_yaml_def)
    then have "map_option f (map_of m k) = map_of m k" for k by (cases "map_of m k") auto
    then show ?thesis by (simp add: tidy_yaml_def sample_yaml_def)
  qed
qed (auto simp: tidy_yaml_def sample_yaml_def map_of_filter_neq no_key_empty filter_id_conv
    split: yaml_value.splits dest: map_of_SomeD dest!: iffD1 [OF map_of_eq_None_iff])

subsection \<open>The states a reset puts back\<close>

definition hops :: "string \<Rightarrow> movement list \<Rightarrow> (string \<times> string) list" where
  "hops i ms = map (\<lambda>m. (mv_from m, mv_to m)) (filter (\<lambda>m. mv_task_id m = i) ms)"

text \<open>A task was moved along these hops: each leaves the state the one before came to.\<close>

fun walked :: "string \<Rightarrow> (string \<times> string) list \<Rightarrow> string \<Rightarrow> bool" where
  "walked a [] c \<longleftrightarrow> a = c"
| "walked a ((f, g) # hs) c \<longleftrightarrow> a = f \<and> walked g hs c"

lemma first_departures_get:
  "bm_get (ledger_first_departures_of ms first) i =
   (case bm_get first i of
      Some s \<Rightarrow> Some s
    | None \<Rightarrow> (case hops i ms of [] \<Rightarrow> None | h # _ \<Rightarrow> Some (fst h)))"
  by (induction ms first rule: ledger_first_departures_of.induct)
    (auto simp: hops_def bm_contains_def split: option.splits)

definition ledger_holds :: "force_lib \<Rightarrow> string option \<Rightarrow> ledger_entry list \<Rightarrow> bool" where
  "ledger_holds F file es \<longleftrightarrow>
     (file = None \<and> es = [] \<or> file = Some (concat (concat (map (entry_text F) es)))) \<and>
     (\<forall>e\<in>set es. entry_ok F e) \<and> distinct (recovery_ids es)"

lemma recorded_departure:
  assumes "force_laws F" and "ledger_holds F file es"
  shows "bm_get (ledger_first_departures F file) i =
    (case hops i (map entry_movement es) of [] \<Rightarrow> None | h # _ \<Rightarrow> Some (fst h))"
  using assms(2) force_laws.entries_parse [OF assms(1), of es]
  by (auto simp: ledger_holds_def ledger_first_departures_def movements_or_none_def first_departures_get)
    (auto simp: hops_def)

definition current_of :: "machine_set \<Rightarrow> task \<Rightarrow> string" where
  "current_of ms t = normalized_state_name (state_text t) (for_task ms (id_of t))"

text \<open>What is known of a task a reset meets: where it was authored, and the moves of it the ledger of its
  root holds.\<close>

definition hops_at :: "(string \<Rightarrow> route) \<Rightarrow> (string list \<Rightarrow> ledger_entry list) \<Rightarrow> task \<Rightarrow> (string \<times> string) list" where
  "hops_at task_route es t =
     (let i = show_task_id (id_of t) in hops i (map entry_movement (es (rt_execution_root (task_route i)))))"

definition accounted_for ::
  "force_lib \<Rightarrow> evidence \<Rightarrow> (string \<Rightarrow> route) \<Rightarrow> machine_set \<Rightarrow> (string list \<Rightarrow> ledger_entry list) \<Rightarrow>
   (task \<Rightarrow> string) \<Rightarrow> task \<Rightarrow> bool" where
  "accounted_for F ev task_route ms es authored t \<longleftrightarrow>
     (let top_dir = rt_execution_root (task_route (show_task_id (id_of t))) in
      ledger_holds F (ev_ledger ev top_dir) (es top_dir) \<and>
      walked (authored t) (hops_at task_route es t) (current_of ms t))"

text \<open>Where a reset is to leave it, and whether its ledger names a state its machine lost.\<close>

definition put_back :: "machine_set \<Rightarrow> (task \<Rightarrow> string) \<Rightarrow> task \<Rightarrow> string" where
  "put_back ms authored t =
     (if state_of (for_task ms (id_of t)) (authored t) \<noteq> None then authored t else current_of ms t)"

definition authored_lost ::
  "(string \<Rightarrow> route) \<Rightarrow> machine_set \<Rightarrow> (string list \<Rightarrow> ledger_entry list) \<Rightarrow> (task \<Rightarrow> string) \<Rightarrow> task \<Rightarrow> bool" where
  "authored_lost task_route ms es authored t \<longleftrightarrow>
     hops_at task_route es t \<noteq> [] \<and> state_of (for_task ms (id_of t)) (authored t) = None"

lemma authored_recorded:
  assumes "force_laws F" and "accounted_for F ev task_route ms es authored t"
  defines "recorded \<equiv> bm_get (ledger_first_departures F (ev_ledger ev (rt_execution_root (task_route (show_task_id (id_of t))))))
    (show_task_id (id_of t))"
  shows "recorded = (if hops_at task_route es t = [] then None else Some (authored t))"
    and "reset_destination recorded (current_of ms t) (for_task ms (id_of t)) = put_back ms authored t"
proof -
  let ?i = "show_task_id (id_of t)" and ?r = "rt_execution_root (task_route (show_task_id (id_of t)))"
  from assms(2) have l: "ledger_holds F (ev_ledger ev ?r) (es ?r)"
    and w: "walked (authored t) (hops_at task_route es t) (current_of ms t)"
    by (simp_all add: accounted_for_def Let_def)
  have "recorded = (case hops_at task_route es t of [] \<Rightarrow> None | h # _ \<Rightarrow> Some (fst h))"
    using recorded_departure [OF assms(1) l, of ?i] by (simp add: recorded_def hops_at_def Let_def)
  with w show r: "recorded = (if hops_at task_route es t = [] then None else Some (authored t))"
    by (cases "hops_at task_route es t") auto
  show "reset_destination recorded (current_of ms t) (for_task ms (id_of t)) = put_back ms authored t"
    using w unfolding r by (auto simp: reset_destination_def put_back_def)
qed

definition route_of :: "(string \<Rightarrow> route) \<Rightarrow> task \<Rightarrow> string list \<times> string" where
  "route_of task_route t =
     (rt_task_file (task_route (show_task_id (id_of t))), rt_local_id (task_route (show_task_id (id_of t))))"

definition placed :: "(string list, (string, string) bmap) bmap \<Rightarrow> string list \<times> string \<Rightarrow> string option" where
  "placed by_file p = Option.bind (bm_get by_file (fst p)) (\<lambda>m. bm_get m (snd p))"

lemma authored_step_effect:
  assumes "force_laws F" and "accounted_for F ev task_route ms es authored t"
  shows "au_undeclared (authored_step F ev task_route ms result t) = au_undeclared result @
      (if authored_lost task_route ms es authored t then [(show_task_id (id_of t), current_of ms t, authored t)] else [])"
    and "au_moves (authored_step F ev task_route ms result t) = au_moves result @
      (if put_back ms authored t = current_of ms t then []
       else [\<lparr>sv_task_id = show_task_id (id_of t), sv_from = current_of ms t, sv_to = put_back ms authored t\<rparr>])"
    and "placed (au_by_file (authored_step F ev task_route ms result t)) p =
      (if p = route_of task_route t then Some (put_back ms authored t) else placed (au_by_file result) p)"
proof -
  let ?i = "show_task_id (id_of t)" and ?m = "for_task ms (id_of t)" and ?c = "current_of ms t"
  let ?ledger = "ledger_first_departures F (ev_ledger ev (rt_execution_root (task_route ?i)))"
  let ?noted = "note_undeclared ?m ?i ?c (bm_get ?ledger ?i) result"
  note rec = authored_recorded [OF assms]
  have step: "authored_step F ev task_route ms result t = write_line (task_route ?i) (put_back ms authored t)
      (note_position ?i ?c (put_back ms authored t)
        (?ledger = [] \<and> (ev_ran ev (rt_execution_root (task_route ?i)) \<or> shows_run_trace ev t ?c))
        (initial_state_for_node ?m (t_kind (row t)) (profile_level t)) ?noted)"
    using rec(2) by (simp add: authored_step_def Let_def flip: current_of_def)
  have noted: "au_undeclared ?noted = au_undeclared result @ (if authored_lost task_route ms es authored t then [(?i, ?c, authored t)] else [])"
    "au_moves ?noted = au_moves result" "au_by_file ?noted = au_by_file result"
    unfolding rec(1) by (simp_all add: note_undeclared_def authored_lost_def)
  have turn: "au_undeclared (write_line q g (note_position i c g h x r)) = au_undeclared r"
    "au_moves (write_line q g (note_position i c g h x r)) = au_moves r @
      (if g = c then [] else [\<lparr>sv_task_id = i, sv_from = c, sv_to = g\<rparr>])"
    "au_by_file (note_position i c g h x r) = au_by_file r" for q g i c h x r
    by (simp_all add: write_line_def note_position_def)
  show "au_undeclared (authored_step F ev task_route ms result t) = au_undeclared result @
      (if authored_lost task_route ms es authored t then [(?i, ?c, authored t)] else [])"
    and "au_moves (authored_step F ev task_route ms result t) = au_moves result @
      (if put_back ms authored t = ?c then [] else [\<lparr>sv_task_id = ?i, sv_from = ?c, sv_to = put_back ms authored t\<rparr>])"
    unfolding step turn noted by simp_all
  show "placed (au_by_file (authored_step F ev task_route ms result t)) p =
      (if p = route_of task_route t then Some (put_back ms authored t) else placed (au_by_file result) p)"
    unfolding step by (cases p) (auto simp: write_line_def turn(3) noted(3) placed_def route_of_def split: option.splits)
qed

lemma authored_fold:
  assumes "force_laws F" and "\<forall>t\<in>set ts. accounted_for F ev task_route ms es authored t"
    and "inj_on (route_of task_route) (set ts)"
  defines "result \<equiv> foldl (authored_step F ev task_route ms) \<lparr>au_by_file = [], au_moves = [], au_stranded = [], au_undeclared = []\<rparr> ts"
  shows "au_undeclared result = map (\<lambda>t. (show_task_id (id_of t), current_of ms t, authored t))
      (filter (authored_lost task_route ms es authored) ts)"
    and "au_moves result = map (\<lambda>t. \<lparr>sv_task_id = show_task_id (id_of t), sv_from = current_of ms t, sv_to = put_back ms authored t\<rparr>)
      (filter (\<lambda>t. put_back ms authored t \<noteq> current_of ms t) ts)"
    and "\<forall>t\<in>set ts. placed (au_by_file result) (route_of task_route t) = Some (put_back ms authored t)"
  using assms(2,3) unfolding result_def
proof (induction ts rule: rev_induct)
  case (snoc t ts)
  {
    case 1
    then show ?case using snoc authored_step_effect(1) [OF assms(1), of ev task_route ms es authored t] by simp
  next
    case 2
    then show ?case using snoc authored_step_effect(2) [OF assms(1), of ev task_route ms es authored t] by simp
  next
    case 3
    then show ?case using snoc(3) authored_step_effect(3) [OF assms(1), of ev task_route ms es authored t]
      by (auto simp: inj_on_def)
  }
qed simp_all

text \<open>C33: Let the ledger of each task's root hold rows the reader can read back (ids and state names of
  single words, see the round trip of the history) and among them the task's moves from the state it
  was authored in to the one it stands in, each task having a place of its own in the files. Then a
  reset is to write each task in scope back in its authored state, where its machine still declares
  that, and where it stands otherwise; the moves announced are exactly those of the tasks that go
  elsewhere, in the order of their ids, and the tasks reported as having lost their state are exactly
  those that moved from one no longer declared.\<close>

theorem reset_restores_authored_states:
  assumes "force_laws F" and "\<forall>t\<in>set (reset_scope_tasks r scope). accounted_for F ev task_route ms es authored t"
    and "inj_on (route_of task_route) (set (reset_scope_tasks r scope))"
  shows "(\<forall>t\<in>set (reset_scope_tasks r scope).
      placed (au_by_file (collect_authored_states F ev task_route r scope ms)) (route_of task_route t) =
        Some (put_back ms authored t)) \<and>
    au_moves (collect_authored_states F ev task_route r scope ms) = sort_key sv_task_id
      (map (\<lambda>t. \<lparr>sv_task_id = show_task_id (id_of t), sv_from = current_of ms t, sv_to = put_back ms authored t\<rparr>)
        (filter (\<lambda>t. put_back ms authored t \<noteq> current_of ms t) (reset_scope_tasks r scope))) \<and>
    au_undeclared (collect_authored_states F ev task_route r scope ms) = sort
      (map (\<lambda>t. (show_task_id (id_of t), current_of ms t, authored t))
        (filter (authored_lost task_route ms es authored) (reset_scope_tasks r scope)))"
  using authored_fold [OF assms] by (simp add: collect_authored_states_def Let_def)

definition moved_plan :: "string \<Rightarrow> (yaml_value \<times> yaml_value) list rhei" where
  "moved_plan s = \<lparr>rh_tasks = [Task (row sample_task\<lparr>t_state := s\<rparr>) []], rh_metadata = None\<rparr>"

definition plain_route :: "string \<Rightarrow> route" where
  "plain_route i = \<lparr>rt_execution_root = [], rt_task_file = [''plan.rhei.md''], rt_local_id = i\<rparr>"

definition evidence_with :: "string \<Rightarrow> evidence" where
  "evidence_with ledger = \<lparr>ev_ledger = (\<lambda>_. Some ledger), ev_ran = (\<lambda>_. True), ev_content = (\<lambda>_. [])\<rparr>"

definition spaced_set :: machine_set where
  "spaced_set = \<lparr>default_machine = review_machine\<lparr>states := (''human review'', plain_state) # states review_machine\<rparr>, per_rhei = []\<rparr>"

definition walk_entries :: "ledger_entry list" where
  "walk_entries = [Moved ''1'' ''todo'' ''doing'', Moved ''1'' ''doing'' ''done'']"

definition walk_evidence :: evidence where
  "walk_evidence = evidence_with (concat (concat (map (entry_text force_sample) walk_entries)))"

lemma reset_restores_authored_states_witness:
  "placed (au_by_file (collect_authored_states force_sample walk_evidence plain_route (moved_plan ''done'') None spaced_set))
     ([''plan.rhei.md''], ''1'') = Some ''todo'' \<and>
   au_moves (collect_authored_states force_sample walk_evidence plain_route (moved_plan ''done'') None spaced_set) =
     [\<lparr>sv_task_id = ''1'', sv_from = ''done'', sv_to = ''todo''\<rparr>]"
proof -
  let ?t = "Task (row sample_task\<lparr>t_state := ''done''\<rparr>) []"
  have ts: "reset_scope_tasks (moved_plan ''done'') None = [?t]"
    by (simp add: reset_scope_tasks_def moved_plan_def task_in_rhei_scope_def)
  have i: "show_task_id (id_of ?t) = ''1''" "current_of spaced_set ?t = ''done''"
    "state_of (for_task spaced_set (id_of ?t)) ''todo'' \<noteq> None" by code_simp+
  have "\<forall>e\<in>set walk_entries. entry_ok force_sample e" "distinct (recovery_ids walk_entries)"
    by (simp_all add: walk_entries_def recovery_ids_def is_token_def is_field_def is_whitespace_def starts_with_def)
  then have "accounted_for force_sample walk_evidence plain_route spaced_set (\<lambda>_. walk_entries) (\<lambda>_. ''todo'') ?t"
    using i by (simp add: accounted_for_def hops_at_def Let_def ledger_holds_def walk_evidence_def evidence_with_def)
      (simp add: walk_entries_def hops_def)
  then show ?thesis
    using reset_restores_authored_states [OF fl.force_laws_axioms, of "moved_plan ''done''" None walk_evidence
      plain_route spaced_set "\<lambda>_. walk_entries" "\<lambda>_. ''todo''"] ts i
    by (simp add: route_of_def plain_route_def put_back_def)
qed

text \<open>A task authored in \<open>human review\<close>, moved to \<open>todo\<close> and then to \<open>doing\<close>: its first row has
  its hop cut in two by the space, so the reader passes over it, and the reset sends the task to
  \<open>todo\<close>, where it never was authored.\<close>

theorem spaced_state_is_not_put_back:
  "movements_or_none force_sample (moved_row ''1'' ''human review'' ''todo'' @ moved_row ''1'' ''todo'' ''doing'') =
     [\<lparr>mv_task_id = ''1'', mv_from = ''todo'', mv_to = ''doing'', mv_audit = None\<rparr>] \<and>
   state_of (default_machine spaced_set) ''human review'' \<noteq> None \<and>
   placed (au_by_file (collect_authored_states force_sample
       (evidence_with (moved_row ''1'' ''human review'' ''todo'' @ moved_row ''1'' ''todo'' ''doing''))
       plain_route (moved_plan ''doing'') None spaced_set)) ([''plan.rhei.md''], ''1'') = Some ''todo''"
  by code_simp

end
