(* ===== verification/Plan_Text.thy ===== *)
theory Plan_Text
  imports Text_Lines Reset
begin

text \<open>
  The edits of a plan's source text. The language's reading of fenced code (\<open>fence.rs\<close>) and of the
  header and frontmatter block (\<open>header.rs\<close>), the line edits of a claim, a move and a completion
  (\<open>task_metadata_lines.rs\<close>, \<open>transition_ledger.rs\<close>), the frontmatter's rewriting
  (\<open>metadata_rewrite.rs\<close>) and the text a reset writes (\<open>complete_reset_rewrites.rs\<close>). \<open>render\<close> is
  \<open>serde_yaml::to_string\<close>, \<open>parse\<close> the plan parser's frontmatter, both arguments. Characters are
  of one byte, so a byte offset is a position.
\<close>

subsection \<open>Fences\<close>

type_synonym fence = "(char \<times> nat) option"

definition code_fence_run :: "string \<Rightarrow> (char \<times> nat \<times> bool) option" where
  "code_fence_run line =
     (let trimmed = trim_start line in
      case trimmed of
        [] \<Rightarrow> None
      | marker # _ \<Rightarrow>
          if marker \<noteq> CHR ''`'' \<and> marker \<noteq> CHR ''~'' then None
          else let run = length (takeWhile (\<lambda>c. c = marker) trimmed)
               in if run < 3 then None else Some (marker, run, trim (drop run trimmed) = []))"

text \<open>\<open>FenceTracker::read\<close>: whether the line is itself a fence line, and what is open after it.\<close>

definition read_fence :: "fence \<Rightarrow> string \<Rightarrow> bool \<times> fence" where
  "read_fence fence line =
     (case fence of
        Some (marker, opening_run) \<Rightarrow>
          (case code_fence_run line of
             Some (character, run, bare) \<Rightarrow>
               if character = marker \<and> run \<ge> opening_run \<and> bare then (True, None) else (False, fence)
           | None \<Rightarrow> (False, fence))
      | None \<Rightarrow>
          (case code_fence_run line of
             Some (marker, run, _) \<Rightarrow> (True, Some (marker, run))
           | None \<Rightarrow> (False, None)))"

subsection \<open>Headings\<close>

definition node_heading :: "string \<Rightarrow> (nat \<times> string) option" where
  "node_heading line =
     (let hashes = length (takeWhile (\<lambda>c. c = CHR ''#'') line) in
      if hashes < 3 \<or> 6 < hashes \<or> \<not> starts_with (drop hashes line) '' '' then None
      else Option.bind (split_once CHR '':'' (drop (hashes + 1) line)) (\<lambda>(prefix, _).
           Option.bind (rsplit_once CHR '' '' prefix) (\<lambda>(_, i).
           if i = [] then None else Some (hashes, i))))"

definition node_heading_outside_code :: "string \<Rightarrow> fence \<Rightarrow> (nat \<times> string) option \<times> fence" where
  "node_heading_outside_code line fence =
     (let (is_fence, fence') = read_fence fence line
      in (if is_fence \<or> fence' \<noteq> None then None else node_heading line, fence'))"

definition node_heading_id_outside_code :: "string \<Rightarrow> fence \<Rightarrow> string option \<times> fence" where
  "node_heading_id_outside_code line fence =
     (let (heading, fence') = node_heading_outside_code line fence in (map_option snd heading, fence'))"

definition rejoined :: "string \<Rightarrow> string list \<Rightarrow> string" where
  "rejoined raw result = join [newline_char] result @ (if ends_with raw [newline_char] then [newline_char] else [])"

subsection \<open>The line edits of a move and a claim\<close>

definition format_state_metadata_value :: "string \<Rightarrow> string" where
  "format_state_metadata_value raw_state =
     (if starts_with raw_state ''`'' \<and> ends_with raw_state ''`'' then raw_state
      else if CHR '' '' \<in> set raw_state then ''`'' @ raw_state @ ''`''
      else raw_state)"

definition state_line :: "string \<Rightarrow> string" where
  "state_line s = ''**State:** '' @ format_state_metadata_value s"

text \<open>One turn of the loop of \<open>rewrite_task_state\<close>: the fence, whether the target task is being read,
  whether its line was replaced, and the lines so far.\<close>

definition state_turn ::
  "string \<Rightarrow> string \<Rightarrow> fence \<times> bool \<times> bool \<times> string list \<Rightarrow> string \<Rightarrow> fence \<times> bool \<times> bool \<times> string list" where
  "state_turn i new_state st line =
     (case st of (fence, in_target, replaced, result) \<Rightarrow>
        let (heading, fence') = node_heading_id_outside_code line fence;
            in_target' = (case heading of Some h \<Rightarrow> h = i | None \<Rightarrow> in_target)
        in if fence' = None \<and> in_target' \<and> \<not> replaced \<and> starts_with line ''**State:**''
           then (fence', in_target', True, result @ [state_line new_state])
           else (fence', in_target', replaced, result @ [line]))"

definition rewrite_task_state :: "string \<Rightarrow> string \<Rightarrow> string \<Rightarrow> string + string" where
  "rewrite_task_state raw i new_state =
     (case foldl (state_turn i new_state) (None, False, False, []) (lines raw) of
        (_, _, replaced, result) \<Rightarrow>
          if \<not> replaced then Inl (''could not find **State:** line for Task '' @ i @ '' in the markdown'')
          else Inr (rejoined raw result))"

definition format_assignee :: "string \<Rightarrow> string" where
  "format_assignee value = ''**Assignee:** '' @ value"

definition insert_after :: "string list \<Rightarrow> nat \<Rightarrow> string \<Rightarrow> string list" where
  "insert_after ls idx value =
     (if idx + 1 \<ge> length ls then ls @ [value] else take (idx + 1) ls @ value # drop (idx + 1) ls)"

definition is_metadata_line :: "string \<Rightarrow> bool" where
  "is_metadata_line line \<longleftrightarrow>
     starts_with line ''**State:**'' \<or> starts_with line ''**Prior:**'' \<or> starts_with line ''**Inherits:**'' \<or>
     starts_with line ''**Provides:**'' \<or> starts_with line ''**Consumes:**'' \<or> starts_with line ''**Excludes:**''"

record claim_scan =
  cs_fence :: fence
  cs_in_target :: bool
  cs_last :: "nat option"
  cs_present :: bool
  cs_inserted :: bool
  cs_result :: "string list"

text \<open>A heading met: leaving the target, the line is put after its last metadata line.\<close>

definition claim_heading :: "string \<Rightarrow> string \<Rightarrow> string \<Rightarrow> claim_scan \<Rightarrow> claim_scan" where
  "claim_heading i value h st =
     (let st = (case cs_last st of
            Some idx \<Rightarrow> st\<lparr>cs_last := None, cs_result := insert_after (cs_result st) idx (format_assignee value), cs_inserted := True\<rparr>
          | None \<Rightarrow> st)
      in st\<lparr>cs_in_target := (h = i)\<rparr>)"

definition claim_turn :: "string \<Rightarrow> string \<Rightarrow> claim_scan \<Rightarrow> string \<Rightarrow> claim_scan" where
  "claim_turn i value st line =
     (let (heading, fence) = node_heading_id_outside_code line (cs_fence st);
          st = st\<lparr>cs_fence := fence\<rparr>;
          st = (case heading of Some h \<Rightarrow> claim_heading i value h st | None \<Rightarrow> st);
          here = (fence = None \<and> cs_in_target st);
          st = (if here \<and> starts_with line ''**Assignee:**'' then st\<lparr>cs_present := True\<rparr> else st);
          st = (if here \<and> is_metadata_line line then st\<lparr>cs_last := Some (length (cs_result st))\<rparr> else st)
      in st\<lparr>cs_result := cs_result st @ [line]\<rparr>)"

definition claim_start :: claim_scan where
  "claim_start = \<lparr>cs_fence = None, cs_in_target = False, cs_last = None, cs_present = False,
     cs_inserted = False, cs_result = []\<rparr>"

definition insert_task_assignee :: "string \<Rightarrow> string \<Rightarrow> string \<Rightarrow> string + string" where
  "insert_task_assignee raw i assignee =
     (let st = foldl (claim_turn i assignee) claim_start (lines raw) in
      if cs_present st then Inl (''Task '' @ i @ '' already has an **Assignee:** line'')
      else if cs_inserted st then Inr (rejoined raw (cs_result st))
      else case cs_last st of
             None \<Rightarrow> Inl (''could not find **State:**/**Prior:** metadata line for Task '' @ i @ '' in the markdown'')
           | Some idx \<Rightarrow> Inr (rejoined raw (insert_after (cs_result st) idx (format_assignee assignee))))"

subsection \<open>Completion\<close>

definition trim_trailing_blank_lines :: "string list \<Rightarrow> string list" where
  "trim_trailing_blank_lines ls = rev (dropWhile (\<lambda>l. trim l = []) (rev ls))"

record completion_scan =
  co_fence :: fence
  co_in_target :: bool
  co_found :: bool
  co_linked :: bool
  co_result :: "string list"

definition result_block :: "string \<Rightarrow> string list \<Rightarrow> string list" where
  "result_block result_line ls = trim_trailing_blank_lines ls @ [[], result_line]"

definition completion_heading :: "string \<Rightarrow> string \<Rightarrow> string \<Rightarrow> completion_scan \<Rightarrow> completion_scan" where
  "completion_heading i result_line h st =
     (let st = (if co_in_target st \<and> \<not> co_linked st
                then st\<lparr>co_result := result_block result_line (co_result st) @ [[]], co_linked := True\<rparr> else st)
      in st\<lparr>co_in_target := (h = i), co_found := co_found st \<or> h = i\<rparr>)"

definition completion_turn :: "string \<Rightarrow> string \<Rightarrow> completion_scan \<Rightarrow> string \<Rightarrow> completion_scan" where
  "completion_turn i result_line st line =
     (let (heading, fence) = node_heading_id_outside_code line (co_fence st);
          st = st\<lparr>co_fence := fence\<rparr>;
          st = (case heading of Some h \<Rightarrow> completion_heading i result_line h st | None \<Rightarrow> st);
          here = (fence = None \<and> co_in_target st)
      in if here \<and> starts_with line ''**Assignee:**'' then st
         else if here \<and> starts_with line ''> **Result:**'' \<and> \<not> co_linked st
         then st\<lparr>co_result := co_result st @ [result_line], co_linked := True\<rparr>
         else st\<lparr>co_result := co_result st @ [line]\<rparr>)"

definition rewrite_task_completion ::
  "string \<Rightarrow> string \<Rightarrow> string \<Rightarrow> string \<Rightarrow> bool \<Rightarrow> string + string" where
  "rewrite_task_completion raw i link_text link_path insert_link =
     (let result_line = ''> **Result:** ['' @ link_text @ '']('' @ link_path @ '')'';
          st = foldl (completion_turn i result_line)
            \<lparr>co_fence = None, co_in_target = False, co_found = False, co_linked = \<not> insert_link, co_result = []\<rparr> (lines raw);
          result = (if co_in_target st \<and> \<not> co_linked st then result_block result_line (co_result st) else co_result st)
      in if \<not> co_found st then Inl (''task '' @ quoted i @ '' not found'') else Inr (rejoined raw result))"

text \<open>What the plan parser reads of a state line.\<close>

definition unescape_state :: "string \<Rightarrow> string" where
  "unescape_state s =
     (if starts_with s ''`'' \<and> ends_with s ''`'' \<and> 2 \<le> length s then butlast (tl s) else s)"

definition read_state_line :: "string \<Rightarrow> string option" where
  "read_state_line line =
     (case strip_prefix ''**State:**'' line of
        Some value \<Rightarrow> if value = [] then None else Some (unescape_state (trim value))
      | None \<Rightarrow> None)"

subsection \<open>Header and frontmatter\<close>

definition is_header_line :: "string \<Rightarrow> bool" where
  "is_header_line line \<longleftrightarrow>
     (case strip_prefix ''#'' line of
        None \<Rightarrow> False
      | Some s \<Rightarrow>
          let name = trim_start s in
          name \<noteq> s \<and>
          list_ex (\<lambda>h. case strip_prefix (h @ '':'') name of
              Some (c # _) \<Rightarrow> is_whitespace c | _ \<Rightarrow> False) [''Rhei'', ''Panta''])"

fun find_header_from :: "fence \<Rightarrow> nat \<Rightarrow> string list \<Rightarrow> nat option" where
  "find_header_from fence n [] = None"
| "find_header_from fence n (line # ls) =
     (let (is_fence, fence') = read_fence fence line in
      if \<not> is_fence \<and> fence' = None \<and> is_header_line (trim line) then Some n
      else find_header_from fence' (n + 1) ls)"

definition find_header_line :: "string list \<Rightarrow> nat option" where
  "find_header_line ls = find_header_from None 0 ls"

record frontmatter_block =
  fb_open :: nat
  fb_close :: "nat option"

record frontmatter_place =
  fp_header :: nat
  fp_block :: "frontmatter_block option"

fun find_trimmed_rule :: "nat \<Rightarrow> string list \<Rightarrow> nat option" where
  "find_trimmed_rule n [] = None"
| "find_trimmed_rule n (line # ls) = (if trim line = ''---'' then Some n else find_trimmed_rule (n + 1) ls)"

text \<open>The first content below the header, past blank lines and fenced blocks: a block only if it is
  \<open>---\<close>.\<close>

fun find_block :: "fence \<Rightarrow> nat \<Rightarrow> string list \<Rightarrow> frontmatter_block option" where
  "find_block fence n [] = None"
| "find_block fence n (line # ls) =
     (let (is_fence, fence') = read_fence fence line in
      if is_fence \<or> fence' \<noteq> None \<or> trim line = [] then find_block fence' (n + 1) ls
      else if trim line = ''---''
      then Some \<lparr>fb_open = n, fb_close = find_trimmed_rule (n + 1) ls\<rparr>
      else None)"

definition find_frontmatter :: "string list \<Rightarrow> frontmatter_place option" where
  "find_frontmatter ls =
     map_option (\<lambda>header. \<lparr>fp_header = header, fp_block = find_block None (header + 1) (drop (header + 1) ls)\<rparr>)
       (find_header_line ls)"

text \<open>\<open>render_frontmatter_yaml\<close> of what \<open>render\<close> printed.\<close>

definition rendered_yaml :: "string \<Rightarrow> string" where
  "rendered_yaml rendered =
     trim_end (case strip_prefix (''---'' @ [newline_char]) rendered of Some s \<Rightarrow> s | None \<Rightarrow> rendered)"

definition next_content :: "string list \<Rightarrow> nat \<Rightarrow> nat" where
  "next_content ls n = n + length (takeWhile (\<lambda>l. trim l = []) (drop n ls))"

definition rewrite_frontmatter :: "('m \<Rightarrow> string + string) \<Rightarrow> string \<Rightarrow> 'm \<Rightarrow> string + string" where
  "rewrite_frontmatter render raw metadata =
     (let ls = lines raw in
      tryb (ok_or ''could not find a '# Rhei:' or '# Panta:' header when rewriting frontmatter'' (find_frontmatter ls)) (\<lambda>place.
      tryb (case fp_block place of
              Some b \<Rightarrow>
                (case fb_close b of
                   Some close \<Rightarrow> Inr (fb_open b, next_content ls (close + 1))
                 | None \<Rightarrow> Inl ''unterminated YAML frontmatter in plan source'')
            | None \<Rightarrow> let n = next_content ls (fp_header place + 1) in Inr (n, n)) (\<lambda>(start, stop).
      tryb (render metadata) (\<lambda>rendered.
        let yaml = rendered_yaml rendered;
            result = take start ls @ [''---''] @ (if yaml = [] then [] else lines yaml) @ [''---'', []] @ drop stop ls;
            output = join [newline_char] result
        in Inr (if ends_with raw [newline_char] \<or> output \<noteq> [] then output @ [newline_char] else output)))))"

subsection \<open>The text a reset writes\<close>

text \<open>The regular expression of \<open>task_heading_id\<close>: three to six hashes, a kind, an id and its colon,
  each followed by whitespace.\<close>

definition is_word_char :: "char \<Rightarrow> bool" where
  "is_word_char c \<longleftrightarrow> is_ascii_alphanumeric c \<or> c = CHR ''_'' \<or> c = CHR ''-''"

definition task_heading_id :: "string \<Rightarrow> string option" where
  "task_heading_id line =
     (let hashes = length (takeWhile (\<lambda>c. c = CHR ''#'') line);
          after = drop hashes line;
          body = trim_start after;
          kind = takeWhile is_word_char body;
          after_kind = drop (length kind) body;
          body' = trim_start after_kind;
          i = takeWhile (\<lambda>c. is_word_char c \<or> c = CHR ''.'') body'
      in if 3 \<le> hashes \<and> hashes \<le> 6 \<and> body \<noteq> after \<and>
            kind \<noteq> [] \<and> is_ascii_alphabetic (hd kind) \<and> body' \<noteq> after_kind \<and>
            i \<noteq> [] \<and> is_ascii_alphanumeric (hd i) \<and>
            (case drop (length i) body' of c # d # _ \<Rightarrow> c = CHR '':'' \<and> is_whitespace d | _ \<Rightarrow> False)
         then Some i else None)"

definition strip_result_turn ::
  "(string option \<Rightarrow> bool) \<Rightarrow> string option \<times> string list \<Rightarrow> string \<Rightarrow> string option \<times> string list" where
  "strip_result_turn accepts st line =
     (case st of (heading, result) \<Rightarrow>
        (case task_heading_id line of
           Some i \<Rightarrow> (Some i, result @ [line])
         | None \<Rightarrow>
             if starts_with (trim_start line) ''> **Result:**'' \<and> accepts heading
             then (heading, if result \<noteq> [] \<and> trim (last result) = [] then butlast result else result)
             else (heading, result @ [line])))"

definition strip_result_links_under :: "(string option \<Rightarrow> bool) \<Rightarrow> string \<Rightarrow> string" where
  "strip_result_links_under accepts raw =
     rejoined raw (snd (foldl (strip_result_turn accepts) (None, []) (lines raw)))"

definition strip_result_links :: "string \<Rightarrow> string" where
  "strip_result_links raw = strip_result_links_under (\<lambda>_. True) raw"

definition strip_assignee_lines :: "string \<Rightarrow> string" where
  "strip_assignee_lines raw =
     rejoined raw (filter (\<lambda>line. \<not> starts_with line ''**Assignee:**'') (lines raw))"

text \<open>\<open>expecting\<close>: nothing outside a heading, else the authored state of the task being read.\<close>

fun authored_lines ::
  "(string, string) bmap \<Rightarrow> string option option \<Rightarrow> nat \<Rightarrow> string list \<Rightarrow> string + string option option \<times> nat \<times> string list" where
  "authored_lines authored expecting state_lines [] = Inr (expecting, state_lines, [])"
| "authored_lines authored expecting state_lines (line # ls) =
     (case task_heading_id line of
        Some i \<Rightarrow>
          if expecting \<noteq> None then Inl ''could not find **State:** line before the next task header''
          else tryb (authored_lines authored (Some (bm_get authored i)) state_lines ls) (\<lambda>(e, n, out). Inr (e, n, line # out))
      | None \<Rightarrow>
          (case expecting of
             None \<Rightarrow> tryb (authored_lines authored None state_lines ls) (\<lambda>(e, n, out). Inr (e, n, line # out))
           | Some authored_state \<Rightarrow>
               if \<not> starts_with line ''**State:**''
               then tryb (authored_lines authored expecting state_lines ls) (\<lambda>(e, n, out). Inr (e, n, line # out))
               else tryb (authored_lines authored None (state_lines + 1) ls) (\<lambda>(e, n, out).
                 Inr (e, n, (case authored_state of Some s \<Rightarrow> state_line s | None \<Rightarrow> line) # out))))"

definition rewrite_states_to_authored :: "string \<Rightarrow> (string, string) bmap \<Rightarrow> string + string" where
  "rewrite_states_to_authored raw authored =
     tryb (authored_lines authored None 0 (lines raw)) (\<lambda>(expecting, state_lines, result).
       if expecting \<noteq> None then Inl ''could not find **State:** line at the end of the plan''
       else if state_lines = 0 then Inl ''found no task state metadata to reset''
       else Inr (rejoined raw result))"

definition reset_file_text ::
  "('m, 'y) yaml \<Rightarrow> (string \<Rightarrow> 'm option option) \<Rightarrow> ('m \<Rightarrow> string + string) \<Rightarrow> string \<Rightarrow> (string, string) bmap \<Rightarrow> string + string" where
  "reset_file_text Y parse render raw authored =
     tryb (rewrite_states_to_authored raw authored) (\<lambda>text0.
     let text = strip_assignee_lines (strip_result_links text0) in
     (case parse text of
        Some md \<Rightarrow>
          (case clear_runtime_task_metadata Y md of
             Some metadata \<Rightarrow> rewrite_frontmatter render text metadata
           | None \<Rightarrow> Inr text)
      | None \<Rightarrow> Inr text))"

end
