(* ===== verification/Plan_Text_Claims.thy ===== *)
theory Plan_Text_Claims
  imports Plan_Text Reset_Claims
begin

text \<open>
  An edit of the plan's source touches what it means to: a move replaces the one state line of its
  task, a rewritten frontmatter is found again where it was written and the rest of the document
  stays, and the text a reset leaves, frontmatter included, is one a second reset leaves as it is.
  Outside that, a value of several lines can end the block it is written in, and a reset does not
  read fenced code the way the language does.
\<close>

subsection \<open>The lines of a text that was put together again\<close>

lemma rejoined_lines:
  assumes "clean_lines ls"
  shows "lines (rejoined raw ls) =
    (if ends_with raw [newline_char] then (if ls = [] then [[]] else ls)
     else if ls \<noteq> [] \<and> last ls = [] then butlast ls else ls)"
proof (cases "ends_with raw [newline_char]")
  case True
  have "lines [newline_char] = [[]]" by code_simp
  then show ?thesis using assms True lines_joined_newline [of ls] by (auto simp: rejoined_def)
next
  case False
  then show ?thesis using assms lines_joined [of ls] by (simp add: rejoined_def)
qed

lemma rejoined_self: "return_char \<notin> set raw \<Longrightarrow> rejoined raw (lines raw) = raw"
  using joined_lines [of raw] by (simp add: rejoined_def)

subsection \<open>A move's state line\<close>

text \<open>The state lines as the edits see them: outside code, each under the heading it is read under.\<close>

fun told_from :: "fence \<Rightarrow> string option \<Rightarrow> string list \<Rightarrow> (string \<times> string) list" where
  "told_from fence cur [] = []"
| "told_from fence cur (line # ls) =
     (let (heading, fence') = node_heading_id_outside_code line fence;
          cur' = (case heading of Some h \<Rightarrow> Some h | None \<Rightarrow> cur)
      in (case cur' of Some i \<Rightarrow> if fence' = None \<and> starts_with line ''**State:**'' then [(i, line)] else [] | None \<Rightarrow> []) @
         told_from fence' cur' ls)"

definition told_states :: "string list \<Rightarrow> (string \<times> string) list" where
  "told_states ls = told_from None None ls"

fun set_first :: "'a \<Rightarrow> 'b \<Rightarrow> ('a \<times> 'b) list \<Rightarrow> ('a \<times> 'b) list" where
  "set_first i v [] = []"
| "set_first i v ((j, w) # m) = (if j = i then (j, v) # m else (j, w) # set_first i v m)"

fun edited :: "string \<Rightarrow> string \<Rightarrow> fence \<Rightarrow> string option \<Rightarrow> string list \<Rightarrow> string list" where
  "edited i s fence cur [] = []"
| "edited i s fence cur (line # ls) =
     (let (heading, fence') = node_heading_id_outside_code line fence;
          cur' = (case heading of Some h \<Rightarrow> Some h | None \<Rightarrow> cur)
      in if fence' = None \<and> cur' = Some i \<and> starts_with line ''**State:**'' then state_line s # ls
         else line # edited i s fence' cur' ls)"

lemma field_line_reads:
  assumes "starts_with line ''**''"
  shows "code_fence_run line = None" and "node_heading line = None"
    and "node_heading_id_outside_code line fence = (None, fence)"
proof -
  from assms obtain t where t: "line = CHR ''*'' # CHR ''*'' # t" by (auto simp: starts_with_iff)
  show f: "code_fence_run line = None" by (simp add: t code_fence_run_def trim_start_def is_whitespace_def)
  show h: "node_heading line = None" by (simp add: t node_heading_def)
  show "node_heading_id_outside_code line fence = (None, fence)"
    using f h by (auto simp: node_heading_id_outside_code_def node_heading_outside_code_def read_fence_def split: option.splits)
qed

lemma starts_with_field: "starts_with line ''**State:**'' \<Longrightarrow> starts_with line ''**''"
  by (erule starts_with_trans) (simp add: starts_with_def)

lemma state_line_starts: "starts_with (state_line s) ''**State:**''"
  by (simp add: state_line_def starts_with_def)

lemma state_turn_at:
  assumes "node_heading_id_outside_code line fence = (heading, fence')"
  shows "state_turn i s (fence, in_target, replaced, res) line =
    (let in_target' = (case heading of Some h \<Rightarrow> h = i | None \<Rightarrow> in_target)
     in if fence' = None \<and> in_target' \<and> \<not> replaced \<and> starts_with line ''**State:**''
        then (fence', in_target', True, res @ [state_line s]) else (fence', in_target', replaced, res @ [line]))"
  by (simp add: state_turn_def assms)

lemma state_fold_done:
  "\<exists>f t. foldl (state_turn i s) (fence, in_target, True, res) ls = (f, t, True, res @ ls)"
proof (induction ls arbitrary: fence in_target res)
  case (Cons line ls)
  obtain heading fence' where "node_heading_id_outside_code line fence = (heading, fence')" by force
  then show ?case using Cons.IH [of fence' _ "res @ [line]"] by (simp add: state_turn_at)
qed simp

lemma state_fold:
  "\<exists>f t. foldl (state_turn i s) (fence, cur = Some i, False, res) ls =
     (f, t, i \<in> fst ` set (told_from fence cur ls), res @ edited i s fence cur ls)"
proof (induction ls arbitrary: fence cur res)
  case (Cons line ls)
  obtain heading fence' where h: "node_heading_id_outside_code line fence = (heading, fence')" by force
  define cur' where "cur' = (case heading of Some h \<Rightarrow> Some h | None \<Rightarrow> cur)"
  have here: "(case heading of Some h \<Rightarrow> h = i | None \<Rightarrow> cur = Some i) \<longleftrightarrow> cur' = Some i"
    by (simp add: cur'_def split: option.splits)
  show ?case
  proof (cases "fence' = None \<and> cur' = Some i \<and> starts_with line ''**State:**''")
    case True
    then have "state_turn i s (fence, cur = Some i, False, res) line = (fence', True, True, res @ [state_line s])"
      by (simp add: state_turn_at [OF h] here)
    moreover have "edited i s fence cur (line # ls) = state_line s # ls"
      "i \<in> fst ` set (told_from fence cur (line # ls))"
      using True by (simp_all add: h flip: cur'_def)
    ultimately show ?thesis
      using state_fold_done [of i s fence' True "res @ [state_line s]" ls] by simp
  next
    case False
    then have "state_turn i s (fence, cur = Some i, False, res) line = (fence', cur' = Some i, False, res @ [line])"
      by (auto simp: state_turn_at [OF h] here)
    moreover have "edited i s fence cur (line # ls) = line # edited i s fence' cur' ls"
      "i \<in> fst ` set (told_from fence cur (line # ls)) \<longleftrightarrow> i \<in> fst ` set (told_from fence' cur' ls)"
      using False by (auto simp: h simp flip: cur'_def split: option.splits)
    ultimately show ?thesis using Cons.IH [of fence' cur' "res @ [line]"] by simp
  qed
qed simp

lemma told_edited: "told_from fence cur (edited i s fence cur ls) = set_first i (state_line s) (told_from fence cur ls)"
proof (induction ls arbitrary: fence cur)
  case (Cons line ls)
  obtain heading fence' where h: "node_heading_id_outside_code line fence = (heading, fence')" by force
  show ?case
  proof (cases "starts_with line ''**State:**''")
    case True
    then show ?thesis
      using Cons.IH field_line_reads(3) [OF starts_with_field] state_line_starts by (auto split: option.splits)
  next
    case False
    then show ?thesis using Cons.IH h by (auto simp: Let_def split: option.splits)
  qed
qed simp

lemma edited_split:
  "i \<in> fst ` set (told_from fence cur ls) \<Longrightarrow>
   \<exists>before old after. ls = before @ old # after \<and> edited i s fence cur ls = before @ state_line s # after \<and>
     starts_with old ''**State:**''"
proof (induction ls arbitrary: fence cur)
  case (Cons line ls)
  obtain heading fence' where h: "node_heading_id_outside_code line fence = (heading, fence')" by force
  define cur' where "cur' = (case heading of Some h \<Rightarrow> Some h | None \<Rightarrow> cur)"
  show ?case
  proof (cases "fence' = None \<and> cur' = Some i \<and> starts_with line ''**State:**''")
    case True
    then have "edited i s fence cur (line # ls) = [] @ state_line s # ls" by (simp add: h flip: cur'_def)
    then show ?thesis using True by blast
  next
    case False
    then have "i \<in> fst ` set (told_from fence' cur' ls)"
      using Cons.prems by (auto simp: h simp flip: cur'_def split: option.splits if_splits)
    then obtain before old after where "ls = before @ old # after"
      "edited i s fence' cur' ls = before @ state_line s # after" "starts_with old ''**State:**''"
      using Cons.IH by blast
    with False show ?thesis by (intro exI [of _ "line # before"]) (auto simp: h simp flip: cur'_def)
  qed
qed simp

text \<open>A state name as the language writes it: no other whitespace than a space, none at the ends that
  would be lost, no backtick first.\<close>

definition writable_name :: "string \<Rightarrow> bool" where
  "writable_name s \<longleftrightarrow> s \<noteq> [] \<and> \<not> starts_with s ''`'' \<and> (\<forall>c\<in>set s. is_whitespace c \<longrightarrow> c = CHR '' '')"

lemma trim_solid:
  assumes "s \<noteq> []" and "\<not> is_whitespace (hd s)" and "\<not> is_whitespace (last s)"
  shows "trim s = s" and "trim (CHR '' '' # s) = s"
proof -
  have "trim_start s = s" using assms(1,2) by (cases s) (simp_all add: trim_start_def)
  moreover have "trim_end s = s" using assms(1,3) by (cases s rule: rev_cases) (simp_all add: trim_end_def)
  ultimately show "trim s = s" and "trim (CHR '' '' # s) = s"
    by (simp_all add: trim_def trim_start_def)
qed

lemma read_state_value: "read_state_line (''**State:** '' @ v) = Some (unescape_state (trim (CHR '' '' # v)))"
  using strip_prefix_append [of "''**State:**''" "CHR '' '' # v"] by (simp add: read_state_line_def)

lemma unescape_quoted: "unescape_state (''`'' @ s @ ''`'') = s"
  by (simp add: unescape_state_def starts_with_def ends_with_def)

lemma unescape_plain: "\<not> starts_with s ''`'' \<Longrightarrow> unescape_state s = s"
  by (simp add: unescape_state_def)

lemma state_line_reads_back:
  assumes "writable_name s"
  shows "read_state_line (state_line s) = Some s"
proof -
  have no_tick: "\<not> starts_with s ''`''" and something: "s \<noteq> []"
    and solid: "\<And>c. c \<in> set s \<Longrightarrow> CHR '' '' \<notin> set s \<Longrightarrow> \<not> is_whitespace c"
    using assms unfolding writable_name_def by blast+
  show ?thesis
proof (cases "CHR '' '' \<in> set s")
  case True
  then have v: "format_state_metadata_value s = ''`'' @ s @ ''`''"
    using no_tick by (simp add: format_state_metadata_value_def)
  have "trim (CHR '' '' # ''`'' @ s @ ''`'') = ''`'' @ s @ ''`''"
    by (rule trim_solid(2)) (simp, simp add: is_whitespace_def, simp add: is_whitespace_def)
  then show ?thesis unfolding state_line_def v read_state_value by (simp only: unescape_quoted)
next
  case False
  then have v: "format_state_metadata_value s = s"
    using no_tick by (simp add: format_state_metadata_value_def)
  have "trim (CHR '' '' # s) = s" using something solid False by (intro trim_solid(2)) auto
  then show ?thesis unfolding state_line_def v read_state_value by (simp only: unescape_plain [OF no_tick])
qed
qed

lemma format_clean:
  assumes "newline_char \<notin> set s" and "return_char \<notin> set s"
  shows "newline_char \<notin> set (state_line s) \<and> return_char \<notin> set (state_line s)"
  using assms by (simp add: state_line_def format_state_metadata_value_def)

lemma state_line_something: "state_line s \<noteq> []"
  by (simp add: state_line_def)

lemma lines_end:
  assumes "return_char \<notin> set raw" and "\<not> ends_with raw [newline_char]" and "lines raw \<noteq> []"
  shows "last (lines raw) \<noteq> []"
proof
  assume "last (lines raw) = []"
  then have "lines raw = butlast (lines raw)"
    using rejoined_lines [OF clean_lines_lines [OF assms(1)], of raw] rejoined_self [OF assms(1)] assms(2,3) by simp
  then have "length (lines raw) = length (lines raw) - 1" by (metis length_butlast)
  then show False using assms(3) by (cases "lines raw") auto
qed

text \<open>C38: A move's edit is exact: it is refused precisely where the task has no state line outside code,
  and otherwise replaces that one line, the first of its task, and leaves every other line of the
  document, so every other task is told the state it was; the new line reads back as the state.\<close>

theorem state_edit_is_exact:
  assumes "return_char \<notin> set raw" and "newline_char \<notin> set s" and "return_char \<notin> set s"
  shows "case rewrite_task_state raw i s of
      Inl _ \<Rightarrow> i \<notin> fst ` set (told_states (lines raw))
    | Inr out \<Rightarrow>
        (\<exists>before old after. lines raw = before @ old # after \<and> starts_with old ''**State:**'' \<and>
           lines out = before @ state_line s # after) \<and>
        i \<in> fst ` set (told_states (lines raw)) \<and>
        told_states (lines out) = set_first i (state_line s) (told_states (lines raw)) \<and>
        (writable_name s \<longrightarrow> read_state_line (state_line s) = Some s)"
proof -
  let ?ls = "lines raw" and ?out = "edited i s None None (lines raw)"
  obtain f t where fold: "foldl (state_turn i s) (None, False, False, []) ?ls =
      (f, t, i \<in> fst ` set (told_states ?ls), ?out)"
    using state_fold [of i s None None "[]" ?ls] by (auto simp: told_states_def)
  show ?thesis
  proof (cases "i \<in> fst ` set (told_states ?ls)")
    case False
    then show ?thesis using fold by (simp add: rewrite_task_state_def)
  next
    case True
    then obtain before old after where e: "?ls = before @ old # after" "?out = before @ state_line s # after"
      "starts_with old ''**State:**''"
      using edited_split [of i None None ?ls s] by (auto simp: told_states_def)
    have "clean_lines ?out"
      using clean_lines_lines [OF assms(1)] format_clean [OF assms(2,3)] e(1,2) by simp
    moreover have "last ?out \<noteq> []" if "\<not> ends_with raw [newline_char]"
      using lines_end [OF assms(1) that] e(1,2) state_line_something by (cases after) simp_all
    ultimately have "lines (rejoined raw ?out) = ?out"
      using e(2) by (simp add: rejoined_lines)
    then show ?thesis
      using True fold e told_edited [of None None i s ?ls] state_line_reads_back
      by (auto simp: rewrite_task_state_def told_states_def)
  qed
qed

definition two_tasks :: string where
  "two_tasks = join [newline_char] [''# Rhei: x'', [], ''## Tasks'', [], ''### Task 1: One'', ''**State:** todo'', ''```'',
     ''### Task 2: Quoted'', ''**State:** draft'', ''```'', ''### Task 2: Two'', ''**State:** todo'', []]"

lemma state_edit_is_exact_witness:
  "\<exists>out. rewrite_task_state two_tasks ''2'' ''human review'' = Inr out \<and>
     told_states (lines out) = [(''1'', ''**State:** todo''), (''2'', ''**State:** `human review`'')]"
proof -
  have clean: "return_char \<notin> set two_tasks" "newline_char \<notin> set ''human review''" "return_char \<notin> set ''human review''"
    by code_simp+
  obtain out where out: "rewrite_task_state two_tasks ''2'' ''human review'' = Inr out"
    "set_first ''2'' (state_line ''human review'') (told_states (lines two_tasks)) =
      [(''1'', ''**State:** todo''), (''2'', ''**State:** `human review`'')]"
  proof -
    have "(case rewrite_task_state two_tasks ''2'' ''human review'' of Inr _ \<Rightarrow> True | Inl _ \<Rightarrow> False)"
      "set_first ''2'' (state_line ''human review'') (told_states (lines two_tasks)) =
        [(''1'', ''**State:** todo''), (''2'', ''**State:** `human review`'')]" by code_simp+
    then show thesis using that by (auto split: sum.splits)
  qed
  then show ?thesis using state_edit_is_exact [OF clean, of "''2''"] by simp
qed

subsection \<open>The frontmatter\<close>

lemma find_header_bounds:
  "find_header_from f n ls = Some h \<Longrightarrow> n \<le> h \<and> h < n + length ls"
  by (induction f n ls rule: find_header_from.induct) (fastforce simp: Let_def split: prod.splits if_splits)+

lemma find_header_prefix:
  "find_header_from f n (xs @ ys) = Some h \<Longrightarrow> h < n + length xs \<Longrightarrow> find_header_from f n (xs @ zs) = Some h"
proof (induction xs arbitrary: f n)
  case Nil
  then show ?case using find_header_bounds [of f n ys h] by simp
next
  case (Cons x xs)
  obtain b f' where "read_fence f x = (b, f')" by force
  then show ?case using Cons.IH [of f' "n + 1"] Cons.prems by (auto simp: Let_def split: if_splits)
qed

lemma read_fence_closed: "read_fence f line = (False, None) \<Longrightarrow> f = None"
  by (auto simp: read_fence_def split: option.splits prod.splits if_splits)

lemma rule_line: "read_fence None ''---'' = (False, None)" "trim ''---'' = ''---''"
  by code_simp+

lemma find_block_bounds: "find_block f n ls = Some b \<Longrightarrow> n \<le> fb_open b \<and> fb_open b < n + length ls"
  by (induction f n ls rule: find_block.induct) (fastforce simp: Let_def split: prod.splits if_splits)+

lemma find_block_prefix:
  "find_block f n (xs @ ys) = Some b \<Longrightarrow> fb_open b = n + length xs \<Longrightarrow>
   find_block f n (xs @ ''---'' # zs) = Some \<lparr>fb_open = n + length xs, fb_close = find_trimmed_rule (n + length xs + 1) zs\<rparr>"
proof (induction xs arbitrary: f n)
  case Nil
  then obtain line ls where ys: "ys = line # ls" by (cases ys) auto
  obtain c f' where r: "read_fence f line = (c, f')" by force
  have "find_block f' (n + 1) ls \<noteq> Some b" using Nil.prems(2) find_block_bounds [of f' "n + 1" ls b] by auto
  then have "\<not> c \<and> f' = None" using Nil.prems(1) ys r by (cases f') (auto simp: Let_def split: if_splits)
  then have "f = None" using r by (auto intro: read_fence_closed)
  then show ?case by (simp add: rule_line)
next
  case (Cons x xs)
  obtain c f' where r: "read_fence f x = (c, f')" by force
  have skip: "c \<or> f' \<noteq> None \<or> trim x = []" using Cons.prems r by (auto simp: Let_def split: if_splits)
  then have "find_block f' (n + 1) (xs @ ys) = Some b" using Cons.prems(1) r by (simp add: Let_def)
  then show ?case using Cons.IH [of f' "n + 1"] Cons.prems(2) skip r by (simp add: Let_def)
qed

lemma blank_closed: "trim l = [] \<Longrightarrow> read_fence None l = (False, None)"
proof -
  assume "trim l = []"
  then have "dropWhile is_whitespace (rev (trim_start l)) = []" by (simp add: trim_def trim_end_def)
  then have "\<forall>c\<in>set (trim_start l). is_whitespace c" by (simp add: dropWhile_eq_Nil_conv)
  then have "trim_start l = []"
    unfolding trim_start_def by (metis dropWhile_eq_Nil_conv hd_dropWhile list.set_sel(1))
  then show ?thesis by (simp add: read_fence_def code_fence_run_def)
qed

lemma find_block_blanks:
  "\<forall>l\<in>set xs. trim l = [] \<Longrightarrow>
   find_block None n (xs @ ''---'' # zs) = Some \<lparr>fb_open = n + length xs, fb_close = find_trimmed_rule (n + length xs + 1) zs\<rparr>"
  by (induction xs arbitrary: n) (simp_all add: blank_closed rule_line)

lemma find_rule_after:
  "find_trimmed_rule n (xs @ ''---'' # zs) = Some (n + length (takeWhile (\<lambda>l. trim l \<noteq> ''---'') xs))"
  by (induction xs arbitrary: n) (simp_all add: rule_line)

text \<open>The lines a block found is made of, and the blank lines passed over.\<close>

lemma find_rule_split:
  "find_trimmed_rule n ls = Some c \<Longrightarrow>
   \<exists>body r rest. ls = body @ r # rest \<and> trim r = ''---'' \<and> (\<forall>l\<in>set body. trim l \<noteq> ''---'') \<and> c = n + length body"
proof (induction n ls rule: find_trimmed_rule.induct)
  case (2 n line ls)
  show ?case
  proof (cases "trim line = ''---''")
    case True
    with 2(2) show ?thesis by (intro exI [of _ "[]"] exI [of _ line] exI [of _ ls]) auto
  next
    case False
    with 2 obtain body r rest where "ls = body @ r # rest" "trim r = ''---''" "\<forall>l\<in>set body. trim l \<noteq> ''---''"
      "c = n + 1 + length body" by auto
    with False show ?thesis by (intro exI [of _ "line # body"] exI [of _ r] exI [of _ rest]) auto
  qed
qed simp

lemma find_block_split:
  "find_block f n ls = Some b \<Longrightarrow>
   \<exists>pre r rest. ls = pre @ r # rest \<and> trim r = ''---'' \<and> fb_open b = n + length pre \<and>
     fb_close b = find_trimmed_rule (n + length pre + 1) rest"
proof (induction ls arbitrary: f n)
  case (Cons line ls)
  obtain x f' where r: "read_fence f line = (x, f')" by force
  show ?case
  proof (cases "x \<or> f' \<noteq> None \<or> trim line = []")
    case True
    then have "find_block f' (n + 1) ls = Some b" using Cons.prems r by (simp add: Let_def)
    from Cons.IH [OF this] obtain pre o' rest where "ls = pre @ o' # rest" "trim o' = ''---''"
      "fb_open b = n + 1 + length pre" "fb_close b = find_trimmed_rule (n + 1 + length pre + 1) rest" by blast
    then show ?thesis by (intro exI [of _ "line # pre"] exI [of _ o'] exI [of _ rest]) auto
  next
    case False
    then show ?thesis using Cons.prems r
      by (intro exI [of _ "[]"] exI [of _ line] exI [of _ ls]) (auto split: if_splits)
  qed
qed simp

lemma next_content_split:
  "\<exists>blanks. drop n ls = blanks @ drop (next_content ls n) ls \<and> next_content ls n = n + length blanks \<and>
     (\<forall>l\<in>set blanks. trim l = []) \<and>
     (drop (next_content ls n) ls = [] \<or> trim (hd (drop (next_content ls n) ls)) \<noteq> [])"
proof -
  let ?blank = "\<lambda>l. trim l = []"
  have after: "drop (next_content ls n) ls = dropWhile ?blank (drop n ls)"
    by (simp add: next_content_def dropWhile_eq_drop add.commute)
  show ?thesis unfolding after
    using hd_dropWhile [of ?blank "drop n ls"]
    by (intro exI [of _ "takeWhile ?blank (drop n ls)"])
      (auto simp: next_content_def dest: set_takeWhileD)
qed

text \<open>The part of a document a rewrite replaces: the whole block and the blank lines under it, or nothing,
  below the header and its blank lines.\<close>

definition replaced_part :: "frontmatter_place \<Rightarrow> string list \<Rightarrow> string list \<Rightarrow> string list \<Rightarrow> bool" where
  "replaced_part place before old after \<longleftrightarrow>
     (after = [] \<or> trim (hd after) \<noteq> []) \<and> fp_header place < length before \<and>
     (case fp_block place of
        None \<Rightarrow> old = [] \<and> (\<forall>l\<in>set (drop (fp_header place + 1) before). trim l = [])
      | Some b \<Rightarrow> \<exists>first_rule body last_rule blanks. old = first_rule # body @ last_rule # blanks \<and>
          trim first_rule = ''---'' \<and> trim last_rule = ''---'' \<and> (\<forall>l\<in>set body. trim l \<noteq> ''---'') \<and>
          (\<forall>l\<in>set blanks. trim l = []) \<and>
          b = \<lparr>fb_open = length before, fb_close = Some (length before + 1 + length body)\<rparr>)"

lemma next_content_blanks:
  "\<forall>l\<in>set (take (next_content ls n - n) (drop n ls)). trim l = []"
proof -
  have "take (next_content ls n - n) (drop n ls) = takeWhile (\<lambda>l. trim l = []) (drop n ls)"
    by (simp add: next_content_def takeWhile_eq_take [symmetric])
  then show ?thesis by (auto dest: set_takeWhileD)
qed

lemma find_rule_bounds: "find_trimmed_rule n ls = Some c \<Longrightarrow> n \<le> c \<and> c < n + length ls"
  by (induction n ls rule: find_trimmed_rule.induct) (fastforce split: if_splits)+

lemma next_content_bound: "n \<le> length ls \<Longrightarrow> n \<le> next_content ls n \<and> next_content ls n \<le> length ls"
  using length_takeWhile_le [of "\<lambda>l. trim l = []" "drop n ls"] by (simp add: next_content_def)

lemma find_block_close:
  "find_block f n ls = Some b \<Longrightarrow> fb_close b = Some c \<Longrightarrow> fb_open b < c \<and> c < n + length ls"
proof (induction ls arbitrary: f n)
  case (Cons line ls)
  obtain x f' where r: "read_fence f line = (x, f')" by force
  show ?case
  proof (cases "x \<or> f' \<noteq> None \<or> trim line = []")
    case True
    then show ?thesis using Cons.IH [of f' "n + 1"] Cons.prems r by (simp add: Let_def)
  next
    case False
    then show ?thesis using Cons.prems r find_rule_bounds [of "n + 1" ls c] by (auto split: if_splits)
  qed
qed simp

lemma join_something: "l \<in> set ls \<Longrightarrow> l \<noteq> [] \<Longrightarrow> join sep ls \<noteq> []"
  by (induction ls rule: induct_list012) auto

text \<open>Where the new block goes: at the old one, or below the header and its blank lines.\<close>

definition block_span :: "string list \<Rightarrow> frontmatter_place \<Rightarrow> (nat \<times> nat) option" where
  "block_span ls place =
     (case fp_block place of
        Some b \<Rightarrow> map_option (\<lambda>close. (fb_open b, next_content ls (close + 1))) (fb_close b)
      | None \<Rightarrow> let n = next_content ls (fp_header place + 1) in Some (n, n))"

lemma block_span_found:
  assumes "find_frontmatter ls = Some place" and "block_span ls place = Some (start, stop)"
  shows "fp_header place < start \<and> start \<le> stop \<and> stop \<le> length ls \<and>
    find_frontmatter (take start ls @ ''---'' # zs) = Some \<lparr>fp_header = fp_header place,
      fp_block = Some \<lparr>fb_open = start, fb_close = find_trimmed_rule (start + 1) zs\<rparr>\<rparr>"
proof -
  let ?h = "fp_header place"
  from assms(1) have h: "find_header_from None 0 ls = Some ?h"
    and block: "fp_block place = find_block None (?h + 1) (drop (?h + 1) ls)"
    by (auto simp: find_frontmatter_def find_header_line_def)
  have hl: "?h < length ls" using find_header_bounds [OF h] by simp
  have header: "find_header_line (take start ls @ ''---'' # zs) = Some ?h" if "?h < start"
    using find_header_prefix [of None 0 "take start ls" "drop start ls" ?h] h hl that by (simp add: find_header_line_def)
  have rest: "drop (?h + 1) (take start ls @ ''---'' # zs) = take (start - ?h - 1) (drop (?h + 1) ls) @ ''---'' # zs"
    if "?h < start" "start \<le> length ls"
    using that by (simp add: drop_take Suc_le_eq)
  show ?thesis
  proof (cases "fp_block place")
    case None
    then have start: "start = next_content ls (?h + 1)" "stop = start"
      using assms(2) by (auto simp: block_span_def Let_def)
    then have b: "?h < start" "start \<le> length ls" using next_content_bound [of "?h + 1" ls] hl by auto
    have "find_block None (?h + 1) (take (start - ?h - 1) (drop (?h + 1) ls) @ ''---'' # zs) =
        Some \<lparr>fb_open = start, fb_close = find_trimmed_rule (start + 1) zs\<rparr>"
      using find_block_blanks [OF next_content_blanks [of ls "?h + 1"], of "?h + 1" zs] b start by simp
    then show ?thesis using b start header rest by (simp add: find_frontmatter_def)
  next
    case (Some blk)
    then obtain close where blk: "start = fb_open blk" "fb_close blk = Some close" "stop = next_content ls (close + 1)"
      using assms(2) by (auto simp: block_span_def)
    have found: "find_block None (?h + 1) (drop (?h + 1) ls) = Some blk" using block Some by simp
    have b: "?h < start" "start < length ls" using find_block_bounds [OF found] hl blk(1) by auto
    have "find_block None (?h + 1) (take (start - ?h - 1) (drop (?h + 1) ls) @ drop start ls) = Some blk"
      using found b by (metis add.commute append_take_drop_id diff_diff_left drop_drop le_add_diff_inverse2 less_eq_Suc_le plus_1_eq_Suc)
    from find_block_prefix [OF this, of zs] blk(1) b
    have new: "find_block None (?h + 1) (take (start - ?h - 1) (drop (?h + 1) ls) @ ''---'' # zs) =
        Some \<lparr>fb_open = start, fb_close = find_trimmed_rule (start + 1) zs\<rparr>" by simp
    have "start < close \<and> close < length ls" using find_block_close [OF found blk(2)] hl blk(1) by auto
    then have "stop \<le> length ls" "start \<le> stop" using next_content_bound [of "close + 1" ls] blk(3) by auto
    then show ?thesis using b new header rest by (simp add: find_frontmatter_def)
  qed
qed

lemma new_text:
  "(let output = join [newline_char] (ls @ ''---'' # zs) in
      if b \<or> output \<noteq> [] then output @ [newline_char] else output) = rejoined (raw @ [newline_char]) (ls @ ''---'' # zs)"
  using join_something [of "''---''" "ls @ ''---'' # zs" "[newline_char]"] by (simp add: rejoined_def)

lemma rewrite_frontmatter_by_span:
  "rewrite_frontmatter render raw md =
   (case find_frontmatter (lines raw) of
      None \<Rightarrow> Inl ''could not find a '# Rhei:' or '# Panta:' header when rewriting frontmatter''
    | Some place \<Rightarrow>
        (case block_span (lines raw) place of
           None \<Rightarrow> Inl ''unterminated YAML frontmatter in plan source''
         | Some (start, stop) \<Rightarrow> tryb (render md) (\<lambda>rendered. Inr (rejoined (raw @ [newline_char])
             (take start (lines raw) @ ''---'' # lines (rendered_yaml rendered) @ [''---'', []] @ drop stop (lines raw))))))"
proof -
  have yaml: "(if y = [] then [] else lines y) = lines y" for y by (simp add: lines_def)
  show ?thesis
  proof (cases "find_frontmatter (lines raw)")
    case None
    then show ?thesis by (simp add: rewrite_frontmatter_def)
  next
    case (Some place)
    have go: "tryb (Inr (start, stop)) (\<lambda>(start, stop). tryb (render md) (\<lambda>rendered.
        let yaml = rendered_yaml rendered;
            result = take start (lines raw) @ [''---''] @ (if yaml = [] then [] else lines yaml) @ [''---'', []] @ drop stop (lines raw);
            output = join [newline_char] result
        in Inr (if ends_with raw [newline_char] \<or> output \<noteq> [] then output @ [newline_char] else output))) =
      tryb (render md) (\<lambda>rendered. Inr (rejoined (raw @ [newline_char])
        (take start (lines raw) @ ''---'' # lines (rendered_yaml rendered) @ [''---'', []] @ drop stop (lines raw))))" for start stop
      by (simp add: yaml new_text [symmetric, of raw _ _ "ends_with raw [newline_char]"] Let_def)
    show ?thesis
    proof (cases "fp_block place")
      case None
      then show ?thesis using Some go by (simp add: rewrite_frontmatter_def block_span_def Let_def)
    next
      case (Some b)
      then show ?thesis using \<open>find_frontmatter (lines raw) = Some place\<close> go
        by (cases "fb_close b") (simp_all add: rewrite_frontmatter_def block_span_def Let_def)
    qed
  qed
qed

lemma block_span_replaces:
  assumes "find_frontmatter ls = Some place" and "block_span ls place = Some (start, stop)"
  shows "replaced_part place (take start ls) (take (stop - start) (drop start ls)) (drop stop ls)"
proof -
  let ?h = "fp_header place"
  from assms(1) have "find_header_from None 0 ls = Some ?h"
    and block: "fp_block place = find_block None (?h + 1) (drop (?h + 1) ls)"
    by (auto simp: find_frontmatter_def find_header_line_def)
  then have hl: "?h < length ls" using find_header_bounds by fastforce
  note found = block_span_found [OF assms]
  show ?thesis
  proof (cases "fp_block place")
    case None
    then have start: "start = next_content ls (?h + 1)" "stop = start"
      using assms(2) by (auto simp: block_span_def Let_def)
    obtain blanks where blanks: "drop (?h + 1) ls = blanks @ drop start ls" "start = ?h + 1 + length blanks"
      "\<forall>l\<in>set blanks. trim l = []" "drop start ls = [] \<or> trim (hd (drop start ls)) \<noteq> []"
      using next_content_split [of "?h + 1" ls] start by auto
    have "drop (?h + 1) (take start ls) = blanks" using blanks(1,2) by (simp add: drop_take)
    then show ?thesis using None blanks start found by (auto simp: replaced_part_def)
  next
    case (Some b)
    then obtain close where b: "start = fb_open b" "fb_close b = Some close" "stop = next_content ls (close + 1)"
      using assms(2) by (auto simp: block_span_def)
    obtain pre first_rule rest where split: "drop (?h + 1) ls = pre @ first_rule # rest" "trim first_rule = ''---''"
      "fb_open b = ?h + 1 + length pre" "fb_close b = find_trimmed_rule (?h + 1 + length pre + 1) rest"
      using find_block_split [of None "?h + 1" "drop (?h + 1) ls" b] block Some by auto
    obtain body last_rule more where close: "rest = body @ last_rule # more" "trim last_rule = ''---''"
      "\<forall>l\<in>set body. trim l \<noteq> ''---''" "close = start + 1 + length body"
      using find_rule_split [of "?h + 1 + length pre + 1" rest close] b split(3,4) by auto
    have "drop start ls = drop (length pre) (drop (?h + 1) ls)"
      unfolding drop_drop b(1) split(3) by (simp add: add.commute)
    then have from_start: "drop start ls = first_rule # body @ last_rule # more"
      unfolding split(1) close(1) by simp
    have "drop (close + 1) ls = drop (length body + 2) (drop start ls)" using close(4) by (simp add: add.commute)
    then have more: "drop (close + 1) ls = more" by (simp add: from_start)
    obtain blanks where blanks: "more = blanks @ drop stop ls" "stop = close + 1 + length blanks"
      "\<forall>l\<in>set blanks. trim l = []" "drop stop ls = [] \<or> trim (hd (drop stop ls)) \<noteq> []"
      using next_content_split [of "close + 1" ls] b(3) more by auto
    have "take (stop - start) (drop start ls) = first_rule # body @ last_rule # blanks"
      using blanks(1,2) close(4) by (simp add: from_start)
    moreover have "b = \<lparr>fb_open = start, fb_close = Some (start + 1 + length body)\<rparr>"
      using b(1,2) close(4) by (cases b) simp
    moreover have "length (take start ls) = start" "?h < start" using found [of "[]"] by auto
    ultimately show ?thesis unfolding replaced_part_def Some option.simps
      using split(2) close(2,3) blanks(3,4) by (intro conjI exI [of _ first_rule] exI [of _ body]
        exI [of _ last_rule] exI [of _ blanks]) simp_all
  qed
qed

text \<open>C39: In a document without carriage returns a rewritten frontmatter is found where it was written:
  the old block, from its opening rule to its closing one, and the blank lines under it go, or nothing
  where there was none; every other line stays; in their place stand two rules around exactly the
  lines rendered, below the same header, and the block a reader finds opens there. It closes at the
  first rendered line that trims to a rule, else at the rule written, so it holds all that was
  rendered where no rendered line is one.\<close>

theorem frontmatter_is_found_where_written:
  assumes "return_char \<notin> set raw" and "render md = Inr rendered" and "return_char \<notin> set (rendered_yaml rendered)"
    and "rewrite_frontmatter render raw md = Inr out"
  shows "\<exists>place before old after. find_frontmatter (lines raw) = Some place \<and>
    lines raw = before @ old @ after \<and> replaced_part place before old after \<and>
    lines out = before @ ''---'' # lines (rendered_yaml rendered) @ [''---'', []] @ after \<and>
    find_frontmatter (lines out) = Some \<lparr>fp_header = fp_header place, fp_block = Some
      \<lparr>fb_open = length before, fb_close = Some (length before + 1 +
         length (takeWhile (\<lambda>l. trim l \<noteq> ''---'') (lines (rendered_yaml rendered))))\<rparr>\<rparr>"
proof -
  let ?ls = "lines raw" and ?yaml = "lines (rendered_yaml rendered)"
  obtain place start stop where place: "find_frontmatter ?ls = Some place" and span: "block_span ?ls place = Some (start, stop)"
    and out: "out = rejoined (raw @ [newline_char]) (take start ?ls @ ''---'' # ?yaml @ [''---'', []] @ drop stop ?ls)"
    using assms(2,4) by (auto simp: rewrite_frontmatter_by_span res_simps split: option.splits)
  note found = block_span_found [OF place span]
  have "clean_lines (take start ?ls @ ''---'' # ?yaml @ [''---'', []] @ drop stop ?ls)"
    using clean_lines_lines [OF assms(1)] clean_lines_lines [OF assms(3)]
    by (auto simp: clean_lines_def dest: in_set_takeD in_set_dropD)
  then have lines_out: "lines out = take start ?ls @ ''---'' # ?yaml @ [''---'', []] @ drop stop ?ls"
    by (simp add: out rejoined_lines)
  have "find_trimmed_rule (start + 1) (?yaml @ [''---'', []] @ drop stop ?ls) =
      Some (start + 1 + length (takeWhile (\<lambda>l. trim l \<noteq> ''---'') ?yaml))"
    using find_rule_after [of "start + 1" ?yaml "[[]] @ drop stop ?ls"] by simp
  moreover have "?ls = take start ?ls @ take (stop - start) (drop start ?ls) @ drop stop ?ls"
    using found by (metis append.assoc append_take_drop_id le_add_diff_inverse take_add)
  moreover have "length (take start ?ls) = start"
    using found by (metis length_take min.absorb2 order.trans)
  ultimately show ?thesis using place lines_out found block_span_replaces [OF place span] by metis
qed

definition sample_render :: "string \<Rightarrow> string + string" where
  "sample_render s = Inr (''title: '' @ s @ [newline_char])"

lemma frontmatter_is_found_where_written_witness:
  "\<exists>out. rewrite_frontmatter sample_render two_tasks ''plan'' = Inr out \<and>
     find_frontmatter (lines out) = Some \<lparr>fp_header = 0, fp_block = Some \<lparr>fb_open = 2, fb_close = Some 4\<rparr>\<rparr>"
proof -
  have pre: "return_char \<notin> set two_tasks" "sample_render ''plan'' = Inr (''title: plan'' @ [newline_char])"
    "return_char \<notin> set (rendered_yaml (''title: plan'' @ [newline_char]))"
    "length (takeWhile (\<lambda>l. trim l \<noteq> ''---'') (lines (rendered_yaml (''title: plan'' @ [newline_char])))) = 1"
    "find_frontmatter (lines two_tasks) = Some \<lparr>fp_header = 0, fp_block = None\<rparr>"
    by code_simp+
  have "(case rewrite_frontmatter sample_render two_tasks ''plan'' of
      Inr out \<Rightarrow> find_frontmatter (lines out) = Some \<lparr>fp_header = 0, fp_block = Some \<lparr>fb_open = 2, fb_close = Some 4\<rparr>\<rparr>
    | Inl _ \<Rightarrow> False)" by code_simp
  then obtain out where out: "rewrite_frontmatter sample_render two_tasks ''plan'' = Inr out"
    "find_frontmatter (lines out) = Some \<lparr>fp_header = 0, fp_block = Some \<lparr>fb_open = 2, fb_close = Some 4\<rparr>\<rparr>"
    by (auto split: sum.splits)
  with frontmatter_is_found_where_written [OF pre(1-3) out(1)] pre(4,5) show ?thesis by auto
qed

text \<open>A value of several lines, one of them a rule, is rendered as an indented block of lines. The
  readers trim a line before they compare it, so the block written ends inside that value.\<close>

definition render_lines :: "string list \<Rightarrow> string + string" where
  "render_lines ls = Inr (concat (map (\<lambda>l. l @ [newline_char]) ls))"

theorem multiline_value_closes_the_block:
  "case rewrite_frontmatter render_lines two_tasks [''note: |-'', ''  a'', ''  ---'', ''  b''] of
     Inr out \<Rightarrow> find_frontmatter (lines out) = Some \<lparr>fp_header = 0, fp_block = Some \<lparr>fb_open = 2, fb_close = Some 5\<rparr>\<rparr> \<and>
       drop 5 (take 8 (lines out)) = [''  ---'', ''  b'', ''---'']
   | Inl _ \<Rightarrow> False"
  by code_simp

subsection \<open>The text a reset leaves\<close>

text \<open>A line the pass over state lines does not look at.\<close>

definition inert :: "string \<Rightarrow> bool" where
  "inert l \<longleftrightarrow> task_heading_id l = None \<and> \<not> starts_with l ''**State:**''"

definition is_result_line :: "string \<Rightarrow> bool" where
  "is_result_line l \<longleftrightarrow> task_heading_id l = None \<and> starts_with (trim_start l) ''> **Result:**''"

lemma not_heading: "\<not> starts_with l ''#'' \<Longrightarrow> task_heading_id l = None"
  by (cases l) (auto simp: task_heading_id_def Let_def starts_with_def)

lemma state_line_no_heading: "starts_with l ''**'' \<Longrightarrow> task_heading_id l = None"
  by (rule not_heading) (auto simp: starts_with_iff)

lemma inert_lines:
  "trim l = [] \<Longrightarrow> inert l" "starts_with l ''**Assignee:**'' \<Longrightarrow> inert l" "is_result_line l \<Longrightarrow> inert l"
proof -
  show "inert l" if "trim l = []"
  proof -
    have "trim_start l = []"
      using that unfolding trim_def trim_end_def trim_start_def
      by (metis Nil_is_rev_conv dropWhile_eq_Nil_conv hd_dropWhile list.set_sel(1) set_rev)
    then have "\<not> starts_with l ''#'' \<and> \<not> starts_with l ''**State:**''"
      by (auto simp: trim_start_def starts_with_iff is_whitespace_def)
    then show ?thesis using not_heading by (simp add: inert_def)
  qed
  show "inert l" if "starts_with l ''**Assignee:**''"
    using that not_heading [of l] by (auto simp: inert_def starts_with_iff)
  show "inert l" if "is_result_line l"
    using that by (auto simp: inert_def is_result_line_def starts_with_iff trim_start_def is_whitespace_def)
qed

lemma authored_by_active:
  "authored_lines a e n ls = Inr (e', n', ls) \<longleftrightarrow>
   authored_lines a e n (filter (\<lambda>l. \<not> inert l) ls) = Inr (e', n', filter (\<lambda>l. \<not> inert l) ls)"
proof (induction ls arbitrary: e n)
  case (Cons l ls)
  show ?case
  proof (cases "inert l")
    case True
    then have "authored_lines a e n (l # ls) = tryb (authored_lines a e n ls) (\<lambda>(e, n, out). Inr (e, n, l # out))"
      by (cases e) (simp_all add: inert_def)
    then show ?thesis using True Cons.IH [of e n] by (auto simp: res_simps)
  next
    case False
    show ?thesis
    proof (cases "task_heading_id l")
      case (Some i)
      then show ?thesis using False Cons.IH [of "Some (bm_get a i)" n] by (auto simp: res_simps)
    next
      case None
      then show ?thesis using False Cons.IH [of None n] Cons.IH [of None "n + 1"]
        by (cases e) (auto simp: inert_def res_simps)
    qed
  qed
qed simp

lemma authored_turn_shape:
  assumes "authored_lines a e n (l # ls) = Inr (e', n', out)"
  obtains e1 n1 l1 out1 where "out = l1 # out1" and "authored_lines a e1 n1 ls = Inr (e', n', out1)"
    and "\<And>ms. authored_lines a e n (l1 # ms) = tryb (authored_lines a e1 n1 ms) (\<lambda>(e, n, out). Inr (e, n, l1 # out))"
proof -
  have s: "task_heading_id (state_line s) = None \<and> starts_with (state_line s) ''**State:**''" for s
    using state_line_starts [of s] state_line_no_heading [OF starts_with_field] by blast
  consider i where "task_heading_id l = Some i" "e = None" | "task_heading_id l = None" "e = None"
    | st where "task_heading_id l = None" "e = Some st" "\<not> starts_with l ''**State:**''"
    | st where "task_heading_id l = None" "e = Some st" "starts_with l ''**State:**''"
    using assms by (cases e; cases "task_heading_id l") auto
  then show thesis
  proof cases
    case 1
    then show thesis using assms that [of l _ "Some (bm_get a i)" n] by (auto simp: res_simps)
  next
    case 2
    then show thesis using assms that [of l _ None n] by (auto simp: res_simps)
  next
    case 3
    then show thesis using assms that [of l _ e n] by (auto simp: res_simps)
  next
    case 4
    then show thesis using assms s that [of "case st of Some s \<Rightarrow> state_line s | None \<Rightarrow> l" _ None "n + 1"]
      by (cases st) (auto simp: res_simps)
  qed
qed

lemma authored_again:
  "authored_lines a e n ls = Inr (e', n', out) \<Longrightarrow> authored_lines a e n out = Inr (e', n', out)"
proof (induction ls arbitrary: e n out)
  case (Cons l ls)
  from Cons.prems obtain e1 n1 l1 out1 where t: "out = l1 # out1" "authored_lines a e1 n1 ls = Inr (e', n', out1)"
    "\<And>ms. authored_lines a e n (l1 # ms) = tryb (authored_lines a e1 n1 ms) (\<lambda>(e, n, out). Inr (e, n, l1 # out))"
    by (rule authored_turn_shape) blast
  show ?case unfolding t(1) t(3) using Cons.IH [OF t(2)] by simp
qed simp

lemma rejoined_filter:
  assumes "clean_lines ls" and "\<not> P []"
  shows "filter P (lines (rejoined raw ls)) = filter P ls"
proof -
  have "filter P ls = filter P (butlast ls)" if "ls \<noteq> []" "last ls = []"
    using that assms(2) append_butlast_last_id [of ls] by (metis append.right_neutral filter.simps filter_append)
  then show ?thesis using assms by (auto simp: rejoined_lines)
qed

lemma rejoined_set:
  assumes "clean_lines ls" and "l \<in> set (lines (rejoined raw ls))"
  shows "l = [] \<or> l \<in> set ls"
  using assms by (auto simp: rejoined_lines dest: in_set_butlastD split: if_splits)

lemma join_chars: "c \<in> set (join [d] ls) \<Longrightarrow> c = d \<or> (\<exists>l\<in>set ls. c \<in> set l)"
  by (induction ls rule: induct_list012) auto

lemma rejoined_no_return: "clean_lines ls \<Longrightarrow> return_char \<notin> set (rejoined raw ls)"
  using join_chars [of return_char newline_char ls] by (auto simp: rejoined_def clean_lines_def)

lemma strip_turn_keeps:
  "\<not> is_result_line l \<Longrightarrow> \<exists>h1. strip_result_turn (\<lambda>_. True) (h0, res) l = (h1, res @ [l])"
  by (cases "task_heading_id l") (simp_all add: strip_result_turn_def is_result_line_def)

lemma strip_result_fold:
  "\<exists>h. foldl (strip_result_turn (\<lambda>_. True)) (h0, res) ls = (h, out) \<Longrightarrow>
   filter (\<lambda>l. \<not> inert l) out = filter (\<lambda>l. \<not> inert l) res @ filter (\<lambda>l. \<not> inert l) ls \<and>
   (\<forall>l\<in>set out. l \<in> set res \<or> l \<in> set ls \<and> \<not> is_result_line l)"
proof (induction ls arbitrary: h0 res)
  case (Cons l ls)
  have drop_blank: "filter (\<lambda>l. \<not> inert l) (butlast res) = filter (\<lambda>l. \<not> inert l) res"
    if "res \<noteq> []" "trim (last res) = []"
  proof -
    have "filter (\<lambda>l. \<not> inert l) [last res] = []" using inert_lines(1) [OF that(2)] by simp
    then show ?thesis using append_butlast_last_id [OF that(1)] by (metis append.right_neutral filter_append)
  qed
  show ?case
  proof (cases "is_result_line l")
    case True
    then have turn: "strip_result_turn (\<lambda>_. True) (h0, res) l =
        (h0, if res \<noteq> [] \<and> trim (last res) = [] then butlast res else res)"
      by (simp add: strip_result_turn_def is_result_line_def)
    show ?thesis
      using Cons.IH [of h0 "if res \<noteq> [] \<and> trim (last res) = [] then butlast res else res"] Cons.prems True drop_blank inert_lines(3)
      by (auto simp: turn dest: in_set_butlastD split: if_splits)
  next
    case False
    then obtain h1 where turn: "strip_result_turn (\<lambda>_. True) (h0, res) l = (h1, res @ [l])"
      using strip_turn_keeps by blast
    show ?thesis using Cons.IH [of h1 "res @ [l]"] Cons.prems False by (auto simp: turn)
  qed
qed simp

lemma strip_result_none:
  "\<forall>l\<in>set ls. \<not> is_result_line l \<Longrightarrow> \<exists>h. foldl (strip_result_turn (\<lambda>_. True)) (h0, res) ls = (h, res @ ls)"
proof (induction ls arbitrary: h0 res)
  case (Cons l ls)
  from Cons.prems have "\<not> is_result_line l" by simp
  from strip_turn_keeps [OF this] obtain h1 where "strip_result_turn (\<lambda>_. True) (h0, res) l = (h1, res @ [l])" by blast
  then show ?case using Cons.IH [of h1 "res @ [l]"] Cons.prems by simp
qed simp

lemma authored_set:
  "authored_lines a e n ls = Inr (e', n', out) \<Longrightarrow> (\<forall>s. e = Some (Some s) \<longrightarrow> s \<in> snd ` set a) \<Longrightarrow> l \<in> set out \<Longrightarrow>
   l \<in> set ls \<or> (\<exists>s\<in>snd ` set a. l = state_line s)"
proof (induction ls arbitrary: e n out)
  case (Cons x ls)
  have got: "s \<in> snd ` set a" if "bm_get a i = Some s" for i s using that by (force dest: map_of_SomeD)
  have step: "?case" if "authored_lines a e1 n1 ls = Inr (e', n', out1)" "\<forall>s. e1 = Some (Some s) \<longrightarrow> s \<in> snd ` set a"
    "out = x1 # out1" "x1 = x \<or> (\<exists>s\<in>snd ` set a. x1 = state_line s)" for e1 n1 out1 x1
    using Cons.IH [OF that(1,2)] that(3,4) Cons.prems(3) by auto
  consider i where "task_heading_id x = Some i" "e = None" | "task_heading_id x = None" "e = None"
    | st where "task_heading_id x = None" "e = Some st" "\<not> starts_with x ''**State:**''"
    | st where "task_heading_id x = None" "e = Some st" "starts_with x ''**State:**''"
    using Cons.prems(1) by (cases e; cases "task_heading_id x") auto
  then show ?case
  proof cases
    case 1
    then obtain out1 where "authored_lines a (Some (bm_get a i)) n ls = Inr (e', n', out1)" "out = x # out1"
      using Cons.prems(1) by (auto simp: res_simps)
    then show ?thesis using got step [of "Some (bm_get a i)" n out1 x] by simp
  next
    case 2
    then obtain out1 where "authored_lines a None n ls = Inr (e', n', out1)" "out = x # out1"
      using Cons.prems(1) by (auto simp: res_simps)
    then show ?thesis using step [of None n out1 x] by simp
  next
    case 3
    then obtain out1 where "authored_lines a e n ls = Inr (e', n', out1)" "out = x # out1"
      using Cons.prems(1) by (auto simp: res_simps)
    then show ?thesis using step [of e n out1 x] Cons.prems(2) by simp
  next
    case 4
    then obtain out1 where "authored_lines a None (n + 1) ls = Inr (e', n', out1)"
      "out = (case st of Some s \<Rightarrow> state_line s | None \<Rightarrow> x) # out1"
      using Cons.prems(1) by (auto simp: res_simps)
    moreover have "(case st of Some s \<Rightarrow> state_line s | None \<Rightarrow> x) = x \<or>
        (\<exists>s\<in>snd ` set a. (case st of Some s \<Rightarrow> state_line s | None \<Rightarrow> x) = state_line s)"
      using Cons.prems(2) 4(2) by (cases st) auto
    ultimately show ?thesis by (intro step) auto
  qed
qed simp

text \<open>A line no pass of a reset looks at, and lines every pass leaves as they are.\<close>

definition plain_line :: "string \<Rightarrow> bool" where
  "plain_line l \<longleftrightarrow> inert l \<and> \<not> is_result_line l \<and> \<not> starts_with l ''**Assignee:**''"

definition settled_lines :: "(string, string) bmap \<Rightarrow> string list \<Rightarrow> bool" where
  "settled_lines authored ls \<longleftrightarrow>
     (\<exists>n. n \<noteq> 0 \<and> authored_lines authored None 0 ls = Inr (None, n, ls)) \<and>
     (\<forall>l\<in>set ls. \<not> is_result_line l \<and> \<not> starts_with l ''**Assignee:**'')"

lemma plain_rules: "plain_line ''---''" "plain_line []"
  by code_simp+

lemma settled_passes:
  assumes "settled_lines authored (lines text)" and "return_char \<notin> set text"
  shows "rewrite_states_to_authored text authored = Inr text" and "strip_result_links text = text"
    and "strip_assignee_lines text = text"
proof -
  from assms(1) obtain n where "n \<noteq> 0" "authored_lines authored None 0 (lines text) = Inr (None, n, lines text)"
    and left: "\<forall>l\<in>set (lines text). \<not> is_result_line l \<and> \<not> starts_with l ''**Assignee:**''"
    by (auto simp: settled_lines_def)
  then show "rewrite_states_to_authored text authored = Inr text"
    using rejoined_self [OF assms(2)] by (simp add: rewrite_states_to_authored_def)
  show "strip_result_links text = text"
    using strip_result_none [of "lines text" None "[]"] left rejoined_self [OF assms(2)]
    by (fastforce simp: strip_result_links_def strip_result_links_under_def)
  have "filter (\<lambda>line. \<not> starts_with line ''**Assignee:**'') (lines text) = lines text"
    using left by (simp add: filter_id_conv)
  then show "strip_assignee_lines text = text"
    using rejoined_self [OF assms(2)] by (simp add: strip_assignee_lines_def)
qed

lemma settled_but_plain:
  assumes "settled_lines authored ls" and "filter (\<lambda>l. \<not> inert l) ls' = filter (\<lambda>l. \<not> inert l) ls"
    and "\<forall>l\<in>set ls'. l \<in> set ls \<or> plain_line l"
  shows "settled_lines authored ls'"
proof -
  from assms(1) obtain n where "n \<noteq> 0" "authored_lines authored None 0 ls = Inr (None, n, ls)"
    by (auto simp: settled_lines_def)
  then have "authored_lines authored None 0 ls' = Inr (None, n, ls')"
    using authored_by_active [of authored None 0 ls None n] authored_by_active [of authored None 0 ls' None n] assms(2) by simp
  with \<open>n \<noteq> 0\<close> show ?thesis using assms(1,3) by (fastforce simp: settled_lines_def plain_line_def)
qed

text \<open>The passes over the text, before the frontmatter, leave settled lines.\<close>

lemma passes_settle:
  assumes "return_char \<notin> set raw"
    and "\<forall>s\<in>snd ` set authored. newline_char \<notin> set s \<and> return_char \<notin> set s"
    and "rewrite_states_to_authored raw authored = Inr text0"
    and "text = strip_assignee_lines (strip_result_links text0)"
  shows "settled_lines authored (lines text) \<and> return_char \<notin> set text"
proof -
  obtain n out where pass: "authored_lines authored None 0 (lines raw) = Inr (None, n, out)" and n: "n \<noteq> 0"
    and text0: "text0 = rejoined raw out"
    using assms(3) by (auto simp: rewrite_states_to_authored_def res_simps split: if_splits)
  have c0: "clean_lines out"
    using authored_set [OF pass, simplified] clean_lines_lines [OF assms(1)] assms(2) format_clean
    unfolding clean_lines_def by blast
  obtain h out1 where fold: "foldl (strip_result_turn (\<lambda>_. True)) (None, []) (lines text0) = (h, out1)" by force
  have text1: "strip_result_links text0 = rejoined text0 out1"
    by (simp add: strip_result_links_def strip_result_links_under_def fold)
  let ?text1 = "rejoined text0 out1" and ?out2 = "filter (\<lambda>line. \<not> starts_with line ''**Assignee:**'') (lines (rejoined text0 out1))"
  have text_eq: "text = rejoined ?text1 ?out2" by (simp add: assms(4) text1 strip_assignee_lines_def)
  have ine: "\<not> (\<not> inert [])" using inert_lines(1) [of "[]"] by (simp add: trim_def trim_end_def trim_start_def)
  have f1: "filter (\<lambda>l. \<not> inert l) out1 = filter (\<lambda>l. \<not> inert l) (lines text0)"
    and s1: "\<forall>l\<in>set out1. l \<in> set (lines text0) \<and> \<not> is_result_line l"
    using strip_result_fold [of None "[]" "lines text0" out1] fold by auto
  have c1: "clean_lines out1"
    using s1 rejoined_set [OF c0] c0 unfolding text0 clean_lines_def by fastforce
  have c2: "clean_lines ?out2"
    using rejoined_set [OF c1] c1 unfolding clean_lines_def by fastforce
  have active: "filter (\<lambda>l. \<not> inert l) (lines text) = filter (\<lambda>l. \<not> inert l) out"
  proof -
    have "filter (\<lambda>l. \<not> inert l) ?out2 = filter (\<lambda>l. \<not> inert l) (lines ?text1)"
      using inert_lines(2) by (simp add: filter_filter) (rule filter_cong, auto)
    then show ?thesis
      using rejoined_filter [OF c0, of "\<lambda>l. \<not> inert l" raw] rejoined_filter [OF c1, of "\<lambda>l. \<not> inert l" text0]
        rejoined_filter [OF c2, of "\<lambda>l. \<not> inert l" ?text1] f1 ine by (simp add: text_eq text0)
  qed
  have no_return: "return_char \<notin> set text" unfolding text_eq by (rule rejoined_no_return [OF c2])
  have left: "l = [] \<or> l \<in> set out1 \<and> \<not> starts_with l ''**Assignee:**''" if "l \<in> set (lines text)" for l
    using rejoined_set [OF c2, of l ?text1] rejoined_set [OF c1, of l text0] that by (auto simp: text_eq)
  have empty: "\<not> starts_with [] ''**Assignee:**''" "\<not> is_result_line []"
    by (simp_all add: starts_with_def is_result_line_def trim_start_def)
  have "authored_lines authored None 0 (lines text) = Inr (None, n, lines text)"
    using authored_again [OF pass] active authored_by_active [of authored None 0 out None n]
      authored_by_active [of authored None 0 "lines text" None n] by simp
  moreover have "\<forall>l\<in>set (lines text). \<not> is_result_line l \<and> \<not> starts_with l ''**Assignee:**''"
    using left s1 empty by blast
  ultimately show ?thesis using n no_return by (auto simp: settled_lines_def)
qed

text \<open>Over the document it made, a rewrite of the frontmatter with the same metadata changes nothing.\<close>

lemma frontmatter_again:
  assumes "return_char \<notin> set raw" and "render md = Inr rendered" and "return_char \<notin> set (rendered_yaml rendered)"
    and "\<forall>l\<in>set (lines (rendered_yaml rendered)). trim l \<noteq> ''---''"
    and "find_frontmatter (lines raw) = Some place" and "block_span (lines raw) place = Some (start, stop)"
    and "rewrite_frontmatter render raw md = Inr out"
  shows "lines out = take start (lines raw) @ ''---'' # lines (rendered_yaml rendered) @ [''---'', []] @ drop stop (lines raw) \<and>
    return_char \<notin> set out \<and> rewrite_frontmatter render out md = Inr out"
proof -
  let ?ls = "lines raw" and ?yaml = "lines (rendered_yaml rendered)"
  let ?new = "take start ?ls @ ''---'' # ?yaml @ [''---'', []] @ drop stop ?ls"
  note found = block_span_found [OF assms(5,6)]
  have out: "out = rejoined (raw @ [newline_char]) ?new"
    using assms(2,7) by (simp add: rewrite_frontmatter_by_span assms(5,6))
  have clean: "clean_lines ?new"
    using clean_lines_lines [OF assms(1)] clean_lines_lines [OF assms(3)]
    by (auto simp: clean_lines_def dest: in_set_takeD in_set_dropD)
  then have lines_out: "lines out = ?new" by (simp add: out rejoined_lines)
  have len: "length (take start ?ls) = start" using found [of "[]"] by auto
  have all: "takeWhile (\<lambda>l. trim l \<noteq> ''---'') ?yaml = ?yaml" using assms(4) by (simp only: takeWhile_eq_all_conv)
  have rule: "find_trimmed_rule (start + 1) (?yaml @ [''---'', []] @ drop stop ?ls) = Some (start + 1 + length ?yaml)"
    using find_rule_after [of "start + 1" ?yaml "[[]] @ drop stop ?ls"] unfolding all by simp
  define place' where "place' = \<lparr>fp_header = fp_header place,
    fp_block = Some \<lparr>fb_open = start, fb_close = Some (start + 1 + length ?yaml)\<rparr>\<rparr>"
  have place': "find_frontmatter ?new = Some place'"
    using found [of "?yaml @ [''---'', []] @ drop stop ?ls"] rule by (simp add: place'_def)
  have below: "drop (start + 2 + length ?yaml) ?new = [] # drop stop ?ls"
  proof -
    have "?new = (take start ?ls @ ''---'' # ?yaml @ [''---'']) @ [] # drop stop ?ls" by simp
    moreover have "length (take start ?ls @ ''---'' # ?yaml @ [''---'']) = start + 2 + length ?yaml" using len by simp
    ultimately show ?thesis by (metis append_eq_conv_conj)
  qed
  have "drop stop ?ls = [] \<or> trim (hd (drop stop ?ls)) \<noteq> []"
    using block_span_replaces [OF assms(5,6)] by (simp add: replaced_part_def)
  then have "takeWhile (\<lambda>l. trim l = []) (drop stop ?ls) = []" by (cases "drop stop ?ls") auto
  moreover have "trim [] = []" by (simp add: trim_def trim_start_def trim_end_def)
  ultimately have "next_content ?new (start + 2 + length ?yaml) = start + 3 + length ?yaml"
    unfolding next_content_def below by simp
  then have span': "block_span ?new place' = Some (start, start + 3 + length ?yaml)"
    by (simp add: block_span_def place'_def numeral_eq_Suc)
  have one_more: "drop (start + 3 + k) xs = drop 1 (drop (start + 2 + k) xs)" for k and xs :: "string list"
    by (simp add: numeral_eq_Suc)
  have rest: "drop (start + 3 + length ?yaml) ?new = drop stop ?ls" unfolding one_more below by simp
  have "take start ?new = take start ?ls" using len by simp
  then have "rewrite_frontmatter render out md = Inr (rejoined (out @ [newline_char]) ?new)"
    unfolding rewrite_frontmatter_by_span lines_out place' option.case span'
    using assms(2) rest by simp
  moreover have "ends_with (xs @ [newline_char, newline_char]) [newline_char]" for xs
    by (simp add: ends_with_def starts_with_def)
  ultimately have "rewrite_frontmatter render out md = Inr out" by (simp add: out rejoined_def ends_with_snoc)
  moreover have "return_char \<notin> set out" unfolding out by (rule rejoined_no_return [OF clean])
  ultimately show ?thesis using lines_out by simp
qed

text \<open>A text whose frontmatter no pass looks into.\<close>

definition plain_frontmatter :: "string \<Rightarrow> bool" where
  "plain_frontmatter text \<longleftrightarrow>
     (\<forall>place start stop. find_frontmatter (lines text) = Some place \<longrightarrow> block_span (lines text) place = Some (start, stop) \<longrightarrow>
        (\<forall>l\<in>set (take (stop - start) (drop start (lines text))). plain_line l))"

definition renders_plainly :: "('m \<Rightarrow> string + string) \<Rightarrow> 'm \<Rightarrow> bool" where
  "renders_plainly render md \<longleftrightarrow> (\<forall>rendered. render md = Inr rendered \<longrightarrow> return_char \<notin> set (rendered_yaml rendered) \<and>
     (\<forall>l\<in>set (lines (rendered_yaml rendered)). plain_line l \<and> trim l \<noteq> ''---''))"

lemma frontmatter_keeps_settled:
  assumes "settled_lines authored (lines raw)" and "return_char \<notin> set raw" and "plain_frontmatter raw"
    and "renders_plainly render md" and "rewrite_frontmatter render raw md = Inr out"
  shows "settled_lines authored (lines out) \<and> return_char \<notin> set out \<and> rewrite_frontmatter render out md = Inr out"
proof -
  obtain place start stop rendered where place: "find_frontmatter (lines raw) = Some place"
    and span: "block_span (lines raw) place = Some (start, stop)" and rendered: "render md = Inr rendered"
    using assms(5) by (auto simp: rewrite_frontmatter_by_span res_simps split: option.splits)
  from assms(4) rendered have yaml: "return_char \<notin> set (rendered_yaml rendered)"
    "\<forall>l\<in>set (lines (rendered_yaml rendered)). trim l \<noteq> ''---''" "\<forall>l\<in>set (lines (rendered_yaml rendered)). plain_line l"
    by (auto simp: renders_plainly_def)
  note again = frontmatter_again [OF assms(2) rendered yaml(1,2) place span assms(5)]
  let ?old = "take (stop - start) (drop start (lines raw))"
  have old: "\<forall>l\<in>set ?old. plain_line l" using assms(3) place span by (auto simp: plain_frontmatter_def)
  have "start \<le> stop" using block_span_found [OF place span, of "[]"] by simp
  then have raw: "lines raw = take start (lines raw) @ ?old @ drop stop (lines raw)"
    by (metis append.assoc append_take_drop_id le_add_diff_inverse take_add)
  have none: "filter (\<lambda>l. \<not> inert l) ls = []" if "\<forall>l\<in>set ls. plain_line l" for ls
    using that by (simp add: plain_line_def filter_empty_conv)
  have "filter (\<lambda>l. \<not> inert l) (lines raw) =
      filter (\<lambda>l. \<not> inert l) (take start (lines raw)) @ filter (\<lambda>l. \<not> inert l) (drop stop (lines raw))"
    by (subst raw) (simp only: filter_append none [OF old] append_Nil)
  moreover have "filter (\<lambda>l. \<not> inert l) (lines out) =
      filter (\<lambda>l. \<not> inert l) (take start (lines raw)) @ filter (\<lambda>l. \<not> inert l) (drop stop (lines raw))"
    using again plain_rules none [OF yaml(3)] by (simp add: plain_line_def)
  ultimately have "settled_lines authored (lines out)"
    using again yaml(3) plain_rules
    by (intro settled_but_plain [OF assms(1)]) (auto dest: in_set_takeD in_set_dropD)
  then show ?thesis using again by simp
qed

text \<open>C40: In a document without carriage returns a reset leaves alone the text it wrote: where the parser
  reads that text as the plan with its metadata cleared, a second reset to the same states returns it
  byte for byte, each pass over the state lines, the result links and the claims and the writing of
  the frontmatter changing nothing. The frontmatter is one no pass looks into: no line of it, as found
  or as rendered, reads as a task's heading, a state line, a result link or a claim, and no rendered
  line as a rule.\<close>

theorem reset_text_is_settled:
  assumes "yaml_exact_laws Y" and "return_char \<notin> set raw"
    and "\<forall>s\<in>snd ` set authored. newline_char \<notin> set s \<and> return_char \<notin> set s"
    and "rewrite_states_to_authored raw authored = Inr text0"
    and "text1 = strip_assignee_lines (strip_result_links text0)" and "plain_frontmatter text1"
    and "\<forall>md md'. parse text1 = Some md \<longrightarrow> clear_runtime_task_metadata Y md = Some md' \<longrightarrow> renders_plainly render md'"
    and "reset_file_text Y parse render raw authored = Inr text"
    and "parse text = map_option (clear_runtime_task_metadata Y) (parse text1)"
  shows "reset_file_text Y parse render text authored = Inr text \<and>
    rewrite_states_to_authored text authored = Inr text \<and> strip_result_links text = text \<and>
    strip_assignee_lines text = text"
proof -
  from passes_settle [OF assms(2-5)] have settled1: "settled_lines authored (lines text1)" "return_char \<notin> set text1" by auto
  have run: "reset_file_text Y parse render raw authored = (case parse text1 of
      Some md \<Rightarrow> (case clear_runtime_task_metadata Y md of
         Some metadata \<Rightarrow> rewrite_frontmatter render text1 metadata | None \<Rightarrow> Inr text1) | None \<Rightarrow> Inr text1)"
    by (simp only: reset_file_text_def assms(4,5) Let_def res_simps)
  have again: "reset_file_text Y parse render text authored = (case parse text of
      Some md \<Rightarrow> (case clear_runtime_task_metadata Y md of
         Some metadata \<Rightarrow> rewrite_frontmatter render text metadata | None \<Rightarrow> Inr text) | None \<Rightarrow> Inr text)"
    if "settled_lines authored (lines text)" "return_char \<notin> set text"
    by (simp only: reset_file_text_def settled_passes [OF that] Let_def res_simps)
  have "settled_lines authored (lines text) \<and> return_char \<notin> set text \<and> reset_file_text Y parse render text authored = Inr text"
  proof (cases "Option.bind (parse text1) (clear_runtime_task_metadata Y)")
    case None
    then have "text = text1" using assms(8) run by (auto split: option.splits)
    moreover from this have "Option.bind (parse text) (clear_runtime_task_metadata Y) = None" using None by simp
    ultimately show ?thesis using settled1 again by (auto split: option.splits)
  next
    case (Some md')
    then obtain md where md: "parse text1 = Some md" "clear_runtime_task_metadata Y md = Some md'"
      by (auto simp: bind_eq_Some_conv)
    then have wrote: "rewrite_frontmatter render text1 md' = Inr text" using assms(8) run by simp
    have plain: "renders_plainly render md'" using assms(7) md by blast
    note done1 = frontmatter_keeps_settled [OF settled1 assms(6) plain wrote]
    moreover have "clear_runtime_task_metadata Y (Some md') = Some md'"
      by (rule yaml_exact_laws.cleared_again [OF assms(1) md(2)])
    ultimately show ?thesis using again assms(9) md by simp
  qed
  then show ?thesis using settled_passes by blast
qed

definition ran_plan :: string where
  "ran_plan = join [newline_char] [''# Rhei: x'', [], ''---'', ''  stateVisits:'', ''title: plan'', ''---'', [],
     ''### Task 1: One'', ''**State:** done'', ''**Assignee:** ann'', ''Body'', [], ''> **Result:** [1](runtime/results/1.md)'', []]"

definition counting_plan :: string where
  "counting_plan = join [newline_char] [''# Rhei: x'', [], ''---'', ''  stateVisits:'', ''title: plan'', ''---'', [],
     ''### Task 1: One'', ''**State:** todo'', ''Body'', []]"

definition reset_plan :: string where
  "reset_plan = join [newline_char] [''# Rhei: x'', [], ''---'', ''title: plan'', ''---'', [],
     ''### Task 1: One'', ''**State:** todo'', ''Body'', []]"

text \<open>A parser and a printer of this one plan: its frontmatter counts visits before the reset.\<close>

definition one_visit :: "(yaml_value \<times> yaml_value) list" where
  "one_visit = [(YString ''metadata'', YMapping [(YString ''tasks'', YMapping
     [(YNumber 1, YMapping [(YString ''stateVisits'', YMapping [(YString ''done'', YNumber 1)])])])]),
    (YString ''title'', YString ''plan'')]"

definition no_visit :: "(yaml_value \<times> yaml_value) list" where
  "no_visit = [(YString ''metadata'', YMapping [(YString ''tasks'', YMapping [(YNumber 1, YMapping [])])]),
    (YString ''title'', YString ''plan'')]"

lemma tidy_ops:
  "ym_get tidy_yaml = map_of" "ym_remove tidy_yaml = (\<lambda>m k. filter (\<lambda>p. fst p \<noteq> k) m)"
  "ym_is_empty tidy_yaml = (\<lambda>m. m = [])" "y_mapping tidy_yaml = YMapping" "y_string tidy_yaml = YString"
  "y_pattern tidy_yaml (YMapping m) = Some m"
  "ym_insert tidy_yaml m k v = (if map_of m k = Some v then m else (k, v) # filter (\<lambda>p. fst p \<noteq> k) m)"
  by (simp_all add: tidy_yaml_def sample_yaml_def)

lemma one_visit_cleared:
  "clear_rhei_written_key tidy_yaml (Some one_visit) ''stateVisits'' = Some no_visit"
  "clear_rhei_written_key tidy_yaml (Some no_visit) key = Some no_visit"
  "drop_empty_task_metadata tidy_yaml no_visit = [(YString ''title'', YString ''plan'')]"
proof -
  have erase: "ym_map_values tidy_yaml (\<lambda>v. case y_pattern tidy_yaml v of Some entry \<Rightarrow>
        y_mapping tidy_yaml (ym_remove tidy_yaml entry (yaml_key tidy_yaml key)) | None \<Rightarrow> v) [(YNumber 1, YMapping m)] =
      [(YNumber 1, YMapping (filter (\<lambda>p. fst p \<noteq> YString key) m))]" for key m
    by (simp add: tidy_yaml_def sample_yaml_def yaml_key_def)
  show "clear_rhei_written_key tidy_yaml (Some one_visit) ''stateVisits'' = Some no_visit"
    "clear_rhei_written_key tidy_yaml (Some no_visit) key = Some no_visit"
    by (simp_all add: clear_rhei_written_key_def change_child_def tidy_ops yaml_key_def one_visit_def no_visit_def erase)
  have "ym_retain tidy_yaml (\<lambda>_ v. \<not> is_empty_entry tidy_yaml v) [(YNumber 1, YMapping [])] = []"
    by (simp add: tidy_yaml_def sample_yaml_def is_empty_entry_def)
  then show "drop_empty_task_metadata tidy_yaml no_visit = [(YString ''title'', YString ''plan'')]"
    by (simp add: drop_empty_task_metadata_def drop_empty_entries_def tidy_ops yaml_key_def no_visit_def)
qed

definition ran_parse :: "string \<Rightarrow> (yaml_value \<times> yaml_value) list option option" where
  "ran_parse text = Some (Some (if ''  stateVisits:'' \<in> set (lines text) then one_visit else [(YString ''title'', YString ''plan'')]))"

definition ran_render :: "(yaml_value \<times> yaml_value) list \<Rightarrow> string + string" where
  "ran_render md = (if md = [(YString ''title'', YString ''plan'')] then Inr (''title: plan'' @ [newline_char]) else Inl ''other'')"

lemma reset_text_is_settled_witness:
  "reset_file_text tidy_yaml ran_parse ran_render ran_plan [(''1'', ''todo'')] = Inr reset_plan \<and>
   reset_file_text tidy_yaml ran_parse ran_render reset_plan [(''1'', ''todo'')] = Inr reset_plan"
proof -
  have pre: "return_char \<notin> set ran_plan" "\<forall>s\<in>snd ` set [(''1'', ''todo'')]. newline_char \<notin> set s \<and> return_char \<notin> set s"
    by code_simp+
  obtain text0 where text0: "rewrite_states_to_authored ran_plan [(''1'', ''todo'')] = Inr text0"
    and text1: "counting_plan = strip_assignee_lines (strip_result_links text0)"
  proof -
    have "(case rewrite_states_to_authored ran_plan [(''1'', ''todo'')] of
        Inr t \<Rightarrow> counting_plan = strip_assignee_lines (strip_result_links t) | Inl _ \<Rightarrow> False)" by code_simp
    then show thesis using that by (auto split: sum.splits)
  qed
  have parsed: "ran_parse counting_plan = Some (Some one_visit)" "ran_parse reset_plan = Some (Some [(YString ''title'', YString ''plan'')])"
    by (simp_all only: ran_parse_def) (code_simp+)
  have cleared: "clear_runtime_task_metadata tidy_yaml (Some one_visit) = Some [(YString ''title'', YString ''plan'')]"
    by (simp add: clear_runtime_task_metadata_def keys_cleared_by_reset_def rhei_written_keys_def one_visit_cleared)
  have "rewrite_frontmatter ran_render counting_plan [(YString ''title'', YString ''plan'')] = Inr reset_plan" by code_simp
  then have first: "reset_file_text tidy_yaml ran_parse ran_render ran_plan [(''1'', ''todo'')] = Inr reset_plan"
    by (simp only: reset_file_text_def text0 text1 [symmetric] res_simps Let_def parsed cleared option.case)
  have place: "find_frontmatter (lines counting_plan) = Some \<lparr>fp_header = 0, fp_block = Some \<lparr>fb_open = 2, fb_close = Some 5\<rparr>\<rparr>"
    "block_span (lines counting_plan) \<lparr>fp_header = 0, fp_block = Some \<lparr>fb_open = 2, fb_close = Some 5\<rparr>\<rparr> = Some (2, 7)"
    "\<forall>l\<in>set (take (7 - 2) (drop 2 (lines counting_plan))). plain_line l"
    by code_simp+
  have plain: "plain_frontmatter counting_plan" using place by (simp add: plain_frontmatter_def)
  have title: "return_char \<notin> set (rendered_yaml (''title: plan'' @ [newline_char]))"
    "\<forall>l\<in>set (lines (rendered_yaml (''title: plan'' @ [newline_char]))). plain_line l \<and> trim l \<noteq> ''---''"
    by code_simp+
  have renders: "renders_plainly ran_render md" for md
    using title by (simp add: renders_plainly_def ran_render_def)
  have "ran_parse reset_plan = map_option (clear_runtime_task_metadata tidy_yaml) (ran_parse counting_plan)"
    by (simp only: parsed cleared option.map)
  with reset_text_is_settled [OF ty.yaml_exact_laws_axioms pre text0 text1 plain, of ran_parse ran_render reset_plan] renders first
  show ?thesis by blast
qed

subsection \<open>Quoted structure\<close>

text \<open>A fenced block is content to every other reader and edit of a plan. A reset takes a heading quoted
  in one for a task whose state line is missing, and refuses the plan; and it takes a result link or
  a claim quoted in one out of the task's description.\<close>

definition quoting_plan :: "string list \<Rightarrow> string" where
  "quoting_plan quoted_lines = join [newline_char] (''# Rhei: x'' # [] # ''## Tasks'' # [] # ''### Task 1: One'' #
     ''**State:** todo'' # ''```'' # quoted_lines @ [''```'', ''### Task 2: Two'', ''**State:** todo'', []])"

theorem reset_misreads_quoted_text:
  "told_states (lines (quoting_plan [''### Task 9: Quoted''])) = [(''1'', ''**State:** todo''), (''2'', ''**State:** todo'')] \<and>
   rewrite_states_to_authored (quoting_plan [''### Task 9: Quoted'']) [] =
     Inl ''could not find **State:** line before the next task header'' \<and>
   strip_assignee_lines (strip_result_links (quoting_plan [''> **Result:** shown'', ''**Assignee:** shown''])) = quoting_plan []"
  by code_simp

end
