(* ===== verification/Spec2Isabelle.thy ===== *)
theory Spec2Isabelle
  imports Ledger_Claims Ledger_History Opening Bounds_Claims Accounts_Claims Moves_Findings
    Supervision_Claims Dependencies_Claims Load_Claims Waits_Claims
    Provider_Claims Reset_Claims Plan_Text_Claims
begin

text \<open>
  Rhei runs agents and programs over a plan: a tree of tasks in Markdown, each in a state of a
  declared state machine. This development models the two parts of it that decide: the budget
  ledger, which says what may be spent, and the plan engine, which says what may run and move; and
  the text the engine's decisions are written to.

  \<^bold>\<open>How the program is put together.\<close> A run (\<open>crates/rhei-cli\<close>) loads the plan and its
  machine, validates both, takes the tasks that are ready, asks the ledger for a reservation
  per spawn, spawns, records the start, applies the transition the agent ended in and settles
  what was spent. The machine, the plan and the ledger live in \<open>crates/rhei-core\<close>; the ready set,
  the moves and the supervision in \<open>crates/rhei-cli/src/cli\<close>. The ledger's state is two files (a journal and
  a witness) whose receipts are replayed; the engine's state is the plan itself: state lines and
  the YAML frontmatter. The two meet where an applied edge is charged to its ticket.

  \<^bold>\<open>Shared ground.\<close> \<open>Prelude\<close>: Rust's results and the \<open>?\<close> operator (\<open>tryb\<close>), loops with an early
  return (\<open>try_fold\<close>), checked 64-bit arithmetic, the string functions of the standard library,
  and four locales for loops (an invariant, a monotone relation, a tally, a bounded tally) that
  later theories interpret once per loop of the source. \<open>Btree\<close>: \<open>BTreeMap\<close> as a sorted
  association list with the locale \<open>ordered_map\<close>. \<open>Libs\<close>, \<open>Line_Codec\<close>: \<open>serde_json\<close>, \<open>uuid\<close> and
  \<open>sha2\<close> as parameters with the laws their documentation states (\<open>json_laws\<close>, \<open>codec_laws\<close>), each
  interpreted by a concrete model. \<open>Plan\<close>: \<open>serde_yaml\<close> in the same way (\<open>yaml_laws\<close>). \<open>Samples\<close>:
  the account the examples run on.

  \<^bold>\<open>The budget ledger\<close> (\<open>crates/rhei-core/src/budget\<close>).
    \<^item> \<open>Money\<close>, \<open>Budget_Types\<close>, \<open>Unpriced\<close>: \<open>money.rs\<close>, \<open>types.rs\<close>, \<open>unpriced.rs\<close>.
    \<^item> \<open>Replay\<close>: \<open>replay.rs\<close>. The record \<open>state\<close> is \<open>State\<close>, \<open>reservation\<close> is \<open>Reservation\<close>; one
      function per receipt kind. \<open>Replay_Laws\<close> and \<open>Replay_Inv\<close> prove that a reservation only evolves
      and the invariant of the derived state, \<open>Counts\<close> that every number read off it is a sum that
      fits or a refusal.
    \<^item> \<open>Files\<close>, \<open>Journal\<close>, \<open>Journal_Laws\<close>: \<open>append.rs\<close>, \<open>authority.rs\<close>, \<open>journal.rs\<close>, \<open>window.rs\<close>.
      Failures of the file system are arguments, so a claim about a crash ranges over all of them.
    \<^item> \<open>Identity\<close>, \<open>Admission\<close>, \<open>Admission_Laws\<close>, \<open>Agreement\<close>, \<open>Effects\<close>: \<open>identity.rs\<close>,
      \<open>admission.rs\<close>, \<open>ancestry.rs\<close>; inspection and mutation agree, and what each later receipt moves.
    \<^item> \<open>Diagnosis\<close>, \<open>Classify\<close>, \<open>Recovery\<close>, \<open>Opening\<close>, \<open>Platform\<close>: \<open>diagnosis.rs\<close>, \<open>classify.rs\<close>, the
      opening of both files, \<open>platform.rs\<close>; what damage reads as and that the printed remedy works.
    \<^item> \<open>Bounds\<close>: \<open>bounds.rs\<close>, \<open>events.rs\<close>; \<open>Roots\<close>, \<open>Races\<close>, \<open>Accounts\<close>: \<open>roots.rs\<close>, \<open>account.rs\<close>,
      with the interleavings of several processes as a step relation.
    \<^item> \<open>Ledger_Claims\<close>, \<open>Ledger_History\<close>, \<open>Bounds_Claims\<close>, \<open>Accounts_Claims\<close>: the properties.

  \<^bold>\<open>The plan engine\<close> (\<open>crates/rhei-core/src/state_machine/validator\<close>, \<open>ast.rs\<close>,
  \<open>crates/rhei-cli/src/cli\<close>).
    \<^item> \<open>Machine\<close>: \<open>state_defs.rs\<close>, \<open>ast.rs\<close>, \<open>validator_entry.rs\<close>; a declared machine as a record, an
      \<open>IndexMap\<close> as the list of its entries. \<open>Dead_Ends\<close>, \<open>Stranded\<close>:
      \<open>state_machine_dead_ends.rs\<close>, \<open>transition_sources.rs\<close>. \<open>Load_Checks\<close>:
      \<open>state_machine_profiles.rs\<close>, \<open>state_machine_runtime_validation.rs\<close>, \<open>callback_bound.rs\<close>; what a
      machine is refused for and so what one that loads guarantees (\<open>Load_Claims\<close>).
    \<^item> \<open>Plan\<close>: the task tree and its metadata. \<open>Selection\<close>: \<open>metadata_conditions.rs\<close>,
      \<open>loop_budget.rs\<close>, \<open>ready_auto_advance.rs\<close>; which edge a ticket takes. \<open>Moves\<close>:
      \<open>metadata_rewrite.rs\<close>, \<open>system_transition_execution.rs\<close>; what an applied edge checks and writes.
      \<open>Moves_Laws\<close> and \<open>Moves_Claims\<close> carry the visit budgets over any sequence of moves.
    \<^item> \<open>Supervision\<close>: \<open>subtree_supervision.rs\<close> and its owner and barrier; the block a move writes.
      \<open>Ready\<close>: the verdict of the barrier, \<open>ready_transition.rs\<close> and the views of the ready set.
      \<open>Ready_Claims\<close> and \<open>Supervision_Claims\<close> show who may run beside whom.
    \<^item> \<open>Plan_Checks\<close>, \<open>Plan_Laws\<close>: \<open>validator_tree_coherence.rs\<close>, \<open>validator_prior_states.rs\<close>;
      a check is the list of remarks it pushes. \<open>Cycles\<close>, \<open>Cycles_Laws\<close>, \<open>Cycles_Claims\<close>:
      \<open>validator_links.rs\<close>, Kahn's algorithm and the cycles it leaves. \<open>Dependencies\<close>,
      \<open>Suggestions\<close>, \<open>Dependencies_Claims\<close>: \<open>validator_dependencies.rs\<close>.
    \<^item> \<open>Waits\<close>, \<open>Waits_Claims\<close>: \<open>run_pass_remaining_work.rs\<close>; whether what is left of a run waits on purpose
      or is stuck. \<open>Provider_Waits\<close>, \<open>Provider_Claims\<close>: the waits a provider asked for.

  \<^bold>\<open>The plan's text and its history\<close> (\<open>fence.rs\<close>, \<open>header.rs\<close>, \<open>transition_history.rs\<close>,
  \<open>crates/rhei-cli/src/cli\<close>).
    \<^item> \<open>Text_Lines\<close>: Rust's lines, rows and fields of a text, and what joins read back.
    \<^item> \<open>Transition_History\<close>, \<open>History_Claims\<close>: \<open>transition_history.rs\<close>, \<open>transition_ledger.rs\<close>; the rows of the
      log, forced pairs included, its one reader and its pruning. The libraries of a forced pair are the
      locale \<open>force_laws\<close>.
    \<^item> \<open>Reset\<close>, \<open>Reset_Claims\<close>: \<open>metadata.rs\<close>, \<open>reset_authored_states.rs\<close>; the keys a reset clears and the states it
      restores, for names the ledger's rows can carry. \<open>yaml_exact_laws\<close> extends \<open>yaml_laws\<close> by what the
      mappings leave as they are, so clearing twice is clearing once.
    \<^item> \<open>Plan_Text\<close>, \<open>Plan_Text_Claims\<close>: \<open>task_metadata_lines.rs\<close>, \<open>metadata_rewrite.rs\<close>, \<open>complete_reset_rewrites.rs\<close>;
      the edits of a plan's source line by line, where its frontmatter is and what ends it, and a reset's
      text with its frontmatter, which a second reset returns as it is.

  \<^bold>\<open>How the engine's theories lean on one another.\<close> What validation refuses is what the engine
  relies on: ids without a sibling remark name one task each, which the ready set's index needs;
  priors without a cycle leave open work ready or held back for a named reason; a machine that
  loads has a profile for every node, from whose states a final one is reached along edges the
  engine does select; and a budget that loads is one the moves keep.

  \<^bold>\<open>Widths, order and termination.\<close> Counters, amounts and visits are \<open>u64\<close> words and level
  offsets \<open>u8\<close>; an addition the source checks is \<open>checked_add\<close>, one it saturates saturates. Lengths of
  lists are natural numbers. A \<open>HashMap\<close> is the list of its entries in some order of iteration,
  which is an argument where it could show; the circular check is proved not to depend on it. Every loop
  is a total function: structural where it can be, else with a measure (the states not yet
  visited, the edges not yet followed, the length of an id, the text left). No fuel is used.

  \<^bold>\<open>What is not modelled.\<close> Parsing (Markdown, YAML, JSON) and printing of whole documents;
  the command line, the terminal interface, the visualiser, templates, snapshots, tooling and metrics; spawning
  and waiting for processes, callbacks, lock files, artifacts and result files; the node
  bindings (\<open>crates/rhei-napi\<close>). They are input and output around the decisions above. What the
  decisions read from them is a parameter: the record \<open>world\<close> (canonical paths, tickets' content), \<open>host\<close>,
  \<open>open_env\<close>, \<open>faults\<close>, and \<open>outlook\<close> (input artifacts found, spent poll bounds, the instant of the reading).
  Of a transition's call, locks, results, artifacts and the budget charge are left out of
  \<open>decide_move\<close>; of a machine's load, the checks of templates, snapshots, tooling, metrics, models
  and programs are the parameter \<open>others\<close>. Text is bytes, one character each; floating-point amounts in settings and
  the Windows spelling of extended paths are left out.
\<close>

end
